(* ===== verification/Prelude.thy ===== *)
theory Prelude
  imports Main "HOL-Library.Char_ord" "HOL-Library.List_Lexorder" "HOL-Library.Finite_Map"
begin

text \<open>
  Shared vocabulary of the development: the errors the Python code raises, results that may
  be errors, Python strings and dictionaries.

  \<^item> A Python \<open>str\<close> is a \<open>string\<close>, a list of characters; a character stands for one of the
    code points U+0000 to U+00FF.  Strings are ordered lexicographically by code point, which is
    what \<open>sorted\<close> uses.
  \<^item> A function that may raise returns \<open>exn + 'a\<close>: \<open>Inl\<close> is the exception (its class, the
    message text is dropped), \<open>Inr\<close> the returned value.
  \<^item> A \<open>dict\<close> whose order is irrelevant is a finite map \<open>('k, 'v) fmap\<close>; \<open>sorted(d)\<close> is
    \<open>sorted_keys d\<close>.
\<close>

named_theorems res_simps \<open>simplification of results that may be errors\<close>
named_theorems pystr \<open>facts about Python string operations\<close>

subsection \<open>Errors and results\<close>

datatype exn =
    SpecValidationError
  | ValueError
  | AssertionError
  | AppError nat string \<comment> \<open>status code and code of an \<open>AppError\<close> subclass\<close>
  | InvalidCommandError
  | StackHostError
  | ExecutorError string
  | MultipleResultsFound
  | TenantOperationError
  | CommandNotFoundError
  | SystemdUserError string
  | CaddyError string
  | IndexError
  | TypeError
  | KeyError
  | HTTPError
  | StructError
  | ImageResolutionError
  | IntegrityError
  | RuntimeError
  | SecretDecryptionError
  | AttributeError
  | NoResultFound

type_synonym 'a res = "exn + 'a"

definition bind_res :: "'e + 'a \<Rightarrow> ('a \<Rightarrow> 'e + 'b) \<Rightarrow> 'e + 'b" where
  "bind_res m f = (case m of Inl e \<Rightarrow> Inl e | Inr x \<Rightarrow> f x)"

definition guard :: "bool \<Rightarrow> 'e \<Rightarrow> 'e + unit" where
  "guard b e = (if b then Inr () else Inl e)"

text \<open>A \<open>for\<close> loop that only checks: the first failing element raises.\<close>

fun check_each :: "('a \<Rightarrow> 'e + unit) \<Rightarrow> 'a list \<Rightarrow> 'e + unit" where
  "check_each f [] = Inr ()"
| "check_each f (x # xs) = bind_res (f x) (\<lambda>_. check_each f xs)"

text \<open>A comprehension whose elements may raise.\<close>

fun map_res :: "('a \<Rightarrow> 'e + 'b) \<Rightarrow> 'a list \<Rightarrow> 'e + 'b list" where
  "map_res f [] = Inr []"
| "map_res f (x # xs) = bind_res (f x) (\<lambda>y. bind_res (map_res f xs) (\<lambda>ys. Inr (y # ys)))"

lemma bind_res_simps [simp, res_simps]:
  "bind_res (Inl e) f = Inl e"
  "bind_res (Inr x) f = f x"
  by (simp_all add: bind_res_def)

lemma bind_res_eq_Inr [res_simps]:
  "bind_res m f = Inr y \<longleftrightarrow> (\<exists>x. m = Inr x \<and> f x = Inr y)"
  by (cases m) auto

lemma bind_res_eq_Inl [res_simps]:
  "bind_res m f = Inl e \<longleftrightarrow> m = Inl e \<or> (\<exists>x. m = Inr x \<and> f x = Inl e)"
  by (cases m) auto

lemma guard_eq_Inr [simp, res_simps]: "guard b e = Inr u \<longleftrightarrow> b"
  by (auto simp: guard_def)

lemma guard_eq_Inl [simp, res_simps]: "guard b e = Inl e' \<longleftrightarrow> \<not> b \<and> e' = e"
  by (auto simp: guard_def)

lemma check_each_Inr [res_simps]: "check_each f xs = Inr u \<longleftrightarrow> (\<forall>x\<in>set xs. f x = Inr ())"
  by (induction xs) (auto simp: bind_res_eq_Inr)

lemma check_each_Inl:
  "check_each f xs = Inl e \<Longrightarrow> \<exists>x\<in>set xs. f x = Inl e"
  by (induction xs) (auto simp: bind_res_eq_Inl)

lemma map_res_Inr:
  "map_res f xs = Inr ys \<longleftrightarrow> list_all2 (\<lambda>x y. f x = Inr y) xs ys"
proof (induction xs arbitrary: ys)
  case Nil
  then show ?case by auto
next
  case (Cons x xs)
  then show ?case by (cases ys) (auto simp: bind_res_eq_Inr)
qed

lemma map_res_Inl:
  "map_res f xs = Inl e \<Longrightarrow> \<exists>x\<in>set xs. f x = Inl e"
  by (induction xs) (auto simp: bind_res_eq_Inl)

lemma map_res_map: "(\<And>x. x \<in> set xs \<Longrightarrow> f x = Inr (g x)) \<Longrightarrow> map_res f xs = Inr (map g xs)"
  by (induction xs) auto

lemma map_res_det: "map_res f xs = Inr ys \<Longrightarrow> (\<And>x y. f x = Inr y \<Longrightarrow> y = g x) \<Longrightarrow> ys = map g xs"
  by (induction xs arbitrary: ys) (auto simp: bind_res_eq_Inr)

text \<open>A Python string is true when it is not empty; an optional one when it is also not \<open>None\<close>.\<close>

definition truthy :: "string option \<Rightarrow> bool" where
  "truthy x \<longleftrightarrow> x \<noteq> None \<and> x \<noteq> Some []"

text \<open>\<open>next(x for x in xs if P(x))\<close>, changed in place.\<close>

fun update_first :: "('a \<Rightarrow> bool) \<Rightarrow> ('a \<Rightarrow> 'a) \<Rightarrow> 'a list \<Rightarrow> 'a list" where
  "update_first P f [] = []"
| "update_first P f (x # xs) = (if P x then f x # xs else x # update_first P f xs)"

text \<open>Stateful code: the state is passed through, also when an exception is raised.\<close>

type_synonym ('w, 'a) act = "'w \<Rightarrow> 'a res \<times> 'w"

definition bind_act :: "('w, 'a) act \<Rightarrow> ('a \<Rightarrow> ('w, 'b) act) \<Rightarrow> ('w, 'b) act" where
  "bind_act m f = (\<lambda>w. case m w of (Inl e, w') \<Rightarrow> (Inl e, w') | (Inr x, w') \<Rightarrow> f x w')"

definition ret_act :: "'a \<Rightarrow> ('w, 'a) act" where "ret_act x = (\<lambda>w. (Inr x, w))"
definition raise_act :: "exn \<Rightarrow> ('w, 'a) act" where "raise_act e = (\<lambda>w. (Inl e, w))"
definition lift_res :: "'a res \<Rightarrow> ('w, 'a) act" where "lift_res r = (\<lambda>w. (r, w))"

text \<open>\<open>P\<close> holds of the state and of every state reached by the action.\<close>

definition keeps :: "('w \<Rightarrow> bool) \<Rightarrow> ('w, 'a) act \<Rightarrow> bool" where
  "keeps P m \<longleftrightarrow> (\<forall>w. P w \<longrightarrow> P (snd (m w)))"

lemma keepsD: "keeps P m \<Longrightarrow> m w = (r, w') \<Longrightarrow> P w \<Longrightarrow> P w'"
  by (metis keeps_def snd_conv)

lemma keeps_bind [intro]: "keeps P m \<Longrightarrow> (\<And>x. keeps P (f x)) \<Longrightarrow> keeps P (bind_act m f)"
  by (fastforce simp: keeps_def bind_act_def split: prod.split sum.split)

lemma keeps_simple [simp, intro]: "keeps P (ret_act x)" "keeps P (raise_act e)" "keeps P (lift_res r)"
  by (simp_all add: keeps_def ret_act_def raise_act_def lift_res_def)

lemma keeps_if [intro]: "(b \<Longrightarrow> keeps P m) \<Longrightarrow> (\<not> b \<Longrightarrow> keeps P m') \<Longrightarrow> keeps P (if b then m else m')"
  by simp

text \<open>\<open>try: m except Exception: pass\<close> and \<open>try: m finally: c\<close>.\<close>

definition swallow :: "('w, 'a) act \<Rightarrow> ('w, unit) act" where
  "swallow m = (\<lambda>w. (Inr (), snd (m w)))"

definition finally_act :: "('w, 'a) act \<Rightarrow> ('w, unit) act \<Rightarrow> ('w, 'a) act" where
  "finally_act m c = (\<lambda>w. let (r, w1) = m w; (r2, w2) = c w1 in (case r2 of Inl e \<Rightarrow> (Inl e, w2) | Inr _ \<Rightarrow> (r, w2)))"

fun each_act :: "('b \<Rightarrow> ('w, unit) act) \<Rightarrow> 'b list \<Rightarrow> ('w, unit) act" where
  "each_act f [] = ret_act ()"
| "each_act f (x # xs) = bind_act (f x) (\<lambda>_. each_act f xs)"

subsection \<open>Dictionaries and sorted key lists\<close>

definition sorted_keys :: "('k::linorder, 'v) fmap \<Rightarrow> 'k list" where
  "sorted_keys m = sorted_list_of_fset (fmdom m)"

definition fmget :: "('k, 'v) fmap \<Rightarrow> 'k \<Rightarrow> 'v \<Rightarrow> 'v" where
  "fmget m k d = (case fmlookup m k of None \<Rightarrow> d | Some v \<Rightarrow> v)"

lemma set_sorted_list_of_fset: "set (sorted_list_of_fset S) = fset S"
  by (rule sorted_list_of_fset_simps(1))

lemma distinct_sorted_list_of_fset [simp]: "distinct (sorted_list_of_fset S)"
  by (simp add: sorted_list_of_fset.rep_eq)

lemma sorted_sorted_list_of_fset [simp]: "sorted (sorted_list_of_fset S)"
  by (simp add: sorted_list_of_fset.rep_eq)

lemma sorted_list_of_fset_empty [simp]: "sorted_list_of_fset {||} = []"
  by (simp add: sorted_list_of_fset.rep_eq)

lemma sorted_list_of_fset_eq_Nil [simp]: "sorted_list_of_fset S = [] \<longleftrightarrow> S = {||}"
proof
  assume "sorted_list_of_fset S = []"
  then have "fset S = {}" by (metis set_sorted_list_of_fset list.set(1))
  then show "S = {||}" by (simp add: fset_eq_iff fset_eqI)
qed simp

lemma sorted_keys_facts [simp]:
  "set (sorted_keys m) = fset (fmdom m)" "distinct (sorted_keys m)" "sorted (sorted_keys m)"
  by (simp_all add: sorted_keys_def)

lemma sorted_list_of_fset_insert_less:
  "(\<And>y. y |\<in>| S \<Longrightarrow> x < y) \<Longrightarrow> sorted_list_of_fset (finsert x S) = x # sorted_list_of_fset S"
proof -
  assume less: "\<And>y. y |\<in>| S \<Longrightarrow> x < y"
  have "x \<notin> fset S" using less by force
  moreover have "insort x (sorted_list_of_set (fset S)) = x # sorted_list_of_set (fset S)"
    by (rule insort_is_Cons) (use less in \<open>auto intro: less_imp_le\<close>)
  ultimately show ?thesis
    by (simp add: sorted_list_of_fset.rep_eq)
qed

lemma sorted_list_of_fset_single [simp]: "sorted_list_of_fset {|x|} = [x]"
  by (simp add: sorted_list_of_fset.rep_eq)

lemma sorted_keys_single [simp]: "sorted_keys (fmupd k v fmempty) = [k]"
  by (simp add: sorted_keys_def)

lemma find_by_key: "distinct (map f xs) \<Longrightarrow> x \<in> set xs \<Longrightarrow> find (\<lambda>y. f y = f x) xs = Some x"
  by (induction xs) (auto simp: image_iff)

lemma fmlookup_of_distinct:
  "distinct (map fst kvs) \<Longrightarrow> (k, v) \<in> set kvs \<Longrightarrow> fmlookup (fmap_of_list kvs) k = Some v"
  by (simp add: fmlookup_of_list)

lemma fmlookup_of_map:
  "fmlookup (fmap_of_list (map (\<lambda>x. (x, f x)) xs)) k = (if k \<in> set xs then Some (f k) else None)"
  by (simp add: fmlookup_of_list map_of_map_restrict restrict_map_def)

text \<open>A dict literal or comprehension: a later pair with the same key wins.\<close>

definition dict_of :: "('k \<times> 'v) list \<Rightarrow> ('k, 'v) fmap" where
  "dict_of kvs = fmap_of_list (rev kvs)"

text \<open>\<open>{k: f(k) for k in S}\<close>.\<close>

definition dict_over :: "'k::linorder fset \<Rightarrow> ('k \<Rightarrow> 'v) \<Rightarrow> ('k, 'v) fmap" where
  "dict_over S f = fmap_of_list (map (\<lambda>k. (k, f k)) (sorted_list_of_fset S))"

lemma fmlookup_dict_of:
  "distinct (map fst kvs) \<Longrightarrow> fmlookup (dict_of kvs) k = map_of kvs k"
proof -
  assume "distinct (map fst kvs)"
  then have "map_of (rev kvs) = map_of kvs"
    by (metis distinct_rev map_of_inject_set rev_map set_rev)
  then show ?thesis by (simp add: dict_of_def fmlookup_of_list)
qed

lemma fmdom_dict_of [simp]: "fmdom (dict_of kvs) = fset_of_list (map fst kvs)"
  by (simp add: dict_of_def fset_of_list_map rev_map [symmetric])

lemma fmlookup_dict_over [simp]:
  "fmlookup (dict_over S f) k = (if k |\<in>| S then Some (f k) else None)"
  by (simp add: dict_over_def fmlookup_of_map)

lemma fmdom_dict_over [simp]: "fmdom (dict_over S f) = S"
  by (rule fset_eqI) (simp add: fmlookup_dom_iff)

lemma fmupd_twice [simp]: "fmupd k v (fmupd k w m) = fmupd k v m"
  by (rule fmap_ext) simp

end
