(* ===== verification/Regex.thy ===== *)
theory Regex
  imports Prelude
begin

text \<open>
  The fragment of Python's \<open>re\<close> that the validation grammar uses: character classes,
  concatenation, alternation, \<open>*\<close>, \<open>+\<close>, \<open>?\<close> and bounded repetition, always under \<open>fullmatch\<close>.
  \<open>matches\<close> is the language of an expression; \<open>fullmatch\<close> decides it by derivatives and is what
  the validators call.
\<close>

named_theorems rx_facts \<open>inversion of the language of an expression\<close>

datatype rx = Zero | Eps | Cls "char \<Rightarrow> bool" | Seq rx rx | Alt rx rx | Star rx

subsection \<open>The language of an expression\<close>

inductive matches :: "rx \<Rightarrow> string \<Rightarrow> bool" where
  m_eps: "matches Eps []"
| m_cls: "P c \<Longrightarrow> matches (Cls P) [c]"
| m_seq: "matches r s \<Longrightarrow> matches q t \<Longrightarrow> matches (Seq r q) (s @ t)"
| m_altl: "matches r s \<Longrightarrow> matches (Alt r q) s"
| m_altr: "matches q s \<Longrightarrow> matches (Alt r q) s"
| m_star0: "matches (Star r) []"
| m_star1: "matches r s \<Longrightarrow> matches (Star r) t \<Longrightarrow> matches (Star r) (s @ t)"

inductive_simps matches_simps [rx_facts]:
  "matches Zero s" "matches Eps s" "matches (Cls P) s" "matches (Seq r q) s" "matches (Alt r q) s"

inductive_cases matches_StarE: "matches (Star r) s"

definition optional :: "rx \<Rightarrow> rx" where "optional r = Alt r Eps"

definition plus_rx :: "rx \<Rightarrow> rx" where "plus_rx r = Seq r (Star r)"

fun upto_rx :: "nat \<Rightarrow> rx \<Rightarrow> rx" where
  "upto_rx 0 r = Eps"
| "upto_rx (Suc n) r = Alt (Seq r (upto_rx n r)) Eps"

fun exactly_rx :: "nat \<Rightarrow> rx \<Rightarrow> rx" where
  "exactly_rx 0 r = Eps"
| "exactly_rx (Suc n) r = Seq r (exactly_rx n r)"

definition between_rx :: "nat \<Rightarrow> nat \<Rightarrow> rx \<Rightarrow> rx" where
  "between_rx lo hi r = Seq (exactly_rx lo r) (upto_rx (hi - lo) r)"

fun lit :: "string \<Rightarrow> rx" where
  "lit [] = Eps"
| "lit (c # s) = Seq (Cls (\<lambda>d. d = c)) (lit s)"

subsection \<open>Character classes\<close>

definition is_lower :: "char \<Rightarrow> bool" where "is_lower c \<longleftrightarrow> CHR ''a'' \<le> c \<and> c \<le> CHR ''z''"
definition is_upper :: "char \<Rightarrow> bool" where "is_upper c \<longleftrightarrow> CHR ''A'' \<le> c \<and> c \<le> CHR ''Z''"
definition is_digit :: "char \<Rightarrow> bool" where "is_digit c \<longleftrightarrow> CHR ''0'' \<le> c \<and> c \<le> CHR ''9''"
definition is_hex :: "char \<Rightarrow> bool" where
  "is_hex c \<longleftrightarrow> is_digit c \<or> (CHR ''a'' \<le> c \<and> c \<le> CHR ''f'')"

text \<open>\<open>cls Ps extra\<close>: a bracket expression, its ranges and its single characters.\<close>

definition cls :: "(char \<Rightarrow> bool) list \<Rightarrow> string \<Rightarrow> rx" where
  "cls Ps extra = Cls (\<lambda>c. list_ex (\<lambda>P. P c) Ps \<or> c \<in> set extra)"

subsection \<open>Deciding the language by derivatives\<close>

fun nullable :: "rx \<Rightarrow> bool" where
  "nullable Zero = False"
| "nullable Eps = True"
| "nullable (Cls P) = False"
| "nullable (Seq r q) = (nullable r \<and> nullable q)"
| "nullable (Alt r q) = (nullable r \<or> nullable q)"
| "nullable (Star r) = True"

fun seq' :: "rx \<Rightarrow> rx \<Rightarrow> rx" where
  "seq' Zero q = Zero"
| "seq' Eps q = q"
| "seq' r q = Seq r q"

fun alt' :: "rx \<Rightarrow> rx \<Rightarrow> rx" where
  "alt' Zero q = q"
| "alt' r Zero = r"
| "alt' r q = Alt r q"

fun deriv :: "char \<Rightarrow> rx \<Rightarrow> rx" where
  "deriv c Zero = Zero"
| "deriv c Eps = Zero"
| "deriv c (Cls P) = (if P c then Eps else Zero)"
| "deriv c (Seq r q) =
     (if nullable r then alt' (seq' (deriv c r) q) (deriv c q) else seq' (deriv c r) q)"
| "deriv c (Alt r q) = alt' (deriv c r) (deriv c q)"
| "deriv c (Star r) = seq' (deriv c r) (Star r)"

fun fullmatch :: "rx \<Rightarrow> string \<Rightarrow> bool" where
  "fullmatch r [] = nullable r"
| "fullmatch r (c # s) = fullmatch (deriv c r) s"

lemma matches_seq' [simp]: "matches (seq' r q) s \<longleftrightarrow> matches (Seq r q) s"
  by (cases r) (auto simp: rx_facts)

lemma matches_alt' [simp]: "matches (alt' r q) s \<longleftrightarrow> matches (Alt r q) s"
  by (cases r; cases q) (auto simp: rx_facts)

lemma nullable_iff: "nullable r \<longleftrightarrow> matches r []"
  by (induction r) (auto simp: rx_facts intro: matches.intros)

lemma matches_Star_Cons:
  "matches (Star r) (c # s) \<longleftrightarrow> (\<exists>s1 s2. s = s1 @ s2 \<and> matches r (c # s1) \<and> matches (Star r) s2)"
proof
  have "matches p w \<Longrightarrow> p = Star r \<Longrightarrow> w = c # s \<Longrightarrow>
      \<exists>s1 s2. s = s1 @ s2 \<and> matches r (c # s1) \<and> matches (Star r) s2" for p w
    by (induction p w rule: matches.induct) (auto simp: append_eq_Cons_conv)
  then show "matches (Star r) (c # s) \<Longrightarrow>
      \<exists>s1 s2. s = s1 @ s2 \<and> matches r (c # s1) \<and> matches (Star r) s2"
    by blast
next
  assume "\<exists>s1 s2. s = s1 @ s2 \<and> matches r (c # s1) \<and> matches (Star r) s2"
  then show "matches (Star r) (c # s)" by (metis append_Cons m_star1)
qed

lemma matches_Seq_Cons:
  "matches (Seq r q) (c # s) \<longleftrightarrow>
     (\<exists>s1 s2. s = s1 @ s2 \<and> matches r (c # s1) \<and> matches q s2) \<or>
     (matches r [] \<and> matches q (c # s))"
  by (auto simp: rx_facts Cons_eq_append_conv)

lemma deriv_iff: "matches (deriv c r) s \<longleftrightarrow> matches r (c # s)"
proof (induction r arbitrary: s)
  case (Seq r q)
  have "matches (Seq (deriv c r) q) s \<longleftrightarrow>
      (\<exists>s1 s2. s = s1 @ s2 \<and> matches r (c # s1) \<and> matches q s2)"
    using Seq.IH(1) by (simp add: matches_simps(4))
  then show ?case
    using Seq.IH(2) by (simp add: matches_Seq_Cons nullable_iff matches_simps(5))
next
  case (Star r)
  then show ?case by (auto simp: matches_Star_Cons matches_simps(4))
qed (auto simp: rx_facts)

theorem fullmatch_iff: "fullmatch r s \<longleftrightarrow> matches r s"
  by (induction s arbitrary: r) (auto simp: nullable_iff deriv_iff)

subsection \<open>What a match says about the characters\<close>

fun rx_all :: "(char \<Rightarrow> bool) \<Rightarrow> rx \<Rightarrow> bool" where
  "rx_all Q Zero = True"
| "rx_all Q Eps = True"
| "rx_all Q (Cls P) = (\<forall>c. P c \<longrightarrow> Q c)"
| "rx_all Q (Seq r q) = (rx_all Q r \<and> rx_all Q q)"
| "rx_all Q (Alt r q) = (rx_all Q r \<and> rx_all Q q)"
| "rx_all Q (Star r) = rx_all Q r"

lemma matches_chars: "matches r s \<Longrightarrow> rx_all Q r \<Longrightarrow> c \<in> set s \<Longrightarrow> Q c"
  by (induction r s rule: matches.induct) auto

lemma rx_all_upto [simp]: "rx_all Q r \<Longrightarrow> rx_all Q (upto_rx n r)"
  by (induction n) auto

lemma rx_all_exactly [simp]: "rx_all Q r \<Longrightarrow> rx_all Q (exactly_rx n r)"
  by (induction n) auto

lemma rx_all_lit [simp]: "rx_all Q (lit s) \<longleftrightarrow> (\<forall>c\<in>set s. Q c)"
  by (induction s) auto

lemma rx_all_derived [simp]:
  "rx_all Q (optional r) = rx_all Q r"
  "rx_all Q (plus_rx r) = rx_all Q r"
  "rx_all Q r \<Longrightarrow> rx_all Q (between_rx lo hi r)"
  by (simp_all add: optional_def plus_rx_def between_rx_def)

lemma rx_all_cls [simp]:
  "rx_all Q (cls Ps extra) \<longleftrightarrow> (\<forall>P\<in>set Ps. \<forall>c. P c \<longrightarrow> Q c) \<and> (\<forall>c\<in>set extra. Q c)"
  by (auto simp: cls_def list_ex_iff)

lemma matches_lit [rx_facts]: "matches (lit p) s \<longleftrightarrow> s = p"
  by (induction p arbitrary: s) (auto simp: rx_facts Cons_eq_append_conv)

lemma matches_optional [rx_facts]: "matches (optional r) s \<longleftrightarrow> s = [] \<or> matches r s"
  by (auto simp: optional_def rx_facts)

lemma matches_Star_Cls: "matches (Star (Cls P)) s \<longleftrightarrow> (\<forall>c\<in>set s. P c)"
  by (induction s) (auto simp: matches_Star_Cons rx_facts intro: m_star0)

lemma matches_Seq_Cls:
  "matches (Seq (Cls P) q) s \<longleftrightarrow> (\<exists>c t. s = c # t \<and> P c \<and> matches q t)"
proof (cases s)
  case Nil
  then show ?thesis by (auto simp: matches_simps)
next
  case (Cons c t)
  then show ?thesis by (simp add: matches_Seq_Cons matches_simps(3))
qed

lemma matches_upto_length:
  "matches (upto_rx n (Cls P)) s \<longleftrightarrow> length s \<le> n \<and> (\<forall>c\<in>set s. P c)"
proof (induction n arbitrary: s)
  case 0
  then show ?case by (auto simp: rx_facts)
next
  case (Suc n)
  then show ?case by (cases s) (auto simp: matches_simps(2,5) matches_Seq_Cls)
qed

lemma matches_exactly_length:
  "matches (exactly_rx n (Cls P)) s \<longleftrightarrow> length s = n \<and> (\<forall>c\<in>set s. P c)"
proof (induction n arbitrary: s)
  case 0
  then show ?case by (auto simp: rx_facts)
next
  case (Suc n)
  then show ?case by (cases s) (auto simp: matches_Seq_Cls)
qed

end
