(* ===== verification/PyString.thy ===== *)
theory PyString
  imports Prelude
begin

text \<open>
  The \<open>str\<close> methods the program uses, on strings of code points U+0000 to U+00FF:
  \<open>startswith\<close>, \<open>endswith\<close>, \<open>in\<close>, \<open>split\<close>, \<open>join\<close>, \<open>partition\<close>, \<open>strip\<close>, \<open>rstrip\<close>, \<open>lower\<close>,
  \<open>isdigit\<close>, \<open>removeprefix\<close>, \<open>int\<close> and \<open>str\<close> of an integer, and the path normalisation of
  \<open>PurePosixPath\<close>.
\<close>

subsection \<open>Prefixes, suffixes, substrings\<close>

definition startswith :: "string \<Rightarrow> string \<Rightarrow> bool" where
  "startswith s p \<longleftrightarrow> take (length p) s = p"

definition endswith :: "string \<Rightarrow> string \<Rightarrow> bool" where
  "endswith s q \<longleftrightarrow> startswith (rev s) (rev q)"

fun contains :: "string \<Rightarrow> string \<Rightarrow> bool" where
  "contains [] q \<longleftrightarrow> q = []"
| "contains (c # s) q \<longleftrightarrow> startswith (c # s) q \<or> contains s q"

definition removeprefix :: "string \<Rightarrow> string \<Rightarrow> string" where
  "removeprefix s p = (if startswith s p then drop (length p) s else s)"

definition removesuffix :: "string \<Rightarrow> string \<Rightarrow> string" where
  "removesuffix s q = (if q \<noteq> [] \<and> endswith s q then take (length s - length q) s else s)"

lemma startswith_iff [pystr]: "startswith s p \<longleftrightarrow> (\<exists>t. s = p @ t)"
  unfolding startswith_def by (metis append_eq_conv_conj append_take_drop_id)

lemma endswith_iff [pystr]: "endswith s q \<longleftrightarrow> (\<exists>t. s = t @ q)"
  unfolding endswith_def startswith_iff by (metis rev_append rev_rev_ident)

lemma startswith_Nil [simp]: "startswith s []"
  by (simp add: startswith_def)

lemma startswith_append [simp]: "startswith (p @ t) p"
  by (simp add: startswith_def)

lemma endswith_append [simp]: "endswith (t @ q) q"
  by (simp add: endswith_def)

lemma startswith_Cons [simp]: "startswith (c # s) (d # p) \<longleftrightarrow> c = d \<and> startswith s p"
  by (auto simp: startswith_def)

lemma startswith_empty [simp]: "startswith [] (d # p) \<longleftrightarrow> False"
  by (simp add: startswith_def)

lemma removeprefix_append [simp]: "removeprefix (p @ t) p = t"
  by (simp add: removeprefix_def)

lemma contains_iff [pystr]: "contains s q \<longleftrightarrow> (\<exists>u v. s = u @ q @ v)"
proof (induction s)
  case Nil
  then show ?case by simp
next
  case (Cons c s)
  then show ?case
    by (auto simp: startswith_iff Cons_eq_append_conv)
qed

subsection \<open>split, join, partition\<close>

fun split_char :: "char \<Rightarrow> string \<Rightarrow> string list" where
  "split_char d [] = [[]]"
| "split_char d (c # s) =
     (if c = d then [] # split_char d s
      else (case split_char d s of [] \<Rightarrow> [[c]] | w # ws \<Rightarrow> (c # w) # ws))"

fun join :: "string \<Rightarrow> string list \<Rightarrow> string" where
  "join sep [] = []"
| "join sep [w] = w"
| "join sep (w # v # ws) = w @ sep @ join sep (v # ws)"

text \<open>\<open>partition_char d s\<close> is \<open>s.partition(d)\<close>: the part before the first \<open>d\<close>, whether there is
  one, and the part after it.\<close>

fun partition_char :: "char \<Rightarrow> string \<Rightarrow> string \<times> bool \<times> string" where
  "partition_char d [] = ([], False, [])"
| "partition_char d (c # s) =
     (if c = d then ([], True, s)
      else (case partition_char d s of (a, f, b) \<Rightarrow> (c # a, f, b)))"

lemma split_char_not_Nil [simp]: "split_char d s \<noteq> []"
  by (induction s) (auto split: list.splits)

lemma join_Cons: "join sep (w # ws) = w @ (if ws = [] then [] else sep @ join sep ws)"
  by (cases ws) auto

lemma join_split_char [pystr]: "join [d] (split_char d s) = s"
proof (induction s)
  case (Cons c s)
  then show ?case by (cases "split_char d s") (auto simp: join_Cons)
qed simp

lemma split_char_pieces [pystr]: "w \<in> set (split_char d s) \<Longrightarrow> d \<notin> set w"
proof (induction s arbitrary: w)
  case (Cons c s)
  then show ?case by (cases "split_char d s") (auto split: if_splits)
qed simp

lemma split_char_chars [pystr]: "w \<in> set (split_char d s) \<Longrightarrow> set w \<subseteq> set s"
proof (induction s arbitrary: w)
  case (Cons c s)
  show ?case
  proof (cases "split_char d s")
    case Nil
    then show ?thesis by simp
  next
    case (Cons v vs)
    have IH: "\<And>u. u \<in> set (v # vs) \<Longrightarrow> set u \<subseteq> set s" using Cons.IH Cons by simp
    have "w \<in> set ([] # v # vs) \<or> w = c # v \<or> w \<in> set vs"
      using Cons.prems Cons by (auto split: if_splits)
    then show ?thesis using IH by fastforce
  qed
qed simp

lemma split_char_single [simp]: "d \<notin> set s \<Longrightarrow> split_char d s = [s]"
  by (induction s) auto

lemma split_char_append [simp]:
  "d \<notin> set w \<Longrightarrow> split_char d (w @ d # s) = w # split_char d s"
  by (induction w) auto

lemma split_char_at: "split_char d (x @ d # y) = split_char d x @ split_char d y"
proof (induction x)
  case (Cons c x)
  then show ?case by (cases "split_char d x") (auto split: list.splits)
qed simp

lemma split_char_join:
  "ws \<noteq> [] \<Longrightarrow> (\<And>w. w \<in> set ws \<Longrightarrow> d \<notin> set w) \<Longrightarrow> split_char d (join [d] ws) = ws"
proof (induction ws)
  case (Cons w ws)
  then show ?case by (cases ws) auto
qed simp

lemma set_join_subset: "set (join sep ws) \<subseteq> set sep \<union> (\<Union>w\<in>set ws. set w)"
  by (induction ws) (auto simp: join_Cons split: if_splits)

lemma partition_char_found:
  "d \<notin> set a \<Longrightarrow> partition_char d (a @ d # b) = (a, True, b)"
  by (induction a) auto

lemma partition_char_cases:
  "partition_char d s = (a, f, b) \<Longrightarrow>
     d \<notin> set a \<and> (if f then s = a @ d # b else b = [] \<and> s = a)"
  by (induction s arbitrary: a f b) (auto split: if_splits prod.splits)

subsection \<open>Whitespace, case, digits\<close>

definition is_space :: "char \<Rightarrow> bool" where
  "is_space c \<longleftrightarrow> c \<in> set [CHR 0x09, CHR 0x0A, CHR 0x0B, CHR 0x0C, CHR 0x0D, CHR 0x1C, CHR 0x1D,
     CHR 0x1E, CHR 0x1F, CHR 0x20, CHR 0x85, CHR 0xA0]"

definition lstrip_by :: "(char \<Rightarrow> bool) \<Rightarrow> string \<Rightarrow> string" where
  "lstrip_by P s = dropWhile P s"

definition rstrip_by :: "(char \<Rightarrow> bool) \<Rightarrow> string \<Rightarrow> string" where
  "rstrip_by P s = rev (dropWhile P (rev s))"

definition strip :: "string \<Rightarrow> string" where
  "strip s = rstrip_by is_space (lstrip_by is_space s)"

definition rstrip_char :: "char \<Rightarrow> string \<Rightarrow> string" where
  "rstrip_char d s = rstrip_by (\<lambda>c. c = d) s"

definition lower_char :: "char \<Rightarrow> char" where
  "lower_char c =
     (if (CHR ''A'' \<le> c \<and> c \<le> CHR ''Z'') \<or> (CHR 0xC0 \<le> c \<and> c \<le> CHR 0xDE \<and> c \<noteq> CHR 0xD7)
      then char_of (of_char c + 32 :: nat) else c)"

definition lower :: "string \<Rightarrow> string" where
  "lower s = map lower_char s"

text \<open>\<open>str.isdigit\<close> also accepts the superscript digits of Latin-1; \<open>int\<close> does not.\<close>

definition isdigit_char :: "char \<Rightarrow> bool" where
  "isdigit_char c \<longleftrightarrow> (CHR ''0'' \<le> c \<and> c \<le> CHR ''9'') \<or> c \<in> set [CHR 0xB2, CHR 0xB3, CHR 0xB9]"

definition isdigit :: "string \<Rightarrow> bool" where
  "isdigit s \<longleftrightarrow> s \<noteq> [] \<and> list_all isdigit_char s"

definition digit_char :: "nat \<Rightarrow> char" where
  "digit_char d = char_of (48 + d)"

definition digit_val :: "char \<Rightarrow> nat" where
  "digit_val c = of_char c - 48"

fun nat_str :: "nat \<Rightarrow> string" where
  "nat_str n = (if n < 10 then [digit_char n] else nat_str (n div 10) @ [digit_char (n mod 10)])"

declare nat_str.simps [simp del]

definition int_str :: "int \<Rightarrow> string" where
  "int_str i = (if i < 0 then CHR ''-'' # nat_str (nat (- i)) else nat_str (nat i))"

definition nat_of_digits :: "string \<Rightarrow> nat" where
  "nat_of_digits s = foldl (\<lambda>n c. 10 * n + digit_val c) 0 s"

definition ascii_digit :: "char \<Rightarrow> bool" where
  "ascii_digit c \<longleftrightarrow> CHR ''0'' \<le> c \<and> c \<le> CHR ''9''"

text \<open>\<open>int(s)\<close>: blanks around, a sign, digits with single underscores between them.\<close>

definition py_int :: "string \<Rightarrow> int res" where
  "py_int s =
     (let t = strip s;
          (neg, d) = (case t of c # r \<Rightarrow> if c = CHR ''-'' then (True, r) else if c = CHR ''+'' then (False, r) else (False, t)
                      | [] \<Rightarrow> (False, []));
          parts = split_char (CHR ''_'') d;
          n = int (nat_of_digits (concat parts))
      in if list_all (\<lambda>p. p \<noteq> [] \<and> list_all ascii_digit p) parts then Inr (if neg then - n else n)
         else Inl ValueError)"

lemma digit_char_props:
  assumes "d < 10"
  shows "ascii_digit (digit_char d)" "digit_val (digit_char d) = d"
proof -
  have "d \<in> set [0, 1, 2, 3, 4, 5, 6, 7, 8, 9]" using assms by auto
  then show "ascii_digit (digit_char d)" "digit_val (digit_char d) = d"
    unfolding ascii_digit_def digit_char_def digit_val_def less_eq_char_def
    by (auto simp: of_char_of take_bit_eq_mod)
qed

lemma nat_str_digits: "c \<in> set (nat_str n) \<Longrightarrow> ascii_digit c"
proof (induction n rule: nat_str.induct)
  case (1 n)
  then show ?case
    by (cases "n < 10") (auto simp: nat_str.simps [of n] digit_char_props)
qed

lemma nat_str_not_Nil [simp]: "nat_str n \<noteq> []"
  by (subst nat_str.simps) simp

lemma nat_of_digits_snoc: "nat_of_digits (s @ [c]) = 10 * nat_of_digits s + digit_val c"
  by (simp add: nat_of_digits_def)

lemma nat_of_digits_nat_str [simp, pystr]: "nat_of_digits (nat_str n) = n"
proof (induction n rule: nat_str.induct)
  case (1 n)
  show ?case
  proof (cases "n < 10")
    case True
    then show ?thesis
      by (simp add: nat_str.simps [of n] nat_of_digits_def digit_char_props)
  next
    case False
    then show ?thesis
      using 1 by (simp add: nat_str.simps [of n] nat_of_digits_snoc digit_char_props)
  qed
qed

lemma nat_str_inject [simp]: "nat_str m = nat_str n \<longleftrightarrow> m = n"
  by (metis nat_of_digits_nat_str)

lemma ascii_digit_isdigit: "ascii_digit c \<Longrightarrow> isdigit_char c"
  by (simp add: ascii_digit_def isdigit_char_def)

lemma isdigit_nat_str [simp]: "isdigit (nat_str n)"
  by (auto simp: isdigit_def list_all_iff intro: ascii_digit_isdigit nat_str_digits)

lemma ascii_digit_range: "ascii_digit c \<longleftrightarrow> c \<in> set ''0123456789''"
proof
  assume a: "ascii_digit c"
  have "of_char c \<in> {48..57::nat}"
    using a unfolding ascii_digit_def less_eq_char_def by simp
  also have "{48..57} = set [48, 49, 50, 51, 52, 53, 54, 55, 56, 57 :: nat]" by code_simp
  finally have "of_char c \<in> set [48, 49, 50, 51, 52, 53, 54, 55, 56, 57 :: nat]" .
  then have "char_of (of_char c :: nat) \<in>
      set (map char_of [48, 49, 50, 51, 52, 53, 54, 55, 56, 57 :: nat])"
    by (metis imageI set_map)
  also have "map char_of [48, 49, 50, 51, 52, 53, 54, 55, 56, 57 :: nat] = ''0123456789''"
    by code_simp
  finally show "c \<in> set ''0123456789''" by simp
qed (auto simp: ascii_digit_def less_eq_char_def)

lemma nat_str_no: "x \<notin> set ''0123456789'' \<Longrightarrow> x \<notin> set (nat_str n)"
  using nat_str_digits ascii_digit_range by blast

lemma set_rstrip_by: "set (rstrip_by P s) \<subseteq> set s"
  unfolding rstrip_by_def by (metis set_dropWhileD set_rev subsetI)

lemma set_strip: "set (strip s) \<subseteq> set s"
  unfolding strip_def lstrip_by_def using set_rstrip_by by (metis set_dropWhileD subset_iff)

lemma rstrip_by_cases: "rstrip_by P s = [] \<or> \<not> P (last (rstrip_by P s))"
proof (cases "dropWhile P (rev s)")
  case (Cons c t)
  then have "\<not> P c" by (metis hd_dropWhile list.distinct(1) list.sel(1))
  then show ?thesis using Cons by (simp add: rstrip_by_def)
qed (simp add: rstrip_by_def)

lemma strip_digits: "list_all ascii_digit s \<Longrightarrow> strip s = s"
proof -
  assume d: "list_all ascii_digit s"
  have "\<not> is_space c" if "ascii_digit c" for c
    using that by (auto simp: ascii_digit_range is_space_def)
  then have "dropWhile is_space s = s" "dropWhile is_space (rev s) = rev s"
    using d by (metis dropWhile_eq_self_iff hd_in_set list_all_iff) (metis d \<open>\<And>c. ascii_digit c \<Longrightarrow> \<not> is_space c\<close> dropWhile_eq_self_iff hd_in_set list_all_iff set_rev)
  then show ?thesis by (simp add: strip_def lstrip_by_def rstrip_by_def)
qed

lemma py_int_nat_str: "py_int (nat_str k) = Inr (int k)"
proof -
  have d: "list_all ascii_digit (nat_str k)" using nat_str_digits by (auto simp: list_all_iff)
  then have "CHR ''_'' \<notin> set (nat_str k)" by (auto simp: list_all_iff ascii_digit_range)
  moreover obtain c r where c: "nat_str k = c # r" by (meson nat_str_not_Nil neq_Nil_conv)
  then have "c \<noteq> CHR ''-''" "c \<noteq> CHR ''+''" using d by (auto simp: ascii_digit_range)
  ultimately show ?thesis
    using d c by (simp add: py_int_def Let_def strip_digits split_char_single)
      (metis c nat_of_digits_nat_str)
qed

subsection \<open>Relative paths\<close>

text \<open>\<open>str(PurePosixPath(p))\<close> for a relative \<open>p\<close>: empty and \<open>.\<close> components are dropped, \<open>..\<close> is
  kept, and the empty path prints as a dot.\<close>

definition path_parts :: "string \<Rightarrow> string list" where
  "path_parts p = filter (\<lambda>w. w \<noteq> [] \<and> w \<noteq> ''.'') (split_char CHR ''/'' p)"

definition norm_path :: "string \<Rightarrow> string" where
  "norm_path p = (if path_parts p = [] then ''.'' else join ''/'' (path_parts p))"

lemma path_parts_norm_path [pystr]: "path_parts (norm_path p) = path_parts p"
proof (cases "path_parts p = []")
  case True
  then show ?thesis by (simp add: norm_path_def path_parts_def)
next
  case False
  have "split_char CHR ''/'' (join [CHR ''/''] (path_parts p)) = path_parts p"
    by (rule split_char_join [OF False]) (auto simp: path_parts_def dest: split_char_pieces)
  then show ?thesis using False by (simp add: norm_path_def path_parts_def)
qed

lemma norm_path_idem [pystr]: "norm_path (norm_path p) = norm_path p"
  unfolding norm_path_def [of "norm_path p"] path_parts_norm_path
  by (simp only: norm_path_def [symmetric])

end
