(* ===== verification/Validate.thy ===== *)
theory Validate
  imports Regex PyString
begin

text \<open>
  The validation grammar of \<open>backend/app/domain/validate.py\<close>: every regular expression of the
  module as an \<open>rx\<close>, every validator as a function into \<open>string res\<close> (the validated, possibly
  normalised value, or \<open>SpecValidationError\<close>).  The \<open>isinstance\<close> tests hold by typing.  The
  lemmas say what an accepted value can contain: the allowlists that keep argv options, newlines,
  NULs, volume separators and traversal out of unit files and command lines.
\<close>

subsection \<open>The expressions\<close>

abbreviation "nl \<equiv> CHR 0x0A"
abbreviation "nul \<equiv> CHR 0x00"

definition alnum_l :: rx where "alnum_l = cls [is_lower, is_digit] []"

definition image_rx :: rx where
  "image_rx =
     Seq alnum_l (Seq (Star (cls [is_lower, is_digit] ''._-''))
     (Seq (optional (Seq (lit '':'') (between_rx 1 5 (cls [is_digit] []))))
     (Seq (Star (Seq (lit ''/'') (plus_rx (cls [is_lower, is_upper, is_digit] ''._-''))))
     (Seq (optional (Seq (lit '':'') (between_rx 1 128 (cls [is_lower, is_upper, is_digit] ''._-''))))
     (optional (Seq (lit ''@sha256:'') (exactly_rx 64 (cls [is_hex] []))))))))"

definition env_key_rx :: rx where
  "env_key_rx = Seq (cls [is_lower, is_upper] ''_'') (Star (cls [is_lower, is_upper, is_digit] ''_.''))"

definition object_name_rx :: rx where
  "object_name_rx = Seq alnum_l (Star (cls [is_lower, is_digit] ''_.-''))"

definition slug_rx :: rx where
  "slug_rx = Seq alnum_l (optional (Seq (upto_rx 30 (cls [is_lower, is_digit] ''-'')) alnum_l))"

definition host_rx :: rx where "host_rx = plus_rx (cls [is_lower, is_upper, is_digit] ''.-'')"
definition port_rx :: rx where
  "port_rx = optional (Seq (lit '':'') (between_rx 1 5 (cls [is_digit] [])))"
definition repo_path_rx :: rx where
  "repo_path_rx = plus_rx (cls [is_lower, is_upper, is_digit] ''._~/-'')"

definition git_https_rx :: rx where
  "git_https_rx = Seq (lit ''https://'') (Seq host_rx (Seq port_rx (Seq (lit ''/'')
     (Seq repo_path_rx (optional (lit ''.git''))))))"

definition git_ssh_rx :: rx where
  "git_ssh_rx = Seq (optional (lit ''ssh://'')) (Seq (lit ''git@'') (Seq host_rx (Seq port_rx
     (Seq (cls [] '':/'') (Seq repo_path_rx (optional (lit ''.git'')))))))"

definition git_ref_rx :: rx where
  "git_ref_rx = Seq (cls [is_lower, is_upper, is_digit] [])
     (upto_rx 254 (cls [is_lower, is_upper, is_digit] ''._/-''))"

definition build_path_rx :: rx where
  "build_path_rx = plus_rx (cls [is_lower, is_upper, is_digit] ''._/-'')"

definition domain_rx :: rx where
  "domain_rx = Seq alnum_l (optional (Seq (Star (cls [is_lower, is_digit] ''.-'')) alnum_l))"

subsection \<open>The validators\<close>

definition qualify_image :: "string \<Rightarrow> string" where
  "qualify_image img =
     (let name_part = fst (partition_char CHR ''@'' img);
          (first, has_slash, _) = partition_char CHR ''/'' name_part
      in if \<not> has_slash then ''docker.io/library/'' @ img
         else if CHR ''.'' \<in> set first \<or> CHR '':'' \<in> set first \<or> first = ''localhost'' then img
         else ''docker.io/'' @ img)"

definition validate_image_ref :: "string \<Rightarrow> string res" where
  "validate_image_ref img =
     (if length img > 512 \<or> \<not> fullmatch image_rx img then Inl SpecValidationError
      else Inr (qualify_image img))"

definition validate_git_repo :: "string \<Rightarrow> string res" where
  "validate_git_repo repo =
     (if length repo > 1024 \<or> nul \<in> set repo \<or> nl \<in> set repo
          \<or> \<not> (fullmatch git_https_rx repo \<or> fullmatch git_ssh_rx repo)
      then Inl SpecValidationError else Inr repo)"

definition validate_git_ref :: "string \<Rightarrow> string res" where
  "validate_git_ref ref =
     (if \<not> fullmatch git_ref_rx ref \<or> contains ref ''..'' \<or> contains ref [CHR ''@'', CHR ''{'']
          \<or> endswith ref ''/'' \<or> endswith ref ''.''
      then Inl SpecValidationError else Inr ref)"

definition validate_build_path :: "bool \<Rightarrow> string \<Rightarrow> string res" where
  "validate_build_path allow_dot path =
     (if path = [] \<or> length path > 255 \<or> startswith path ''/'' \<or> startswith path ''-''
          \<or> CHR 0x5C \<in> set path \<or> nul \<in> set path \<or> nl \<in> set path \<or> \<not> fullmatch build_path_rx path
      then Inl SpecValidationError
      else (let normalized = norm_path path
            in if ''..'' \<in> set (path_parts normalized) \<or> (normalized = ''.'' \<and> \<not> allow_dot)
               then Inl SpecValidationError else Inr normalized))"

definition validate_object_name :: "string \<Rightarrow> string res" where
  "validate_object_name name =
     (if length name > 128 \<or> \<not> fullmatch object_name_rx name then Inl SpecValidationError
      else Inr name)"

definition validate_slug :: "string \<Rightarrow> string res" where
  "validate_slug value =
     (if \<not> fullmatch slug_rx value then Inl SpecValidationError else Inr value)"

definition validate_port :: "int \<Rightarrow> int res" where
  "validate_port port =
     (if \<not> (1 \<le> port \<and> port \<le> 65535) then Inl SpecValidationError else Inr port)"

definition validate_env_key :: "string \<Rightarrow> string res" where
  "validate_env_key key =
     (if length key > 128 \<or> \<not> fullmatch env_key_rx key then Inl SpecValidationError else Inr key)"

definition validate_env_value :: "string \<Rightarrow> string \<Rightarrow> string res" where
  "validate_env_value key value =
     (if nul \<in> set value \<or> nl \<in> set value \<or> length value > 4096 then Inl SpecValidationError
      else Inr value)"

definition validate_mount_path :: "string \<Rightarrow> string res" where
  "validate_mount_path path =
     (if \<not> startswith path ''/'' \<or> length path > 255 \<or> CHR '':'' \<in> set path \<or> nul \<in> set path
          \<or> nl \<in> set path \<or> ''..'' \<in> set (split_char CHR ''/'' path)
      then Inl SpecValidationError
      else Inr (let r = rstrip_char CHR ''/'' path in if r = [] then ''/'' else r))"

definition validate_domain_name :: "string \<Rightarrow> string res" where
  "validate_domain_name domain =
     (if \<not> (1 \<le> length domain \<and> length domain \<le> 253) \<or> \<not> fullmatch domain_rx domain
          \<or> contains domain ''..''
      then Inl SpecValidationError else Inr domain)"

lemmas validator_defs = validate_image_ref_def validate_git_repo_def validate_git_ref_def
  validate_build_path_def validate_object_name_def validate_slug_def validate_port_def
  validate_env_key_def validate_env_value_def validate_mount_path_def validate_domain_name_def

lemmas class_defs = is_lower_def is_upper_def is_digit_def is_hex_def

subsection \<open>Allowlists\<close>

text \<open>A character that can break out of a unit-file line, an env-file line or an argv word.\<close>

definition safe_char :: "char \<Rightarrow> bool" where
  "safe_char c \<longleftrightarrow> c \<notin> set [nul, nl, CHR 0x0D, CHR '' '', CHR 0x09, CHR 0x22, CHR 0x27, CHR 0x5C,
     CHR ''$'', CHR '';'', CHR ''%'', CHR ''='']"

lemma class_safe:
  "is_lower c \<Longrightarrow> safe_char c" "is_upper c \<Longrightarrow> safe_char c" "is_digit c \<Longrightarrow> safe_char c"
  "is_hex c \<Longrightarrow> safe_char c"
  by (auto simp: class_defs safe_char_def less_eq_char_def)

lemma safe_literals [simp]: "c \<in> set ''._-~/@:githtpssa256_'' \<Longrightarrow> safe_char c"
  by (auto simp: safe_char_def)

lemma class_dash [simp]:
  "\<not> is_lower CHR ''-''" "\<not> is_upper CHR ''-''" "\<not> is_digit CHR ''-''"
  by (auto simp: class_defs less_eq_char_def)

lemma rx_all_safe [simp]:
  "rx_all safe_char image_rx" "rx_all safe_char env_key_rx" "rx_all safe_char object_name_rx"
  "rx_all safe_char slug_rx" "rx_all safe_char git_https_rx" "rx_all safe_char git_ssh_rx"
  "rx_all safe_char git_ref_rx" "rx_all safe_char build_path_rx" "rx_all safe_char domain_rx"
proof -
  note parts = image_rx_def env_key_rx_def object_name_rx_def slug_rx_def git_https_rx_def
    git_ssh_rx_def git_ref_rx_def build_path_rx_def domain_rx_def host_rx_def port_rx_def
    repo_path_rx_def alnum_l_def
  show "rx_all safe_char image_rx" "rx_all safe_char env_key_rx" "rx_all safe_char object_name_rx"
    "rx_all safe_char slug_rx" "rx_all safe_char git_https_rx" "rx_all safe_char git_ssh_rx"
    "rx_all safe_char git_ref_rx" "rx_all safe_char build_path_rx" "rx_all safe_char domain_rx"
    unfolding parts
    by (simp_all add: class_safe)
qed

lemma fullmatch_safe:
  "fullmatch r s \<Longrightarrow> rx_all safe_char r \<Longrightarrow> c \<in> set s \<Longrightarrow> safe_char c"
  using matches_chars fullmatch_iff by blast

lemma safe_charD: "safe_char c \<Longrightarrow> c \<noteq> nul \<and> c \<noteq> nl \<and> c \<noteq> CHR '' '' \<and> c \<noteq> CHR ''=''"
  by (auto simp: safe_char_def)

definition slug_char :: "char \<Rightarrow> bool" where
  "slug_char c \<longleftrightarrow> is_lower c \<or> is_digit c \<or> c = CHR ''-''"

definition alnum_char :: "char \<Rightarrow> bool" where
  "alnum_char c \<longleftrightarrow> is_lower c \<or> is_digit c"

lemma alnum_char_slug: "alnum_char c \<longleftrightarrow> slug_char c \<and> c \<noteq> CHR ''-''"
  by (auto simp: alnum_char_def slug_char_def)

lemma alnum_l_eq: "alnum_l = Cls alnum_char"
  by (simp add: alnum_l_def cls_def alnum_char_def fun_eq_iff)

lemma slug_cls_eq: "cls [is_lower, is_digit] ''-'' = Cls slug_char"
  by (auto simp: cls_def slug_char_def fun_eq_iff)

lemma matches_Seq_upto_alnum:
  "matches (Seq (upto_rx n (Cls P)) (Cls Q)) t \<longleftrightarrow>
     (\<exists>u d. t = u @ [d] \<and> length u \<le> n \<and> (\<forall>c\<in>set u. P c) \<and> Q d)"
  by (auto simp: matches_simps(3,4) matches_upto_length)

lemma validate_slug_iff:
  "validate_slug v = Inr w \<longleftrightarrow>
     w = v \<and> v \<noteq> [] \<and> length v \<le> 32 \<and> list_all slug_char v
     \<and> hd v \<noteq> CHR ''-'' \<and> last v \<noteq> CHR ''-''"
proof -
  have "matches slug_rx v \<longleftrightarrow> v \<noteq> [] \<and> length v \<le> 32 \<and> list_all slug_char v
     \<and> hd v \<noteq> CHR ''-'' \<and> last v \<noteq> CHR ''-''"
  proof (cases v)
    case Nil
    then show ?thesis by (simp add: slug_rx_def alnum_l_eq matches_Seq_Cls)
  next
    case (Cons c t)
    show ?thesis
    proof (cases t rule: rev_cases)
      case Nil
      then show ?thesis using Cons
        by (auto simp: slug_rx_def alnum_l_eq matches_Seq_Cls matches_optional alnum_char_slug)
    next
      case (snoc u d)
      then show ?thesis using Cons
        by (auto simp: slug_rx_def alnum_l_eq slug_cls_eq matches_Seq_Cls matches_optional
            matches_Seq_upto_alnum alnum_char_slug list_all_iff)
    qed
  qed
  then show ?thesis by (auto simp: validate_slug_def fullmatch_iff)
qed

text \<open>The slug expression accepts exactly the names its error message describes: 1 to 32
  lowercase letters, digits or hyphens, with no leading and no trailing hyphen.\<close>

theorem slug_grammar:
  "validate_slug v = Inr w \<longleftrightarrow>
     w = v \<and> v \<noteq> [] \<and> length v \<le> 32 \<and> list_all slug_char v
     \<and> hd v \<noteq> CHR ''-'' \<and> last v \<noteq> CHR ''-''"
  by (rule validate_slug_iff)

lemma slug_no_slash: "validate_slug v = Inr w \<Longrightarrow> CHR ''/'' \<notin> set v"
  by (auto simp: validate_slug_iff list_all_iff slug_char_def class_defs less_eq_char_def)

subsection \<open>Image references\<close>

lemma qualify_image_cases:
  "qualify_image img \<in> {img, ''docker.io/'' @ img, ''docker.io/library/'' @ img}"
  unfolding qualify_image_def Let_def by (auto simp del: append.simps split: prod.splits)

lemma qualify_image_hub: "qualify_image (''docker.io/'' @ t) = ''docker.io/'' @ t"
proof -
  have "fst (partition_char CHR ''@'' (''docker.io/'' @ t)) =
      ''docker.io/'' @ fst (partition_char CHR ''@'' t)"
    by (simp split: prod.splits)
  moreover have "partition_char CHR ''/'' (''docker.io/'' @ u) = (''docker.io'', True, u)" for u
    by simp
  ultimately show ?thesis unfolding qualify_image_def Let_def by simp
qed

lemma qualify_image_idem: "qualify_image (qualify_image img) = qualify_image img"
  using qualify_image_cases [of img] qualify_image_hub [of img]
    qualify_image_hub [of "''library/'' @ img"] by auto

lemma image_head: "fullmatch image_rx img \<Longrightarrow> \<exists>c t. img = c # t \<and> alnum_char c"
  by (auto simp: fullmatch_iff image_rx_def alnum_l_eq matches_Seq_Cls)

text \<open>An accepted image reference is fully qualified (qualifying it again changes nothing),
  does not start with a hyphen and has only characters that are safe on an argv or unit-file line.\<close>

theorem image_ref_safe:
  assumes "validate_image_ref img = Inr v"
  shows "qualify_image v = v \<and> (\<exists>c t. v = c # t \<and> c \<noteq> CHR ''-'') \<and> (\<forall>c\<in>set v. safe_char c)"
proof -
  have m: "fullmatch image_rx img" and v: "v = qualify_image img"
    using assms by (auto simp: validate_image_ref_def split: if_splits)
  obtain c t where img: "img = c # t" "c \<noteq> CHR ''-''"
    using image_head [OF m] by (auto simp: alnum_char_slug)
  have "\<forall>c\<in>set img. safe_char c" using fullmatch_safe [OF m] by simp
  moreover have "\<forall>c\<in>set ''docker.io/library/''. safe_char c" by (simp add: safe_char_def)
  ultimately have "\<forall>c\<in>set v. safe_char c"
    using qualify_image_cases [of img] by (auto simp: v)
  moreover have "\<exists>c t. v = c # t \<and> c \<noteq> CHR ''-''"
    using qualify_image_cases [of img] img by (auto simp: v)
  ultimately show ?thesis by (simp add: v qualify_image_idem)
qed

lemma redis_accepted: "validate_image_ref ''redis:7.2'' = Inr ''docker.io/library/redis:7.2''"
  by code_simp

theorem image_ref_safe_witness:
  "validate_image_ref ''redis:7.2'' = Inr ''docker.io/library/redis:7.2'' \<and>
   qualify_image ''docker.io/library/redis:7.2'' = ''docker.io/library/redis:7.2''"
  using redis_accepted image_ref_safe [OF redis_accepted] by simp

text \<open>An accepted reference with both a port and a tag but no path is qualified to a string that
  the same grammar refuses, so a row that stores it cannot be read back as a spec.\<close>

theorem image_ref_not_stable:
  "validate_image_ref ''a:80:tag'' = Inr ''docker.io/library/a:80:tag''"
  "validate_image_ref ''docker.io/library/a:80:tag'' = Inl SpecValidationError"
  by code_simp+

subsection \<open>Paths\<close>

lemma set_norm_path: "set (norm_path p) \<subseteq> set p \<union> {CHR ''.'', CHR ''/''}"
  using set_join_subset [of "''/''" "path_parts p"] split_char_chars
  by (auto simp: norm_path_def path_parts_def dest!: subsetD)

lemma norm_path_relative: "\<not> startswith (norm_path p) ''/''"
proof (cases "path_parts p")
  case Nil
  then show ?thesis by (simp add: norm_path_def)
next
  case (Cons w ws)
  then have "w \<in> set (path_parts p)" by simp
  then have w: "w \<noteq> []" "CHR ''/'' \<notin> set w"
    unfolding path_parts_def using split_char_pieces by auto
  then show ?thesis using Cons by (cases w) (auto simp: norm_path_def join_Cons)
qed

text \<open>An accepted build context or Dockerfile path is relative, in normal form, never climbs
  out of the checkout and has only characters that are safe on an argv or unit-file line; the dot
  is accepted only where the caller allows it.\<close>

theorem build_path_contained:
  assumes "validate_build_path allow_dot p = Inr v"
  shows "\<not> startswith v ''/'' \<and> ''..'' \<notin> set (path_parts v) \<and> norm_path v = v
    \<and> (\<forall>c\<in>set v. safe_char c) \<and> (v = ''.'' \<longrightarrow> allow_dot)"
proof -
  have m: "fullmatch build_path_rx p" and v: "v = norm_path p"
    and ok: "''..'' \<notin> set (path_parts v)" "v = ''.'' \<longrightarrow> allow_dot"
    using assms by (auto simp: validate_build_path_def Let_def split: if_splits)
  have "\<forall>c\<in>set v. safe_char c"
    using fullmatch_safe [OF m] set_norm_path [of p] by (auto simp: v)
  then show ?thesis using ok norm_path_relative norm_path_idem by (simp add: v)
qed

lemma context_accepted: "validate_build_path True ''./app//web/'' = Inr ''app/web''"
  by code_simp

theorem build_path_contained_witness:
  "validate_build_path True ''./app//web/'' = Inr ''app/web'' \<and> norm_path ''app/web'' = ''app/web''"
  using context_accepted build_path_contained [OF context_accepted] by simp

text \<open>A leading hyphen is refused on the raw path, but normalisation can bring one to the front.\<close>

theorem build_path_leading_hyphen: "validate_build_path False ''./-x'' = Inr ''-x''"
  by code_simp

lemma rstrip_char_prefix: "\<exists>t. s = rstrip_char d s @ t \<and> (\<forall>c\<in>set t. c = d)"
proof -
  let ?t = "rev (takeWhile (\<lambda>c. c = d) (rev s))"
  have "s = rstrip_char d s @ ?t"
    unfolding rstrip_char_def rstrip_by_def rev_append [symmetric] by simp
  moreover have "\<forall>c\<in>set ?t. c = d" using set_takeWhileD by fastforce
  ultimately show ?thesis by blast
qed

text \<open>An accepted container mount path is absolute, has no \<open>..\<close> component, no colon (the
  separator of \<open>Volume=\<close>), no NUL and no newline, and no trailing slash unless it is the root.\<close>

theorem mount_path_safe:
  assumes "validate_mount_path p = Inr v"
  shows "startswith v ''/'' \<and> ''..'' \<notin> set (split_char CHR ''/'' p) \<and> CHR '':'' \<notin> set v
    \<and> nul \<notin> set v \<and> nl \<notin> set v \<and> (v \<noteq> ''/'' \<longrightarrow> last v \<noteq> CHR ''/'')"
proof -
  let ?r = "rstrip_char CHR ''/'' p"
  have p: "startswith p ''/''" "CHR '':'' \<notin> set p" "nul \<notin> set p" "nl \<notin> set p"
      "''..'' \<notin> set (split_char CHR ''/'' p)"
    and v: "v = (if ?r = [] then ''/'' else ?r)"
    using assms by (auto simp: validate_mount_path_def Let_def split: if_splits)
  obtain t where t: "p = ?r @ t" using rstrip_char_prefix by blast
  have "set ?r \<subseteq> set p" by (subst t) simp
  moreover have "startswith ?r ''/'' \<or> ?r = []"
    using p(1) t by (cases ?r) (auto simp: startswith_iff)
  moreover have "?r = [] \<or> last ?r \<noteq> CHR ''/''"
    using rstrip_by_cases [of "\<lambda>c. c = CHR ''/''" p] by (simp add: rstrip_char_def)
  ultimately show ?thesis using p by (auto simp: v)
qed

lemma mount_accepted: "validate_mount_path ''/var/lib/data/'' = Inr ''/var/lib/data''"
  by code_simp

theorem mount_path_safe_witness:
  "validate_mount_path ''/var/lib/data/'' = Inr ''/var/lib/data'' \<and> startswith ''/var/lib/data'' ''/''"
  using mount_accepted mount_path_safe [OF mount_accepted] by simp

subsection \<open>Git references, environment variables, domains\<close>

lemma git_repo_head:
  assumes "validate_git_repo repo = Inr v"
  shows "v = repo" "\<forall>c\<in>set repo. safe_char c" "\<exists>c t. repo = c # t \<and> c \<noteq> CHR ''-''"
proof -
  have m: "fullmatch git_https_rx repo \<or> fullmatch git_ssh_rx repo"
    using assms by (auto simp: validate_git_repo_def split: if_splits)
  show "v = repo" using assms by (auto simp: validate_git_repo_def split: if_splits)
  show "\<forall>c\<in>set repo. safe_char c" using m fullmatch_safe by force
  show "\<exists>c t. repo = c # t \<and> c \<noteq> CHR ''-''"
    using m unfolding fullmatch_iff git_https_rx_def git_ssh_rx_def
    by (auto simp: rx_facts)
qed

lemma git_ref_safe:
  assumes "validate_git_ref ref = Inr v"
  shows "v = ref" "\<forall>c\<in>set ref. safe_char c" "\<exists>c t. ref = c # t \<and> c \<noteq> CHR ''-''"
proof -
  have m: "fullmatch git_ref_rx ref"
    using assms by (auto simp: validate_git_ref_def split: if_splits)
  show "v = ref" using assms by (auto simp: validate_git_ref_def split: if_splits)
  show "\<forall>c\<in>set ref. safe_char c" using m fullmatch_safe by force
  have "CHR ''-'' \<notin> {c. list_ex (\<lambda>P. P c) [is_lower, is_upper, is_digit] \<or> c \<in> set []}" by simp
  then show "\<exists>c t. ref = c # t \<and> c \<noteq> CHR ''-''"
    using m unfolding fullmatch_iff git_ref_rx_def cls_def matches_Seq_Cls by force
qed

lemma env_key_safe:
  assumes "validate_env_key k = Inr v"
  shows "v = k" "\<forall>c\<in>set k. safe_char c" "k \<noteq> []"
proof -
  have m: "fullmatch env_key_rx k" and "v = k"
    using assms by (auto simp: validate_env_key_def split: if_splits)
  then show "v = k" "\<forall>c\<in>set k. safe_char c" using fullmatch_safe by force+
  show "k \<noteq> []" using m by (auto simp: fullmatch_iff env_key_rx_def cls_def matches_Seq_Cls)
qed

lemma env_value_line: "validate_env_value k v = Inr w \<Longrightarrow> w = v \<and> nl \<notin> set v \<and> nul \<notin> set v"
  by (auto simp: validate_env_value_def split: if_splits)

lemma domain_safe:
  assumes "validate_domain_name d = Inr v"
  shows "v = d" "d \<noteq> []" "\<forall>c\<in>set d. safe_char c"
  using assms fullmatch_safe [of domain_rx d]
  by (auto simp: validate_domain_name_def split: if_splits)

end
