(* ===== verification/Tenants.thy ===== *)
theory Tenants
  imports Validate
begin

text \<open>
  Tenant Linux users: \<open>backend/app/system/tenants.py\<close> (user names, subid ranges, the command lines and
  the provisioning sequence) and the ledger \<open>backend/app/services/tenancy.py\<close>.  The command runner is
  a parameter \<open>sh\<close> acting on a world \<open>'w\<close>; the ledger is the list of rows of the \<open>tenants\<close> table.
\<close>

subsection \<open>Names and ranges\<close>

definition tenant_rx :: rx where
  "tenant_rx = Seq (lit ''hosty-t-'') (between_rx 1 10 (cls [is_digit] []))"

definition validate_tenant_username :: "string \<Rightarrow> string res" where
  "validate_tenant_username name = (if fullmatch tenant_rx name then Inr name else Inl InvalidCommandError)"

definition linux_user_for :: "int \<Rightarrow> string res" where
  "linux_user_for user_id = validate_tenant_username (''hosty-t-'' @ int_str user_id)"

definition home_dir_for :: "string \<Rightarrow> string res" where
  "home_dir_for linux_user = bind_res (validate_tenant_username linux_user) (\<lambda>u. Inr (''/home/'' @ u))"

definition SUBID_COUNT :: int where "SUBID_COUNT = 65536"
definition SUBID_BASE :: int where "SUBID_BASE = 1000000"

definition subid_range_for :: "int \<Rightarrow> (int \<times> int) res" where
  "subid_range_for index =
     (if index < 0 then Inl InvalidCommandError else Inr (SUBID_BASE + index * SUBID_COUNT, SUBID_COUNT))"

definition validate_range :: "int \<Rightarrow> int \<Rightarrow> (int \<times> int) res" where
  "validate_range start count =
     (if SUBID_BASE \<le> start \<and> 0 < count then Inr (start, count) else Inl InvalidCommandError)"

subsection \<open>Command lines\<close>

definition build_useradd_argv :: "string \<Rightarrow> string list res" where
  "build_useradd_argv name =
     bind_res (validate_tenant_username name) (\<lambda>n. bind_res (home_dir_for n) (\<lambda>home.
       Inr [''useradd'', ''--create-home'', ''--home-dir'', home, ''--shell'', ''/usr/sbin/nologin'',
            ''--comment'', ''hosty tenant'', n]))"

definition build_userdel_argv :: "string \<Rightarrow> string list res" where
  "build_userdel_argv name =
     bind_res (validate_tenant_username name) (\<lambda>n. Inr [''userdel'', ''--remove'', n])"

definition build_add_subids_argv :: "string \<Rightarrow> string \<Rightarrow> int \<Rightarrow> int \<Rightarrow> string list res" where
  "build_add_subids_argv flag name start count =
     bind_res (validate_tenant_username name) (\<lambda>n. bind_res (validate_range start count) (\<lambda>(s, c).
       Inr [''usermod'', flag, int_str s @ ''-'' @ int_str (s + c - 1), n]))"

definition build_linger_argv :: "string \<Rightarrow> bool \<Rightarrow> string list res" where
  "build_linger_argv name enable =
     bind_res (validate_tenant_username name) (\<lambda>n.
       Inr [''loginctl'', if enable then ''enable-linger'' else ''disable-linger'', n])"

definition build_uid_argv :: "string \<Rightarrow> string list res" where
  "build_uid_argv name = bind_res (validate_tenant_username name) (\<lambda>n. Inr [''id'', ''-u'', n])"

subsection \<open>Provisioning\<close>

record command_result =
  cr_returncode :: int
  cr_stdout :: string
  cr_stderr :: string

type_synonym 'w runner = "string list \<Rightarrow> ('w, command_result) act"

definition run_or_raise :: "'w runner \<Rightarrow> string list res \<Rightarrow> ('w, command_result) act" where
  "run_or_raise sh argv =
     bind_act (lift_res argv) (\<lambda>av. bind_act (sh av) (\<lambda>r.
       if cr_returncode r = 0 then ret_act r else raise_act TenantOperationError))"

text \<open>A missing \<open>id\<close> program counts as an absent user.\<close>

definition user_exists :: "'w runner \<Rightarrow> string \<Rightarrow> ('w, bool) act" where
  "user_exists sh name =
     bind_act (lift_res (build_uid_argv name)) (\<lambda>av w.
       case sh av w of
         (Inl e, w') \<Rightarrow> (if e = CommandNotFoundError then Inr False else Inl e, w')
       | (Inr r, w') \<Rightarrow> (Inr (cr_returncode r = 0), w'))"

definition parse_uid :: "string \<Rightarrow> int res" where
  "parse_uid s = (if strip s \<noteq> [] \<and> list_all ascii_digit (strip s) then Inr (int (nat_of_digits (strip s)))
                  else Inl TenantOperationError)"

definition uid_of :: "'w runner \<Rightarrow> string \<Rightarrow> ('w, int) act" where
  "uid_of sh name =
     bind_act (run_or_raise sh (build_uid_argv name)) (\<lambda>r. lift_res (parse_uid (cr_stdout r)))"

text \<open>\<open>bus_ready uid i\<close>: the socket of the user manager is there at the \<open>i\<close>-th of the 40 polls.\<close>

definition wait_for_user_manager :: "(int \<Rightarrow> nat \<Rightarrow> bool) \<Rightarrow> int \<Rightarrow> unit res" where
  "wait_for_user_manager bus_ready uid =
     (if list_ex (bus_ready uid) [0..<40] then Inr () else Inl TenantOperationError)"

definition provision :: "'w runner \<Rightarrow> (int \<Rightarrow> nat \<Rightarrow> bool) \<Rightarrow> string \<Rightarrow> int \<Rightarrow> int \<Rightarrow> ('w, int) act" where
  "provision sh bus_ready name start count =
     bind_act (lift_res (validate_tenant_username name)) (\<lambda>_.
     bind_act (user_exists sh name) (\<lambda>there.
     bind_act (if there then ret_act () else bind_act (run_or_raise sh (build_useradd_argv name)) (\<lambda>_. ret_act ())) (\<lambda>_.
     bind_act (run_or_raise sh (build_add_subids_argv ''--add-subuids'' name start count)) (\<lambda>_.
     bind_act (run_or_raise sh (build_add_subids_argv ''--add-subgids'' name start count)) (\<lambda>_.
     bind_act (run_or_raise sh (build_linger_argv name True)) (\<lambda>_.
     bind_act (uid_of sh name) (\<lambda>uid.
     bind_act (lift_res (wait_for_user_manager bus_ready uid)) (\<lambda>_. ret_act uid))))))))"

definition remove_user :: "'w runner \<Rightarrow> string \<Rightarrow> ('w, bool) act" where
  "remove_user sh name =
     bind_act (lift_res (validate_tenant_username name)) (\<lambda>_.
     bind_act (user_exists sh name) (\<lambda>there.
     if \<not> there then ret_act False
     else bind_act (run_or_raise sh (build_linger_argv name False)) (\<lambda>_.
          bind_act (run_or_raise sh (build_userdel_argv name)) (\<lambda>_. ret_act True))))"

subsection \<open>The ledger\<close>

record tenant_row =
  tn_user_id :: int
  tn_linux_user :: string
  tn_uid :: "int option"
  tn_start :: int
  tn_count :: int

type_synonym ledger = "tenant_row list"

definition allocate_range :: "ledger \<Rightarrow> int \<times> int" where
  "allocate_range rows =
     (if rows = [] then (SUBID_BASE, SUBID_COUNT)
      else (Max (set (map tn_start rows)) + SUBID_COUNT, SUBID_COUNT))"

definition get_tenant :: "ledger \<Rightarrow> int \<Rightarrow> tenant_row option" where
  "get_tenant rows uid = find (\<lambda>r. tn_user_id r = uid) rows"

definition set_uid :: "int \<Rightarrow> int \<Rightarrow> ledger \<Rightarrow> ledger" where
  "set_uid user_id u rows = map (\<lambda>r. if tn_user_id r = user_id then r\<lparr>tn_uid := Some u\<rparr> else r) rows"

text \<open>The row of the user, reserved (committed) when it is new.\<close>

definition reserve :: "ledger \<Rightarrow> int \<Rightarrow> (tenant_row \<times> ledger) res" where
  "reserve rows user_id =
     (case get_tenant rows user_id of
        Some r \<Rightarrow> Inr (r, rows)
      | None \<Rightarrow> bind_res (linux_user_for user_id) (\<lambda>lu.
          (let r = \<lparr>tn_user_id = user_id, tn_linux_user = lu, tn_uid = None,
                    tn_start = fst (allocate_range rows), tn_count = snd (allocate_range rows)\<rparr>
           in Inr (r, rows @ [r]))))"

text \<open>The host is a parameter: \<open>prov\<close> provisions a user and answers its uid, \<open>del\<close> deletes it.\<close>

definition ensure_tenant :: "(string \<Rightarrow> int \<Rightarrow> int \<Rightarrow> ('w, int) act) \<Rightarrow> int \<Rightarrow> (ledger \<times> 'w, tenant_row) act" where
  "ensure_tenant prov user_id = (\<lambda>(rows, w).
     case reserve rows user_id of
       Inl e \<Rightarrow> (Inl e, (rows, w))
     | Inr (r, rows1) \<Rightarrow>
         (case prov (tn_linux_user r) (tn_start r) (tn_count r) w of
            (Inl e, w1) \<Rightarrow> (Inl e, (rows1, w1))
          | (Inr uid, w1) \<Rightarrow>
              (if tn_uid r \<noteq> Some uid
               then (Inr (r\<lparr>tn_uid := Some uid\<rparr>), (set_uid user_id uid rows1, w1))
               else (Inr r, (rows1, w1)))))"

definition remove_tenant :: "(string \<Rightarrow> ('w, bool) act) \<Rightarrow> int \<Rightarrow> (ledger \<times> 'w, bool) act" where
  "remove_tenant del user_id = (\<lambda>(rows, w).
     case get_tenant rows user_id of
       None \<Rightarrow> (Inr False, (rows, w))
     | Some r \<Rightarrow>
         (case del (tn_linux_user r) w of
            (Inl e, w1) \<Rightarrow> (Inl e, (rows, w1))
          | (Inr _, w1) \<Rightarrow> (Inr True, (filter (\<lambda>r. tn_user_id r \<noteq> user_id) rows, w1))))"

subsection \<open>Commands stay with the tenant\<close>

text \<open>A runner that records the command lines; \<open>answers\<close> answers them, knowing the past.\<close>

definition recording :: "(string list list \<Rightarrow> string list \<Rightarrow> command_result res) \<Rightarrow> string list list runner" where
  "recording answers argv trace = (answers trace argv, trace @ [argv])"

definition confined :: "string \<Rightarrow> string list \<Rightarrow> bool" where
  "confined name argv \<longleftrightarrow> fullmatch tenant_rx name \<and> last argv = name
     \<and> hd argv \<in> set [''useradd'', ''userdel'', ''usermod'', ''loginctl'', ''id'']"

lemma argv_confined:
  "build_useradd_argv name = Inr av \<Longrightarrow> confined name av"
  "build_userdel_argv name = Inr av \<Longrightarrow> confined name av"
  "build_add_subids_argv flag name s c = Inr av \<Longrightarrow> confined name av"
  "build_linger_argv name b = Inr av \<Longrightarrow> confined name av"
  "build_uid_argv name = Inr av \<Longrightarrow> confined name av"
  by (auto simp: build_useradd_argv_def build_userdel_argv_def build_add_subids_argv_def build_linger_argv_def
      build_uid_argv_def bind_res_eq_Inr validate_tenant_username_def validate_range_def confined_def
      split: if_splits)

lemma keeps_run:
  assumes "\<And>av. argv = Inr av \<Longrightarrow> confined name av"
  shows "keeps (list_all (confined name)) (run_or_raise (recording answers) argv)"
  using assms
  by (cases argv)
    (auto simp: keeps_def run_or_raise_def bind_act_def lift_res_def recording_def raise_act_def ret_act_def
      split: sum.split)

lemma keeps_exists: "keeps (list_all (confined name)) (user_exists (recording answers) name)"
  using argv_confined(5) [of name]
  by (cases "build_uid_argv name")
    (auto simp: keeps_def user_exists_def bind_act_def lift_res_def recording_def split: sum.split prod.split)

lemmas keeps_commands = keeps_run [OF argv_confined(1)] keeps_run [OF argv_confined(2)]
  keeps_run [OF argv_confined(3)] keeps_run [OF argv_confined(4)] keeps_run [OF argv_confined(5)] keeps_exists

text \<open>C26: provisioning and removal only ever run the five user-management programs, always with a
  well-formed tenant name as the last argument; a name outside the grammar runs nothing and raises.\<close>

theorem tenant_commands_confined:
  "list_all (confined name) (snd (provision (recording answers) bus name start count []))
   \<and> list_all (confined name) (snd (remove_user (recording answers) name []))
   \<and> (fullmatch tenant_rx name \<or>
        provision (recording answers) bus name start count [] = (Inl InvalidCommandError, [])
        \<and> remove_user (recording answers) name [] = (Inl InvalidCommandError, []))"
proof -
  have "keeps (list_all (confined name)) (provision (recording answers) bus name start count)"
    unfolding provision_def uid_of_def by (intro keeps_bind keeps_if keeps_simple keeps_commands)
  moreover have "keeps (list_all (confined name)) (remove_user (recording answers) name)"
    unfolding remove_user_def by (intro keeps_bind keeps_if keeps_simple keeps_commands)
  ultimately show ?thesis
    by (auto simp: keeps_def provision_def remove_user_def validate_tenant_username_def bind_act_def lift_res_def)
qed

theorem tenant_commands_confined_witness:
  "provision (recording (\<lambda>_ _. Inl InvalidCommandError)) (\<lambda>_ _. True) ''root'' 1000000 65536 [] = (Inl InvalidCommandError, [])"
proof -
  have "\<not> fullmatch tenant_rx ''root''" by code_simp
  then show ?thesis using tenant_commands_confined [of "''root''" "\<lambda>_ _. Inl InvalidCommandError" "\<lambda>_ _. True" 1000000 65536] by blast
qed

subsection \<open>The ledger's ranges\<close>

definition ids_of :: "tenant_row \<Rightarrow> int set" where
  "ids_of r = {tn_start r ..< tn_start r + tn_count r}"

definition ledger_ok :: "ledger \<Rightarrow> bool" where
  "ledger_ok rows \<longleftrightarrow> distinct (map tn_user_id rows) \<and> distinct (map tn_start rows)
     \<and> (\<forall>r\<in>set rows. tn_count r = SUBID_COUNT \<and> SUBID_BASE \<le> tn_start r
          \<and> SUBID_COUNT dvd tn_start r - SUBID_BASE)"

lemma aligned_disjoint:
  assumes "SUBID_COUNT dvd a - SUBID_BASE" "SUBID_COUNT dvd b - SUBID_BASE" "a \<noteq> b"
  shows "{a ..< a + SUBID_COUNT} \<inter> {b ..< b + SUBID_COUNT} = {}"
proof -
  obtain i j where "a = SUBID_BASE + SUBID_COUNT * i" "b = SUBID_BASE + SUBID_COUNT * j"
    using assms(1,2) by (metis add_diff_cancel_left' diff_add_cancel dvdE add.commute)
  then show ?thesis using assms(3) by (auto simp: SUBID_COUNT_def SUBID_BASE_def)
qed

lemma ledger_disjoint:
  "ledger_ok rows \<Longrightarrow> r \<in> set rows \<Longrightarrow> r' \<in> set rows \<Longrightarrow> tn_user_id r \<noteq> tn_user_id r' \<Longrightarrow> ids_of r \<inter> ids_of r' = {}"
proof -
  assume ok: "ledger_ok rows" and m: "r \<in> set rows" "r' \<in> set rows" and ne: "tn_user_id r \<noteq> tn_user_id r'"
  have "tn_start r \<noteq> tn_start r'"
    using ok m ne by (metis ledger_ok_def distinct_map inj_onD)
  then show ?thesis
    using ok m aligned_disjoint [of "tn_start r" "tn_start r'"] unfolding ledger_ok_def ids_of_def by auto
qed

lemma allocate_fresh:
  assumes "ledger_ok rows" "allocate_range rows = (start, count)"
  shows "count = SUBID_COUNT" "SUBID_BASE \<le> start" "SUBID_COUNT dvd start - SUBID_BASE" "start \<notin> tn_start ` set rows"
proof -
  have "count = SUBID_COUNT \<and> SUBID_BASE \<le> start \<and> SUBID_COUNT dvd start - SUBID_BASE \<and> start \<notin> tn_start ` set rows"
  proof (cases "rows = []")
    case True
    then show ?thesis using assms by (simp add: allocate_range_def)
  next
    case False
    let ?m = "Max (tn_start ` set rows)"
    have m: "?m \<in> tn_start ` set rows" using False by simp
    then obtain r where r: "r \<in> set rows" "?m = tn_start r" by auto
    have s: "start = ?m + SUBID_COUNT" "count = SUBID_COUNT"
      using assms(2) False by (simp_all add: allocate_range_def)
    have "start \<notin> tn_start ` set rows"
    proof
      assume "start \<in> tn_start ` set rows"
      then have "start \<le> ?m" by simp
      then show False using s by (simp add: SUBID_COUNT_def)
    qed
    moreover have "SUBID_COUNT dvd start - SUBID_BASE"
    proof -
      have "start - SUBID_BASE = (tn_start r - SUBID_BASE) + SUBID_COUNT" using s r by simp
      then show ?thesis using assms(1) r(1) unfolding ledger_ok_def by (metis dvd_add dvd_refl)
    qed
    moreover have "SUBID_BASE \<le> start" using assms(1) r s by (auto simp: ledger_ok_def SUBID_COUNT_def)
    ultimately show ?thesis using s by simp
  qed
  then show "count = SUBID_COUNT" "SUBID_BASE \<le> start" "SUBID_COUNT dvd start - SUBID_BASE" "start \<notin> tn_start ` set rows"
    by auto
qed

lemma get_tenant_None: "get_tenant rows u = None \<longleftrightarrow> u \<notin> tn_user_id ` set rows"
  by (auto simp: get_tenant_def find_None_iff)

lemma get_tenant_Some: "get_tenant rows u = Some r \<Longrightarrow> r \<in> set rows \<and> tn_user_id r = u"
  by (auto simp: get_tenant_def find_Some_iff)

lemma set_uid_ok: "ledger_ok (set_uid u x rows) = ledger_ok rows"
proof -
  have k: "map tn_user_id (set_uid u x rows) = map tn_user_id rows" "map tn_start (set_uid u x rows) = map tn_start rows"
    "map tn_count (set_uid u x rows) = map tn_count rows"
    by (simp_all add: set_uid_def)
  have all: "(\<forall>r\<in>set rows. P (tn_count r) (tn_start r)) \<longleftrightarrow> list_all2 P (map tn_count rows) (map tn_start rows)" for P rows
    by (induction rows) auto
  note all' = all [where P1 = "\<lambda>c s. c = SUBID_COUNT \<and> SUBID_BASE \<le> s \<and> SUBID_COUNT dvd s - SUBID_BASE"]
  show ?thesis unfolding ledger_ok_def all' k ..
qed

lemma reserve_ok:
  assumes "ledger_ok rows" "reserve rows u = Inr (r, rows1)"
  shows "ledger_ok rows1 \<and> r \<in> set rows1 \<and> tn_user_id r = u \<and> set rows \<subseteq> set rows1"
proof (cases "get_tenant rows u")
  case (Some r')
  then show ?thesis using assms get_tenant_Some [OF Some] by (simp add: reserve_def)
next
  case None
  then obtain lu where r: "rows1 = rows @ [r]"
      "r = \<lparr>tn_user_id = u, tn_linux_user = lu, tn_uid = None,
            tn_start = fst (allocate_range rows), tn_count = snd (allocate_range rows)\<rparr>"
    using assms(2) by (auto simp: reserve_def Let_def bind_res_eq_Inr)
  note a = allocate_fresh [OF assms(1), of "fst (allocate_range rows)" "snd (allocate_range rows)", simplified]
  have "ledger_ok rows1"
    using assms(1) a None unfolding r ledger_ok_def get_tenant_None by simp
  then show ?thesis by (auto simp: r)
qed

lemma ensure_ledger:
  assumes "ledger_ok rows"
  shows "ledger_ok (fst (snd (ensure_tenant prov u (rows, w))))"
proof (cases "reserve rows u")
  case (Inr p)
  then obtain r rows1 where p: "reserve rows u = Inr (r, rows1)" by (cases p) auto
  then show ?thesis
    using reserve_ok [OF assms p] set_uid_ok by (auto simp: ensure_tenant_def split: prod.split sum.split)
qed (simp add: ensure_tenant_def assms)

lemma remove_ledger:
  "fst (snd (remove_tenant del u (rows, w))) = rows
   \<or> fst (snd (remove_tenant del u (rows, w))) = filter (\<lambda>r. tn_user_id r \<noteq> u) rows"
  by (auto simp: remove_tenant_def split: option.split prod.split sum.split)

lemma ledger_ok_filter: "ledger_ok rows \<Longrightarrow> ledger_ok (filter P rows)"
  unfolding ledger_ok_def by (metis distinct_map_filter filter_is_subset subsetD)

text \<open>C25: whatever the host answers, ensuring and removing tenants keeps the subid ranges of any two
  tenants of the ledger disjoint, all above the base.\<close>

theorem tenant_ranges_disjoint:
  assumes "ledger_ok rows"
    and "rows' = fst (snd (ensure_tenant prov u (rows, w))) \<or> rows' = fst (snd (remove_tenant del u (rows, w)))"
  shows "ledger_ok rows' \<and> (\<forall>r\<in>set rows'. \<forall>r'\<in>set rows'. tn_user_id r \<noteq> tn_user_id r' \<longrightarrow> ids_of r \<inter> ids_of r' = {})"
proof -
  have "ledger_ok rows'"
    using assms(2) ensure_ledger [OF assms(1), of prov u w] remove_ledger [of del u rows w]
      ledger_ok_filter [OF assms(1)] assms(1) by metis
  then show ?thesis using ledger_disjoint by blast
qed

theorem tenant_ranges_disjoint_witness:
  "ledger_ok (fst (snd (ensure_tenant (\<lambda>_ _ _ w. (Inr 1001, w)) 7 ([], ()))))"
proof -
  have "ledger_ok []" by (simp add: ledger_ok_def)
  from tenant_ranges_disjoint [OF this disjI1 [OF refl]] show ?thesis by (rule conjunct1)
qed

text \<open>The ledger comes before the host.  When the host refuses to provision, the reserved row stays;
  when it refuses to delete, the row stays; the rows of other users never change.\<close>

theorem ledger_before_host:
  assumes "ledger_ok rows" "linux_user_for u = Inr lu" "prov = (\<lambda>_ _ _ w. (Inl e, w))"
  shows "fst (ensure_tenant prov u (rows, w)) = Inl e \<and> get_tenant (fst (snd (ensure_tenant prov u (rows, w)))) u \<noteq> None
    \<and> (\<forall>v. v \<noteq> u \<longrightarrow> get_tenant (fst (snd (ensure_tenant prov' u (rows, w)))) v = get_tenant rows v)
    \<and> fst (snd (remove_tenant (\<lambda>_ w. (Inl e, w)) u (rows, w))) = rows
    \<and> (\<forall>v. v \<noteq> u \<longrightarrow> get_tenant (fst (snd (remove_tenant del u (rows, w)))) v = get_tenant rows v)"
proof -
  obtain r rows1 where r: "reserve rows u = Inr (r, rows1)" "rows1 = rows \<or> (rows1 = rows @ [r])"
    using assms(2) by (cases "get_tenant rows u") (auto simp: reserve_def Let_def)
  have in1: "r \<in> set rows1" "tn_user_id r = u" using reserve_ok [OF assms(1) r(1)] by auto
  have find: "find P (set_uid u x rs) = find P rs" if "\<And>y. tn_user_id y = u \<Longrightarrow> \<not> P y" for P x rs
    using that by (induction rs) (auto simp: set_uid_def)
  have "get_tenant (set_uid u x rs) v = get_tenant rs v" if "v \<noteq> u" for v x rs
    unfolding get_tenant_def by (rule find) (use that in auto)
  moreover have "get_tenant rows1 v = get_tenant rows v" if "v \<noteq> u" for v
    using r(2)
  proof
    assume "rows1 = rows @ [r]"
    moreover have "find P (rows @ [r]) = find P rows" if "\<not> P r" for P
      using that by (induction rows) auto
    ultimately show ?thesis using in1 that by (simp add: get_tenant_def)
  qed simp
  ultimately have "get_tenant (fst (snd (ensure_tenant prov' u (rows, w)))) v = get_tenant rows v" if "v \<noteq> u" for v
    using that r(1) by (auto simp: ensure_tenant_def split: prod.split sum.split)
  moreover have "get_tenant rows1 u \<noteq> None" using in1 by (auto simp: get_tenant_None)
  moreover have "get_tenant (filter (\<lambda>r. tn_user_id r \<noteq> u) rows) v = get_tenant rows v" if "v \<noteq> u" for v
    using that unfolding get_tenant_def by (induction rows) auto
  ultimately show ?thesis
    using r(1) assms(3) remove_ledger [of del u rows w]
    by (auto simp: ensure_tenant_def remove_tenant_def split: option.split)
qed

theorem ledger_before_host_witness:
  "get_tenant (fst (snd (ensure_tenant (\<lambda>_ _ _ w. (Inl TenantOperationError, w)) 7 ([], ())))) 7 \<noteq> None"
proof -
  have "ledger_ok []" "linux_user_for 7 = Inr ''hosty-t-7''" by (simp add: ledger_ok_def) code_simp
  from conjunct1 [OF conjunct2 [OF ledger_before_host [OF this refl]]] show ?thesis .
qed

end
