(* ===== verification/Digest.thy ===== *)
theory Digest
  imports Regex PyString "HOL-Library.Word"
begin

text \<open>
  The two standard-library functions behind \<open>spec_hash\<close> and the HMAC tickets:
  \<open>json.dumps(payload, sort_keys=True, separators=(",", ":"))\<close> on the values the program
  serialises, and \<open>hashlib.sha256(...).hexdigest()\<close> on 32-bit words.
\<close>

unbundle bit_operations_syntax

subsection \<open>Canonical JSON\<close>

datatype json =
    JNull
  | JBool bool
  | JInt int
  | JStr string
  | JList "json list"
  | JObj "(string \<times> json) list"

definition hex_digit :: "nat \<Rightarrow> char" where
  "hex_digit d = (if d < 10 then char_of (48 + d) else char_of (87 + d))"

text \<open>\<open>ensure_ascii\<close>: everything outside space .. tilde is escaped.\<close>

definition json_char :: "char \<Rightarrow> string" where
  "json_char c =
     (if c = CHR 0x22 then [CHR 0x5C, CHR 0x22]
      else if c = CHR 0x5C then [CHR 0x5C, CHR 0x5C]
      else if c = CHR 0x0A then [CHR 0x5C, CHR ''n'']
      else if c = CHR 0x0D then [CHR 0x5C, CHR ''r'']
      else if c = CHR 0x09 then [CHR 0x5C, CHR ''t'']
      else if c = CHR 0x0C then [CHR 0x5C, CHR ''f'']
      else if c = CHR 0x08 then [CHR 0x5C, CHR ''b'']
      else if CHR '' '' \<le> c \<and> c \<le> CHR ''~'' then [c]
      else [CHR 0x5C, CHR ''u'', CHR ''0'', CHR ''0'', hex_digit (of_char c div 16),
            hex_digit (of_char c mod 16)])"

definition json_string :: "string \<Rightarrow> string" where
  "json_string s = [CHR 0x22] @ concat (map json_char s) @ [CHR 0x22]"

fun json_dumps :: "json \<Rightarrow> string" where
  "json_dumps JNull = ''null''"
| "json_dumps (JBool b) = (if b then ''true'' else ''false'')"
| "json_dumps (JInt i) = int_str i"
| "json_dumps (JStr s) = json_string s"
| "json_dumps (JList xs) = ''['' @ join '','' (map json_dumps xs) @ '']''"
| "json_dumps (JObj kvs) =
     ''{'' @ join '','' (map snd (sort_key fst
        (map (\<lambda>kv. (fst kv, json_string (fst kv) @ '':'' @ json_dumps (snd kv))) kvs))) @ ''}''"

subsection \<open>SHA-256\<close>

type_synonym w32 = "32 word"

definition sha_k :: "w32 list" where
  "sha_k =
    [1116352408, 1899447441, 3049323471, 3921009573, 961987163, 1508970993, 2453635748, 2870763221,
     3624381080, 310598401, 607225278, 1426881987, 1925078388, 2162078206, 2614888103, 3248222580,
     3835390401, 4022224774, 264347078, 604807628, 770255983, 1249150122, 1555081692, 1996064986,
     2554220882, 2821834349, 2952996808, 3210313671, 3336571891, 3584528711, 113926993, 338241895,
     666307205, 773529912, 1294757372, 1396182291, 1695183700, 1986661051, 2177026350, 2456956037,
     2730485921, 2820302411, 3259730800, 3345764771, 3516065817, 3600352804, 4094571909, 275423344,
     430227734, 506948616, 659060556, 883997877, 958139571, 1322822218, 1537002063, 1747873779,
     1955562222, 2024104815, 2227730452, 2361852424, 2428436474, 2756734187, 3204031479, 3329325298]"

record sha_state =
  ha :: w32 hb :: w32 hc :: w32 hd' :: w32 he :: w32 hf :: w32 hg :: w32 hh :: w32

definition sha_init :: sha_state where
  "sha_init = \<lparr>ha = 0x6a09e667, hb = 0xbb67ae85, hc = 0x3c6ef372, hd' = 0xa54ff53a,
     he = 0x510e527f, hf = 0x9b05688c, hg = 0x1f83d9ab, hh = 0x5be0cd19\<rparr>"

text \<open>One message byte per character; a block is sixteen big-endian words.\<close>

definition be_word :: "w32 list \<Rightarrow> w32" where
  "be_word bs = foldl (\<lambda>w b. push_bit 8 w OR b) 0 bs"

fun chunks :: "nat \<Rightarrow> 'a list \<Rightarrow> nat \<Rightarrow> 'a list list" where
  "chunks 0 xs n = []"
| "chunks (Suc fuel) xs n = (if xs = [] then [] else take n xs # chunks fuel (drop n xs) n)"

definition sha_pad :: "string \<Rightarrow> w32 list" where
  "sha_pad s =
     (let n = length s; bits = 8 * n
      in map (\<lambda>c. word_of_nat (of_char c)) s @ [0x80]
         @ replicate ((119 - n mod 64) mod 64) 0
         @ map (\<lambda>i. word_of_nat (bits div 256 ^ i mod 256)) [7, 6, 5, 4, 3, 2, 1, 0])"

text \<open>The message schedule, newest word first.\<close>

fun sha_extend :: "nat \<Rightarrow> w32 list \<Rightarrow> w32 list" where
  "sha_extend 0 ws = ws"
| "sha_extend (Suc n) ws =
     (let w15 = ws ! 14; w2 = ws ! 1;
          s0 = word_rotr 7 w15 XOR word_rotr 18 w15 XOR drop_bit 3 w15;
          s1 = word_rotr 17 w2 XOR word_rotr 19 w2 XOR drop_bit 10 w2
      in sha_extend n ((ws ! 15 + s0 + ws ! 6 + s1) # ws))"

definition sha_round :: "sha_state \<Rightarrow> w32 \<times> w32 \<Rightarrow> sha_state" where
  "sha_round st kw =
     (let s1 = word_rotr 6 (he st) XOR word_rotr 11 (he st) XOR word_rotr 25 (he st);
          ch = (he st AND hf st) XOR (NOT (he st) AND hg st);
          t1 = hh st + s1 + ch + fst kw + snd kw;
          s0 = word_rotr 2 (ha st) XOR word_rotr 13 (ha st) XOR word_rotr 22 (ha st);
          maj = (ha st AND hb st) XOR (ha st AND hc st) XOR (hb st AND hc st)
      in \<lparr>ha = t1 + (s0 + maj), hb = ha st, hc = hb st, hd' = hc st, he = hd' st + t1,
          hf = he st, hg = hf st, hh = hg st\<rparr>)"

definition sha_block :: "sha_state \<Rightarrow> w32 list \<Rightarrow> sha_state" where
  "sha_block st block =
     (let ws = rev (sha_extend 48 (rev (map be_word (chunks 16 block 4))));
          r = foldl sha_round st (zip sha_k ws)
      in \<lparr>ha = ha st + ha r, hb = hb st + hb r, hc = hc st + hc r, hd' = hd' st + hd' r,
          he = he st + he r, hf = hf st + hf r, hg = hg st + hg r, hh = hh st + hh r\<rparr>)"

definition sha256_words :: "string \<Rightarrow> w32 list" where
  "sha256_words s =
     (let bytes = sha_pad s; r = foldl sha_block sha_init (chunks (length bytes) bytes 64)
      in [ha r, hb r, hc r, hd' r, he r, hf r, hg r, hh r])"

definition word_hex :: "w32 \<Rightarrow> string" where
  "word_hex w = map (\<lambda>i. hex_digit (unat (drop_bit (4 * i) w) mod 16)) [7, 6, 5, 4, 3, 2, 1, 0]"

definition sha256_hex :: "string \<Rightarrow> string" where
  "sha256_hex s = concat (map word_hex (sha256_words s))"

lemma hex_digit_is_hex: "d < 16 \<Longrightarrow> is_hex (hex_digit d)"
proof -
  assume "d < 16"
  then have "d \<in> {0..<16}" by simp
  also have "{0..<16} = set [0, 1, 2, 3, 4, 5, 6, 7, 8, 9, 10, 11, 12, 13, 14, 15 :: nat]"
    by code_simp
  finally have "d \<in> set [0, 1, 2, 3, 4, 5, 6, 7, 8, 9, 10, 11, 12, 13, 14, 15]" .
  moreover have "list_all (\<lambda>d. is_hex (hex_digit d))
      [0, 1, 2, 3, 4, 5, 6, 7, 8, 9, 10, 11, 12, 13, 14, 15]"
    by (simp add: hex_digit_def is_hex_def is_digit_def less_eq_char_def of_char_of
        take_bit_eq_mod)
  ultimately show ?thesis by (simp only: list_all_iff)
qed

lemma word_hex_props: "length (word_hex w) = 8" "c \<in> set (word_hex w) \<Longrightarrow> is_hex c"
  by (auto simp: word_hex_def intro: hex_digit_is_hex)

lemma sha256_hex_length: "length (sha256_hex s) = 64"
  by (simp add: sha256_hex_def sha256_words_def Let_def word_hex_props(1))

lemma sha256_hex_chars: "c \<in> set (sha256_hex s) \<Longrightarrow> is_hex c"
  by (auto simp: sha256_hex_def word_hex_props(2))

end
