(* ===== verification/Specs.thy ===== *)
theory Specs
  imports Validate Digest
begin

text \<open>
  The desired- and observed-state specs of \<open>backend/app/domain/specs.py\<close>.  The frozen dataclasses
  are records; each \<open>__post_init__\<close> is a function that returns the (normalised) record or the
  exception it raises, with its checks in the source's order.  \<open>spec_hash\<close> is the convergence
  fingerprint, computed exactly as the source does: SHA-256 of the canonical JSON of the payload.
\<close>

subsection \<open>Records\<close>

record volume_spec =
  v_name :: string
  v_service :: string
  v_mount_path :: string

record service_spec =
  s_name :: string
  s_image :: string
  s_env :: "(string \<times> string) list"
  s_internal_port :: "int option"
  s_host_port :: "int option"
  s_memory_mb :: "int option"
  s_cpu_percent :: "int option"
  s_is_web :: bool
  s_build_repo :: "string option"
  s_build_branch :: "string option"
  s_build_tool :: string
  s_build_context :: string
  s_dockerfile_path :: string
  s_build_args :: "(string \<times> string) list"
  s_exposed :: bool
  s_depends_on :: "string list"
  s_command :: "string list"
  s_post_start_command :: string
  s_hc_enabled :: bool
  s_hc_path :: string
  s_hc_port :: "int option"
  s_hc_interval :: int
  s_hc_retries :: int
  s_hc_start_period :: int
  s_hc_timeout :: int
  s_zero_downtime :: bool

record endpoint_spec =
  e_domain :: string
  e_service :: string
  e_behind_cloudflare :: bool

record stack_spec =
  st_name :: string
  st_tenant :: string
  st_loopback_ip :: string
  st_services :: "service_spec list"
  st_volumes :: "volume_spec list"
  st_endpoints :: "endpoint_spec list"
  st_suspended :: bool
  st_server_id :: "int option"
  st_generation :: int

text \<open>The dataclass defaults.\<close>

definition service_defaults :: "string \<Rightarrow> string \<Rightarrow> service_spec" where
  "service_defaults name img =
     \<lparr>s_name = name, s_image = img, s_env = [], s_internal_port = None, s_host_port = None,
      s_memory_mb = None, s_cpu_percent = None, s_is_web = False, s_build_repo = None,
      s_build_branch = None, s_build_tool = ''dockerfile'', s_build_context = ''.'',
      s_dockerfile_path = ''Dockerfile'', s_build_args = [], s_exposed = False,
      s_depends_on = [], s_command = [], s_post_start_command = [], s_hc_enabled = False,
      s_hc_path = ''/health'', s_hc_port = None, s_hc_interval = 10, s_hc_retries = 3,
      s_hc_start_period = 30, s_hc_timeout = 5, s_zero_downtime = False\<rparr>"

definition has_build :: "service_spec \<Rightarrow> bool" where
  "has_build s \<longleftrightarrow> truthy (s_build_repo s)"

subsection \<open>Construction is validation\<close>

definition volume_post_init :: "volume_spec \<Rightarrow> volume_spec res" where
  "volume_post_init v =
     bind_res (validate_slug (v_name v)) (\<lambda>_.
     bind_res (validate_slug (v_service v)) (\<lambda>_.
     bind_res (validate_mount_path (v_mount_path v)) (\<lambda>_. Inr v)))"

definition check_pair :: "string \<times> string \<Rightarrow> unit res" where
  "check_pair kv = bind_res (validate_env_key (fst kv)) (\<lambda>_.
     bind_res (validate_env_value (fst kv) (snd kv)) (\<lambda>_. Inr ()))"

text \<open>\<open>list(pairs) == sorted(pairs)\<close>: tuples compare lexicographically.\<close>

definition pair_le :: "string \<times> string \<Rightarrow> string \<times> string \<Rightarrow> bool" where
  "pair_le a b \<longleftrightarrow> fst a < fst b \<or> (fst a = fst b \<and> snd a \<le> snd b)"

definition pairs_sorted :: "(string \<times> string) list \<Rightarrow> bool" where
  "pairs_sorted = sorted_wrt pair_le"

definition service_build_init :: "service_spec \<Rightarrow> service_spec res" where
  "service_build_init s =
     bind_res (validate_git_repo (the (s_build_repo s))) (\<lambda>_.
     bind_res (if truthy (s_build_branch s) then validate_git_ref (the (s_build_branch s))
               else Inr []) (\<lambda>_.
     bind_res (guard (s_build_tool s \<in> set [''dockerfile'', ''nixpacks'']) SpecValidationError) (\<lambda>_.
     bind_res (validate_build_path True (s_build_context s)) (\<lambda>ctx.
     bind_res (validate_build_path False (s_dockerfile_path s)) (\<lambda>df.
     bind_res (check_each check_pair (s_build_args s)) (\<lambda>_.
     bind_res (guard (pairs_sorted (s_build_args s)) SpecValidationError) (\<lambda>_.
     Inr (s\<lparr>s_build_context := ctx, s_dockerfile_path := df\<rparr>))))))))"

definition service_post_init :: "service_spec \<Rightarrow> service_spec res" where
  "service_post_init s =
     bind_res (validate_slug (s_name s)) (\<lambda>_.
     bind_res (guard (\<not> (s_exposed s \<and> s_internal_port s = None)) SpecValidationError) (\<lambda>_.
     bind_res (if has_build s then service_build_init s
               else bind_res (validate_image_ref (s_image s)) (\<lambda>img. Inr (s\<lparr>s_image := img\<rparr>))) (\<lambda>s.
     bind_res (check_each check_pair (s_env s)) (\<lambda>_.
     bind_res (guard (pairs_sorted (s_env s)) SpecValidationError) (\<lambda>_.
     bind_res (case s_internal_port s of None \<Rightarrow> Inr 0 | Some p \<Rightarrow> validate_port p) (\<lambda>_.
     bind_res (guard (case s_memory_mb s of None \<Rightarrow> True | Some m \<Rightarrow> 16 \<le> m \<and> m \<le> 1048576)
                SpecValidationError) (\<lambda>_.
     bind_res (guard (case s_cpu_percent s of None \<Rightarrow> True | Some c \<Rightarrow> 1 \<le> c \<and> c \<le> 6400)
                SpecValidationError) (\<lambda>_. Inr s))))))))"

definition endpoint_post_init :: "endpoint_spec \<Rightarrow> endpoint_spec res" where
  "endpoint_post_init e =
     bind_res (validate_domain_name (e_domain e)) (\<lambda>_.
     bind_res (validate_slug (e_service e)) (\<lambda>_. Inr e))"

definition tenant_ok :: "string \<Rightarrow> bool" where
  "tenant_ok t \<longleftrightarrow> startswith t ''hosty-t-'' \<and> isdigit (drop (length ''hosty-t-'') t)"

text \<open>The loop over the volumes keeps the pairs already seen.\<close>

fun volumes_check :: "string list \<Rightarrow> (string \<times> string) list \<Rightarrow> volume_spec list \<Rightarrow> unit res" where
  "volumes_check known seen [] = Inr ()"
| "volumes_check known seen (v # vs) =
     (if (v_name v, v_service v) \<in> set seen then Inl SpecValidationError
      else if v_service v \<notin> set known then Inl SpecValidationError
      else volumes_check known ((v_name v, v_service v) # seen) vs)"

definition find_service :: "service_spec list \<Rightarrow> string \<Rightarrow> service_spec option" where
  "find_service ss n = find (\<lambda>s. s_name s = n) ss"

definition endpoint_check :: "service_spec list \<Rightarrow> endpoint_spec \<Rightarrow> unit res" where
  "endpoint_check ss e =
     (case find_service ss (e_service e) of
        None \<Rightarrow> Inl SpecValidationError
      | Some target \<Rightarrow> guard (s_internal_port target \<noteq> None) SpecValidationError)"

definition stack_post_init :: "stack_spec \<Rightarrow> stack_spec res" where
  "stack_post_init st =
     (let names = map s_name (st_services st) in
     bind_res (validate_slug (st_name st)) (\<lambda>_.
     bind_res (guard (tenant_ok (st_tenant st)) SpecValidationError) (\<lambda>_.
     bind_res (guard (st_services st \<noteq> []) SpecValidationError) (\<lambda>_.
     bind_res (guard (distinct names) SpecValidationError) (\<lambda>_.
     bind_res (volumes_check names [] (st_volumes st)) (\<lambda>_.
     bind_res (guard (distinct (map e_domain (st_endpoints st))) SpecValidationError) (\<lambda>_.
     bind_res (check_each (\<lambda>s. guard (list_all (\<lambda>d. d \<in> set names) (s_depends_on s))
                 SpecValidationError) (st_services st)) (\<lambda>_.
     bind_res (check_each (endpoint_check (st_services st)) (st_endpoints st)) (\<lambda>_.
     Inr st)))))))))"

subsection \<open>Derived names and ports\<close>

definition network :: "stack_spec \<Rightarrow> string" where
  "network st = ''hosty-'' @ st_name st"

definition unit_base :: "stack_spec \<Rightarrow> string \<Rightarrow> string" where
  "unit_base st service = st_name st @ ''-'' @ service"

definition volumes_for :: "stack_spec \<Rightarrow> string \<Rightarrow> volume_spec list" where
  "volumes_for st service = filter (\<lambda>v. v_service v = service) (st_volumes st)"

definition derive_host_port :: "int \<Rightarrow> int" where
  "derive_host_port p = (if p < 1024 then p + 20000 else p)"

subsection \<open>The convergence fingerprint\<close>

definition json_opt :: "('a \<Rightarrow> json) \<Rightarrow> 'a option \<Rightarrow> json" where
  "json_opt f x = (case x of None \<Rightarrow> JNull | Some v \<Rightarrow> f v)"

definition json_pairs :: "(string \<times> string) list \<Rightarrow> json" where
  "json_pairs kvs = JList (map (\<lambda>(k, v). JList [JStr k, JStr v]) kvs)"

definition spec_payload :: "stack_spec \<Rightarrow> service_spec \<Rightarrow> json" where
  "spec_payload st s = JObj
     [(''image'', JStr (s_image s)),
      (''env'', json_pairs (s_env s)),
      (''internal_port'', json_opt JInt (s_internal_port s)),
      (''exposed'', JBool (s_exposed s)),
      (''memory_mb'', json_opt JInt (s_memory_mb s)),
      (''cpu_percent'', json_opt JInt (s_cpu_percent s)),
      (''build_repo'', json_opt JStr (s_build_repo s)),
      (''build_branch'', json_opt JStr (s_build_branch s)),
      (''build_tool'', JStr (s_build_tool s)),
      (''build_context'', JStr (s_build_context s)),
      (''dockerfile_path'', JStr (s_dockerfile_path s)),
      (''build_args'', json_pairs (s_build_args s)),
      (''loopback_ip'', JStr (st_loopback_ip st)),
      (''network'', JStr (network st)),
      (''volumes'', json_pairs (map (\<lambda>v. (v_name v, v_mount_path v)) (volumes_for st (s_name s)))),
      (''depends_on'', JList (map JStr (s_depends_on s))),
      (''command'', JList (map JStr (s_command s))),
      (''post_start_command'', JStr (s_post_start_command s)),
      (''health_check_enabled'', JBool (s_hc_enabled s)),
      (''health_check_path'', JStr (s_hc_path s)),
      (''health_check_port'', json_opt JInt (s_hc_port s)),
      (''health_check_interval'', JInt (s_hc_interval s)),
      (''health_check_retries'', JInt (s_hc_retries s)),
      (''health_check_start_period'', JInt (s_hc_start_period s)),
      (''health_check_timeout'', JInt (s_hc_timeout s)),
      (''generation'', JInt (st_generation st)),
      (''zero_downtime_deploy'', JBool (s_zero_downtime s))]"

definition spec_hash :: "stack_spec \<Rightarrow> service_spec \<Rightarrow> string" where
  "spec_hash st s = take 32 (sha256_hex (json_dumps (spec_payload st s)))"

subsection \<open>Observed state\<close>

record observed_unit =
  ou_spec_hash :: "string option"
  ou_active :: bool

record observed_stack =
  os_tenant :: string
  os_tenant_present :: bool
  os_units :: "(string, observed_unit) fmap"
  os_build_units :: "(string, string option) fmap"
  os_volume_dirs :: "string fset"

type_synonym observed = "(string, observed_stack) fmap"

subsection \<open>What a constructed spec satisfies\<close>

definition endpoint_ok :: "stack_spec \<Rightarrow> endpoint_spec \<Rightarrow> bool" where
  "endpoint_ok st e \<longleftrightarrow>
     (\<exists>s\<in>set (st_services st). s_name s = e_service e \<and> s_internal_port s \<noteq> None)"

definition stack_wf :: "stack_spec \<Rightarrow> bool" where
  "stack_wf st \<longleftrightarrow>
     (\<exists>n. validate_slug (st_name st) = Inr n) \<and> tenant_ok (st_tenant st)
     \<and> st_services st \<noteq> [] \<and> distinct (map s_name (st_services st))
     \<and> distinct (map (\<lambda>v. (v_name v, v_service v)) (st_volumes st))
     \<and> (\<forall>v\<in>set (st_volumes st). v_service v \<in> s_name ` set (st_services st))
     \<and> distinct (map e_domain (st_endpoints st))
     \<and> (\<forall>s\<in>set (st_services st). set (s_depends_on s) \<subseteq> s_name ` set (st_services st))
     \<and> (\<forall>e\<in>set (st_endpoints st). endpoint_ok st e)"

lemma volumes_check_Inr:
  "volumes_check known seen vs = Inr u \<longleftrightarrow>
     distinct (map (\<lambda>v. (v_name v, v_service v)) vs)
     \<and> set (map (\<lambda>v. (v_name v, v_service v)) vs) \<inter> set seen = {}
     \<and> (\<forall>v\<in>set vs. v_service v \<in> set known)"
  by (induction vs arbitrary: seen) auto

lemma find_service_Some:
  "distinct (map s_name ss) \<Longrightarrow> find_service ss n = Some s \<longleftrightarrow> s \<in> set ss \<and> s_name s = n"
  unfolding find_service_def by (induction ss) auto

lemma find_service_None: "find_service ss n = None \<longleftrightarrow> n \<notin> s_name ` set ss"
  unfolding find_service_def by (auto simp: find_None_iff)

lemma endpoint_check_Inr:
  assumes "distinct (map s_name (st_services st))"
  shows "endpoint_check (st_services st) e = Inr u \<longleftrightarrow> endpoint_ok st e"
proof (cases "find_service (st_services st) (e_service e)")
  case None
  then have "\<not> endpoint_ok st e" unfolding find_service_None endpoint_ok_def by force
  then show ?thesis using None by (simp add: endpoint_check_def)
next
  case (Some s)
  have s: "s \<in> set (st_services st)" "s_name s = e_service e"
    using Some find_service_Some [OF assms, of "e_service e" s] by simp_all
  have "t = s" if "t \<in> set (st_services st)" "s_name t = e_service e" for t
    using Some find_service_Some [OF assms, of "e_service e" t] that by simp
  then have "endpoint_ok st e \<longleftrightarrow> s_internal_port s \<noteq> None"
    using s unfolding endpoint_ok_def by blast
  then show ?thesis using Some by (simp add: endpoint_check_def)
qed

lemma stack_post_init_iff:
  "stack_post_init st = Inr st' \<longleftrightarrow> st' = st \<and> stack_wf st"
proof (cases "distinct (map s_name (st_services st))")
  case True
  have names: "list_all (\<lambda>d. d \<in> set (map s_name ss)) ds \<longleftrightarrow> set ds \<subseteq> s_name ` set ss" for ss ds
    by (auto simp: list_all_iff)
  show ?thesis
    unfolding stack_post_init_def Let_def stack_wf_def names
    by (auto simp: bind_res_eq_Inr check_each_Inr volumes_check_Inr endpoint_check_Inr [OF True])
next
  case False
  then show ?thesis
    by (auto simp: stack_post_init_def stack_wf_def Let_def bind_res_eq_Inr)
qed

text \<open>Constructing a \<open>StackSpec\<close> succeeds exactly when the stack is internally consistent:
  service names are distinct, every volume and every dependency names a service of the stack, and
  every endpoint resolves to a service that publishes a port.\<close>

theorem stack_construction_is_validation:
  "stack_post_init st = Inr st' \<longleftrightarrow> st' = st \<and> stack_wf st"
  by (rule stack_post_init_iff)

definition env_ok :: "(string \<times> string) list \<Rightarrow> bool" where
  "env_ok kvs \<longleftrightarrow> pairs_sorted kvs \<and>
     (\<forall>(k, v)\<in>set kvs. k \<noteq> [] \<and> (\<forall>c\<in>set k. safe_char c) \<and> nl \<notin> set v \<and> nul \<notin> set v)"

lemma check_pair_Inr:
  "check_pair kv = Inr u \<Longrightarrow>
     fst kv \<noteq> [] \<and> (\<forall>c\<in>set (fst kv). safe_char c) \<and> nl \<notin> set (snd kv) \<and> nul \<notin> set (snd kv)"
  unfolding check_pair_def bind_res_eq_Inr
  using env_key_safe env_value_line by blast

lemma pairs_checked: "check_each check_pair kvs = Inr u \<Longrightarrow> pairs_sorted kvs \<Longrightarrow> env_ok kvs"
  unfolding env_ok_def check_each_Inr using check_pair_Inr by (auto, fastforce+)

definition service_wf :: "service_spec \<Rightarrow> bool" where
  "service_wf s \<longleftrightarrow>
     (\<exists>n. validate_slug (s_name s) = Inr n) \<and> env_ok (s_env s)
     \<and> (s_exposed s \<longrightarrow> s_internal_port s \<noteq> None)
     \<and> (\<forall>p. s_internal_port s = Some p \<longrightarrow> 1 \<le> p \<and> p \<le> 65535)
     \<and> (\<forall>m. s_memory_mb s = Some m \<longrightarrow> 16 \<le> m \<and> m \<le> 1048576)
     \<and> (\<forall>c. s_cpu_percent s = Some c \<longrightarrow> 1 \<le> c \<and> c \<le> 6400)
     \<and> (if has_build s
         then env_ok (s_build_args s) \<and> (\<forall>c\<in>set (the (s_build_repo s)). safe_char c)
              \<and> ''..'' \<notin> set (path_parts (s_build_context s))
              \<and> ''..'' \<notin> set (path_parts (s_dockerfile_path s))
         else qualify_image (s_image s) = s_image s \<and> (\<forall>c\<in>set (s_image s). safe_char c))"

lemma path_contained:
  "validate_build_path d p = Inr v \<Longrightarrow> ''..'' \<notin> set (path_parts v)"
  by (auto simp: validate_build_path_def Let_def split: if_splits)

lemma image_accepted:
  "validate_image_ref img = Inr v \<Longrightarrow> qualify_image v = v \<and> (\<forall>c\<in>set v. safe_char c)"
proof -
  assume a: "validate_image_ref img = Inr v"
  then have m: "fullmatch image_rx img" and v: "v = qualify_image img"
    by (auto simp: validate_image_ref_def split: if_splits)
  have "\<forall>c\<in>set (''docker.io/library/'' @ img). safe_char c"
    using fullmatch_safe [OF m] by (auto simp: safe_char_def)
  then show ?thesis using qualify_image_cases [of img] by (auto simp: v qualify_image_idem)
qed

lemma service_build_Inr:
  assumes "service_build_init s = Inr s'" "has_build s"
  shows "\<exists>ctx df. s' = s\<lparr>s_build_context := ctx, s_dockerfile_path := df\<rparr> \<and>
    env_ok (s_build_args s) \<and> (\<forall>c\<in>set (the (s_build_repo s)). safe_char c) \<and>
    ''..'' \<notin> set (path_parts ctx) \<and> ''..'' \<notin> set (path_parts df)"
proof -
  obtain r ctx df where r: "validate_git_repo (the (s_build_repo s)) = Inr r"
    and ctx: "validate_build_path True (s_build_context s) = Inr ctx"
    and df: "validate_build_path False (s_dockerfile_path s) = Inr df"
    and args: "check_each check_pair (s_build_args s) = Inr ()" "pairs_sorted (s_build_args s)"
    and s': "s' = s\<lparr>s_build_context := ctx, s_dockerfile_path := df\<rparr>"
    using assms(1) unfolding service_build_init_def bind_res_eq_Inr guard_eq_Inr by auto
  show ?thesis
    using s' pairs_checked [OF args] git_repo_head(2) [OF r] path_contained [OF ctx]
      path_contained [OF df] by blast
qed

text \<open>A service spec that exists is well-formed: a slug name, canonical one-line environment
  pairs, a port, memory and CPU share in range, a port whenever it is exposed, and either a fully
  qualified safe image or a safe repository with build paths inside the checkout.\<close>

theorem service_construction_wf:
  assumes "service_post_init s = Inr s'"
  shows "service_wf s'"
proof -
  obtain s1 where s1: "(if has_build s then service_build_init s
      else bind_res (validate_image_ref (s_image s)) (\<lambda>img. Inr (s\<lparr>s_image := img\<rparr>))) = Inr s1"
    and slug: "\<exists>n. validate_slug (s_name s) = Inr n" and exp: "\<not> (s_exposed s \<and> s_internal_port s = None)"
    and env: "check_each check_pair (s_env s1) = Inr ()" "pairs_sorted (s_env s1)"
    and port: "\<exists>q. (case s_internal_port s1 of None \<Rightarrow> Inr 0 | Some p \<Rightarrow> validate_port p) = Inr q"
    and mem: "case s_memory_mb s1 of None \<Rightarrow> True | Some m \<Rightarrow> 16 \<le> m \<and> m \<le> 1048576"
    and cpu: "case s_cpu_percent s1 of None \<Rightarrow> True | Some c \<Rightarrow> 1 \<le> c \<and> c \<le> 6400" and s': "s' = s1"
    using assms unfolding service_post_init_def bind_res_eq_Inr guard_eq_Inr by auto
  have range: "\<forall>p. s_internal_port s1 = Some p \<longrightarrow> 1 \<le> p \<and> p \<le> 65535"
    "\<forall>m. s_memory_mb s1 = Some m \<longrightarrow> 16 \<le> m \<and> m \<le> 1048576"
    "\<forall>c. s_cpu_percent s1 = Some c \<longrightarrow> 1 \<le> c \<and> c \<le> 6400"
    using port mem cpu by (auto simp: validate_port_def split: if_splits)
  show ?thesis
  proof (cases "has_build s")
    case True
    then obtain ctx df where e: "s1 = s\<lparr>s_build_context := ctx, s_dockerfile_path := df\<rparr>"
        "env_ok (s_build_args s)" "\<forall>c\<in>set (the (s_build_repo s)). safe_char c"
        "''..'' \<notin> set (path_parts ctx)" "''..'' \<notin> set (path_parts df)"
      using service_build_Inr [of s s1] s1 by auto
    then have "has_build s1" using True by (simp add: has_build_def)
    then show ?thesis
      using e slug exp range pairs_checked [OF env] by (simp add: s' service_wf_def)
  next
    case False
    then obtain img where e: "s1 = s\<lparr>s_image := img\<rparr>" "validate_image_ref (s_image s) = Inr img"
      using s1 by (auto simp: bind_res_eq_Inr)
    then have "\<not> has_build s1" using False by (simp add: has_build_def)
    then show ?thesis
      using e slug exp range pairs_checked [OF env] image_accepted [OF e(2)]
      by (simp add: s' service_wf_def)
  qed
qed

definition example_service :: service_spec where
  "example_service = (service_defaults ''web'' ''nginx:1.27'')
     \<lparr>s_internal_port := Some 80, s_is_web := True, s_env := [(''APP_ENV'', ''prod'')]\<rparr>"

definition example_service' :: service_spec where
  "example_service' = example_service\<lparr>s_image := ''docker.io/library/nginx:1.27''\<rparr>"

lemma example_service_ok: "service_post_init example_service = Inr example_service'"
  by code_simp

theorem service_construction_wf_witness:
  "service_post_init example_service = Inr example_service' \<and> service_wf example_service'"
  using example_service_ok service_construction_wf [OF example_service_ok] by simp

subsection \<open>Host ports\<close>

text \<open>The published port of a valid internal port is an unprivileged valid port, and two
  different internal ports collide exactly when one is privileged and the other is its image.\<close>

theorem derive_host_port_collision:
  assumes "1 \<le> p" "p < q" "q \<le> 65535"
  shows "1024 \<le> derive_host_port p \<and> derive_host_port p \<le> 65535 \<and>
    (derive_host_port p = derive_host_port q \<longleftrightarrow> p < 1024 \<and> q = p + 20000)"
  using assms by (auto simp: derive_host_port_def)

theorem derive_host_port_collision_witness:
  "derive_host_port 80 = derive_host_port 20080 \<and> derive_host_port 80 \<noteq> derive_host_port 443"
  using derive_host_port_collision [of 80 20080] derive_host_port_collision [of 80 443] by simp

subsection \<open>The fingerprint\<close>

lemma spec_hash_format: "length (spec_hash st s) = 32" "c \<in> set (spec_hash st s) \<Longrightarrow> is_hex c"
  by (auto simp: spec_hash_def sha256_hex_length dest: in_set_takeD sha256_hex_chars)

lemma spec_hash_cong:
  "st_name st = st_name st' \<Longrightarrow> st_loopback_ip st = st_loopback_ip st' \<Longrightarrow>
   st_generation st = st_generation st' \<Longrightarrow> volumes_for st (s_name s) = volumes_for st' (s_name s) \<Longrightarrow>
   spec_hash st s = spec_hash st' s"
  by (simp add: spec_hash_def spec_payload_def network_def)

text \<open>Endpoints, suspension, the server, the tenant and the other services' volumes are not part
  of a service's fingerprint (the generation is).\<close>

theorem spec_hash_ignores_ingress:
  "spec_hash (st\<lparr>st_endpoints := es, st_suspended := b, st_server_id := i\<rparr>) s = spec_hash st s"
  by (rule spec_hash_cong) (simp_all add: volumes_for_def)

end
