(* ===== verification/Quadlet.thy ===== *)
theory Quadlet
  imports Specs Tenants
begin

text \<open>
  Unit rendering: \<open>backend/app/system/quadlet.py\<close> and \<open>backend/app/system/git_sync.py\<close>.  A unit text is
  the list of its lines joined by newlines.  The two em dashes of the fixed text are written as their
  UTF-8 bytes.  The paths raise for a tenant name outside the grammar, so rendering returns a result.
\<close>

subsection \<open>Markers and paths\<close>

definition em_dash :: string where "em_dash = [CHR 0xE2, CHR 0x80, CHR 0x94]"

definition managed_header :: string where
  "managed_header = ''# hosty-managed '' @ em_dash @ '' generated by the panel; manual edits are overwritten''"

definition spec_hash_marker :: string where "spec_hash_marker = ''# hosty-spec-hash=''"
definition stack_marker :: string where "stack_marker = ''# hosty-stack=''"
definition service_marker :: string where "service_marker = ''# hosty-service=''"

definition unit_dir :: "int \<Rightarrow> string res" where
  "unit_dir uid = (if uid \<le> 0 then Inl ValueError else Inr (''/etc/containers/systemd/users/'' @ int_str uid))"

definition systemd_user_unit_dir :: "string \<Rightarrow> string res" where
  "systemd_user_unit_dir tenant = bind_res (home_dir_for tenant) (\<lambda>h. Inr (h @ ''/.config/systemd/user''))"

definition stacks_root :: "string \<Rightarrow> string res" where
  "stacks_root tenant = bind_res (home_dir_for tenant) (\<lambda>h. Inr (h @ ''/stacks''))"

definition stack_dir :: "string \<Rightarrow> string \<Rightarrow> string res" where
  "stack_dir tenant st = bind_res (stacks_root tenant) (\<lambda>r. Inr (r @ ''/'' @ st))"

definition volume_host_dir :: "string \<Rightarrow> string \<Rightarrow> string \<Rightarrow> string res" where
  "volume_host_dir tenant st v = bind_res (stack_dir tenant st) (\<lambda>d. Inr (d @ ''/volumes/'' @ v))"

definition env_file_path :: "string \<Rightarrow> string \<Rightarrow> string \<Rightarrow> string res" where
  "env_file_path tenant st svc = bind_res (stack_dir tenant st) (\<lambda>d. Inr (d @ ''/env/'' @ svc @ ''.env''))"

definition build_env_file_path :: "string \<Rightarrow> string \<Rightarrow> string \<Rightarrow> string res" where
  "build_env_file_path tenant st svc = bind_res (stack_dir tenant st) (\<lambda>d. Inr (d @ ''/env/'' @ svc @ ''.build.env''))"

definition container_file_name :: "string \<Rightarrow> string \<Rightarrow> string" where
  "container_file_name st svc = st @ ''-'' @ svc @ ''.container''"

definition network_file_name :: "string \<Rightarrow> string" where
  "network_file_name st = st @ ''.network''"

definition service_unit_name :: "string \<Rightarrow> string \<Rightarrow> string" where
  "service_unit_name st svc = st @ ''-'' @ svc @ ''.service''"

definition pairs_text :: "(string \<times> string) list \<Rightarrow> string" where
  "pairs_text kvs = concat (map (\<lambda>(k, v). k @ ''='' @ v @ [nl]) kvs)"

definition env_file_text :: "service_spec \<Rightarrow> string" where
  "env_file_text s = pairs_text (s_env s)"

subsection \<open>Python formatting\<close>

text \<open>\<open>repr\<close> of a string: the quote is chosen by content, the rest is escaped.\<close>

definition repr_char :: "char \<Rightarrow> char \<Rightarrow> string" where
  "repr_char q c =
     (let n = of_char c :: nat in
      if c = q \<or> c = CHR 0x5C then [CHR 0x5C, c]
      else if n = 9 then [CHR 0x5C, CHR ''t'']
      else if n = 10 then [CHR 0x5C, CHR ''n'']
      else if n = 13 then [CHR 0x5C, CHR ''r'']
      else if n < 32 \<or> (127 \<le> n \<and> n \<le> 160) \<or> n = 173
        then [CHR 0x5C, CHR ''x'', hex_digit (n div 16), hex_digit (n mod 16)]
      else [c])"

definition py_repr :: "string \<Rightarrow> string" where
  "py_repr s =
     (let q = (if CHR 0x27 \<in> set s \<and> CHR 0x22 \<notin> set s then CHR 0x22 else CHR 0x27)
      in q # concat (map (repr_char q) s) @ [q])"

text \<open>\<open>f"{c / 100:g}"\<close>.\<close>

definition percent_str :: "int \<Rightarrow> string" where
  "percent_str c =
     int_str (c div 100) @
     (let r = nat (c mod 100)
      in if r = 0 then [] else if r mod 10 = 0 then [CHR ''.'', digit_char (r div 10)]
         else [CHR ''.'', digit_char (r div 10), digit_char (r mod 10)])"

subsection \<open>Unit texts\<close>

definition image_tag :: "stack_spec \<Rightarrow> service_spec \<Rightarrow> string" where
  "image_tag st s = ''hosty/'' @ st_name st @ ''-'' @ s_name s @ '':latest''"

text \<open>The volumes of a name: one mounting service makes it exclusive.\<close>

definition owner_count :: "stack_spec \<Rightarrow> string \<Rightarrow> nat" where
  "owner_count st n = length (filter (\<lambda>v. v_name v = n) (st_volumes st))"

definition header_lines :: "stack_spec \<Rightarrow> service_spec \<Rightarrow> string list" where
  "header_lines st s =
     [managed_header, stack_marker @ st_name st, service_marker @ s_name s, spec_hash_marker @ spec_hash st s, []]"

definition needs_lines :: "string \<Rightarrow> string list" where
  "needs_lines u = [''Requires='' @ u, ''After='' @ u]"

definition unit_section :: "stack_spec \<Rightarrow> service_spec \<Rightarrow> string list" where
  "unit_section st s =
     [''[Unit]'', ''Description=hosty stack '' @ st_name st @ '' '' @ em_dash @ '' service '' @ s_name s]
     @ (if has_build s
        then needs_lines (st_name st @ ''-'' @ s_name s @ ''-''
               @ (if s_build_tool s = ''nixpacks'' then ''nixpacks'' else ''build'') @ ''.service'') else [])
     @ concat (map (\<lambda>d. needs_lines (st_name st @ ''-'' @ d @ ''.service'')) (s_depends_on s))"

definition publish_lines :: "stack_spec \<Rightarrow> service_spec \<Rightarrow> string list" where
  "publish_lines st s =
     (case s_internal_port s of
        None \<Rightarrow> []
      | Some p \<Rightarrow> [''PublishPort='' @ (if s_exposed s then ''0.0.0.0'' else st_loopback_ip st)
                     @ '':'' @ int_str (derive_host_port p) @ '':'' @ int_str p])"

definition health_lines :: "service_spec \<Rightarrow> string list" where
  "health_lines s =
     (case s_internal_port s of
        Some p \<Rightarrow>
          if s_hc_enabled s then
            (let port = (case s_hc_port s of None \<Rightarrow> p | Some q \<Rightarrow> if q = 0 then p else q);
                 path = (if s_hc_path s = [] then ''/health'' else s_hc_path s)
             in [''HealthCmd=curl -sf http://localhost:'' @ int_str port @ path @ '' || exit 1'',
                 ''HealthInterval='' @ int_str (s_hc_interval s) @ ''s'',
                 ''HealthRetries='' @ int_str (s_hc_retries s),
                 ''HealthStartPeriod='' @ int_str (s_hc_start_period s) @ ''s'',
                 ''HealthTimeout='' @ int_str (s_hc_timeout s) @ ''s''])
          else []
      | None \<Rightarrow> [])"

definition volume_line :: "stack_spec \<Rightarrow> volume_spec \<Rightarrow> string res" where
  "volume_line st v =
     bind_res (volume_host_dir (st_tenant st) (st_name st) (v_name v)) (\<lambda>d.
       Inr (''Volume='' @ d @ '':'' @ v_mount_path v @ (if owner_count st (v_name v) = 1 then '':U'' else [])))"

definition podman_args :: "service_spec \<Rightarrow> string" where
  "podman_args s =
     join '' '' ([''--network-alias='' @ s_name s]
       @ (case s_memory_mb s of None \<Rightarrow> [] | Some m \<Rightarrow> [''--memory='' @ int_str m @ ''m''])
       @ (case s_cpu_percent s of None \<Rightarrow> [] | Some c \<Rightarrow> [''--cpus='' @ percent_str c]))"

definition container_section :: "stack_spec \<Rightarrow> service_spec \<Rightarrow> string list" where
  "container_section st s =
     [[], ''[Container]'', ''ContainerName='' @ st_name st @ ''-'' @ s_name s,
      ''Image='' @ (if has_build s then image_tag st s else s_image s),
      ''Network='' @ network_file_name (st_name st),
      ''NoNewPrivileges=true'', ''LogDriver=journald'',
      ''Label=hosty.stack='' @ st_name st, ''Label=hosty.managed=1'']
     @ publish_lines st s
     @ (if s_command s = [] then [] else [''Exec='' @ join '' '' (s_command s)])
     @ (if s_post_start_command s = [] then []
        else [''ExecStartPost=/usr/bin/podman exec '' @ st_name st @ ''-'' @ s_name s @ '' sh -c ''
              @ py_repr (s_post_start_command s)])
     @ health_lines s"

definition service_section :: "string list" where
  "service_section = [[], ''[Service]'', ''Restart=always'', ''TimeoutStartSec=300'', [], ''[Install]'',
     ''WantedBy=default.target'', []]"

definition env_lines :: "stack_spec \<Rightarrow> service_spec \<Rightarrow> string list res" where
  "env_lines st s =
     (if s_env s = [] then Inr []
      else bind_res (env_file_path (st_tenant st) (st_name st) (s_name s)) (\<lambda>p. Inr [''EnvironmentFile='' @ p]))"

definition container_lines :: "stack_spec \<Rightarrow> service_spec \<Rightarrow> string list res" where
  "container_lines st s =
     bind_res (env_lines st s) (\<lambda>env.
     bind_res (map_res (volume_line st) (volumes_for st (s_name s))) (\<lambda>vols.
     Inr (header_lines st s @ unit_section st s @ container_section st s @ env @ vols
          @ [''PodmanArgs='' @ podman_args s] @ service_section)))"

definition container_unit :: "stack_spec \<Rightarrow> service_spec \<Rightarrow> string res" where
  "container_unit st s = bind_res (container_lines st s) (\<lambda>ls. Inr (join [nl] ls))"

definition network_unit :: "stack_spec \<Rightarrow> string" where
  "network_unit st = join [nl]
     [managed_header, stack_marker @ st_name st, [], ''[Network]'', ''NetworkName='' @ network st,
      ''Label=hosty.stack='' @ st_name st, ''Label=hosty.managed=1'', []]"

definition workspace :: "stack_spec \<Rightarrow> string" where
  "workspace st = ''%h/stacks/'' @ st_name st @ ''/src''"

definition sync_name :: "stack_spec \<Rightarrow> string" where
  "sync_name st = st_name st @ ''-git-sync.service''"

definition build_section :: "stack_spec \<Rightarrow> service_spec \<Rightarrow> string \<Rightarrow> string \<Rightarrow> string list" where
  "build_section st s tool dir =
     [''[Unit]'',
      ''Description=hosty '' @ tool @ '' build '' @ st_name st @ '' '' @ em_dash @ '' service '' @ s_name s,
      ''After='' @ sync_name st, ''Requires='' @ sync_name st,
      ''PartOf='' @ st_name st @ ''-'' @ s_name s @ ''.service'',
      [], ''[Service]'', ''Type=oneshot'', ''WorkingDirectory='' @ dir]"

definition tag_line :: "stack_spec \<Rightarrow> service_spec \<Rightarrow> string" where
  "tag_line st s = ''ExecStart=/usr/bin/podman tag '' @ image_tag st s @ '' '' @ image_tag st s @ '':gen-''
     @ int_str (st_generation st)"

definition dockerfile_build_unit :: "stack_spec \<Rightarrow> service_spec \<Rightarrow> string res" where
  "dockerfile_build_unit st s =
     (let dir = (if s_build_context s = ''.'' then workspace st else workspace st @ ''/'' @ s_build_context s)
      in bind_res (if s_build_args s = [] then Inr []
                   else bind_res (build_env_file_path (st_tenant st) (st_name st) (s_name s))
                          (\<lambda>p. Inr [''EnvironmentFile='' @ p])) (\<lambda>env.
         Inr (join [nl] (header_lines st s @ build_section st s ''Dockerfile'' dir @ env
           @ [''ExecStart=/usr/bin/podman build --file '' @ s_dockerfile_path s @ '' --tag '' @ image_tag st s
                @ '' --cache-from '' @ image_tag st s
                @ concat (map (\<lambda>(k, _). '' --build-arg '' @ k) (s_build_args s)) @ '' .'',
              tag_line st s, ''RemainAfterExit=yes'', ''TimeoutStartSec=1800'', [], ''[Install]'',
              ''WantedBy=default.target'', []]))))"

definition nixpacks_build_unit :: "stack_spec \<Rightarrow> service_spec \<Rightarrow> string" where
  "nixpacks_build_unit st s = join [nl] (header_lines st s @ build_section st s ''Nixpacks'' (workspace st)
     @ [''ExecStart=/usr/bin/env nixpacks build . --name '' @ image_tag st s @ '' --cache-path %h/.cache/nixpacks/''
          @ st_name st @ ''-'' @ s_name s,
        tag_line st s, ''TimeoutStartSec=1800'', [], ''[Install]'', ''WantedBy=default.target''])"

text \<open>\<open>urlparse(repo).netloc\<close> of a URL that starts with \<open>https://\<close>: up to the next slash, question mark
  or hash.\<close>

definition netloc :: "string \<Rightarrow> string" where
  "netloc repo = takeWhile (\<lambda>c. c \<notin> set ''/?#'') (removeprefix repo ''https://'')"

definition git_sync_unit :: "stack_spec \<Rightarrow> string option \<Rightarrow> string" where
  "git_sync_unit st token =
     (case find has_build (st_services st) of
        None \<Rightarrow> []
      | Some svc \<Rightarrow>
          (let repo = the (s_build_repo svc);
               branch = (if truthy (s_build_branch svc) then the (s_build_branch svc) else ''main'');
               git_bin = (if truthy token \<and> startswith repo ''https://''
                 then ''/usr/bin/git -c url.https://x-access-token:'' @ the token @ ''@'' @ netloc repo
                      @ ''/.insteadOf=https://'' @ netloc repo @ ''/''
                 else ''/usr/bin/git'')
           in join [nl]
             ([managed_header, stack_marker @ st_name st, [], ''[Unit]'',
               ''Description=Sync Git repository for stack '' @ st_name st,
               ''After=network-online.target'', ''Wants=network-online.target'']
              @ map (\<lambda>s. ''PartOf='' @ st_name st @ ''-'' @ s_name s @ ''-build.service'')
                  (filter has_build (st_services st))
              @ [[], ''[Service]'', ''Type=oneshot'', ''ExecStartPre=-/usr/bin/rm -rf '' @ workspace st,
                 ''ExecStart='' @ git_bin @ '' clone --depth 1 --branch '' @ branch
                   @ '' --single-branch --recurse-submodules --shallow-submodules '' @ repo @ '' '' @ workspace st,
                 ''RemainAfterExit=yes'', [], ''[Install]'', ''WantedBy=default.target'', []])))"

subsection \<open>The complete file set\<close>

definition service_files :: "stack_spec \<Rightarrow> service_spec \<Rightarrow> (string \<times> string) list res" where
  "service_files st s =
     bind_res (container_unit st s) (\<lambda>c.
     bind_res (if \<not> has_build s then Inr []
               else if s_build_tool s = ''nixpacks''
               then Inr [(st_name st @ ''-'' @ s_name s @ ''-nixpacks.service'', nixpacks_build_unit st s)]
               else bind_res (dockerfile_build_unit st s)
                      (\<lambda>b. Inr [(st_name st @ ''-'' @ s_name s @ ''-build.service'', b)])) (\<lambda>bs.
     Inr ((container_file_name (st_name st) (s_name s), c) # bs)))"

definition unit_files :: "stack_spec \<Rightarrow> string option \<Rightarrow> (string, string) fmap res" where
  "unit_files st token =
     bind_res (map_res (service_files st) (st_services st)) (\<lambda>fs.
       Inr (dict_of ([(network_file_name (st_name st), network_unit st)] @ concat fs
         @ (if list_ex has_build (st_services st) then [(sync_name st, git_sync_unit st token)] else []))))"

definition env_files :: "stack_spec \<Rightarrow> (string, string) fmap res" where
  "env_files st =
     bind_res (map_res (\<lambda>s. bind_res (env_file_path (st_tenant st) (st_name st) (s_name s))
         (\<lambda>p. Inr (p, env_file_text s))) (filter (\<lambda>s. s_env s \<noteq> []) (st_services st))) (\<lambda>es.
     bind_res (map_res (\<lambda>s. bind_res (build_env_file_path (st_tenant st) (st_name st) (s_name s))
         (\<lambda>p. Inr (p, pairs_text (s_build_args s)))) (filter (\<lambda>s. s_build_args s \<noteq> []) (st_services st))) (\<lambda>bs.
     Inr (dict_of (es @ bs))))"

subsection \<open>Reading the markers back\<close>

text \<open>\<open>^# marker=([...]+)$\<close> in multi-line mode: the first line of that form.\<close>

definition marker_value :: "string \<Rightarrow> (string \<Rightarrow> bool) \<Rightarrow> string \<Rightarrow> string option" where
  "marker_value m ok line =
     (if startswith line m \<and> ok (removeprefix line m) then Some (removeprefix line m) else None)"

definition read_marker :: "string \<Rightarrow> (string \<Rightarrow> bool) \<Rightarrow> string \<Rightarrow> string option" where
  "read_marker m ok text = Option.bind (find (\<lambda>l. marker_value m ok l \<noteq> None) (split_char nl text)) (marker_value m ok)"

definition hash_value :: "string \<Rightarrow> bool" where
  "hash_value v \<longleftrightarrow> length v = 32 \<and> list_all (\<lambda>c. CHR ''a'' \<le> c \<and> c \<le> CHR ''f'' \<or> is_digit c) v"

definition name_value :: "string \<Rightarrow> bool" where
  "name_value v \<longleftrightarrow> 1 \<le> length v \<and> length v \<le> 32 \<and> list_all (\<lambda>c. is_lower c \<or> is_digit c \<or> c = CHR ''-'') v"

definition read_spec_hash :: "string \<Rightarrow> string option" where
  "read_spec_hash = read_marker spec_hash_marker hash_value"

definition read_stack_marker :: "string \<Rightarrow> string option" where
  "read_stack_marker = read_marker stack_marker name_value"

definition read_service_marker :: "string \<Rightarrow> string option" where
  "read_service_marker = read_marker service_marker name_value"

subsection \<open>The markers survive the round trip\<close>

lemma split_join_Cons:
  "nl \<notin> set l \<Longrightarrow> split_char nl (join [nl] (l # ls)) = l # (if ls = [] then [] else split_char nl (join [nl] ls))"
  by (simp add: join_Cons)

lemma join_append_Cons: "xs \<noteq> [] \<Longrightarrow> \<exists>c. join [nl] (x # xs) = x @ nl # c"
  by (cases xs) auto

lemma read_marker_skip:
  "nl \<notin> set l \<Longrightarrow> marker_value m ok l = None \<Longrightarrow> ls \<noteq> [] \<Longrightarrow>
     read_marker m ok (join [nl] (l # ls)) = read_marker m ok (join [nl] ls)"
  by (simp add: read_marker_def split_join_Cons)

lemma read_marker_hit:
  "nl \<notin> set m \<Longrightarrow> nl \<notin> set v \<Longrightarrow> ok v \<Longrightarrow> read_marker m ok (join [nl] ((m @ v) # ls)) = Some v"
  by (simp add: read_marker_def split_join_Cons marker_value_def del: join.simps)

lemma read_marker_none:
  "(\<And>l. l \<in> set ls \<Longrightarrow> nl \<notin> set l \<and> marker_value m ok l = None) \<Longrightarrow> ls \<noteq> [] \<Longrightarrow>
     read_marker m ok (join [nl] ls) = None"
proof -
  assume l: "\<And>l. l \<in> set ls \<Longrightarrow> nl \<notin> set l \<and> marker_value m ok l = None" and "ls \<noteq> []"
  then have s: "split_char nl (join [nl] ls) = ls" by (simp add: split_char_join)
  have "find (\<lambda>l. marker_value m ok l \<noteq> None) ls = None" using l by (auto simp: find_None_iff)
  then show ?thesis unfolding read_marker_def s by simp
qed

lemma marker_chars [simp]:
  "nl \<notin> set stack_marker" "nl \<notin> set service_marker" "nl \<notin> set spec_hash_marker" "nl \<notin> set managed_header"
  by (simp_all add: stack_marker_def service_marker_def spec_hash_marker_def managed_header_def em_dash_def)

lemma marker_mismatch [simp]:
  "marker_value stack_marker ok managed_header = None"
  "marker_value service_marker ok managed_header = None"
  "marker_value spec_hash_marker ok managed_header = None"
  "marker_value service_marker ok (stack_marker @ x) = None"
  "marker_value spec_hash_marker ok (stack_marker @ x) = None"
  "marker_value spec_hash_marker ok (service_marker @ x) = None"
  by (simp_all add: marker_value_def stack_marker_def service_marker_def spec_hash_marker_def managed_header_def)

lemma slug_name: "validate_slug n = Inr v \<Longrightarrow> name_value n \<and> nl \<notin> set n"
  by (auto simp: validate_slug_iff name_value_def list_all_iff slug_char_def class_defs less_eq_char_def Suc_le_eq)

lemma hash_ok: "hash_value (spec_hash st s)" "nl \<notin> set (spec_hash st s)"
proof -
  have "\<not> is_hex nl" by (simp add: is_hex_def class_defs less_eq_char_def)
  then show "nl \<notin> set (spec_hash st s)" using spec_hash_format(2) by blast
  show "hash_value (spec_hash st s)"
    using spec_hash_format(1) [of st s] spec_hash_format(2) [where st = st and s = s]
    by (auto simp: hash_value_def list_all_iff is_hex_def)
qed

lemma header_reads:
  assumes "validate_slug (st_name st) = Inr a" "validate_slug (s_name s) = Inr b" "rest \<noteq> []"
  shows "read_stack_marker (join [nl] (header_lines st s @ rest)) = Some (st_name st)"
    "read_service_marker (join [nl] (header_lines st s @ rest)) = Some (s_name s)"
    "read_spec_hash (join [nl] (header_lines st s @ rest)) = Some (spec_hash st s)"
  using slug_name [OF assms(1)] slug_name [OF assms(2)] hash_ok [of st s]
  by (simp_all add: header_lines_def read_stack_marker_def read_service_marker_def read_spec_hash_def
      read_marker_skip read_marker_hit del: join.simps)

lemma join_headed: "u = join [nl] (hs @ rest) \<Longrightarrow> rest \<noteq> [] \<Longrightarrow> \<exists>rest. rest \<noteq> [] \<and> u = join [nl] (hs @ rest)"
  by blast

lemma container_header:
  assumes "container_unit st s = Inr u"
  shows "\<exists>rest. rest \<noteq> [] \<and> u = join [nl] (header_lines st s @ rest)"
proof -
  obtain env vols where "u = join [nl] (header_lines st s @ (unit_section st s @ container_section st s @ env @ vols
      @ [''PodmanArgs='' @ podman_args s] @ service_section))"
    using assms by (auto simp: container_unit_def container_lines_def bind_res_eq_Inr)
  then show ?thesis by (rule join_headed) simp
qed

lemma build_header:
  assumes "dockerfile_build_unit st s = Inr u"
  shows "\<exists>rest. rest \<noteq> [] \<and> u = join [nl] (header_lines st s @ rest)"
proof -
  let ?dir = "if s_build_context s = ''.'' then workspace st else workspace st @ ''/'' @ s_build_context s"
  obtain env rest where "rest \<noteq> []" "u = join [nl] (header_lines st s @ (build_section st s ''Dockerfile'' ?dir @ env @ rest))"
    using assms unfolding dockerfile_build_unit_def Let_def bind_res_eq_Inr by blast
  then show ?thesis by - (rule join_headed, assumption, simp)
qed

lemma nixpacks_header: "\<exists>rest. rest \<noteq> [] \<and> nixpacks_build_unit st s = join [nl] (header_lines st s @ rest)"
  unfolding nixpacks_build_unit_def by (rule join_headed [OF refl]) simp

text \<open>Whatever else a unit holds, the observer reads back from it exactly the stack, the service and
  the fingerprint it was rendered for; this holds for the container unit and both build units.\<close>

theorem unit_markers_roundtrip:
  assumes "validate_slug (st_name st) = Inr a" "validate_slug (s_name s) = Inr b"
    and "container_unit st s = Inr u \<or> dockerfile_build_unit st s = Inr u \<or> u = nixpacks_build_unit st s"
  shows "read_stack_marker u = Some (st_name st) \<and> read_service_marker u = Some (s_name s)
    \<and> read_spec_hash u = Some (spec_hash st s)"
proof -
  obtain rest where "rest \<noteq> []" "u = join [nl] (header_lines st s @ rest)"
    using assms(3) container_header build_header nixpacks_header by blast
  then show ?thesis using header_reads [OF assms(1,2)] by simp
qed

text \<open>The names of unit files do not determine the stack: two stacks of one tenant can render to the
  same file, and so to the same systemd unit and container.\<close>

theorem unit_names_collide:
  "\<exists>st1 svc1 st2 svc2. st1 \<noteq> st2 \<and> validate_slug st1 = Inr st1 \<and> validate_slug svc1 = Inr svc1
     \<and> validate_slug st2 = Inr st2 \<and> validate_slug svc2 = Inr svc2
     \<and> container_file_name st1 svc1 = container_file_name st2 svc2
     \<and> service_unit_name st1 svc1 = service_unit_name st2 svc2"
proof -
  have "validate_slug ''a'' = Inr ''a''" "validate_slug ''b-c'' = Inr ''b-c''"
    "validate_slug ''a-b'' = Inr ''a-b''" "validate_slug ''c'' = Inr ''c''"
    by code_simp+
  then show ?thesis
    by (intro exI [of _ "''a''"] exI [of _ "''b-c''"] exI [of _ "''a-b''"] exI [of _ "''c''"])
      (simp add: container_file_name_def service_unit_name_def)
qed

subsection \<open>What a rendered container unit can say\<close>

lemma nl_int_str [simp]: "nl \<notin> set (int_str n)"
  by (simp add: int_str_def nat_str_no)

lemma nl_repr [simp]: "nl \<notin> set (py_repr s)"
proof -
  have "list_all (\<lambda>n. nl \<noteq> hex_digit n) [0..<16]" by code_simp
  then have h: "nl \<noteq> hex_digit n" if "n < 16" for n using that by (simp add: list_all_iff)
  have d: "of_char c div 16 < (16::nat)" for c :: char
    using nat_of_char_less_256 [of c] by (simp add: less_mult_imp_div_less)
  have "nl \<notin> set (repr_char q c)" if "q \<noteq> nl" for q c
    using that h [OF d, of c] h [of "of_char c mod 16"] by (auto simp: repr_char_def Let_def)
  then show ?thesis by (auto simp: py_repr_def Let_def)
qed

text \<open>No newline in the parts of a unit that are copied as they are.\<close>

definition one_line :: "string \<Rightarrow> bool" where "one_line x \<longleftrightarrow> nl \<notin> set x"

definition rendered_ok :: "stack_spec \<Rightarrow> service_spec \<Rightarrow> bool" where
  "rendered_ok st s \<longleftrightarrow>
     list_all one_line ([st_name st, s_name s, st_tenant st, st_loopback_ip st, s_image s, s_hc_path s]
       @ s_depends_on s @ s_command s @ map v_name (st_volumes st) @ map v_mount_path (st_volumes st))"

lemma one_line_append [simp]: "one_line (x @ y) \<longleftrightarrow> one_line x \<and> one_line y"
  by (simp add: one_line_def)

lemma one_line_Cons [simp]: "one_line (c # x) \<longleftrightarrow> c \<noteq> nl \<and> one_line x"
  by (auto simp: one_line_def)

lemma one_line_simps [simp]:
  "one_line []" "one_line (int_str n)" "one_line (py_repr x)" "one_line managed_header" "one_line stack_marker"
  "one_line service_marker" "one_line spec_hash_marker" "one_line (spec_hash st s)" "one_line em_dash"
  by (simp_all add: one_line_def hash_ok em_dash_def)

lemma one_line_percent: "0 \<le> c \<Longrightarrow> one_line (percent_str c)"
proof -
  assume "0 \<le> c"
  have "list_all (\<lambda>n. nl \<noteq> digit_char n) [0..<10]" by code_simp
  then have h: "nl \<noteq> digit_char n" if "n < 10" for n using that by (simp add: list_all_iff)
  have "nat (c mod 100) < 100" by simp
  then have "nat (c mod 100) div 10 < 10" by (simp add: less_mult_imp_div_less)
  then show ?thesis using h [of "nat (c mod 100) div 10"] h [of "nat (c mod 100) mod 10"]
    by (auto simp: percent_str_def Let_def)
qed

lemma one_line_join: "one_line sep \<Longrightarrow> list_all one_line ws \<Longrightarrow> one_line (join sep ws)"
  by (induction ws) (auto simp: join_Cons)

lemma home_dir_line: "home_dir_for t = Inr h \<Longrightarrow> h = ''/home/'' @ t"
  by (auto simp: home_dir_for_def validate_tenant_username_def bind_res_eq_Inr split: if_splits)

lemma volume_host_dir_Inr: "volume_host_dir t st v = Inr d \<Longrightarrow> d = ''/home/'' @ t @ ''/stacks/'' @ st @ ''/volumes/'' @ v"
  by (auto simp: volume_host_dir_def stack_dir_def stacks_root_def bind_res_eq_Inr dest!: home_dir_line)

lemma env_file_path_Inr: "env_file_path t st s = Inr p \<Longrightarrow> p = ''/home/'' @ t @ ''/stacks/'' @ st @ ''/env/'' @ s @ ''.env''"
  by (auto simp: env_file_path_def stack_dir_def stacks_root_def bind_res_eq_Inr dest!: home_dir_line)

text \<open>The lines that depend on the file system layout.\<close>

definition volume_text :: "stack_spec \<Rightarrow> volume_spec \<Rightarrow> string" where
  "volume_text st v = ''Volume=/home/'' @ st_tenant st @ ''/stacks/'' @ st_name st @ ''/volumes/'' @ v_name v
     @ '':'' @ v_mount_path v @ (if owner_count st (v_name v) = 1 then '':U'' else [])"

lemma volume_line_Inr: "volume_line st v = Inr l \<Longrightarrow> l = volume_text st v"
  by (auto simp: volume_line_def volume_text_def bind_res_eq_Inr dest!: volume_host_dir_Inr)

lemma container_lines_shape:
  assumes "container_lines st s = Inr ls"
  shows "ls = header_lines st s @ unit_section st s @ container_section st s
    @ (if s_env s = [] then [] else [''EnvironmentFile=/home/'' @ st_tenant st @ ''/stacks/'' @ st_name st @ ''/env/''
         @ s_name s @ ''.env''])
    @ map (volume_text st) (volumes_for st (s_name s)) @ [''PodmanArgs='' @ podman_args s] @ service_section"
proof -
  obtain env vols where e: "env_lines st s = Inr env" and v: "map_res (volume_line st) (volumes_for st (s_name s)) = Inr vols"
    and ls: "ls = header_lines st s @ unit_section st s @ container_section st s @ env @ vols
      @ [''PodmanArgs='' @ podman_args s] @ service_section"
    using assms by (auto simp: container_lines_def bind_res_eq_Inr)
  have "vols = map (volume_text st) (volumes_for st (s_name s))"
    using v volume_line_Inr by (rule map_res_det)
  moreover have "env = (if s_env s = [] then [] else [''EnvironmentFile=/home/'' @ st_tenant st @ ''/stacks/''
      @ st_name st @ ''/env/'' @ s_name s @ ''.env''])"
    using e by (auto simp: env_lines_def bind_res_eq_Inr dest!: env_file_path_Inr split: if_splits)
  ultimately show ?thesis by (simp add: ls)
qed

lemma container_one_line:
  assumes "container_lines st s = Inr ls" "rendered_ok st s" "case s_cpu_percent s of None \<Rightarrow> True | Some c \<Rightarrow> 0 \<le> c"
  shows "list_all one_line ls"
proof -
  have p: "one_line (podman_args s)"
    unfolding podman_args_def using assms(2,3)
    by (intro one_line_join) (auto simp: rendered_ok_def one_line_percent split: option.splits)
  have h: "list_all one_line (health_lines s)" "list_all one_line (publish_lines st s)"
    using assms(2) by (auto simp: health_lines_def publish_lines_def rendered_ok_def Let_def split: option.splits)
  have c: "one_line (join '' '' (s_command s))" using assms(2) by (intro one_line_join) (auto simp: rendered_ok_def)
  have v: "list_all one_line (map (volume_text st) (volumes_for st (s_name s)))"
    using assms(2) by (auto simp: rendered_ok_def volume_text_def volumes_for_def list_all_iff)
  have u: "list_all one_line (unit_section st s)"
    using assms(2) by (auto simp: unit_section_def needs_lines_def rendered_ok_def list_all_iff)
  have x: "list_all one_line (container_section st s)"
    using assms(2) h c by (auto simp: container_section_def rendered_ok_def image_tag_def network_file_name_def)
  show ?thesis
    unfolding container_lines_shape [OF assms(1)]
    using assms(2) p v u x by (auto simp: header_lines_def service_section_def rendered_ok_def)
qed

lemma mid_line: "nl \<notin> set line \<Longrightarrow> line \<in> set (split_char nl (x @ nl # line @ nl # y))"
  by (simp add: split_char_at)

lemma split_join_set: "ls \<noteq> [] \<Longrightarrow> set (split_char nl (join [nl] ls)) = (\<Union>l\<in>set ls. set (split_char nl l))"
proof (induction ls)
  case (Cons l ls)
  then show ?case by (cases "ls = []") (simp_all add: join_Cons split_char_at)
qed simp

lemma container_unit_iff: "container_unit st s = Inr u \<longleftrightarrow> (\<exists>ls. container_lines st s = Inr ls \<and> u = join [nl] ls)"
  by (auto simp: container_unit_def bind_res_eq_Inr)

lemma member_section:
  "l \<in> set (header_lines st s) \<Longrightarrow> \<not> startswith l ''PublishPort='' \<and> \<not> startswith l ''Volume=''"
  "l \<in> set (unit_section st s) \<Longrightarrow> \<not> startswith l ''PublishPort='' \<and> \<not> startswith l ''Volume=''"
  "l \<in> set (health_lines s) \<Longrightarrow> \<not> startswith l ''PublishPort='' \<and> \<not> startswith l ''Volume=''"
  "l \<in> set service_section \<Longrightarrow> \<not> startswith l ''PublishPort='' \<and> \<not> startswith l ''Volume=''"
  "l \<in> set (publish_lines st s) \<Longrightarrow> \<not> startswith l ''Volume=''"
  "\<not> startswith (volume_text st v) ''PublishPort=''"
  by (auto simp: header_lines_def unit_section_def needs_lines_def health_lines_def service_section_def publish_lines_def
      volume_text_def managed_header_def stack_marker_def service_marker_def spec_hash_marker_def Let_def
      split: option.splits if_splits)

lemma member_container_section:
  "l \<in> set (container_section st s) \<Longrightarrow>
     \<not> startswith l ''Volume='' \<and> (startswith l ''PublishPort='' \<longrightarrow> l \<in> set (publish_lines st s))"
  using member_section(3,5) by (auto simp: container_section_def split: if_splits)

lemma other_kinds:
  "\<not> startswith (''EnvironmentFile='' @ x) ''PublishPort=''" "\<not> startswith (''EnvironmentFile='' @ x) ''Volume=''"
  "\<not> startswith (''PodmanArgs='' @ x) ''PublishPort=''" "\<not> startswith (''PodmanArgs='' @ x) ''Volume=''"
  by simp_all

lemma line_kinds:
  assumes "container_lines st s = Inr ls" "l \<in> set ls"
  shows "(startswith l ''PublishPort='' \<longrightarrow> l \<in> set (publish_lines st s))
    \<and> (startswith l ''Volume='' \<longrightarrow> l \<in> volume_text st ` set (volumes_for st (s_name s)))"
proof -
  consider "l \<in> set (header_lines st s)" | "l \<in> set (unit_section st s)" | "l \<in> set (container_section st s)"
    | x where "l = ''EnvironmentFile='' @ x" | v where "v \<in> set (volumes_for st (s_name s))" "l = volume_text st v"
    | x where "l = ''PodmanArgs='' @ x" | "l \<in> set service_section"
    using assms(2) unfolding container_lines_shape [OF assms(1)] set_append set_map
    by (auto split: if_splits)
  then show ?thesis
  proof cases
    case 3
    then show ?thesis using member_container_section by blast
  next
    case 5
    then show ?thesis using member_section(6) by blast
  next
    case 4
    then show ?thesis using other_kinds by simp
  next
    case 6
    then show ?thesis using other_kinds by simp
  qed (use member_section in blast)+
qed

text \<open>C27: when no copied part holds a newline, a container unit publishes nothing but the service's own
  port, on the loopback address of the stack unless the service is explicitly exposed; it mounts
  nothing but the volumes of the service, from inside the tenant's directory of this stack; and
  it always drops privileges.\<close>

theorem container_unit_confined:
  assumes "container_unit st s = Inr u" "rendered_ok st s" "case s_cpu_percent s of None \<Rightarrow> True | Some c \<Rightarrow> 0 \<le> c"
  shows "''NoNewPrivileges=true'' \<in> set (split_char nl u)
    \<and> (\<forall>l\<in>set (split_char nl u). startswith l ''PublishPort='' \<longrightarrow>
         (\<exists>p. s_internal_port s = Some p \<and> l = ''PublishPort='' @ (if s_exposed s then ''0.0.0.0'' else st_loopback_ip st)
            @ '':'' @ int_str (derive_host_port p) @ '':'' @ int_str p))
    \<and> (\<forall>l\<in>set (split_char nl u). startswith l ''Volume='' \<longrightarrow>
         (\<exists>v\<in>set (st_volumes st). v_service v = s_name s \<and> l = volume_text st v))"
proof -
  obtain ls where ls: "container_lines st s = Inr ls" "u = join [nl] ls"
    using assms(1) by (auto simp: container_unit_def bind_res_eq_Inr)
  have "ls \<noteq> []" using container_lines_shape [OF ls(1)] by (simp add: header_lines_def)
  then have split: "split_char nl u = ls"
    using container_one_line [OF ls(1) assms(2,3)] ls(2) by (auto intro: split_char_join simp: list_all_iff one_line_def)
  have "''NoNewPrivileges=true'' \<in> set ls"
    unfolding container_lines_shape [OF ls(1)] by (simp add: container_section_def)
  moreover have "l \<in> set (publish_lines st s)" if "l \<in> set ls" "startswith l ''PublishPort=''" for l
    using line_kinds [OF ls(1) that(1)] that(2) by simp
  moreover have "l \<in> volume_text st ` set (volumes_for st (s_name s))" if "l \<in> set ls" "startswith l ''Volume=''" for l
    using line_kinds [OF ls(1) that(1)] that(2) by simp
  moreover have "\<exists>p. s_internal_port s = Some p \<and> l = ''PublishPort='' @ (if s_exposed s then ''0.0.0.0'' else st_loopback_ip st)
            @ '':'' @ int_str (derive_host_port p) @ '':'' @ int_str p" if "l \<in> set (publish_lines st s)" for l
    using that unfolding publish_lines_def by (cases "s_internal_port s") simp_all
  moreover have "\<exists>v\<in>set (st_volumes st). v_service v = s_name s \<and> l = volume_text st v"
    if "l \<in> volume_text st ` set (volumes_for st (s_name s))" for l
    using that unfolding volumes_for_def by fastforce
  ultimately show ?thesis unfolding split by blast
qed

text \<open>The health-check path is not validated.  Any line can be smuggled into the unit text through
  it: the service is accepted, and the text of the rendered unit has that line.\<close>

theorem health_path_injects:
  assumes "service_post_init s0 = Inr s" "s_hc_enabled s" "s_internal_port s = Some p" "nl \<notin> set line"
  shows "service_post_init (s0\<lparr>s_hc_path := ''/'' @ nl # line @ [nl]\<rparr>) = Inr (s\<lparr>s_hc_path := ''/'' @ nl # line @ [nl]\<rparr>)
    \<and> (\<forall>u. container_unit st (s\<lparr>s_hc_path := ''/'' @ nl # line @ [nl]\<rparr>) = Inr u \<longrightarrow> line \<in> set (split_char nl u))"
proof -
  let ?x = "''/'' @ nl # line @ [nl]"
  let ?s = "s\<lparr>s_hc_path := ?x\<rparr>"
  have "service_post_init (s0\<lparr>s_hc_path := ?x\<rparr>) = Inr ?s"
    using assms(1)
    by (auto simp: service_post_init_def service_build_init_def has_build_def bind_res_eq_Inr)
  moreover have "line \<in> set (split_char nl u)" if u: "container_unit st ?s = Inr u" for u
  proof -
    obtain ls where ls: "container_lines st ?s = Inr ls" "u = join [nl] ls"
      using u unfolding container_unit_iff by blast
    let ?port = "case s_hc_port s of None \<Rightarrow> p | Some q \<Rightarrow> if q = 0 then p else q"
    let ?cmd = "''HealthCmd=curl -sf http://localhost:'' @ int_str ?port @ ?x @ '' || exit 1''"
    have "?cmd \<in> set (health_lines ?s)" using assms(2,3) by (simp add: health_lines_def Let_def)
    then have "?cmd \<in> set ls"
      unfolding container_lines_shape [OF ls(1)] container_section_def by auto
    moreover have "line \<in> set (split_char nl ?cmd)"
    proof -
      have "?cmd = (''HealthCmd=curl -sf http://localhost:'' @ int_str ?port @ ''/'') @ nl # line @ nl # '' || exit 1''"
        by simp
      then show ?thesis using mid_line [OF assms(4)] by (simp only:)
    qed
    moreover have "ls \<noteq> []" using calculation(1) by auto
    ultimately show ?thesis unfolding ls(2) split_join_set [OF \<open>ls \<noteq> []\<close>] by blast
  qed
  ultimately show ?thesis by blast
qed

definition health_service :: service_spec where
  "health_service = example_service\<lparr>s_hc_enabled := True\<rparr>"

lemma health_service_ok: "service_post_init health_service = Inr (example_service'\<lparr>s_hc_enabled := True\<rparr>)"
  by code_simp

theorem health_path_injects_witness:
  "service_post_init (health_service\<lparr>s_hc_path := ''/'' @ nl # ''PublishPort=0.0.0.0:2222:22'' @ [nl]\<rparr>)
   = Inr (example_service'\<lparr>s_hc_enabled := True, s_hc_path := ''/'' @ nl # ''PublishPort=0.0.0.0:2222:22'' @ [nl]\<rparr>)"
  using health_path_injects [OF health_service_ok, of 80 "''PublishPort=0.0.0.0:2222:22''"]
  by (simp add: example_service'_def example_service_def)

definition plain_stack :: stack_spec where
  "plain_stack = \<lparr>st_name = ''blog'', st_tenant = ''hosty-t-7'', st_loopback_ip = ''127.77.0.3'',
     st_services = [example_service'], st_volumes = [\<lparr>v_name = ''data'', v_service = ''web'', v_mount_path = ''/data''\<rparr>],
     st_endpoints = [], st_suspended = False, st_server_id = None, st_generation = 0\<rparr>"

lemma plain_facts: "validate_tenant_username ''hosty-t-7'' = Inr ''hosty-t-7''"
  "validate_slug ''blog'' = Inr ''blog''" "validate_slug ''web'' = Inr ''web''"
  by code_simp+

lemma plain_unit: "\<exists>u. container_unit plain_stack example_service' = Inr u"
  by (simp add: container_unit_def container_lines_def env_lines_def env_file_path_def stack_dir_def stacks_root_def
      home_dir_for_def plain_stack_def example_service'_def example_service_def service_defaults_def volumes_for_def
      volume_line_def volume_host_dir_def plain_facts del: join.simps)

theorem unit_markers_roundtrip_witness:
  "\<exists>u. container_unit plain_stack example_service' = Inr u \<and> read_stack_marker u = Some ''blog''"
proof -
  obtain u where u: "container_unit plain_stack example_service' = Inr u" using plain_unit by blast
  have "validate_slug (st_name plain_stack) = Inr ''blog''" "validate_slug (s_name example_service') = Inr ''web''"
    using plain_facts by (simp_all add: plain_stack_def example_service'_def example_service_def service_defaults_def)
  from unit_markers_roundtrip [OF this disjI1 [OF u]] show ?thesis using u by (simp add: plain_stack_def)
qed

theorem container_unit_confined_witness:
  "\<exists>u. container_unit plain_stack example_service' = Inr u \<and> ''NoNewPrivileges=true'' \<in> set (split_char nl u)"
proof -
  obtain u where u: "container_unit plain_stack example_service' = Inr u" using plain_unit by blast
  have "rendered_ok plain_stack example_service'"
    by (simp add: rendered_ok_def one_line_def plain_stack_def example_service'_def example_service_def service_defaults_def)
  moreover have "case s_cpu_percent example_service' of None \<Rightarrow> True | Some c \<Rightarrow> 0 \<le> c"
    by (simp add: example_service'_def example_service_def service_defaults_def)
  ultimately show ?thesis using container_unit_confined [OF u] u by blast
qed

subsection \<open>The tag of a build\<close>

lemma matches_Seq: "matches (Seq r q) s \<longleftrightarrow> (\<exists>u v. s = u @ v \<and> matches r u \<and> matches q v)"
  by (auto simp: matches_simps)

abbreviation colons :: "string \<Rightarrow> nat" where "colons s \<equiv> length (filter (\<lambda>c. c = CHR '':'') s)"

lemma colons_free: "matches r s \<Longrightarrow> rx_all (\<lambda>c. c \<noteq> CHR '':'') r \<Longrightarrow> colons s = 0"
  using matches_chars by (fastforce simp: filter_empty_conv)

lemma image_colons:
  assumes "fullmatch image_rx s" "s = h @ CHR ''/'' # t" "CHR '':'' \<notin> set h" "CHR ''@'' \<notin> set s"
  shows "colons s \<le> 1"
proof -
  let ?tag = "Seq (lit '':'') (between_rx 1 128 (cls [is_lower, is_upper, is_digit] ''._-''))"
  let ?port = "Seq (lit '':'') (between_rx 1 5 (cls [is_digit] []))"
  let ?path = "Star (Seq (lit ''/'') (plus_rx (cls [is_lower, is_upper, is_digit] ''._-'')))"
  let ?dig = "Seq (lit ''@sha256:'') (exactly_rx 64 (cls [is_hex] []))"
  let ?b = "Star (cls [is_lower, is_digit] ''._-'')"
  have "matches image_rx s" using assms(1) by (simp add: fullmatch_iff)
  then obtain a b p m g d where s: "s = a @ b @ p @ m @ g @ d" and parts: "matches alnum_l a" "matches ?b b"
      "matches (optional ?port) p" "matches ?path m" "matches (optional ?tag) g" "matches (optional ?dig) d"
    unfolding image_rx_def matches_Seq by blast
  have "d = []"
  proof (rule ccontr)
    assume "d \<noteq> []"
    then obtain e where "d = ''@sha256:'' @ e" using parts(6) unfolding matches_optional matches_Seq matches_lit by blast
    then show False using assms(4) s by simp
  qed
  have cls: "rx_all (\<lambda>c. c \<noteq> CHR '':'') alnum_l" "rx_all (\<lambda>c. c \<noteq> CHR '':'') ?b" "rx_all (\<lambda>c. c \<noteq> CHR '':'') ?path"
    "rx_all (\<lambda>c. c \<noteq> CHR ''/'') alnum_l" "rx_all (\<lambda>c. c \<noteq> CHR ''/'') ?b" "rx_all (\<lambda>c. c \<noteq> CHR ''/'') (lit '':'')"
    "rx_all (\<lambda>c. c \<noteq> CHR ''/'') (cls [is_digit] [])"
    "rx_all (\<lambda>c. c \<noteq> CHR '':'') (cls [is_lower, is_upper, is_digit] ''._-'')"
    by (auto simp: alnum_l_def class_defs less_eq_char_def)
  have port: "rx_all (\<lambda>c. c \<noteq> CHR ''/'') ?port"
    using cls(6) rx_all_derived(3) [OF cls(7)] by (simp only: rx_all.simps)
  have tag: "rx_all (\<lambda>c. c \<noteq> CHR '':'') (between_rx 1 128 (cls [is_lower, is_upper, is_digit] ''._-''))"
    using rx_all_derived(3) [OF cls(8)] .
  have zero: "colons a = 0" "colons b = 0" "colons m = 0"
    using colons_free parts(1,2,4) cls(1-3) by blast+
  have "p = []"
  proof (rule ccontr)
    assume p: "p \<noteq> []"
    then obtain e where e: "p = '':'' @ e" using parts(3) unfolding matches_optional matches_Seq matches_lit by blast
    have "CHR ''/'' \<notin> set a" "CHR ''/'' \<notin> set b" "CHR ''/'' \<notin> set p"
      using matches_chars [OF parts(1) cls(4)] matches_chars [OF parts(2) cls(5)] parts(3) p matches_chars [OF _ port]
      unfolding matches_optional by blast+
    then have "takeWhile (\<lambda>c. c \<noteq> CHR ''/'') s = a @ b @ p @ takeWhile (\<lambda>c. c \<noteq> CHR ''/'') (m @ g @ d)"
      unfolding s by (subst takeWhile_append2, force)+ (rule refl)
    moreover have "set (takeWhile (\<lambda>c. c \<noteq> CHR ''/'') s) \<subseteq> set h"
      unfolding assms(2) by (induction h) auto
    ultimately show False using assms(3) e by auto
  qed
  moreover have "colons g \<le> 1"
  proof (cases "g = []")
    case False
    then obtain e where "g = '':'' @ e" "matches (between_rx 1 128 (cls [is_lower, is_upper, is_digit] ''._-'')) e"
      using parts(5) unfolding matches_optional matches_Seq matches_lit by blast
    then show ?thesis using colons_free [OF _ tag] by simp
  qed simp
  ultimately show ?thesis using zero \<open>d = []\<close> by (simp add: s)
qed

text \<open>The tag a build unit gives its image is not an image reference: it appends the generation as a
  second tag, and the grammar the panel itself uses for references rejects it.\<close>

theorem build_tag_invalid:
  assumes "validate_slug (st_name st) = Inr a" "validate_slug (s_name s) = Inr b"
  shows "\<exists>ref. tag_line st s = ''ExecStart=/usr/bin/podman tag '' @ image_tag st s @ '' '' @ ref
    \<and> startswith ref (image_tag st s) \<and> \<not> fullmatch image_rx ref"
proof (intro exI conjI)
  let ?ref = "image_tag st s @ '':gen-'' @ int_str (st_generation st)"
  show "tag_line st s = ''ExecStart=/usr/bin/podman tag '' @ image_tag st s @ '' '' @ ?ref" by (simp add: tag_line_def)
  show "startswith ?ref (image_tag st s)" by (simp add: startswith_def)
  have at: "CHR ''@'' \<notin> set (int_str i)" for i
    using nat_str_digits [of "CHR ''@''"] by (auto simp: int_str_def ascii_digit_range)
  have n: "CHR ''@'' \<notin> set (st_name st)" "CHR ''@'' \<notin> set (s_name s)"
    using assms slug_name by (auto simp: validate_slug_iff list_all_iff slug_char_def class_defs less_eq_char_def)
  show "\<not> fullmatch image_rx ?ref"
  proof
    assume "fullmatch image_rx ?ref"
    from image_colons [OF this, of "''hosty''" "st_name st @ ''-'' @ s_name s @ '':latest:gen-'' @ int_str (st_generation st)"]
    have "colons ?ref \<le> 1" using at n by (simp add: image_tag_def)
    then show False by (simp add: image_tag_def)
  qed
qed
theorem build_tag_invalid_witness:
  "\<exists>ref. tag_line plain_stack example_service' = ''ExecStart=/usr/bin/podman tag '' @ image_tag plain_stack example_service' @ '' '' @ ref
    \<and> \<not> fullmatch image_rx ref"
proof -
  have "validate_slug (st_name plain_stack) = Inr ''blog''" "validate_slug (s_name example_service') = Inr ''web''"
    using plain_facts by (simp_all add: plain_stack_def example_service'_def example_service_def service_defaults_def)
  from build_tag_invalid [OF this] show ?thesis by blast
qed

end
