(* ===== verification/Stackhost.thy ===== *)
theory Stackhost
  imports Quadlet
begin

text \<open>
  The host file system seam \<open>backend/app/system/stackhost.py\<close>: unit directories, env directories, SSH keys
  and volume directories.  A directory is the finite map from the names of its regular files to their
  text.  A file belongs to a stack by the marker in its text, never by its name.
\<close>

subsection \<open>Unit directories\<close>

definition unit_suffixes :: "string list" where
  "unit_suffixes = [''.build'', ''.container'', ''.network'', ''.service'']"

definition quadlet_suffixes :: "string list" where
  "quadlet_suffixes = [''.container'', ''.network'', ''.volume'', ''.pod'', ''.kube'', ''.build'']"

text \<open>\<open>Path(name).suffix\<close>: from the last dot, unless it is the first or the last character.\<close>

definition suffix :: "string \<Rightarrow> string" where
  "suffix f =
     (let ext = rev (takeWhile (\<lambda>c. c \<noteq> CHR ''.'') (rev f))
      in if ext \<noteq> [] \<and> length ext + 1 < length f then CHR ''.'' # ext else [])"

type_synonym dir = "(string, string) fmap"

definition attributed :: "string \<Rightarrow> string \<Rightarrow> string \<Rightarrow> bool" where
  "attributed st f c \<longleftrightarrow> suffix f \<in> set unit_suffixes \<and> read_stack_marker c = Some st"

definition stack_files_on_disk :: "dir \<Rightarrow> string \<Rightarrow> dir" where
  "stack_files_on_disk d st =
     fmfilter (\<lambda>f. case fmlookup d f of None \<Rightarrow> False | Some c \<Rightarrow> attributed st f c) d"

text \<open>The writes, then the deletions; the flag tells whether anything changed.\<close>

definition sync_dir :: "string \<Rightarrow> dir \<Rightarrow> dir \<Rightarrow> bool \<times> dir" where
  "sync_dir st desired d =
     (let existing = stack_files_on_disk d st;
          writes = fmfilter (\<lambda>f. fmlookup existing f \<noteq> fmlookup desired f) desired;
          gone = fmdom existing |-| fmdom desired
      in (fmdom writes \<noteq> {||} \<or> gone \<noteq> {||}, fmdrop_fset gone (fmadd d writes)))"

record unit_dirs =
  ud_quadlet :: dir
  ud_user :: dir

definition quadlet_part :: "dir \<Rightarrow> dir" where
  "quadlet_part files = fmfilter (\<lambda>f. suffix f \<in> set quadlet_suffixes) files"

definition service_part :: "dir \<Rightarrow> dir" where
  "service_part files = fmfilter (\<lambda>f. suffix f \<notin> set quadlet_suffixes) files"

definition sync_units :: "int \<Rightarrow> string \<Rightarrow> string \<Rightarrow> dir \<Rightarrow> unit_dirs \<Rightarrow> bool res \<times> unit_dirs" where
  "sync_units uid st tenant desired ud =
     (case bind_res (validate_slug st) (\<lambda>_. bind_res (validate_tenant_username tenant) (\<lambda>_. unit_dir uid)) of
        Inl e \<Rightarrow> (Inl e, ud)
      | Inr _ \<Rightarrow>
          (let (c1, q) = sync_dir st (quadlet_part desired) (ud_quadlet ud);
               sf = service_part desired;
               (c2, u) = (if fmdom sf \<noteq> {||} \<or> fmdom (stack_files_on_disk (ud_user ud) st) \<noteq> {||}
                          then sync_dir st sf (ud_user ud) else (False, ud_user ud))
           in (Inr (c1 \<or> c2), \<lparr>ud_quadlet = q, ud_user = u\<rparr>)))"

definition remove_units :: "int \<Rightarrow> string \<Rightarrow> string \<Rightarrow> unit_dirs \<Rightarrow> bool res \<times> unit_dirs" where
  "remove_units uid st tenant ud = sync_units uid st tenant fmempty ud"

record unit_file =
  uf_name :: string
  uf_stack :: string
  uf_service :: "string option"
  uf_hash :: "string option"

fun unit_of :: "string \<Rightarrow> string option \<Rightarrow> unit_file list" where
  "unit_of f None = []"
| "unit_of f (Some c) =
     (if suffix f \<notin> set unit_suffixes then []
      else (case read_stack_marker c of
              None \<Rightarrow> []
            | Some st \<Rightarrow> [\<lparr>uf_name = f, uf_stack = st, uf_service = read_service_marker c, uf_hash = read_spec_hash c\<rparr>]))"

definition collect_units :: "dir \<Rightarrow> unit_file list" where
  "collect_units d = concat (map (\<lambda>f. unit_of f (fmlookup d f)) (sorted_keys d))"

definition scan_units :: "unit_dirs \<Rightarrow> unit_file list" where
  "scan_units ud = collect_units (ud_quadlet ud) @ collect_units (ud_user ud)"

subsection \<open>Env files\<close>

text \<open>\<open>os.path.normpath\<close> of an absolute path, as its components.\<close>

fun norm_components :: "string list \<Rightarrow> string list \<Rightarrow> string list" where
  "norm_components acc [] = rev acc"
| "norm_components acc (c # cs) =
     (if c = [] \<or> c = ''.'' then norm_components acc cs
      else if c = ''..'' then norm_components (drop 1 acc) cs
      else norm_components (c # acc) cs)"

definition normpath :: "string \<Rightarrow> string" where
  "normpath p = CHR ''/'' # join ''/'' (norm_components [] (split_char CHR ''/'' p))"

definition dirname :: "string \<Rightarrow> string" where
  "dirname p = join ''/'' (butlast (split_char CHR ''/'' p))"

definition env_dir :: "string \<Rightarrow> string \<Rightarrow> string res" where
  "env_dir tenant st = bind_res (stack_dir tenant st) (\<lambda>d. Inr (normpath (d @ ''/env'')))"

fun env_desired :: "string \<Rightarrow> (string \<times> string) list \<Rightarrow> dir \<Rightarrow> dir res" where
  "env_desired ed [] acc = Inr acc"
| "env_desired ed ((p, c) # rest) acc =
     (if dirname (normpath p) \<noteq> ed then Inl StackHostError
      else env_desired ed rest (fmupd (normpath p) c acc))"

text \<open>\<open>files\<close> as the list of its items; \<open>d\<close> maps the paths of the env directory of the stack.\<close>

definition sync_env_files :: "string \<Rightarrow> string \<Rightarrow> (string \<times> string) list \<Rightarrow> dir \<Rightarrow> bool res \<times> dir" where
  "sync_env_files tenant st files d =
     (case bind_res (validate_tenant_username tenant) (\<lambda>_. bind_res (validate_slug st) (\<lambda>_.
             bind_res (env_dir tenant st) (\<lambda>ed. env_desired ed files fmempty))) of
        Inl e \<Rightarrow> (Inl e, d)
      | Inr desired \<Rightarrow>
          (let writes = fmfilter (\<lambda>p. fmlookup d p \<noteq> fmlookup desired p) desired;
               gone = fmdom d |-| fmdom desired
           in (Inr (fmdom writes \<noteq> {||} \<or> gone \<noteq> {||}), fmdrop_fset gone (fmadd d writes))))"

subsection \<open>SSH keys\<close>

definition ssh_config_text :: "string \<Rightarrow> string list \<Rightarrow> string" where
  "ssh_config_text ssh_dir names =
     join [nl] ([''Host github.com gitlab.com bitbucket.org'', ''  StrictHostKeyChecking accept-new'']
       @ map (\<lambda>n. ''  IdentityFile '' @ ssh_dir @ ''/'' @ n) names @ [''  IdentitiesOnly yes'']) @ [nl]"

text \<open>The keys are written one by one; a bad name raises after the earlier ones were written.\<close>

fun write_keys :: "(string \<times> string) list \<Rightarrow> dir \<Rightarrow> unit res \<times> dir" where
  "write_keys [] d = (Inr (), d)"
| "write_keys ((n, c) # ks) d =
     (case validate_slug n of Inl e \<Rightarrow> (Inl e, d) | Inr _ \<Rightarrow> write_keys ks (fmupd n c d))"

definition sync_ssh_keys :: "string \<Rightarrow> (string \<times> string) list \<Rightarrow> dir \<Rightarrow> unit res \<times> dir" where
  "sync_ssh_keys tenant keys d =
     (case home_dir_for tenant of
        Inl e \<Rightarrow> (Inl e, d)
      | Inr home \<Rightarrow>
          (case write_keys keys d of
             (Inl e, d1) \<Rightarrow> (Inl e, d1)
           | (Inr _, d1) \<Rightarrow>
               (Inr (), fmupd ''config'' (ssh_config_text (home @ ''/.ssh'') (map fst keys))
                  (fmfilter (\<lambda>f. f \<in> set [''config'', ''known_hosts''] \<or> f \<in> fst ` set keys) d1))))"

subsection \<open>Volume directories\<close>

text \<open>Per tenant: stack name to the volume directories below it.\<close>

type_synonym volumes = "(string, string fset) fmap"

definition ensure_volume_dir :: "string \<Rightarrow> string \<Rightarrow> string \<Rightarrow> volumes \<Rightarrow> unit res \<times> volumes" where
  "ensure_volume_dir tenant st v vols =
     (case bind_res (validate_slug st) (\<lambda>_. bind_res (validate_slug v) (\<lambda>_. volume_host_dir tenant st v)) of
        Inl e \<Rightarrow> (Inl e, vols)
      | Inr _ \<Rightarrow> (Inr (), fmupd st (finsert v (fmget vols st {||})) vols))"

text \<open>\<open>rm_ok\<close>: the answer of \<open>rm -rf\<close>.\<close>

definition remove_volume_dir :: "bool \<Rightarrow> string \<Rightarrow> string \<Rightarrow> string \<Rightarrow> volumes \<Rightarrow> unit res \<times> volumes" where
  "remove_volume_dir rm_ok tenant st v vols =
     (case bind_res (validate_slug st) (\<lambda>_. bind_res (validate_slug v) (\<lambda>_. volume_host_dir tenant st v)) of
        Inl e \<Rightarrow> (Inl e, vols)
      | Inr _ \<Rightarrow> if rm_ok then (Inr (), fmupd st (fmget vols st {||} |-| {|v|}) vols) else (Inl StackHostError, vols))"

definition scan_volume_dirs :: "volumes \<Rightarrow> volumes" where
  "scan_volume_dirs vols = fmfilter (\<lambda>st. fmget vols st {||} \<noteq> {||}) vols"

subsection \<open>Synchronised directories hold exactly the desired files\<close>

lemma fmlookup_on_disk [simp]:
  "fmlookup (stack_files_on_disk d st) f =
     (case fmlookup d f of None \<Rightarrow> None | Some c \<Rightarrow> if attributed st f c then Some c else None)"
  by (auto simp: stack_files_on_disk_def split: option.splits)

lemma sync_lookup:
  "fmlookup (snd (sync_dir st D d)) f =
     (case fmlookup D f of
        Some c \<Rightarrow> Some c
      | None \<Rightarrow> (case fmlookup d f of None \<Rightarrow> None | Some c \<Rightarrow> if attributed st f c then None else Some c))"
proof (cases "fmlookup D f")
  case None
  then have "f |\<notin>| fmdom D" by (simp add: fmlookup_dom_iff)
  then show ?thesis
    using None
    by (auto simp: sync_dir_def Let_def fmlookup_dom_iff split: option.splits)
next
  case (Some c)
  then have "f |\<in>| fmdom D" by (simp add: fmdomI)
  then show ?thesis
    using Some
    by (auto simp: sync_dir_def Let_def fmlookup_dom_iff split: option.splits if_splits)
qed

lemma sync_unchanged: "\<not> fst (sync_dir st D d) \<Longrightarrow> snd (sync_dir st D d) = d"
proof -
  assume "\<not> fst (sync_dir st D d)"
  then have w: "fmdom (fmfilter (\<lambda>f. fmlookup (stack_files_on_disk d st) f \<noteq> fmlookup D f) D) = {||}"
    and g: "fmdom (stack_files_on_disk d st) |-| fmdom D = {||}"
    by (auto simp: sync_dir_def Let_def)
  have w': "fmfilter (\<lambda>f. fmlookup (stack_files_on_disk d st) f \<noteq> fmlookup D f) D = fmempty"
    using w by (metis fmrestrict_fset_dom fmrestrict_fset_null)
  show ?thesis unfolding sync_dir_def Let_def w' g by simp
qed

definition attributed_all :: "string \<Rightarrow> dir \<Rightarrow> bool" where
  "attributed_all st D \<longleftrightarrow> (\<forall>f c. fmlookup D f = Some c \<longrightarrow> attributed st f c)"

lemma on_disk_sync:
  assumes "attributed_all st D"
  shows "stack_files_on_disk (snd (sync_dir st D d)) st = D"
proof (rule fmap_ext)
  fix f
  show "fmlookup (stack_files_on_disk (snd (sync_dir st D d)) st) f = fmlookup D f"
    using assms by (auto simp: sync_lookup attributed_all_def split: option.splits)
qed

lemma sync_again: "attributed_all st D \<Longrightarrow> sync_dir st D (snd (sync_dir st D d)) = (False, snd (sync_dir st D d))"
proof -
  assume a: "attributed_all st D"
  have "\<not> fst (sync_dir st D (snd (sync_dir st D d)))"
    by (simp add: sync_dir_def [of st D "snd (sync_dir st D d)"] Let_def on_disk_sync [OF a])
  then show ?thesis using sync_unchanged by (metis prod.collapse)
qed


lemma attributed_example:
  "attributed ''blog'' ''blog.network'' (stack_marker @ ''blog'' @ [nl])"
proof -
  have "suffix ''blog.network'' = ''.network''" by code_simp
  moreover have "read_stack_marker (stack_marker @ ''blog'' @ [nl]) = Some ''blog''" by code_simp
  ultimately show ?thesis by (simp add: attributed_def unit_suffixes_def)
qed


subsection \<open>Env files stay in their directory\<close>

lemma env_desired_dir:
  "env_desired ed files acc = Inr D \<Longrightarrow> (\<forall>p. p |\<in>| fmdom acc \<longrightarrow> dirname p = ed) \<Longrightarrow> (\<forall>p. p |\<in>| fmdom D \<longrightarrow> dirname p = ed)"
  by (induction ed files acc rule: env_desired.induct) (auto split: if_splits)

text \<open>An accepted synchronisation of the env files leaves in the directory exactly the desired files
  (no stale credential survives), each directly inside the env directory of the stack; a path that leaves it
  is refused and nothing is written.\<close>

theorem env_files_contained:
  assumes "sync_env_files tenant st files d = (r, d')"
  shows "(\<exists>e. r = Inl e \<and> d' = d) \<or>
    (\<exists>ed D b. r = Inr b \<and> env_dir tenant st = Inr ed \<and> env_desired ed files fmempty = Inr D \<and> d' = D
       \<and> (\<forall>p. p |\<in>| fmdom d' \<longrightarrow> dirname p = ed))"
proof (cases "bind_res (validate_tenant_username tenant) (\<lambda>_. bind_res (validate_slug st) (\<lambda>_.
             bind_res (env_dir tenant st) (\<lambda>ed. env_desired ed files fmempty)))")
  case (Inl e)
  then show ?thesis using assms by (auto simp: sync_env_files_def)
next
  case (Inr D)
  then obtain ed where ed: "env_dir tenant st = Inr ed" "env_desired ed files fmempty = Inr D"
    by (auto simp: bind_res_eq_Inr)
  let ?w = "fmfilter (\<lambda>p. fmlookup d p \<noteq> fmlookup D p) D"
  have "\<exists>b. r = Inr b" "d' = fmdrop_fset (fmdom d |-| fmdom D) (fmadd d ?w)"
    using assms Inr by (auto simp: sync_env_files_def Let_def)
  moreover have "fmdrop_fset (fmdom d |-| fmdom D) (fmadd d ?w) = D"
  proof (rule fmap_ext)
    fix p
    show "fmlookup (fmdrop_fset (fmdom d |-| fmdom D) (fmadd d ?w)) p = fmlookup D p"
      by (cases "fmlookup D p"; cases "fmlookup d p") (auto simp: fmlookup_dom_iff)
  qed
  ultimately show ?thesis using ed env_desired_dir [OF ed(2)] by simp
qed

theorem env_files_contained_witness:
  "\<exists>d'. sync_env_files ''hosty-t-7'' ''blog'' [(''/home/hosty-t-7/stacks/blog/env/../../x.env'', ''A=1'')] fmempty
     = (Inl StackHostError, d') \<and> d' = fmempty"
proof -
  obtain r d' where r: "sync_env_files ''hosty-t-7'' ''blog'' [(''/home/hosty-t-7/stacks/blog/env/../../x.env'', ''A=1'')] fmempty
     = (r, d')" by fastforce
  have "bind_res (validate_tenant_username ''hosty-t-7'') (\<lambda>_. bind_res (validate_slug ''blog'') (\<lambda>_.
      bind_res (env_dir ''hosty-t-7'' ''blog'') (\<lambda>ed. env_desired ed
        [(''/home/hosty-t-7/stacks/blog/env/../../x.env'', ''A=1'')] fmempty))) = Inl StackHostError"
    by code_simp
  then have "r = Inl StackHostError" using r by (simp add: sync_env_files_def)
  then show ?thesis using env_files_contained [OF r] r by auto
qed

text \<open>A key named \<open>config\<close> passes the grammar, but its file is overwritten by the generated SSH
  configuration.\<close>

theorem ssh_key_named_config:
  "\<exists>d'. sync_ssh_keys ''hosty-t-7'' [(''config'', key)] fmempty = (Inr (), d')
     \<and> fmlookup d' ''config'' = Some (ssh_config_text ''/home/hosty-t-7/.ssh'' [''config''])"
proof -
  have "home_dir_for ''hosty-t-7'' = Inr ''/home/hosty-t-7''" "validate_slug ''config'' = Inr ''config''"
    by code_simp+
  then show ?thesis by (simp add: sync_ssh_keys_def)
qed

end
