(* ===== verification/Planner.thy ===== *)
theory Planner
  imports Specs
begin

text \<open>
  The action union of \<open>backend/app/domain/actions.py\<close> and the pure planner of
  \<open>backend/app/domain/planner.py\<close>: \<open>plan desired observed\<close> is the ordered list of actions, or the
  \<open>ValueError\<close> for duplicate stack names.
\<close>

subsection \<open>Actions\<close>

datatype action =
    EnsureTenant string
  | EnsureVolumeDir string string string
  | WriteUnits stack_spec
  | RemoveUnits string string
  | DaemonReload string
  | StartService string string string
  | StopService string string string
  | RestartService string string string
  | ZeroDowntimeDeploy string stack_spec string
  | RemoveVolumeDir string string string
  | RemoveTenantIfEmpty string
  | SyncCaddy

subsection \<open>Tearing one stack down\<close>

definition is_active :: "(string, observed_unit) fmap \<Rightarrow> string \<Rightarrow> bool" where
  "is_active us svc = (case fmlookup us svc of None \<Rightarrow> False | Some u \<Rightarrow> ou_active u)"

definition plan_teardown :: "string \<Rightarrow> observed_stack \<Rightarrow> action list" where
  "plan_teardown name obs =
     map (StopService (os_tenant obs) name) (filter (is_active (os_units obs)) (sorted_keys (os_units obs)))
     @ [RemoveUnits (os_tenant obs) name, DaemonReload (os_tenant obs)]
     @ map (RemoveVolumeDir (os_tenant obs) name) (sorted_list_of_fset (os_volume_dirs obs))
     @ [RemoveTenantIfEmpty (os_tenant obs)]"

subsection \<open>Converging one stack\<close>

definition expected_hashes :: "stack_spec \<Rightarrow> (string, string) fmap" where
  "expected_hashes spec = dict_of (map (\<lambda>s. (s_name s, spec_hash spec s)) (st_services spec))"

definition expected_builds :: "stack_spec \<Rightarrow> (string, string) fmap" where
  "expected_builds spec =
     dict_of (map (\<lambda>s. (s_name s, fmget (expected_hashes spec) (s_name s) []))
       (filter has_build (st_services spec)))"

definition stale_units :: "stack_spec \<Rightarrow> (string, observed_unit) fmap \<Rightarrow> string fset" where
  "stale_units spec us =
     ffilter (\<lambda>n. case fmlookup us n of None \<Rightarrow> True
                  | Some u \<Rightarrow> ou_spec_hash u \<noteq> fmlookup (expected_hashes spec) n)
       (fmdom (expected_hashes spec))"

definition stale_builds :: "stack_spec \<Rightarrow> (string, string option) fmap \<Rightarrow> string fset" where
  "stale_builds spec bs =
     ffilter (\<lambda>n. fmget bs n None \<noteq> fmlookup (expected_builds spec) n) (fmdom (expected_builds spec))"

definition extra_units :: "stack_spec \<Rightarrow> (string, observed_unit) fmap \<Rightarrow> string fset" where
  "extra_units spec us = fmdom us |-| fmdom (expected_hashes spec)"

definition extra_builds :: "stack_spec \<Rightarrow> (string, string option) fmap \<Rightarrow> string fset" where
  "extra_builds spec bs = fmdom bs |-| fmdom (expected_builds spec)"

definition desired_dirs :: "stack_spec \<Rightarrow> string fset" where
  "desired_dirs spec = fset_of_list (map v_name (st_volumes spec))"

text \<open>The start/stop/restart decision for one desired service.\<close>

definition service_actions ::
    "stack_spec \<Rightarrow> (string, observed_unit) fmap \<Rightarrow> string fset \<Rightarrow> string \<Rightarrow> action list" where
  "service_actions spec us stale svc =
     (let service_map = dict_of (map (\<lambda>s. (s_name s, s)) (st_services spec));
          active = is_active us svc
      in if st_suspended spec then (if active then [StopService (st_tenant spec) (st_name spec) svc] else [])
         else if active \<and> svc |\<in>| stale then
           (case fmlookup service_map svc of
              Some s \<Rightarrow>
                if s_zero_downtime s \<and> s_internal_port s \<noteq> None
                then [ZeroDowntimeDeploy (st_tenant spec) spec svc]
                else [RestartService (st_tenant spec) (st_name spec) svc]
            | None \<Rightarrow> [])
         else if \<not> active then [StartService (st_tenant spec) (st_name spec) svc]
         else [])"

definition plan_converge :: "stack_spec \<Rightarrow> observed_stack option \<Rightarrow> action list" where
  "plan_converge spec obs =
     (let us = (case obs of None \<Rightarrow> fmempty | Some ob \<Rightarrow> os_units ob);
          bs = (case obs of None \<Rightarrow> fmempty | Some ob \<Rightarrow> os_build_units ob);
          dirs = (case obs of None \<Rightarrow> {||} | Some ob \<Rightarrow> os_volume_dirs ob);
          present = (case obs of None \<Rightarrow> False | Some ob \<Rightarrow> os_tenant_present ob);
          t = st_tenant spec; n = st_name spec;
          stale = stale_units spec us; extra = extra_units spec us;
          rewrite = (stale \<noteq> {||} \<or> extra \<noteq> {||} \<or> stale_builds spec bs \<noteq> {||} \<or> extra_builds spec bs \<noteq> {||})
      in (if present then [] else [EnsureTenant t])
         @ map (EnsureVolumeDir t n) (sorted_list_of_fset (desired_dirs spec |-| dirs))
         @ map (StopService t n) (filter (is_active us) (sorted_list_of_fset extra))
         @ (if rewrite then [WriteUnits spec, DaemonReload t] else [])
         @ concat (map (service_actions spec us stale) (sorted_keys (expected_hashes spec)))
         @ map (RemoveVolumeDir t n) (sorted_list_of_fset (dirs |-| desired_dirs spec)))"

subsection \<open>The whole plan\<close>

definition desired_by_name :: "stack_spec list \<Rightarrow> (string, stack_spec) fmap" where
  "desired_by_name desired = dict_of (map (\<lambda>s. (st_name s, s)) desired)"

text \<open>One iteration of the second loop: a tenant mismatch tears the old artifacts down first.\<close>

definition plan_stack :: "stack_spec \<Rightarrow> observed_stack option \<Rightarrow> action list" where
  "plan_stack spec obs =
     (case obs of
        Some ob \<Rightarrow>
          if os_tenant ob \<noteq> st_tenant spec
          then plan_teardown (st_name spec) ob @ plan_converge spec None
          else plan_converge spec obs
      | None \<Rightarrow> plan_converge spec None)"

definition plan_actions :: "stack_spec list \<Rightarrow> observed \<Rightarrow> action list" where
  "plan_actions desired observed =
     (let d = desired_by_name desired
      in concat (map (\<lambda>n. case fmlookup observed n of None \<Rightarrow> [] | Some ob \<Rightarrow> plan_teardown n ob)
           (sorted_list_of_fset (fmdom observed |-| fmdom d)))
         @ concat (map (\<lambda>n. case fmlookup d n of None \<Rightarrow> []
                            | Some spec \<Rightarrow> plan_stack spec (fmlookup observed n)) (sorted_keys d)))"

definition plan :: "stack_spec list \<Rightarrow> observed \<Rightarrow> action list res" where
  "plan desired observed =
     (if card (fset (fmdom (desired_by_name desired))) \<noteq> length desired then Inl ValueError
      else (let actions = plan_actions desired observed
            in Inr (if actions = [] then [] else actions @ [SyncCaddy])))"

subsection \<open>Facts about the parts\<close>

definition desired_ok :: "stack_spec list \<Rightarrow> bool" where
  "desired_ok desired \<longleftrightarrow> distinct (map st_name desired) \<and> (\<forall>s\<in>set desired. stack_wf s)"

lemma stack_wf_distinct: "stack_wf spec \<Longrightarrow> distinct (map s_name (st_services spec))"
  and stack_wf_services: "stack_wf spec \<Longrightarrow> st_services spec \<noteq> []"
  by (simp_all add: stack_wf_def)

lemma fmdom_expected [simp]:
  "fmdom (expected_hashes spec) = fset_of_list (map s_name (st_services spec))"
  by (simp add: expected_hashes_def comp_def)

lemma fmdom_expected_builds [simp]:
  "fmdom (expected_builds spec) = fset_of_list (map s_name (filter has_build (st_services spec)))"
  by (simp add: expected_builds_def comp_def)

lemma expected_nonempty: "stack_wf spec \<Longrightarrow> fmdom (expected_hashes spec) \<noteq> {||}"
  using stack_wf_services by (cases "st_services spec") auto

lemma map_of_map_key:
  "distinct (map f xs) \<Longrightarrow> x \<in> set xs \<Longrightarrow> map_of (map (\<lambda>x. (f x, g x)) xs) (f x) = Some (g x)"
  by (induction xs) (auto simp: image_iff)

lemma expected_lookup:
  "stack_wf spec \<Longrightarrow> s \<in> set (st_services spec) \<Longrightarrow>
     fmlookup (expected_hashes spec) (s_name s) = Some (spec_hash spec s)"
  by (simp add: expected_hashes_def fmlookup_dict_of comp_def stack_wf_distinct map_of_map_key)

lemma distinct_map_filter: "distinct (map f xs) \<Longrightarrow> distinct (map f (filter P xs))"
  by (induction xs) auto

lemma expected_builds_lookup:
  "stack_wf spec \<Longrightarrow> s \<in> set (st_services spec) \<Longrightarrow> has_build s \<Longrightarrow>
     fmlookup (expected_builds spec) (s_name s) = Some (spec_hash spec s)"
  by (simp add: expected_builds_def fmlookup_dict_of comp_def distinct_map_filter stack_wf_distinct
      map_of_map_key fmget_def expected_lookup)

lemma service_map_lookup:
  "stack_wf spec \<Longrightarrow> s \<in> set (st_services spec) \<Longrightarrow>
     fmlookup (dict_of (map (\<lambda>s. (s_name s, s)) (st_services spec))) (s_name s) = Some s"
  by (simp add: fmlookup_dict_of comp_def stack_wf_distinct map_of_map_key)

lemma fmdom_desired [simp]: "fmdom (desired_by_name desired) = fset_of_list (map st_name desired)"
  by (simp add: desired_by_name_def comp_def)

lemma desired_lookup:
  "distinct (map st_name desired) \<Longrightarrow> s \<in> set desired \<Longrightarrow>
     fmlookup (desired_by_name desired) (st_name s) = Some s"
  by (simp add: desired_by_name_def fmlookup_dict_of comp_def map_of_map_key)

lemma desired_lookup_iff:
  "distinct (map st_name desired) \<Longrightarrow>
     fmlookup (desired_by_name desired) n = Some s \<longleftrightarrow> s \<in> set desired \<and> st_name s = n"
proof
  assume d: "distinct (map st_name desired)" and l: "fmlookup (desired_by_name desired) n = Some s"
  then have "map_of (map (\<lambda>s. (st_name s, s)) desired) n = Some s"
    by (simp add: desired_by_name_def fmlookup_dict_of comp_def)
  then show "s \<in> set desired \<and> st_name s = n" by (auto dest: map_of_SomeD)
qed (auto simp: desired_lookup)

lemma card_names: "card (fset (fset_of_list xs)) = length xs \<longleftrightarrow> distinct xs"
  by (metis card_distinct distinct_card fset_of_list.rep_eq)

lemma plan_duplicate: "plan desired observed = Inl e \<longleftrightarrow> \<not> distinct (map st_name desired) \<and> e = ValueError"
  unfolding plan_def fmdom_desired
  using card_names [of "map st_name desired"] by (auto simp: Let_def)

lemma plan_Inr:
  "distinct (map st_name desired) \<Longrightarrow>
     plan desired observed =
       Inr (if plan_actions desired observed = [] then [] else plan_actions desired observed @ [SyncCaddy])"
  unfolding plan_def fmdom_desired using card_names [of "map st_name desired"] by (simp add: Let_def)

end
