(* ===== verification/HostModel.thy ===== *)
theory HostModel
  imports Planner
begin

text \<open>
  The reference host of \<open>backend/tests/test_domain_planner.py\<close> (\<open>ModelHost\<close>, \<open>project\<close>): unit files,
  build files, running containers and volume directories per stack, and the set of tenants.
  \<open>apply_one\<close> interprets one action and returns \<open>AssertionError\<close> where the source asserts; like the
  source it gives \<open>ZeroDowntimeDeploy\<close> no effect.  The theorems are the two the planner rests on,
  convergence and idempotency, for every host and every desired state.
\<close>

subsection \<open>The model host\<close>

record stack_state =
  ss_tenant :: string
  ss_files :: "(string, string option) fmap"
  ss_builds :: "(string, string option) fmap"
  ss_active :: "string fset"
  ss_dirs :: "string fset"

record model_host =
  mh_tenants :: "string fset"
  mh_stacks :: "(string, stack_state) fmap"

definition fresh_state :: "string \<Rightarrow> stack_state" where
  "fresh_state t = \<lparr>ss_tenant = t, ss_files = fmempty, ss_builds = fmempty, ss_active = {||}, ss_dirs = {||}\<rparr>"

definition st_empty :: "stack_state \<Rightarrow> bool" where
  "st_empty s \<longleftrightarrow> fmdom (ss_files s) = {||} \<and> fmdom (ss_builds s) = {||} \<and> ss_active s = {||} \<and> ss_dirs s = {||}"

definition entry :: "model_host \<Rightarrow> string \<Rightarrow> string \<Rightarrow> stack_state" where
  "entry h n t = fmget (mh_stacks h) n (fresh_state t)"

definition put :: "string \<Rightarrow> stack_state \<Rightarrow> model_host \<Rightarrow> model_host" where
  "put n s h = h\<lparr>mh_stacks := fmupd n s (mh_stacks h)\<rparr>"

text \<open>\<open>if stack in self.stacks: ...\<close>\<close>

definition modify :: "string \<Rightarrow> (stack_state \<Rightarrow> stack_state) \<Rightarrow> model_host \<Rightarrow> model_host" where
  "modify n f h = (case fmlookup (mh_stacks h) n of None \<Rightarrow> h | Some s \<Rightarrow> put n (f s) h)"

definition file_hashes :: "stack_spec \<Rightarrow> (string, string option) fmap" where
  "file_hashes spec = fmmap Some (expected_hashes spec)"

definition build_hashes :: "stack_spec \<Rightarrow> (string, string option) fmap" where
  "build_hashes spec = fmmap Some (expected_builds spec)"

definition tenant_idle :: "model_host \<Rightarrow> string \<Rightarrow> bool" where
  "tenant_idle h t \<longleftrightarrow>
     list_all (\<lambda>n. case fmlookup (mh_stacks h) n of None \<Rightarrow> True
                   | Some s \<Rightarrow> ss_tenant s \<noteq> t \<or> st_empty s) (sorted_keys (mh_stacks h))"

definition start_effect :: "string \<Rightarrow> string \<Rightarrow> string \<Rightarrow> model_host \<Rightarrow> model_host res" where
  "start_effect t n svc h =
     (if t |\<notin>| mh_tenants h then Inl AssertionError
      else case fmlookup (mh_stacks h) n of
             None \<Rightarrow> Inl AssertionError
           | Some s \<Rightarrow> if svc |\<in>| fmdom (ss_files s)
                       then Inr (put n (s\<lparr>ss_active := finsert svc (ss_active s)\<rparr>) h)
                       else Inl AssertionError)"

fun apply_one :: "model_host \<Rightarrow> action \<Rightarrow> model_host res" where
  "apply_one h (EnsureTenant t) = Inr (h\<lparr>mh_tenants := finsert t (mh_tenants h)\<rparr>)"
| "apply_one h (EnsureVolumeDir t n v) =
     (if t |\<notin>| mh_tenants h then Inl AssertionError
      else let s = entry h n t in Inr (put n (s\<lparr>ss_dirs := finsert v (ss_dirs s)\<rparr>) h))"
| "apply_one h (WriteUnits spec) =
     (if st_tenant spec |\<notin>| mh_tenants h then Inl AssertionError
      else let s = entry h (st_name spec) (st_tenant spec)
           in Inr (put (st_name spec) (s\<lparr>ss_tenant := st_tenant spec, ss_files := file_hashes spec,
                 ss_builds := build_hashes spec\<rparr>) h))"
| "apply_one h (RemoveUnits t n) = Inr (modify n (\<lambda>s. s\<lparr>ss_files := fmempty, ss_builds := fmempty\<rparr>) h)"
| "apply_one h (StartService t n svc) = start_effect t n svc h"
| "apply_one h (RestartService t n svc) = start_effect t n svc h"
| "apply_one h (StopService t n svc) = Inr (modify n (\<lambda>s. s\<lparr>ss_active := ss_active s |-| {|svc|}\<rparr>) h)"
| "apply_one h (RemoveVolumeDir t n v) = Inr (modify n (\<lambda>s. s\<lparr>ss_dirs := ss_dirs s |-| {|v|}\<rparr>) h)"
| "apply_one h (RemoveTenantIfEmpty t) =
     Inr (if tenant_idle h t then h\<lparr>mh_tenants := mh_tenants h |-| {|t|}\<rparr> else h)"
| "apply_one h (DaemonReload t) = Inr h"
| "apply_one h (ZeroDowntimeDeploy t spec svc) = Inr h"
| "apply_one h SyncCaddy = Inr h"

fun run :: "model_host \<Rightarrow> action list \<Rightarrow> model_host res" where
  "run h [] = Inr h"
| "run h (a # as) = bind_res (apply_one h a) (\<lambda>h'. run h' as)"

text \<open>Empty entries are dropped at the end of \<open>apply\<close>.\<close>

definition live :: "(string, stack_state) fmap \<Rightarrow> (string, stack_state) fmap" where
  "live m = fmfilter (\<lambda>n. case fmlookup m n of None \<Rightarrow> False | Some s \<Rightarrow> \<not> st_empty s) m"

definition apply_plan :: "model_host \<Rightarrow> action list \<Rightarrow> model_host res" where
  "apply_plan h as = bind_res (run h as) (\<lambda>h'. Inr (h'\<lparr>mh_stacks := live (mh_stacks h')\<rparr>))"

definition observe_stack :: "model_host \<Rightarrow> stack_state \<Rightarrow> observed_stack" where
  "observe_stack h s =
     \<lparr>os_tenant = ss_tenant s, os_tenant_present = (ss_tenant s |\<in>| mh_tenants h),
      os_units = dict_over (fmdom (ss_files s) |\<union>| ss_active s)
        (\<lambda>svc. \<lparr>ou_spec_hash = fmget (ss_files s) svc None, ou_active = (svc |\<in>| ss_active s)\<rparr>),
      os_build_units = ss_builds s, os_volume_dirs = ss_dirs s\<rparr>"

definition observe :: "model_host \<Rightarrow> observed" where
  "observe h = fmmap (observe_stack h) (live (mh_stacks h))"

text \<open>What a perfectly converged host observes.\<close>

definition project_stack :: "stack_spec \<Rightarrow> observed_stack" where
  "project_stack spec =
     \<lparr>os_tenant = st_tenant spec, os_tenant_present = True,
      os_units = fmmap (\<lambda>h. \<lparr>ou_spec_hash = Some h, ou_active = \<not> st_suspended spec\<rparr>) (expected_hashes spec),
      os_build_units = build_hashes spec, os_volume_dirs = desired_dirs spec\<rparr>"

definition project :: "stack_spec list \<Rightarrow> observed" where
  "project desired = dict_of (map (\<lambda>s. (st_name s, project_stack s)) desired)"

subsection \<open>Basic facts\<close>

lemma run_append: "run h (as @ bs) = bind_res (run h as) (\<lambda>h'. run h' bs)"
  by (induction as arbitrary: h) (auto simp: bind_res_def split: sum.splits)

lemma put_simps [simp]:
  "mh_stacks (put n s h) = fmupd n s (mh_stacks h)" "mh_tenants (put n s h) = mh_tenants h"
  "put n s (put n s' h) = put n s h"
  by (simp_all add: put_def)

lemma put_same [simp]: "fmlookup (mh_stacks h) n = Some s \<Longrightarrow> put n s h = h"
proof -
  assume "fmlookup (mh_stacks h) n = Some s"
  then have "fmupd n s (mh_stacks h) = mh_stacks h" by (intro fmap_ext) auto
  then show ?thesis by (simp add: put_def)
qed

lemma modify_present [simp]: "fmlookup (mh_stacks h) n = Some s \<Longrightarrow> modify n f h = put n (f s) h"
  by (simp add: modify_def)

lemma tenant_idle_iff:
  "tenant_idle h t \<longleftrightarrow> (\<forall>n s. fmlookup (mh_stacks h) n = Some s \<longrightarrow> ss_tenant s = t \<longrightarrow> st_empty s)"
proof
  assume idle: "tenant_idle h t"
  show "\<forall>n s. fmlookup (mh_stacks h) n = Some s \<longrightarrow> ss_tenant s = t \<longrightarrow> st_empty s"
  proof (intro allI impI)
    fix n s
    assume l: "fmlookup (mh_stacks h) n = Some s" and "ss_tenant s = t"
    moreover have "n \<in> set (sorted_keys (mh_stacks h))" using l by (simp add: fmdomI)
    ultimately show "st_empty s" using idle unfolding tenant_idle_def list_all_iff by fastforce
  qed
qed (auto simp: tenant_idle_def list_all_iff split: option.splits)

lemma fmlookup_live:
  "fmlookup (live m) n = (case fmlookup m n of None \<Rightarrow> None | Some s \<Rightarrow> if st_empty s then None else Some s)"
  by (simp add: live_def split: option.splits)

lemma fmlookup_observe:
  "fmlookup (observe h) n =
     (case fmlookup (mh_stacks h) n of None \<Rightarrow> None
      | Some s \<Rightarrow> if st_empty s then None else Some (observe_stack h s))"
  by (simp add: observe_def fmlookup_live split: option.splits)

lemma observe_stack_sel [simp]:
  "os_tenant (observe_stack h s) = ss_tenant s"
  "os_tenant_present (observe_stack h s) = (ss_tenant s |\<in>| mh_tenants h)"
  "os_build_units (observe_stack h s) = ss_builds s"
  "os_volume_dirs (observe_stack h s) = ss_dirs s"
  "fmdom (os_units (observe_stack h s)) = fmdom (ss_files s) |\<union>| ss_active s"
  "is_active (os_units (observe_stack h s)) svc = (svc |\<in>| ss_active s)"
  by (simp_all add: observe_stack_def is_active_def)

lemma fset_fset_of_list [simp]: "fset_of_list (sorted_list_of_fset S) = S"
  by (rule sorted_list_of_fset_simps(2))

subsection \<open>Runs over one stack\<close>

lemma run_stops:
  "fmlookup (mh_stacks h) n = Some s \<Longrightarrow>
   run h (map (StopService t n) svcs) = Inr (put n (s\<lparr>ss_active := ss_active s |-| fset_of_list svcs\<rparr>) h)"
proof (induction svcs arbitrary: h s)
  case (Cons x xs)
  have "ss_active s |-| {|x|} |-| fset_of_list xs = ss_active s |-| finsert x (fset_of_list xs)"
    by auto
  then show ?case
    using Cons.prems
    by (simp add: Cons.IH [of "put n (s\<lparr>ss_active := ss_active s |-| {|x|}\<rparr>) h"
          "s\<lparr>ss_active := ss_active s |-| {|x|}\<rparr>"])
qed simp

lemma run_remove_dirs:
  "fmlookup (mh_stacks h) n = Some s \<Longrightarrow>
   run h (map (RemoveVolumeDir t n) vs) = Inr (put n (s\<lparr>ss_dirs := ss_dirs s |-| fset_of_list vs\<rparr>) h)"
proof (induction vs arbitrary: h s)
  case (Cons x xs)
  have "ss_dirs s |-| {|x|} |-| fset_of_list xs = ss_dirs s |-| finsert x (fset_of_list xs)"
    by auto
  then show ?case
    using Cons.prems
    by (simp add: Cons.IH [of "put n (s\<lparr>ss_dirs := ss_dirs s |-| {|x|}\<rparr>) h"
          "s\<lparr>ss_dirs := ss_dirs s |-| {|x|}\<rparr>"])
qed simp

lemma entry_put [simp]: "entry (put n s h) n t = s"
  by (simp add: entry_def fmget_def)

lemma run_ensure_dirs:
  assumes "t |\<in>| mh_tenants h"
  shows "run h (map (EnsureVolumeDir t n) vs) =
    Inr (if vs = [] then h
         else put n ((entry h n t)\<lparr>ss_dirs := ss_dirs (entry h n t) |\<union>| fset_of_list vs\<rparr>) h)"
  using assms
proof (induction vs arbitrary: h)
  case (Cons x xs)
  let ?s = "(entry h n t)\<lparr>ss_dirs := finsert x (ss_dirs (entry h n t))\<rparr>"
  have "run (put n ?s h) (map (EnsureVolumeDir t n) xs) =
      Inr (put n (?s\<lparr>ss_dirs := ss_dirs ?s |\<union>| fset_of_list xs\<rparr>) h)"
    using Cons.IH [of "put n ?s h"] Cons.prems by (cases "xs = []") simp_all
  then show ?case using Cons.prems by (simp add: Let_def)
qed simp

text \<open>One block of per-service decisions: a service is stopped, started, or left running.\<close>

definition effect_of :: "action list \<Rightarrow> string \<Rightarrow> string \<Rightarrow> string \<Rightarrow> bool \<Rightarrow> bool" where
  "effect_of as t n svc on \<longleftrightarrow>
     (as = [] \<or> (\<exists>sp. as = [ZeroDowntimeDeploy t sp svc]))
     \<or> (\<not> on \<and> as = [StopService t n svc])
     \<or> (on \<and> as \<in> {[StartService t n svc], [RestartService t n svc]})"

lemma run_services:
  assumes "t |\<in>| mh_tenants h" "fmlookup (mh_stacks h) n = Some s"
    and "\<And>svc. svc \<in> set svcs \<Longrightarrow> svc |\<in>| fmdom (ss_files s) \<and> effect_of (f svc) t n svc on"
    and "\<And>svc. svc \<in> set svcs \<Longrightarrow> f svc = [] \<or> (\<exists>sp. f svc = [ZeroDowntimeDeploy t sp svc]) \<Longrightarrow>
           (svc |\<in>| ss_active s \<longleftrightarrow> on)"
    and "distinct svcs"
  shows "run h (concat (map f svcs)) =
    Inr (put n (s\<lparr>ss_active := (if on then ss_active s |\<union>| fset_of_list svcs
                                else ss_active s |-| fset_of_list svcs)\<rparr>) h)"
  using assms
proof (induction svcs arbitrary: h s)
  case (Cons x xs)
  let ?a = "if on then finsert x (ss_active s) else ss_active s |-| {|x|}"
  let ?s = "s\<lparr>ss_active := ?a\<rparr>"
  have step: "run h (f x) = Inr (put n ?s h)"
  proof -
    consider "f x = [] \<or> (\<exists>sp. f x = [ZeroDowntimeDeploy t sp x])" | "\<not> on" "f x = [StopService t n x]"
      | "on" "f x \<in> {[StartService t n x], [RestartService t n x]}"
      using Cons.prems(3) [of x] by (auto simp: effect_of_def)
    then show ?thesis
    proof cases
      case 1
      then have "?a = ss_active s" using Cons.prems(4) [of x] by auto
      then have "put n ?s h = h" using Cons.prems(2) by simp
      then show ?thesis using 1 by auto
    next
      case 2
      then show ?thesis using Cons.prems(2) by simp
    next
      case 3
      then show ?thesis using Cons.prems(1,2) Cons.prems(3) [of x] by (auto simp: start_effect_def)
    qed
  qed
  have "run (put n ?s h) (concat (map f xs)) =
      Inr (put n (?s\<lparr>ss_active := (if on then ss_active ?s |\<union>| fset_of_list xs
                                else ss_active ?s |-| fset_of_list xs)\<rparr>) (put n ?s h))"
  proof (rule Cons.IH)
    show "t |\<in>| mh_tenants (put n ?s h)" "fmlookup (mh_stacks (put n ?s h)) n = Some ?s"
      using Cons.prems(1) by simp_all
    show "svc |\<in>| fmdom (ss_files ?s) \<and> effect_of (f svc) t n svc on" if "svc \<in> set xs" for svc
      using Cons.prems(3) [of svc] that by simp
    show "svc |\<in>| ss_active ?s \<longleftrightarrow> on"
      if "svc \<in> set xs" "f svc = [] \<or> (\<exists>sp. f svc = [ZeroDowntimeDeploy t sp svc])" for svc
      using Cons.prems(4) [of svc] Cons.prems(5) that by auto
    show "distinct xs" using Cons.prems(5) by simp
  qed
  moreover have "(if on then ss_active ?s |\<union>| fset_of_list xs else ss_active ?s |-| fset_of_list xs) =
      (if on then ss_active s |\<union>| fset_of_list (x # xs) else ss_active s |-| fset_of_list (x # xs))"
    by auto
  ultimately show ?case using step by (simp add: run_append)
qed simp

subsection \<open>Tearing down\<close>

definition drop_tenant :: "string \<Rightarrow> model_host \<Rightarrow> model_host" where
  "drop_tenant t h = (if tenant_idle h t then h\<lparr>mh_tenants := mh_tenants h |-| {|t|}\<rparr> else h)"

lemma fset_sorted_keys [simp]: "fset_of_list (sorted_keys m) = fmdom m"
  by (simp add: sorted_keys_def)

lemma ffilter_active:
  assumes "\<And>svc. is_active us svc = (svc |\<in>| A)"
  shows "ffilter (is_active us) S = A |\<inter>| S"
  by (rule fset_eqI) (use assms in auto)

lemma run_teardown:
  assumes l: "fmlookup (mh_stacks h) n = Some s"
  shows "run h (plan_teardown n (observe_stack h0 s)) =
    Inr (drop_tenant (ss_tenant s) (put n (fresh_state (ss_tenant s)) h))"
proof -
  let ?obs = "observe_stack h0 s"
  have act: "ffilter (is_active (os_units ?obs)) (fmdom (os_units ?obs)) = ss_active s"
    by (subst ffilter_active [of _ "ss_active s"]) auto
  let ?s1 = "s\<lparr>ss_active := {||}\<rparr>"
  let ?s2 = "?s1\<lparr>ss_files := fmempty, ss_builds := fmempty\<rparr>"
  have cleared: "?s2\<lparr>ss_dirs := {||}\<rparr> = fresh_state (ss_tenant s)"
    by (cases s) (simp add: fresh_state_def)
  have "run h (map (StopService (ss_tenant s) n)
      (filter (is_active (os_units ?obs)) (sorted_keys (os_units ?obs)))) = Inr (put n ?s1 h)"
    by (simp add: run_stops [OF l] act del: observe_stack_sel(5))
  moreover have "run (put n ?s2 h) (map (RemoveVolumeDir (ss_tenant s) n) (sorted_list_of_fset (ss_dirs s)))
      = Inr (put n (fresh_state (ss_tenant s)) h)"
    using cleared by (simp add: run_remove_dirs [where s = ?s2])
  ultimately show ?thesis
    by (simp add: plan_teardown_def run_append drop_tenant_def)
qed

subsection \<open>Converging\<close>

definition conv :: "stack_spec \<Rightarrow> stack_state" where
  "conv spec = \<lparr>ss_tenant = st_tenant spec, ss_files = file_hashes spec, ss_builds = build_hashes spec,
     ss_active = (if st_suspended spec then {||} else fmdom (expected_hashes spec)),
     ss_dirs = desired_dirs spec\<rparr>"

text \<open>\<open>h\<close> differs from \<open>h0\<close> at most in the entry of \<open>n\<close>, which is now \<open>s\<close>.\<close>

definition agrees :: "model_host \<Rightarrow> string \<Rightarrow> string \<Rightarrow> stack_state \<Rightarrow> model_host \<Rightarrow> bool" where
  "agrees h n t s h0 \<longleftrightarrow> entry h n t = s \<and> mh_tenants h = mh_tenants h0 \<and> (\<forall>x. put n x h = put n x h0)"

lemma agrees_put: "agrees h n t s h0 \<Longrightarrow> agrees (put n s' h) n t s' h0"
  by (simp add: agrees_def)

lemma entry_cases: "fmlookup (mh_stacks h) n = None \<and> entry h n t = fresh_state t
    \<or> fmlookup (mh_stacks h) n = Some (entry h n t)"
  by (cases "fmlookup (mh_stacks h) n") (auto simp: entry_def fmget_def)

text \<open>What the planner knows about the entry.\<close>

definition describes ::
    "(string, observed_unit) fmap \<Rightarrow> (string, string option) fmap \<Rightarrow> string fset \<Rightarrow> stack_state \<Rightarrow> bool" where
  "describes us bs dirs s \<longleftrightarrow>
     fmdom us = fmdom (ss_files s) |\<union>| ss_active s \<and> (\<forall>svc. is_active us svc = (svc |\<in>| ss_active s))
     \<and> (\<forall>svc u. fmlookup us svc = Some u \<longrightarrow> ou_spec_hash u = fmget (ss_files s) svc None)
     \<and> bs = ss_builds s \<and> dirs = ss_dirs s"

lemma describes_observe:
  "describes (os_units (observe_stack h s)) (os_build_units (observe_stack h s))
     (os_volume_dirs (observe_stack h s)) s"
  by (auto simp: describes_def) (auto simp: observe_stack_def split: if_splits)

lemma describes_fresh: "st_empty s \<Longrightarrow> describes fmempty fmempty {||} s"
  by (auto simp: describes_def st_empty_def is_active_def fmap_ext fmdom_notD)

lemma run_ensure_agrees:
  assumes "agrees h n t s h0" "t |\<in>| mh_tenants h0"
  shows "\<exists>h'. run h (map (EnsureVolumeDir t n) vs) = Inr h' \<and>
    agrees h' n t (s\<lparr>ss_dirs := ss_dirs s |\<union>| fset_of_list vs\<rparr>) h0"
  using assms by (simp add: run_ensure_dirs agrees_def)

lemma run_stops_agrees:
  assumes "agrees h n t s h0" "set svcs \<subseteq> fset (ss_active s)"
  shows "\<exists>h'. run h (map (StopService t n) svcs) = Inr h' \<and>
    agrees h' n t (s\<lparr>ss_active := ss_active s |-| fset_of_list svcs\<rparr>) h0"
proof (cases "svcs = []")
  case True
  then show ?thesis using assms by simp
next
  case False
  then have "entry h n t \<noteq> fresh_state t"
    using assms by (cases svcs) (auto simp: agrees_def fresh_state_def)
  then have "fmlookup (mh_stacks h) n = Some s"
    using assms(1) entry_cases [of h n t] by (auto simp: agrees_def)
  then show ?thesis using assms(1) by (simp add: run_stops agrees_def)
qed

lemma files_eq:
  assumes wf: "stack_wf spec" and d: "describes us bs dirs s"
    and "stale_units spec us = {||}" "extra_units spec us = {||}"
  shows "ss_files s = file_hashes spec"
proof (rule fmap_ext)
  fix n
  show "fmlookup (ss_files s) n = fmlookup (file_hashes spec) n"
  proof (cases "n |\<in>| fmdom (expected_hashes spec)")
    case True
    then obtain h where h: "fmlookup (expected_hashes spec) n = Some h" by (meson fmdomE)
    have "n |\<notin>| stale_units spec us" using assms(3) by simp
    then obtain u where "fmlookup us n = Some u" "ou_spec_hash u = Some h"
      using True h by (auto simp: stale_units_def split: option.splits)
    then have "fmget (ss_files s) n None = Some h" using d by (auto simp: describes_def)
    then show ?thesis using h by (simp add: fmget_def file_hashes_def split: option.splits)
  next
    case False
    then have "n |\<notin>| fmdom us" using assms(4) by (auto simp: extra_units_def)
    then have "n |\<notin>| fmdom (ss_files s)" using d by (simp add: describes_def)
    then show ?thesis using False by (simp add: fmdom_notD file_hashes_def del: fmdom_expected)
  qed
qed

lemma builds_eq:
  assumes "stale_builds spec bs = {||}" "extra_builds spec bs = {||}"
  shows "bs = build_hashes spec"
proof (rule fmap_ext)
  fix n
  show "fmlookup bs n = fmlookup (build_hashes spec) n"
  proof (cases "n |\<in>| fmdom (expected_builds spec)")
    case True
    then obtain h where h: "fmlookup (expected_builds spec) n = Some h" by (meson fmdomE)
    have "n |\<notin>| stale_builds spec bs" using assms(1) by simp
    then have "fmget bs n None = Some h" using True h by (simp add: stale_builds_def)
    then show ?thesis using h by (simp add: fmget_def build_hashes_def split: option.splits)
  next
    case False
    then have "n |\<notin>| fmdom bs" using assms(2) by (auto simp: extra_builds_def)
    then show ?thesis using False by (simp add: fmdom_notD build_hashes_def del: fmdom_expected_builds)
  qed
qed

lemma service_of_name:
  "stack_wf spec \<Longrightarrow> svc |\<in>| fmdom (expected_hashes spec) \<Longrightarrow>
     \<exists>s. fmlookup (dict_of (map (\<lambda>s. (s_name s, s)) (st_services spec))) svc = Some s"
  using service_map_lookup by (fastforce simp: fset_of_list_elem)

lemma service_actions_effect:
  assumes "stack_wf spec" "svc |\<in>| fmdom (expected_hashes spec)"
  shows "effect_of (service_actions spec us stale svc) (st_tenant spec) (st_name spec) svc
           (\<not> st_suspended spec)"
    and "service_actions spec us stale svc = []
           \<or> (\<exists>sp. service_actions spec us stale svc = [ZeroDowntimeDeploy (st_tenant spec) sp svc])
         \<Longrightarrow> is_active us svc = (\<not> st_suspended spec)"
  using service_of_name [OF assms]
  by (auto simp: service_actions_def effect_of_def Let_def split: if_splits option.splits)

lemma run_rewrite:
  assumes wf: "stack_wf spec" and d: "describes us bs dirs s"
    and h: "agrees h (st_name spec) (st_tenant spec) s2 h0" "st_tenant spec |\<in>| mh_tenants h0"
    and s2: "s2 = s\<lparr>ss_dirs := ds, ss_active := act\<rparr>"
    and own: "ss_tenant s = st_tenant spec \<or> st_empty s"
    and rw: "rewrite = (stale_units spec us \<noteq> {||} \<or> extra_units spec us \<noteq> {||}
               \<or> stale_builds spec bs \<noteq> {||} \<or> extra_builds spec bs \<noteq> {||})"
  shows "\<exists>h'. run h (if rewrite then [WriteUnits spec, DaemonReload (st_tenant spec)] else []) = Inr h'
    \<and> fmlookup (mh_stacks h') (st_name spec) = Some (conv spec\<lparr>ss_dirs := ds, ss_active := act\<rparr>)
    \<and> mh_tenants h' = mh_tenants h0 \<and> (\<forall>x. put (st_name spec) x h' = put (st_name spec) x h0)"
proof (cases rewrite)
  case True
  have "s2\<lparr>ss_tenant := st_tenant spec, ss_files := file_hashes spec, ss_builds := build_hashes spec\<rparr>
      = conv spec\<lparr>ss_dirs := ds, ss_active := act\<rparr>"
    by (cases s) (simp add: s2 conv_def)
  then show ?thesis using True h by (simp add: agrees_def Let_def)
next
  case False
  then have f: "ss_files s = file_hashes spec" and b: "ss_builds s = build_hashes spec"
    using files_eq [OF wf d] builds_eq [of spec bs] d rw by (auto simp: describes_def)
  have ne: "fmdom (ss_files s) \<noteq> {||}"
    using expected_nonempty [OF wf] by (simp add: f file_hashes_def del: fmdom_expected)
  then have t: "ss_tenant s = st_tenant spec" using own by (simp add: st_empty_def)
  have "s2 = conv spec\<lparr>ss_dirs := ds, ss_active := act\<rparr>"
    using f b t by (cases s) (simp add: s2 conv_def)
  moreover have "s2 \<noteq> fresh_state (st_tenant spec)"
  proof
    assume "s2 = fresh_state (st_tenant spec)"
    then have "ss_files s2 = fmempty" by (simp add: fresh_state_def)
    then show False using ne by (simp add: s2)
  qed
  then have "fmlookup (mh_stacks h) (st_name spec) = Some s2"
    using h(1) entry_cases [of h "st_name spec" "st_tenant spec"] by (auto simp: agrees_def)
  ultimately show ?thesis using False h by (auto simp: agrees_def)
qed

definition obs_of :: "(observed_stack \<Rightarrow> 'a) \<Rightarrow> 'a \<Rightarrow> observed_stack option \<Rightarrow> 'a" where
  "obs_of f d obs = (case obs of None \<Rightarrow> d | Some ob \<Rightarrow> f ob)"

lemma run_converge:
  fixes h spec
  defines "t \<equiv> st_tenant spec" and "n \<equiv> st_name spec"
  defines "s \<equiv> entry h n t" and "h0 \<equiv> h\<lparr>mh_tenants := finsert t (mh_tenants h)\<rparr>"
  assumes wf: "stack_wf spec"
    and d: "describes (obs_of os_units fmempty obs) (obs_of os_build_units fmempty obs)
              (obs_of os_volume_dirs {||} obs) s"
    and present: "obs_of os_tenant_present False obs \<Longrightarrow> t |\<in>| mh_tenants h"
    and own: "ss_tenant s = t \<or> st_empty s"
  shows "run h (plan_converge spec obs) = Inr (put n (conv spec) h0)"
proof -
  define us bs dirs where "us = obs_of os_units fmempty obs" and "bs = obs_of os_build_units fmempty obs"
    and "dirs = obs_of os_volume_dirs {||} obs"
  define act where "act = ss_active s |-| extra_units spec us"
  define ds where "ds = dirs |\<union>| desired_dirs spec"
  define stops where "stops = filter (is_active us) (sorted_list_of_fset (extra_units spec us))"
  define rewrite where "rewrite = (stale_units spec us \<noteq> {||} \<or> extra_units spec us \<noteq> {||}
               \<or> stale_builds spec bs \<noteq> {||} \<or> extra_builds spec bs \<noteq> {||})"
  note d' = d [folded us_def bs_def dirs_def]
  have active: "is_active us svc = (svc |\<in>| ss_active s)" for svc using d' by (simp add: describes_def)
  have dirs: "dirs = ss_dirs s" using d' by (simp add: describes_def)
  have t0: "t |\<in>| mh_tenants h0" by (simp add: h0_def)
  have "run h (if obs_of os_tenant_present False obs then [] else [EnsureTenant t]) = Inr h0"
    using present by (auto simp: h0_def finsert_absorb)
  moreover have "agrees h0 n t s h0" by (simp add: agrees_def h0_def s_def entry_def)
  then obtain h1 where
    "run h0 (map (EnsureVolumeDir t n) (sorted_list_of_fset (desired_dirs spec |-| dirs))) = Inr h1"
    and h1: "agrees h1 n t (s\<lparr>ss_dirs := ds\<rparr>) h0"
    using run_ensure_agrees [of h0 n t s h0 "sorted_list_of_fset (desired_dirs spec |-| dirs)"] t0
    by (auto simp: ds_def dirs)
  moreover have "set stops \<subseteq> fset (ss_active (s\<lparr>ss_dirs := ds\<rparr>))" by (auto simp: stops_def active)
  then obtain h2 where "run h1 (map (StopService t n) stops) = Inr h2"
    and h2: "agrees h2 n t (s\<lparr>ss_dirs := ds, ss_active := act\<rparr>) h0"
  proof -
    have "ss_active s |-| fset_of_list stops = act"
      by (auto simp: act_def stops_def fset_of_list_elem active intro!: fset_eqI)
    then show ?thesis
      using run_stops_agrees [OF h1 \<open>set stops \<subseteq> _\<close>] that by auto
  qed
  moreover obtain h3 where
    "run h2 (if rewrite then [WriteUnits spec, DaemonReload t] else []) = Inr h3"
    and h3: "fmlookup (mh_stacks h3) n = Some (conv spec\<lparr>ss_dirs := ds, ss_active := act\<rparr>)"
      "mh_tenants h3 = mh_tenants h0" "\<And>x. put n x h3 = put n x h0"
    using run_rewrite [OF wf d' h2 [unfolded n_def t_def] t0 [unfolded t_def] refl
        own [unfolded t_def] rewrite_def]
    unfolding n_def t_def by blast
  moreover have "run h3 (concat (map (service_actions spec us (stale_units spec us))
      (sorted_keys (expected_hashes spec)))) = Inr (put n (conv spec\<lparr>ss_dirs := ds\<rparr>) h0)"
    (is "run h3 (concat (map ?f ?svcs)) = _")
  proof -
    have names: "svc |\<in>| fmdom (expected_hashes spec)" if "svc \<in> set ?svcs" for svc
      using that by (simp add: fset_of_list_elem)
    have in_act: "svc |\<in>| act \<longleftrightarrow> is_active us svc" if "svc \<in> set ?svcs" for svc
      using names [OF that] by (auto simp: act_def active extra_units_def)
    have sub: "act |\<subseteq>| fmdom (expected_hashes spec)"
      using d' by (auto simp: act_def extra_units_def describes_def)
    have "run h3 (concat (map ?f ?svcs)) =
      Inr (put n (conv spec\<lparr>ss_dirs := ds, ss_active := act\<rparr>
        \<lparr>ss_active := (if \<not> st_suspended spec then act |\<union>| fset_of_list ?svcs
                       else act |-| fset_of_list ?svcs)\<rparr>) h3)"
      using run_services [of t h3 n _ ?svcs ?f "\<not> st_suspended spec", OF _ h3(1)]
        service_actions_effect [OF wf names] in_act t0 h3(2) names
      by (simp add: n_def t_def conv_def file_hashes_def del: fmdom_expected)
    also have "(if \<not> st_suspended spec then act |\<union>| fset_of_list ?svcs else act |-| fset_of_list ?svcs)
      = ss_active (conv spec)"
      using sub by (auto simp: conv_def simp del: fmdom_expected)
    finally show ?thesis by (simp add: h3(3))
  qed
  moreover have "run (put n (conv spec\<lparr>ss_dirs := ds\<rparr>) h0)
      (map (RemoveVolumeDir t n) (sorted_list_of_fset (dirs |-| desired_dirs spec))) =
      Inr (put n (conv spec) h0)"
  proof -
    have "ds |-| (dirs |-| desired_dirs spec) = desired_dirs spec" by (auto simp: ds_def)
    then show ?thesis by (simp add: run_remove_dirs [where s = "conv spec\<lparr>ss_dirs := ds\<rparr>"])
        (simp add: conv_def)
  qed
  ultimately show ?thesis
    unfolding plan_converge_def Let_def obs_of_def [symmetric] us_def [symmetric] bs_def [symmetric]
      dirs_def [symmetric] t_def [symmetric] n_def [symmetric] rewrite_def [symmetric]
      stops_def [symmetric] run_append bind_res_simps
    by (simp del: fmdom_expected)
qed

subsection \<open>The whole plan\<close>

definition plan_name :: "stack_spec list \<Rightarrow> observed \<Rightarrow> string \<Rightarrow> action list" where
  "plan_name desired ob n =
     (case fmlookup (desired_by_name desired) n of
        Some spec \<Rightarrow> plan_stack spec (fmlookup ob n)
      | None \<Rightarrow> (case fmlookup ob n of None \<Rightarrow> [] | Some o1 \<Rightarrow> plan_teardown n o1))"

definition plan_order :: "stack_spec list \<Rightarrow> observed \<Rightarrow> string list" where
  "plan_order desired ob =
     sorted_list_of_fset (fmdom ob |-| fmdom (desired_by_name desired)) @ sorted_keys (desired_by_name desired)"

lemma plan_actions_names: "plan_actions desired ob = concat (map (plan_name desired ob) (plan_order desired ob))"
proof -
  have "map (\<lambda>n. case fmlookup ob n of None \<Rightarrow> [] | Some o1 \<Rightarrow> plan_teardown n o1)
      (sorted_list_of_fset (fmdom ob |-| fmdom (desired_by_name desired))) =
    map (plan_name desired ob) (sorted_list_of_fset (fmdom ob |-| fmdom (desired_by_name desired)))"
    by (rule map_cong) (auto simp: plan_name_def fmdom_notD simp del: fmdom_desired)
  moreover have "map (\<lambda>n. case fmlookup (desired_by_name desired) n of None \<Rightarrow> []
      | Some spec \<Rightarrow> plan_stack spec (fmlookup ob n)) (sorted_keys (desired_by_name desired)) =
    map (plan_name desired ob) (sorted_keys (desired_by_name desired))"
    by (rule map_cong)
      (auto simp: plan_name_def fmlookup_dom_iff simp del: fmdom_desired)
  ultimately show ?thesis
    by (simp only: plan_actions_def plan_order_def Let_def map_append concat_append)
qed

text \<open>The invariant of the two loops over stack names, after the names in \<open>dn\<close>: a name not yet
  reached is untouched and its tenant, if it was there, still is; a finished name is converged, or
  empty when it is not desired.  \<open>settled\<close> is the clause of one finished name, \<open>others\<close> the
  invariant with one name left out.\<close>

definition settled :: "stack_spec list \<Rightarrow> string \<Rightarrow> model_host \<Rightarrow> bool" where
  "settled desired n h \<longleftrightarrow>
     (case fmlookup (desired_by_name desired) n of
        Some spec \<Rightarrow> fmlookup (mh_stacks h) n = Some (conv spec) \<and> st_tenant spec |\<in>| mh_tenants h
      | None \<Rightarrow> (\<forall>s. fmlookup (mh_stacks h) n = Some s \<longrightarrow> st_empty s))"

definition untouched :: "model_host \<Rightarrow> string \<Rightarrow> model_host \<Rightarrow> bool" where
  "untouched h0 n h \<longleftrightarrow>
     fmlookup (mh_stacks h) n = fmlookup (mh_stacks h0) n
     \<and> (\<forall>s. fmlookup (mh_stacks h0) n = Some s \<longrightarrow> \<not> st_empty s \<longrightarrow>
           ss_tenant s |\<in>| mh_tenants h0 \<longrightarrow> ss_tenant s |\<in>| mh_tenants h)"

definition loop_inv :: "stack_spec list \<Rightarrow> model_host \<Rightarrow> string set \<Rightarrow> model_host \<Rightarrow> bool" where
  "loop_inv desired h0 dn h \<longleftrightarrow>
     (\<forall>n. if n \<in> dn then settled desired n h else untouched h0 n h)"

definition others :: "stack_spec list \<Rightarrow> model_host \<Rightarrow> string set \<Rightarrow> string \<Rightarrow> model_host \<Rightarrow> bool" where
  "others desired h0 dn n h \<longleftrightarrow>
     (\<forall>m. m \<noteq> n \<longrightarrow> (if m \<in> dn then settled desired m h else untouched h0 m h))"

lemma loop_inv_others: "loop_inv desired h0 dn h \<Longrightarrow> others desired h0 dn n h"
  by (simp add: loop_inv_def others_def)

lemma loop_inv_untouched: "loop_inv desired h0 dn h \<Longrightarrow> n \<notin> dn \<Longrightarrow> untouched h0 n h"
  unfolding loop_inv_def by presburger

lemma loop_inv_settled: "loop_inv desired h0 dn h \<Longrightarrow> n \<in> dn \<Longrightarrow> settled desired n h"
  unfolding loop_inv_def by presburger

lemma others_loop_inv:
  "others desired h0 dn n h \<Longrightarrow> settled desired n h \<Longrightarrow> loop_inv desired h0 (insert n dn) h"
  by (auto simp: loop_inv_def others_def)

lemma conv_nonempty: "stack_wf spec \<Longrightarrow> \<not> st_empty (conv spec)"
  using expected_nonempty by (simp add: st_empty_def conv_def file_hashes_def del: fmdom_expected)

lemma conv_tenant [simp]: "ss_tenant (conv spec) = st_tenant spec"
  by (simp add: conv_def)

lemma st_empty_fresh [simp]: "st_empty (fresh_state t)"
  by (simp add: st_empty_def fresh_state_def)

lemma drop_tenant_stacks [simp]: "mh_stacks (drop_tenant t h) = mh_stacks h"
  by (simp add: drop_tenant_def)

lemma drop_tenant_keeps:
  "t' |\<in>| mh_tenants h \<Longrightarrow> fmlookup (mh_stacks h) n = Some s \<Longrightarrow> \<not> st_empty s \<Longrightarrow> ss_tenant s = t' \<Longrightarrow>
     t' |\<in>| mh_tenants (drop_tenant t h)"
  by (auto simp: drop_tenant_def tenant_idle_iff)

text \<open>The clauses survive a change of another entry that drops no tenant still in use.\<close>

lemma clause_frame:
  assumes ok: "desired_ok desired" and same: "fmlookup (mh_stacks h') m = fmlookup (mh_stacks h) m"
    and keep: "\<And>s. fmlookup (mh_stacks h) m = Some s \<Longrightarrow> \<not> st_empty s \<Longrightarrow>
      ss_tenant s |\<in>| mh_tenants h \<Longrightarrow> ss_tenant s |\<in>| mh_tenants h'"
  shows "settled desired m h \<Longrightarrow> settled desired m h'" "untouched h0 m h \<Longrightarrow> untouched h0 m h'"
proof -
  assume st: "settled desired m h"
  show "settled desired m h'"
  proof (cases "fmlookup (desired_by_name desired) m")
    case (Some spec)
    then have "stack_wf spec" using ok by (auto simp: desired_ok_def desired_lookup_iff)
    then show ?thesis
      using st Some same keep [of "conv spec"] conv_nonempty by (simp add: settled_def)
  qed (use st same in \<open>simp add: settled_def\<close>)
next
  assume "untouched h0 m h"
  then show "untouched h0 m h'" using same keep by (simp add: untouched_def)
qed

lemma others_frame:
  assumes "others desired h0 dn n h" "desired_ok desired"
    and "\<And>m. m \<noteq> n \<Longrightarrow> fmlookup (mh_stacks h') m = fmlookup (mh_stacks h) m"
    and "\<And>m s. m \<noteq> n \<Longrightarrow> fmlookup (mh_stacks h) m = Some s \<Longrightarrow> \<not> st_empty s \<Longrightarrow>
      ss_tenant s |\<in>| mh_tenants h \<Longrightarrow> ss_tenant s |\<in>| mh_tenants h'"
  shows "others desired h0 dn n h'"
  unfolding others_def
proof (intro allI impI)
  fix m assume m: "m \<noteq> n"
  then show "if m \<in> dn then settled desired m h' else untouched h0 m h'"
    using assms(1) clause_frame [OF assms(2) assms(3) assms(4), OF m m]
    unfolding others_def by (metis (full_types))
qed

lemma others_teardown:
  assumes "others desired h0 dn n h" "desired_ok desired"
  shows "others desired h0 dn n (drop_tenant t (put n (fresh_state t) h))"
proof (rule others_frame [OF assms])
  fix m s
  assume m: "m \<noteq> n" "fmlookup (mh_stacks h) m = Some s" "\<not> st_empty s" "ss_tenant s |\<in>| mh_tenants h"
  then show "ss_tenant s |\<in>| mh_tenants (drop_tenant t (put n (fresh_state t) h))"
    using drop_tenant_keeps [of "ss_tenant s" "put n (fresh_state t) h" m s] by simp
qed simp

lemma others_converge:
  assumes "others desired h0 dn n h" "desired_ok desired"
  shows "others desired h0 dn n (put n s (h\<lparr>mh_tenants := finsert t (mh_tenants h)\<rparr>))"
  by (rule others_frame [OF assms]) auto

lemma run_plan_name:
  assumes inv: "loop_inv desired h0 dn h" and ok: "desired_ok desired" and n: "n \<notin> dn"
    and known: "n |\<in>| fmdom (observe h0) \<or> n |\<in>| fmdom (desired_by_name desired)"
  shows "\<exists>h'. run h (plan_name desired (observe h0) n) = Inr h' \<and> loop_inv desired h0 (insert n dn) h'"
proof (cases "fmlookup (desired_by_name desired) n")
  case None
  then obtain s where s: "fmlookup (mh_stacks h0) n = Some s" "\<not> st_empty s"
    using known by (auto simp: fmlookup_observe fmlookup_dom_iff simp del: fmdom_desired
        split: option.splits if_splits)
  then have "fmlookup (mh_stacks h) n = Some s" using loop_inv_untouched [OF inv n] by (simp add: untouched_def)
  then show ?thesis
    using None s others_teardown [OF loop_inv_others [OF inv] ok, of n "ss_tenant s"]
    by (auto simp: plan_name_def fmlookup_observe run_teardown settled_def intro!: others_loop_inv)
next
  case (Some spec)
  then have spec: "stack_wf spec" "st_name spec = n"
    using ok by (auto simp: desired_ok_def desired_lookup_iff)
  note o = loop_inv_others [OF inv, of n]
  have fin: "loop_inv desired h0 (insert n dn)
      (put n (conv spec) (h1\<lparr>mh_tenants := finsert (st_tenant spec) (mh_tenants h1)\<rparr>))"
    if "others desired h0 dn n h1" for h1
    using others_converge [OF that ok] Some by (auto simp: settled_def intro!: others_loop_inv)
  show ?thesis
  proof (cases "fmlookup (observe h0) n")
    case None
    then have e: "st_empty (entry h n (st_tenant spec))"
      using loop_inv_untouched [OF inv n]
      by (auto simp: untouched_def fmlookup_observe entry_def fmget_def
          split: option.splits if_splits)
    have "run h (plan_converge spec None) =
        Inr (put n (conv spec) (h\<lparr>mh_tenants := finsert (st_tenant spec) (mh_tenants h)\<rparr>))"
      using run_converge [OF spec(1), of None h] describes_fresh [OF e] e
      by (simp add: obs_of_def spec(2))
    then show ?thesis using None Some fin [OF o] by (simp add: plan_name_def plan_stack_def)
  next
    case (Some ob)
    then obtain s where s: "fmlookup (mh_stacks h0) n = Some s" "\<not> st_empty s" "ob = observe_stack h0 s"
      by (auto simp: fmlookup_observe split: option.splits if_splits)
    have l: "fmlookup (mh_stacks h) n = Some s"
      and t: "ss_tenant s |\<in>| mh_tenants h0 \<Longrightarrow> ss_tenant s |\<in>| mh_tenants h"
      using loop_inv_untouched [OF inv n] s by (auto simp: untouched_def)
    show ?thesis
    proof (cases "ss_tenant s = st_tenant spec")
      case True
      have "run h (plan_converge spec (Some ob)) =
          Inr (put n (conv spec) (h\<lparr>mh_tenants := finsert (st_tenant spec) (mh_tenants h)\<rparr>))"
        using run_converge [OF spec(1), of "Some ob" h] describes_observe [of h0 s] True l t
        by (simp add: obs_of_def spec(2) s(3) entry_def fmget_def)
      then show ?thesis
        using Some \<open>fmlookup (desired_by_name desired) n = Some spec\<close> True fin [OF o]
        by (simp add: plan_name_def plan_stack_def s(3))
    next
      case False
      let ?h1 = "drop_tenant (ss_tenant s) (put n (fresh_state (ss_tenant s)) h)"
      have e: "entry ?h1 n (st_tenant spec) = fresh_state (ss_tenant s)"
        by (simp add: entry_def fmget_def)
      have "run ?h1 (plan_converge spec None) =
          Inr (put n (conv spec) (?h1\<lparr>mh_tenants := finsert (st_tenant spec) (mh_tenants ?h1)\<rparr>))"
        using run_converge [OF spec(1), of None ?h1] describes_fresh [of "fresh_state (ss_tenant s)"]
        by (simp add: obs_of_def spec(2) e)
      then show ?thesis
        using Some \<open>fmlookup (desired_by_name desired) n = Some spec\<close> False
          fin [OF others_teardown [OF o ok], of "ss_tenant s"]
        by (simp add: plan_name_def plan_stack_def s(3) run_append run_teardown [OF l] spec(2))
    qed
  qed
qed

lemma run_plan_names:
  assumes "loop_inv desired h0 dn h" "desired_ok desired" "distinct ns" "set ns \<inter> dn = {}"
    and "\<And>n. n \<in> set ns \<Longrightarrow> n |\<in>| fmdom (observe h0) \<or> n |\<in>| fmdom (desired_by_name desired)"
  shows "\<exists>h'. run h (concat (map (plan_name desired (observe h0)) ns)) = Inr h'
    \<and> loop_inv desired h0 (dn \<union> set ns) h'"
  using assms
proof (induction ns arbitrary: dn h)
  case (Cons n ns)
  obtain h1 where h1: "run h (plan_name desired (observe h0) n) = Inr h1"
      "loop_inv desired h0 (insert n dn) h1"
    using run_plan_name [OF Cons.prems(1,2), of n] Cons.prems(4,5) by auto
  obtain h' where "run h1 (concat (map (plan_name desired (observe h0)) ns)) = Inr h'"
      "loop_inv desired h0 (insert n dn \<union> set ns) h'"
    using Cons.IH [OF h1(2) Cons.prems(2)] Cons.prems by auto
  then show ?case using h1(1) by (auto simp: run_append)
qed simp

end
