(* ===== verification/Observer.thy ===== *)
theory Observer
  imports Stackhost HostModel
begin

text \<open>
  The observer \<open>backend/app/orchestration/observer.py\<close>: what one tenant's unit files, volume
  directories and containers say about its stacks, and the union over the ledger's tenants.
\<close>

record ps_container =
  pc_name :: string
  pc_running :: bool
  pc_stack :: "string option"

definition is_build_file :: "string \<Rightarrow> bool" where
  "is_build_file f \<longleftrightarrow> endswith f ''.build'' \<or> endswith f ''-build.service'' \<or> endswith f ''-nixpacks.service''"

text \<open>\<open>m.setdefault(st, {})[svc] = x\<close> and \<open>m.setdefault(st, {}).setdefault(svc, x)\<close>.\<close>

definition set2 :: "string \<Rightarrow> string \<Rightarrow> 'a \<Rightarrow> (string, (string, 'a) fmap) fmap \<Rightarrow> (string, (string, 'a) fmap) fmap" where
  "set2 st svc x m = fmupd st (fmupd svc x (fmget m st fmempty)) m"

definition default2 :: "string \<Rightarrow> string \<Rightarrow> 'a \<Rightarrow> (string, (string, 'a) fmap) fmap \<Rightarrow> (string, (string, 'a) fmap) fmap" where
  "default2 st svc x m =
     (if fmlookup (fmget m st fmempty) svc = None then set2 st svc x m else fmupd st (fmget m st fmempty) m)"

record scan_state =
  sc_units :: "(string, (string, observed_unit) fmap) fmap"
  sc_builds :: "(string, (string, string option) fmap) fmap"
  sc_seen :: "string fset"

definition see_file :: "string fset \<Rightarrow> unit_file \<Rightarrow> scan_state \<Rightarrow> scan_state" where
  "see_file running uf s =
     (let s1 = s\<lparr>sc_seen := finsert (uf_stack uf) (sc_seen s)\<rparr>
      in case uf_service uf of
           None \<Rightarrow> s1
         | Some svc \<Rightarrow>
             if is_build_file (uf_name uf)
             then s1\<lparr>sc_builds := set2 (uf_stack uf) svc (uf_hash uf) (sc_builds s1)\<rparr>
             else s1\<lparr>sc_units := set2 (uf_stack uf) svc
                      \<lparr>ou_spec_hash = uf_hash uf, ou_active = (uf_stack uf @ ''-'' @ svc |\<in>| running)\<rparr> (sc_units s1)\<rparr>)"

definition see_container :: "ps_container \<Rightarrow> scan_state \<Rightarrow> scan_state" where
  "see_container c s =
     (case pc_stack c of
        None \<Rightarrow> s
      | Some st \<Rightarrow>
          if \<not> pc_running c then s
          else s\<lparr>sc_units := default2 st (removeprefix (pc_name c) (st @ ''-''))
                   \<lparr>ou_spec_hash = None, ou_active = True\<rparr> (sc_units s),
                 sc_seen := finsert st (sc_seen s)\<rparr>)"

definition observe_tenant :: "string \<Rightarrow> bool \<Rightarrow> unit_file list \<Rightarrow> volumes \<Rightarrow> ps_container list \<Rightarrow> observed" where
  "observe_tenant linux_user present files vols ps =
     (let containers = (if present then ps else []);
          running = fset_of_list (map pc_name (filter pc_running containers));
          s = fold see_container containers (fold (see_file running) files
                \<lparr>sc_units = fmempty, sc_builds = fmempty, sc_seen = {||}\<rparr>);
          seen = sc_seen s |\<union>| fmdom vols
      in dict_over seen (\<lambda>st. \<lparr>os_tenant = linux_user, os_tenant_present = present,
           os_units = fmget (sc_units s) st fmempty, os_build_units = fmget (sc_builds s) st fmempty,
           os_volume_dirs = fmget vols st {||}\<rparr>))"

text \<open>\<open>look\<close> is the observation of one provisioned tenant, \<open>None\<close> when it raised.\<close>

definition observe_all :: "(string \<Rightarrow> int \<Rightarrow> observed option) \<Rightarrow> ledger \<Rightarrow> observed" where
  "observe_all look rows =
     fold (\<lambda>r ob. case tn_uid r of
         None \<Rightarrow> ob
       | Some uid \<Rightarrow> (case look (tn_linux_user r) uid of None \<Rightarrow> ob | Some o1 \<Rightarrow> fmadd ob o1)) rows fmempty"

subsection \<open>One stack at a time\<close>

definition units_step :: "string fset \<Rightarrow> unit_file \<Rightarrow> (string, observed_unit) fmap \<Rightarrow> (string, observed_unit) fmap" where
  "units_step running u m =
     (case uf_service u of None \<Rightarrow> m
      | Some svc \<Rightarrow> if is_build_file (uf_name u) then m
          else fmupd svc \<lparr>ou_spec_hash = uf_hash u, ou_active = (uf_stack u @ ''-'' @ svc |\<in>| running)\<rparr> m)"

definition builds_step :: "unit_file \<Rightarrow> (string, string option) fmap \<Rightarrow> (string, string option) fmap" where
  "builds_step u m =
     (case uf_service u of None \<Rightarrow> m
      | Some svc \<Rightarrow> if is_build_file (uf_name u) then fmupd svc (uf_hash u) m else m)"

lemma fmget_set2: "fmget (set2 st svc x m) n fmempty = (if n = st then fmupd svc x (fmget m n fmempty) else fmget m n fmempty)"
  by (simp add: set2_def fmget_def)

lemma fold_units:
  "fmget (sc_units (fold (see_file r) fs s)) n fmempty =
     fold (units_step r) (filter (\<lambda>u. uf_stack u = n) fs) (fmget (sc_units s) n fmempty)"
proof (induction fs arbitrary: s)
  case (Cons u fs)
  have "fmget (sc_units (see_file r u s)) n fmempty =
      (if uf_stack u = n then units_step r u (fmget (sc_units s) n fmempty) else fmget (sc_units s) n fmempty)"
    by (auto simp: see_file_def units_step_def Let_def fmget_set2 split: option.split)
  then show ?case using Cons by simp
qed simp

lemma fold_builds:
  "fmget (sc_builds (fold (see_file r) fs s)) n fmempty =
     fold builds_step (filter (\<lambda>u. uf_stack u = n) fs) (fmget (sc_builds s) n fmempty)"
proof (induction fs arbitrary: s)
  case (Cons u fs)
  have "fmget (sc_builds (see_file r u s)) n fmempty =
      (if uf_stack u = n then builds_step u (fmget (sc_builds s) n fmempty) else fmget (sc_builds s) n fmempty)"
    by (auto simp: see_file_def builds_step_def Let_def fmget_set2 split: option.split)
  then show ?case using Cons by simp
qed simp

lemma fold_seen: "sc_seen (fold (see_file r) fs s) = fset_of_list (map uf_stack fs) |\<union>| sc_seen s"
proof (induction fs arbitrary: s)
  case (Cons u fs)
  have "sc_seen (see_file r u s) = finsert (uf_stack u) (sc_seen s)"
    by (simp add: see_file_def Let_def split: option.split)
  then show ?case using Cons by auto
qed simp

lemma container_builds [simp]: "sc_builds (fold see_container cs s) = sc_builds s"
proof (induction cs arbitrary: s)
  case (Cons c cs)
  have "sc_builds (see_container c s) = sc_builds s" by (simp add: see_container_def split: option.split)
  then show ?case using Cons by simp
qed simp

lemma container_seen: "sc_seen s |\<subseteq>| sc_seen (fold see_container cs s)"
proof (induction cs arbitrary: s)
  case (Cons c cs)
  have "sc_seen s |\<subseteq>| sc_seen (see_container c s)" by (auto simp: see_container_def split: option.split)
  then show ?case using Cons [of "see_container c s"] by auto
qed simp

text \<open>Containers of known services add nothing.\<close>

lemma container_units:
  assumes "\<And>c. c \<in> set cs \<Longrightarrow> pc_running c \<Longrightarrow> pc_stack c = Some n \<Longrightarrow>
      fmlookup (fmget (sc_units s) n fmempty) (removeprefix (pc_name c) (n @ ''-'')) \<noteq> None"
  shows "fmget (sc_units (fold see_container cs s)) n fmempty = fmget (sc_units s) n fmempty"
  using assms
proof (induction cs arbitrary: s)
  case (Cons c cs)
  have "fmget (sc_units (see_container c s)) n fmempty = fmget (sc_units s) n fmempty"
    using Cons.prems [of c]
    by (auto simp: see_container_def default2_def fmget_set2 split: option.split) (auto simp: fmget_def)
  then show ?case using Cons.IH [of "see_container c s"] Cons.prems by simp
qed simp

lemma fold_units_lookup:
  assumes "\<And>u. u \<in> set us \<Longrightarrow> uf_service u = Some svc \<Longrightarrow> \<not> is_build_file (uf_name u) \<Longrightarrow>
      \<lparr>ou_spec_hash = uf_hash u, ou_active = (uf_stack u @ ''-'' @ svc |\<in>| r)\<rparr> = x"
  shows "fmlookup (fold (units_step r) us m) svc =
    (if \<exists>u\<in>set us. uf_service u = Some svc \<and> \<not> is_build_file (uf_name u) then Some x else fmlookup m svc)"
  using assms
proof (induction us arbitrary: m)
  case (Cons u us)
  have "fmlookup (units_step r u m) svc =
      (if uf_service u = Some svc \<and> \<not> is_build_file (uf_name u) then Some x else fmlookup m svc)"
    using Cons.prems [of u] by (auto simp: units_step_def split: option.split)
  then show ?case using Cons.IH [of "units_step r u m"] Cons.prems by (simp, blast)
qed simp

lemma fold_builds_lookup:
  assumes "\<And>u. u \<in> set us \<Longrightarrow> uf_service u = Some svc \<Longrightarrow> is_build_file (uf_name u) \<Longrightarrow> uf_hash u = x"
  shows "fmlookup (fold builds_step us m) svc =
    (if \<exists>u\<in>set us. uf_service u = Some svc \<and> is_build_file (uf_name u) then Some x else fmlookup m svc)"
  using assms
proof (induction us arbitrary: m)
  case (Cons u us)
  have "fmlookup (builds_step u m) svc =
      (if uf_service u = Some svc \<and> is_build_file (uf_name u) then Some x else fmlookup m svc)"
    using Cons.prems [of u] by (auto simp: builds_step_def split: option.split)
  then show ?case using Cons.IH [of "builds_step u m"] Cons.prems by (simp, blast)
qed simp

subsection \<open>The files of a stack as the scan sees them\<close>

definition as_unit :: "string \<Rightarrow> string \<Rightarrow> string \<Rightarrow> unit_file" where
  "as_unit n f c = \<lparr>uf_name = f, uf_stack = n, uf_service = read_service_marker c, uf_hash = read_spec_hash c\<rparr>"

lemma collect_units_iff:
  "u \<in> set (collect_units d) \<and> uf_stack u = n \<longleftrightarrow>
     (\<exists>f c. fmlookup (stack_files_on_disk d n) f = Some c \<and> u = as_unit n f c)"
proof
  assume u: "u \<in> set (collect_units d) \<and> uf_stack u = n"
  then obtain f where m: "u \<in> set (unit_of f (fmlookup d f))" by (auto simp: collect_units_def)
  then obtain c where c: "fmlookup d f = Some c" by (cases "fmlookup d f") auto
  with m obtain st where "suffix f \<in> set unit_suffixes" "read_stack_marker c = Some st"
      "u = \<lparr>uf_name = f, uf_stack = st, uf_service = read_service_marker c, uf_hash = read_spec_hash c\<rparr>"
    by (auto split: option.splits if_splits)
  then show "\<exists>f c. fmlookup (stack_files_on_disk d n) f = Some c \<and> u = as_unit n f c"
    using u c by (intro exI [of _ f] exI [of _ c]) (simp add: as_unit_def attributed_def)
next
  assume "\<exists>f c. fmlookup (stack_files_on_disk d n) f = Some c \<and> u = as_unit n f c"
  then obtain f c where f: "fmlookup d f = Some c" "attributed n f c" "u = as_unit n f c"
    by (auto split: option.splits if_splits)
  then have "f \<in> set (sorted_keys d)" by (simp add: fmdomI)
  then show "u \<in> set (collect_units d) \<and> uf_stack u = n"
    using f by (auto simp: collect_units_def as_unit_def attributed_def intro!: bexI [of _ f])
qed

lemma synced_units:
  assumes "sync_units uid n t D ud = (Inr b, ud')" "attributed_all n D"
  shows "stack_files_on_disk (ud_quadlet ud') n = quadlet_part D"
    "stack_files_on_disk (ud_user ud') n = service_part D"
proof -
  have q: "attributed_all n (quadlet_part D)" and s: "attributed_all n (service_part D)"
    using assms(2) by (auto simp: attributed_all_def quadlet_part_def service_part_def split: if_splits)
  obtain e where e: "bind_res (validate_slug n) (\<lambda>_. bind_res (validate_tenant_username t) (\<lambda>_. unit_dir uid)) = Inr e"
    using assms(1) by (auto simp: sync_units_def split: sum.splits)
  show "stack_files_on_disk (ud_quadlet ud') n = quadlet_part D"
    using assms(1) on_disk_sync [OF q, of "ud_quadlet ud"]
    by (auto simp: sync_units_def e Let_def split: prod.splits)
  show "stack_files_on_disk (ud_user ud') n = service_part D"
  proof (cases "fmdom (service_part D) \<noteq> {||} \<or> fmdom (stack_files_on_disk (ud_user ud) n) \<noteq> {||}")
    case True
    then show ?thesis
      using assms(1) on_disk_sync [OF s, of "ud_user ud"]
      by (auto simp: sync_units_def e Let_def split: prod.splits)
  next
    case False
    then have "service_part D = fmempty" "stack_files_on_disk (ud_user ud) n = fmempty"
      by (metis fmrestrict_fset_dom fmrestrict_fset_null)+
    then show ?thesis
      using assms(1) by (auto simp: sync_units_def e Let_def split: prod.splits)
  qed
qed

lemma scanned_units:
  assumes "sync_units uid n t D ud = (Inr b, ud')" "attributed_all n D"
  shows "u \<in> set (scan_units ud') \<and> uf_stack u = n \<longleftrightarrow> (\<exists>f c. fmlookup D f = Some c \<and> u = as_unit n f c)"
proof -
  have "u \<in> set (scan_units ud') \<and> uf_stack u = n \<longleftrightarrow>
      (u \<in> set (collect_units (ud_quadlet ud')) \<and> uf_stack u = n) \<or> (u \<in> set (collect_units (ud_user ud')) \<and> uf_stack u = n)"
    by (auto simp: scan_units_def)
  moreover have "fmlookup D f = Some c \<longleftrightarrow>
      fmlookup (quadlet_part D) f = Some c \<or> fmlookup (service_part D) f = Some c" for f c
    by (simp add: quadlet_part_def service_part_def)
  ultimately show ?thesis
    unfolding collect_units_iff synced_units [OF assms] by blast
qed

subsection \<open>The rendered files\<close>

lemma suffix_eq:
  "CHR ''.'' \<notin> set e \<Longrightarrow> e \<noteq> [] \<Longrightarrow> x \<noteq> [] \<Longrightarrow> suffix (x @ CHR ''.'' # e) = CHR ''.'' # e"
proof -
  assume a: "CHR ''.'' \<notin> set e" "e \<noteq> []" "x \<noteq> []"
  have "\<forall>c\<in>set (rev e). c \<noteq> CHR ''.''" using a(1) by auto
  then have "takeWhile (\<lambda>c. c \<noteq> CHR ''.'') (rev (x @ CHR ''.'' # e)) = rev e"
    by (simp add: takeWhile_append)
  then show ?thesis using a by (simp add: suffix_def Let_def)
qed

text \<open>The files of one service, and of the whole stack, as a relation.\<close>

definition service_file :: "stack_spec \<Rightarrow> service_spec \<Rightarrow> string \<Rightarrow> string \<Rightarrow> bool" where
  "service_file st s f c \<longleftrightarrow>
     (f = container_file_name (st_name st) (s_name s) \<and> container_unit st s = Inr c)
     \<or> (has_build s \<and> s_build_tool s = ''nixpacks'' \<and> f = st_name st @ ''-'' @ s_name s @ ''-nixpacks.service''
         \<and> c = nixpacks_build_unit st s)
     \<or> (has_build s \<and> s_build_tool s \<noteq> ''nixpacks'' \<and> f = st_name st @ ''-'' @ s_name s @ ''-build.service''
         \<and> dockerfile_build_unit st s = Inr c)"

lemma service_files_iff:
  "service_files st s = Inr fs \<Longrightarrow> (f, c) \<in> set fs \<longleftrightarrow> service_file st s f c"
  by (auto simp: service_files_def service_file_def bind_res_eq_Inr split: if_splits)

lemma service_files_names:
  "service_files st s = Inr fs \<Longrightarrow> map fst fs =
     container_file_name (st_name st) (s_name s) #
       (if \<not> has_build s then [] else if s_build_tool s = ''nixpacks''
        then [st_name st @ ''-'' @ s_name s @ ''-nixpacks.service''] else [st_name st @ ''-'' @ s_name s @ ''-build.service''])"
  by (auto simp: service_files_def bind_res_eq_Inr split: if_splits)

lemma name_kinds:
  "a @ ''.container'' \<noteq> b @ ''-build.service''" "a @ ''.container'' \<noteq> b @ ''-nixpacks.service''"
  "a @ ''-build.service'' \<noteq> b @ ''-nixpacks.service''" "a @ ''.container'' \<noteq> b @ ''.network''"
  "a @ ''-build.service'' \<noteq> b @ ''.network''" "a @ ''-nixpacks.service'' \<noteq> b @ ''.network''"
  "a @ ''.container'' \<noteq> b @ ''-git-sync.service''" "a @ ''-build.service'' \<noteq> b @ ''-git-sync.service''"
  "a @ ''-nixpacks.service'' \<noteq> b @ ''-git-sync.service''" "a @ ''.network'' \<noteq> b @ ''-git-sync.service''"
  by (auto dest!: arg_cong [where f = rev])

definition service_names :: "stack_spec \<Rightarrow> service_spec \<Rightarrow> string list" where
  "service_names st s = container_file_name (st_name st) (s_name s) #
       (if \<not> has_build s then [] else if s_build_tool s = ''nixpacks''
        then [st_name st @ ''-'' @ s_name s @ ''-nixpacks.service''] else [st_name st @ ''-'' @ s_name s @ ''-build.service''])"

lemma service_names_kinds:
  "f \<in> set (service_names st s) \<Longrightarrow>
     f = (st_name st @ ''-'' @ s_name s) @ ''.container'' \<or> f = (st_name st @ ''-'' @ s_name s) @ ''-build.service''
     \<or> f = (st_name st @ ''-'' @ s_name s) @ ''-nixpacks.service''"
  by (auto simp: service_names_def container_file_name_def split: if_splits)

lemma service_names_distinct: "distinct (service_names st s)"
  using name_kinds(1,2) [of "st_name st @ ''-'' @ s_name s" "st_name st @ ''-'' @ s_name s"]
  by (auto simp: service_names_def container_file_name_def)

lemma service_names_disjoint:
  assumes "s_name s \<noteq> s_name s'"
  shows "set (service_names st s) \<inter> set (service_names st s') = {}"
proof (rule ccontr)
  assume "set (service_names st s) \<inter> set (service_names st s') \<noteq> {}"
  then obtain f where f: "f \<in> set (service_names st s)" "f \<in> set (service_names st s')" by blast
  let ?a = "st_name st @ ''-'' @ s_name s" and ?b = "st_name st @ ''-'' @ s_name s'"
  have k: "x @ k = y @ k \<longleftrightarrow> x = y" for x y k :: string by simp
  have "?a = ?b"
    using service_names_kinds [OF f(1)] service_names_kinds [OF f(2)]
      name_kinds(1-3) [of ?a ?b] name_kinds(1-3) [of ?b ?a] k by metis
  then show False using assms by simp
qed

lemma service_names_others:
  "network_file_name n \<notin> set (service_names st s)" "sync_name st' \<notin> set (service_names st s)"
proof -
  let ?a = "st_name st @ ''-'' @ s_name s"
  show "network_file_name n \<notin> set (service_names st s)"
    unfolding network_file_name_def using service_names_kinds name_kinds(4-6) [of ?a n] by metis
  show "sync_name st' \<notin> set (service_names st s)"
    unfolding sync_name_def using service_names_kinds name_kinds(7-9) [of ?a "st_name st'"] by metis
qed

lemma names_distinct:
  "distinct (map s_name ss) \<Longrightarrow> distinct (concat (map (service_names st) ss))"
proof (induction ss)
  case (Cons s ss)
  have "set (service_names st s) \<inter> set (service_names st s') = {}" if "s' \<in> set ss" for s'
    using Cons.prems that by (intro service_names_disjoint) auto
  then show ?case using Cons service_names_distinct by auto
qed simp

lemma unit_files_iff:
  assumes u: "unit_files st token = Inr D" and d: "distinct (map s_name (st_services st))"
  shows "fmlookup D f = Some c \<longleftrightarrow>
     (f = network_file_name (st_name st) \<and> c = network_unit st) \<or> (\<exists>s\<in>set (st_services st). service_file st s f c)
     \<or> (list_ex has_build (st_services st) \<and> f = sync_name st \<and> c = git_sync_unit st token)"
proof -
  obtain fss where fss: "map_res (service_files st) (st_services st) = Inr fss"
    and D: "D = dict_of ([(network_file_name (st_name st), network_unit st)] @ concat fss
         @ (if list_ex has_build (st_services st) then [(sync_name st, git_sync_unit st token)] else []))"
    (is "D = dict_of ?kvs")
    using u by (auto simp: unit_files_def bind_res_eq_Inr)
  have l: "list_all2 (\<lambda>s fs. service_files st s = Inr fs) (st_services st) fss"
    using fss unfolding map_res_Inr .
  have "map (map fst) fss = map (service_names st) (st_services st)"
    using l by (induction rule: list_all2_induct) (auto dest: service_files_names simp: service_names_def)
  then have names: "map fst (concat fss) = concat (map (service_names st) (st_services st))"
    by (simp add: map_concat)
  have "network_file_name (st_name st) \<noteq> sync_name st"
    using name_kinds(10) by (simp add: network_file_name_def sync_name_def)
  then have "distinct (map fst ?kvs)"
    using names_distinct [OF d, of st] service_names_others
    unfolding map_append names by auto
  then have m: "fmlookup D f = Some c \<longleftrightarrow> (f, c) \<in> set ?kvs"
    unfolding D by (simp only: fmlookup_dict_of map_of_eq_Some_iff)
  have "(f, c) \<in> set (concat fss) \<longleftrightarrow> (\<exists>s\<in>set (st_services st). service_file st s f c)"
    using l by (induction rule: list_all2_induct) (auto simp: service_files_iff)
  then show ?thesis unfolding m by auto
qed

lemma line_no_marker: "\<not> startswith l m \<Longrightarrow> marker_value m ok l = None"
  by (simp add: marker_value_def)

lemma network_reads:
  assumes "validate_slug (st_name st) = Inr a"
  shows "read_stack_marker (network_unit st) = Some (st_name st)" "read_service_marker (network_unit st) = None"
proof -
  note n = slug_name [OF assms]
  show "read_stack_marker (network_unit st) = Some (st_name st)"
    using n unfolding network_unit_def read_stack_marker_def
    by (simp add: read_marker_skip read_marker_hit del: join.simps)
  show "read_service_marker (network_unit st) = None"
    unfolding network_unit_def read_service_marker_def
    by (rule read_marker_none) (use n in \<open>auto simp: network_def marker_value_def service_marker_def stack_marker_def
        managed_header_def em_dash_def\<close>)
qed

definition git_ok :: "stack_spec \<Rightarrow> string option \<Rightarrow> bool" where
  "git_ok st token \<longleftrightarrow> (truthy token \<longrightarrow> one_line (the token))
     \<and> (\<forall>s\<in>set (st_services st). has_build s \<longrightarrow> one_line (the (s_build_repo s))
          \<and> (truthy (s_build_branch s) \<longrightarrow> one_line (the (s_build_branch s))))"

lemma one_line_takeWhile: "one_line x \<Longrightarrow> one_line (takeWhile P x)" "one_line x \<Longrightarrow> one_line (drop k x)"
  by (auto simp: one_line_def dest: set_takeWhileD in_set_dropD)

lemma git_reads:
  assumes "validate_slug (st_name st) = Inr a" "list_ex has_build (st_services st)" "git_ok st token"
    and "\<And>s. s \<in> set (st_services st) \<Longrightarrow> one_line (s_name s)"
  shows "read_stack_marker (git_sync_unit st token) = Some (st_name st)"
    "read_service_marker (git_sync_unit st token) = None"
proof -
  note n = slug_name [OF assms(1)]
  obtain svc where svc: "find has_build (st_services st) = Some svc"
    using assms(2) by (cases "find has_build (st_services st)") (auto simp: find_None_iff list_ex_iff)
  then have s: "svc \<in> set (st_services st)" "has_build svc" by (auto simp: find_Some_iff)
  obtain lines where g: "git_sync_unit st token = join [nl] (managed_header # (stack_marker @ st_name st) # lines)"
      "lines \<noteq> []" "\<forall>l\<in>set lines. one_line l \<and> \<not> startswith l service_marker"
  proof -
    let ?repo = "the (s_build_repo svc)"
    let ?branch = "if truthy (s_build_branch svc) then the (s_build_branch svc) else ''main''"
    let ?git = "if truthy token \<and> startswith ?repo ''https://''
                 then ''/usr/bin/git -c url.https://x-access-token:'' @ the token @ ''@'' @ netloc ?repo
                      @ ''/.insteadOf=https://'' @ netloc ?repo @ ''/''
                 else ''/usr/bin/git''"
    let ?lines = "[[], ''[Unit]'', ''Description=Sync Git repository for stack '' @ st_name st,
               ''After=network-online.target'', ''Wants=network-online.target'']
              @ map (\<lambda>s. ''PartOf='' @ st_name st @ ''-'' @ s_name s @ ''-build.service'')
                  (filter has_build (st_services st))
              @ [[], ''[Service]'', ''Type=oneshot'', ''ExecStartPre=-/usr/bin/rm -rf '' @ workspace st,
                 ''ExecStart='' @ ?git @ '' clone --depth 1 --branch '' @ ?branch
                   @ '' --single-branch --recurse-submodules --shallow-submodules '' @ ?repo @ '' '' @ workspace st,
                 ''RemainAfterExit=yes'', [], ''[Install]'', ''WantedBy=default.target'', []]"
    have r: "one_line ?repo" "one_line ?branch" using assms(3) s by (auto simp: git_ok_def)
    then have "one_line (netloc ?repo)"
      by (simp add: netloc_def removeprefix_def one_line_takeWhile)
    then have "one_line ?git" using assms(3) r by (auto simp: git_ok_def)
    then have "\<forall>l\<in>set ?lines. one_line l \<and> \<not> startswith l service_marker"
      using r n assms(4)
      by (auto simp: workspace_def service_marker_def one_line_def [of "st_name st"] simp del: startswith_append)
    moreover have "git_sync_unit st token = join [nl] (managed_header # (stack_marker @ st_name st) # ?lines)"
      unfolding git_sync_unit_def by (simp add: svc Let_def del: join.simps)
    ultimately show ?thesis using that by blast
  qed
  show "read_stack_marker (git_sync_unit st token) = Some (st_name st)"
    using n g(2) unfolding g(1) read_stack_marker_def
    by (simp add: read_marker_skip read_marker_hit del: join.simps)
  show "read_service_marker (git_sync_unit st token) = None"
    unfolding g(1) read_service_marker_def
    by (rule read_marker_none) (use n g(3) in \<open>auto simp: one_line_def line_no_marker\<close>)
qed

subsection \<open>The observer reads back what the panel wrote\<close>

lemma build_file_kinds:
  "\<not> is_build_file (x @ ''.container'')" "is_build_file (x @ ''-build.service'')" "is_build_file (x @ ''-nixpacks.service'')"
proof -
  have "x @ ''.container'' \<noteq> y @ ''.build''" for y by (auto dest!: arg_cong [where f = rev])
  then show "\<not> is_build_file (x @ ''.container'')"
    unfolding is_build_file_def endswith_iff using name_kinds(1,2) by blast
qed (auto simp: is_build_file_def endswith_iff)

definition rendered :: "stack_spec \<Rightarrow> string option \<Rightarrow> dir \<Rightarrow> bool" where
  "rendered st token D \<longleftrightarrow> unit_files st token = Inr D \<and> stack_wf st \<and> git_ok st token
     \<and> (\<forall>s\<in>set (st_services st). \<exists>v. validate_slug (s_name s) = Inr v)"

lemma rendered_facts:
  assumes "rendered st token D"
  shows "distinct (map s_name (st_services st))" "\<exists>a. validate_slug (st_name st) = Inr a"
    "\<And>s. s \<in> set (st_services st) \<Longrightarrow> \<exists>b. validate_slug (s_name s) = Inr b"
    "\<And>s. s \<in> set (st_services st) \<Longrightarrow> one_line (s_name s)"
  using assms slug_name by (auto simp: rendered_def stack_wf_def one_line_def)

lemma service_file_reads:
  assumes "rendered st token D" "s \<in> set (st_services st)" "service_file st s f c"
  shows "read_stack_marker c = Some (st_name st)" "read_service_marker c = Some (s_name s)"
    "read_spec_hash c = Some (spec_hash st s)" "is_build_file f \<Longrightarrow> has_build s"
    "\<not> is_build_file f \<Longrightarrow> f = container_file_name (st_name st) (s_name s)" "suffix f \<in> set unit_suffixes"
proof -
  obtain a b where ab: "validate_slug (st_name st) = Inr a" "validate_slug (s_name s) = Inr b"
    using rendered_facts(2,3) [OF assms(1)] assms(2) by blast
  obtain rest where "rest \<noteq> []" "c = join [nl] (header_lines st s @ rest)"
    using assms(3) container_header build_header nixpacks_header unfolding service_file_def by metis
  then show "read_stack_marker c = Some (st_name st)" "read_service_marker c = Some (s_name s)"
    "read_spec_hash c = Some (spec_hash st s)"
    using header_reads [OF ab] by simp_all
  let ?x = "st_name st @ ''-'' @ s_name s"
  have f: "f = ?x @ ''.container'' \<or> f = ?x @ ''-build.service'' \<and> has_build s \<or> f = ?x @ ''-nixpacks.service'' \<and> has_build s"
    using assms(3) by (auto simp: service_file_def container_file_name_def)
  then show "is_build_file f \<Longrightarrow> has_build s" using build_file_kinds(1) [of ?x] by auto
  show "\<not> is_build_file f \<Longrightarrow> f = container_file_name (st_name st) (s_name s)"
    using f build_file_kinds(2,3) [of ?x] by (auto simp: container_file_name_def)
  have "suffix (?x @ ''.container'') = ''.container''" "suffix ((?x @ ''-build'') @ ''.service'') = ''.service''"
    "suffix ((?x @ ''-nixpacks'') @ ''.service'') = ''.service''"
    by (rule suffix_eq; simp)+
  then show "suffix f \<in> set unit_suffixes" using f by (auto simp: unit_suffixes_def)
qed

lemma rendered_attributed:
  assumes "rendered st token D"
  shows "attributed_all (st_name st) D"
  unfolding attributed_all_def
proof (intro allI impI)
  fix f c
  assume l: "fmlookup D f = Some c"
  obtain a where a: "validate_slug (st_name st) = Inr a" using rendered_facts(2) [OF assms] by blast
  have ne: "st_name st \<noteq> []" using a by (simp add: validate_slug_iff)
  have sx: "suffix (st_name st @ ''.network'') = ''.network''" "suffix ((st_name st @ ''-git-sync'') @ ''.service'') = ''.service''"
    by (rule suffix_eq; use ne in simp)+
  have "unit_files st token = Inr D" "git_ok st token" using assms by (simp_all add: rendered_def)
  from unit_files_iff [OF this(1) rendered_facts(1) [OF assms], of f c] l
  consider "f = network_file_name (st_name st)" "c = network_unit st"
    | s where "s \<in> set (st_services st)" "service_file st s f c"
    | "list_ex has_build (st_services st)" "f = sync_name st" "c = git_sync_unit st token"
    by blast
  then show "attributed (st_name st) f c"
  proof cases
    case 1
    then show ?thesis using sx network_reads(1) [OF a] by (simp add: attributed_def unit_suffixes_def network_file_name_def)
  next
    case 2
    then show ?thesis using service_file_reads(1,6) [OF assms 2] by (simp add: attributed_def)
  next
    case 3
    then show ?thesis
      using sx git_reads(1) [OF a 3(1) \<open>git_ok st token\<close> rendered_facts(4) [OF assms]]
      by (simp add: attributed_def unit_suffixes_def sync_name_def)
  qed
qed

lemma rendered_service:
  assumes "rendered st token D" "fmlookup D f = Some c" "read_service_marker c = Some svc"
  shows "\<exists>s\<in>set (st_services st). s_name s = svc \<and> service_file st s f c"
proof -
  obtain a where a: "validate_slug (st_name st) = Inr a" using rendered_facts(2) [OF assms(1)] by blast
  show ?thesis
    using unit_files_iff [of st token D f c] assms service_file_reads(2) [OF assms(1)] rendered_facts(1,4) [OF assms(1)]
      network_reads(2) [OF a] git_reads(2) [OF a]
    by (auto simp: rendered_def)
qed

lemma rendered_has:
  assumes "rendered st token D" "s \<in> set (st_services st)"
  shows "\<exists>f c. fmlookup D f = Some c \<and> service_file st s f c \<and> \<not> is_build_file f"
    "has_build s \<Longrightarrow> \<exists>f c. fmlookup D f = Some c \<and> service_file st s f c \<and> is_build_file f"
proof -
  have u: "unit_files st token = Inr D" using assms(1) by (simp add: rendered_def)
  then obtain fss where "map_res (service_files st) (st_services st) = Inr fss"
    by (auto simp: unit_files_def bind_res_eq_Inr)
  then obtain fs where fs: "service_files st s = Inr fs"
    using assms(2) unfolding map_res_Inr list_all2_conv_all_nth in_set_conv_nth by auto
  have in_D: "service_file st s f c \<Longrightarrow> fmlookup D f = Some c" for f c
    using unit_files_iff [OF u rendered_facts(1) [OF assms(1)], of f c] assms(2) by blast
  show "\<exists>f c. fmlookup D f = Some c \<and> service_file st s f c \<and> \<not> is_build_file f"
  proof -
    obtain c where "container_unit st s = Inr c" using fs by (auto simp: service_files_def bind_res_eq_Inr)
    then have "service_file st s (container_file_name (st_name st) (s_name s)) c" by (simp add: service_file_def)
    moreover have "\<not> is_build_file (container_file_name (st_name st) (s_name s))"
      using build_file_kinds(1) [of "st_name st @ ''-'' @ s_name s"] by (simp add: container_file_name_def)
    ultimately show ?thesis using in_D by blast
  qed
  show "\<exists>f c. fmlookup D f = Some c \<and> service_file st s f c \<and> is_build_file f" if b: "has_build s"
  proof (cases "s_build_tool s = ''nixpacks''")
    case True
    then have "service_file st s ((st_name st @ ''-'' @ s_name s) @ ''-nixpacks.service'') (nixpacks_build_unit st s)"
      using b by (simp add: service_file_def)
    then show ?thesis using in_D build_file_kinds(3) by blast
  next
    case False
    then obtain c where "dockerfile_build_unit st s = Inr c" using fs b by (auto simp: service_files_def bind_res_eq_Inr)
    then have "service_file st s ((st_name st @ ''-'' @ s_name s) @ ''-build.service'') c"
      using b False by (simp add: service_file_def)
    then show ?thesis using in_D build_file_kinds(2) by blast
  qed
qed

lemma ffilter_none: "(\<And>x. x |\<in>| S \<Longrightarrow> \<not> P x) \<Longrightarrow> ffilter P S = {||}"
  by (rule fset_eqI) auto

lemma service_actions_no_write: "WriteUnits sp \<notin> set (service_actions spec us stale svc)"
  by (auto simp: service_actions_def Let_def split: if_splits option.splits)

lemma observed_stack_eq:
  assumes "n |\<in>| sc_seen (fold (see_file r) files \<lparr>sc_units = fmempty, sc_builds = fmempty, sc_seen = {||}\<rparr>)"
    and "r = fset_of_list (map pc_name (filter pc_running (if present then ps else [])))"
    and "\<And>c. c \<in> set (if present then ps else []) \<Longrightarrow> pc_running c \<Longrightarrow> pc_stack c = Some n \<Longrightarrow>
      fmlookup (fold (units_step r) (filter (\<lambda>u. uf_stack u = n) files) fmempty) (removeprefix (pc_name c) (n @ ''-'')) \<noteq> None"
  shows "fmlookup (observe_tenant t present files vols ps) n =
    Some \<lparr>os_tenant = t, os_tenant_present = present,
      os_units = fold (units_step r) (filter (\<lambda>u. uf_stack u = n) files) fmempty,
      os_build_units = fold builds_step (filter (\<lambda>u. uf_stack u = n) files) fmempty,
      os_volume_dirs = fmget vols n {||}\<rparr>"
proof -
  let ?s0 = "\<lparr>sc_units = fmempty, sc_builds = fmempty, sc_seen = {||}\<rparr> :: scan_state"
  let ?cs = "if present then ps else []"
  have e: "fmget fmempty n fmempty = fmempty" by (simp add: fmget_def)
  have u: "fmget (sc_units (fold (see_file r) files ?s0)) n fmempty
      = fold (units_step r) (filter (\<lambda>u. uf_stack u = n) files) fmempty"
    by (simp add: fold_units e)
  have "fmget (sc_units (fold see_container ?cs (fold (see_file r) files ?s0))) n fmempty
      = fold (units_step r) (filter (\<lambda>u. uf_stack u = n) files) fmempty"
    using container_units [of ?cs n "fold (see_file r) files ?s0"] assms(3) u by simp
  moreover have "fmget (sc_builds (fold see_container ?cs (fold (see_file r) files ?s0))) n fmempty
      = fold builds_step (filter (\<lambda>u. uf_stack u = n) files) fmempty"
    by (simp add: fold_builds e)
  moreover have "n |\<in>| sc_seen (fold see_container ?cs (fold (see_file r) files ?s0))"
    using container_seen assms(1) by (meson fsubsetD)
  ultimately show ?thesis
    unfolding observe_tenant_def Let_def assms(2) [symmetric] by simp
qed

lemma read_rendered:
  assumes ren: "rendered spec token D" and us: "\<And>u. u \<in> set us \<longleftrightarrow> (\<exists>f c. fmlookup D f = Some c \<and> u = as_unit (st_name spec) f c)"
  shows "fmlookup (fold (units_step r) us fmempty) svc = map_option (\<lambda>h. \<lparr>ou_spec_hash = Some h, ou_active =
        (st_name spec @ ''-'' @ svc |\<in>| r)\<rparr>) (fmlookup (expected_hashes spec) svc)"
    "fold builds_step us fmempty = build_hashes spec" "us \<noteq> []"
proof -
  let ?n = "st_name spec"
  have wf: "stack_wf spec" using ren by (simp add: rendered_def)
  have kinds: "\<exists>s\<in>set (st_services spec). s_name s = svc \<and> uf_hash u = Some (spec_hash spec s)
      \<and> (is_build_file (uf_name u) \<longrightarrow> has_build s)" if u: "u \<in> set us" "uf_service u = Some svc" for u svc
  proof -
    obtain f c where fc: "fmlookup D f = Some c" "u = as_unit ?n f c" using u(1) us by blast
    obtain s where s: "s \<in> set (st_services spec)" "s_name s = svc" "service_file spec s f c"
      using rendered_service [OF ren fc(1)] u(2) fc(2) by (auto simp: as_unit_def)
    then show ?thesis using service_file_reads [OF ren s(1,3)] fc(2) by (auto simp: as_unit_def)
  qed
  have has: "\<exists>u\<in>set us. uf_service u = Some (s_name s) \<and> \<not> is_build_file (uf_name u)"
    "has_build s \<Longrightarrow> \<exists>u\<in>set us. uf_service u = Some (s_name s) \<and> is_build_file (uf_name u)"
    if s: "s \<in> set (st_services spec)" for s
  proof -
    have "\<exists>u\<in>set us. uf_service u = Some (s_name s) \<and> uf_name u = f"
      if fc: "fmlookup D f = Some c" "service_file spec s f c" for f c
    proof (rule bexI [of _ "as_unit ?n f c"])
      show "as_unit ?n f c \<in> set us" using us fc(1) by blast
      show "uf_service (as_unit ?n f c) = Some (s_name s) \<and> uf_name (as_unit ?n f c) = f"
        using service_file_reads(2) [OF ren s fc(2)] by (simp add: as_unit_def)
    qed
    then show "\<exists>u\<in>set us. uf_service u = Some (s_name s) \<and> \<not> is_build_file (uf_name u)"
      "has_build s \<Longrightarrow> \<exists>u\<in>set us. uf_service u = Some (s_name s) \<and> is_build_file (uf_name u)"
      using rendered_has [OF ren s] by blast+
  qed
  have stack: "uf_stack u = ?n" if "u \<in> set us" for u using that us by (auto simp: as_unit_def)
  have units: "fmlookup (fold (units_step r) us fmempty) svc = map_option (\<lambda>h. \<lparr>ou_spec_hash = Some h, ou_active =
        (?n @ ''-'' @ svc |\<in>| r)\<rparr>) (fmlookup (expected_hashes spec) svc)" for svc
  proof (cases "\<exists>s\<in>set (st_services spec). s_name s = svc")
    case True
    then obtain s where s: "s \<in> set (st_services spec)" "s_name s = svc" by blast
    have "s' = s" if "s' \<in> set (st_services spec)" "s_name s' = svc" for s'
      using that s stack_wf_distinct [OF wf] by (metis distinct_map inj_onD)
    then have "fmlookup (fold (units_step r) us fmempty) svc =
        Some \<lparr>ou_spec_hash = Some (spec_hash spec s), ou_active = (?n @ ''-'' @ svc |\<in>| r)\<rparr>"
      using fold_units_lookup [of us svc r "\<lparr>ou_spec_hash = Some (spec_hash spec s), ou_active = (?n @ ''-'' @ svc |\<in>| r)\<rparr>" fmempty]
        kinds [of _ svc] has(1) [OF s(1)] s(2) stack by fastforce
    then show ?thesis using expected_lookup [OF wf s(1)] s(2) by simp
  next
    case False
    then have "\<not> (\<exists>u\<in>set us. uf_service u = Some svc \<and> \<not> is_build_file (uf_name u))" using kinds by blast
    then have "fmlookup (fold (units_step r) us fmempty) svc = None"
      using fold_units_lookup [of us svc r undefined fmempty] by auto
    moreover have "svc |\<notin>| fmdom (expected_hashes spec)" using False by (auto simp: fset_of_list.rep_eq)
    then have "fmlookup (expected_hashes spec) svc = None" by (rule fmdom_notD)
    ultimately show ?thesis by simp
  qed
  have builds: "fold builds_step us fmempty = build_hashes spec"
  proof (rule fmap_ext)
    fix svc
    show "fmlookup (fold builds_step us fmempty) svc = fmlookup (build_hashes spec) svc"
    proof (cases "\<exists>s\<in>set (st_services spec). s_name s = svc \<and> has_build s")
      case True
      then obtain s where s: "s \<in> set (st_services spec)" "s_name s = svc" "has_build s" by blast
      have "s' = s" if "s' \<in> set (st_services spec)" "s_name s' = svc" for s'
        using that s stack_wf_distinct [OF wf] by (metis distinct_map inj_onD)
      then have "fmlookup (fold builds_step us fmempty) svc = Some (Some (spec_hash spec s))"
        using fold_builds_lookup [of us svc "Some (spec_hash spec s)" fmempty] kinds [of _ svc] has(2) [OF s(1,3)] s(2)
        by fastforce
      then show ?thesis using expected_builds_lookup [OF wf s(1,3)] s(2) by (simp add: build_hashes_def)
    next
      case False
      then have "\<not> (\<exists>u\<in>set us. uf_service u = Some svc \<and> is_build_file (uf_name u))" using kinds by blast
      then have "fmlookup (fold builds_step us fmempty) svc = None"
        using fold_builds_lookup [of us svc undefined fmempty] by auto
      moreover have "svc |\<notin>| fmdom (expected_builds spec)" using False by (auto simp: fset_of_list.rep_eq)
      then have "fmlookup (expected_builds spec) svc = None" by (rule fmdom_notD)
      ultimately show ?thesis by (simp add: build_hashes_def)
    qed
  qed
  show "us \<noteq> []" using stack_wf_services [OF wf] has(1) by (cases "st_services spec") force+
  show "fmlookup (fold (units_step r) us fmempty) svc = map_option (\<lambda>h. \<lparr>ou_spec_hash = Some h, ou_active =
        (st_name spec @ ''-'' @ svc |\<in>| r)\<rparr>) (fmlookup (expected_hashes spec) svc)" by (rule units)
  show "fold builds_step us fmempty = build_hashes spec" by (rule builds)
qed

lemma readback:
  assumes ren: "rendered spec token D" and sync: "sync_units uid (st_name spec) t D ud = (Inr b, ud')"
    and orphans: "\<And>c. c \<in> set ps \<Longrightarrow> pc_running c \<Longrightarrow> pc_stack c = Some (st_name spec) \<Longrightarrow>
      removeprefix (pc_name c) (st_name spec @ ''-'') \<in> s_name ` set (st_services spec)"
  obtains ob where "fmlookup (observe_tenant t present (scan_units ud') vols ps) (st_name spec) = Some ob"
    "os_tenant ob = t" "os_tenant_present ob = present" "os_volume_dirs ob = fmget vols (st_name spec) {||}"
    "\<And>svc. fmlookup (os_units ob) svc = map_option (\<lambda>h. \<lparr>ou_spec_hash = Some h, ou_active =
        (present \<and> (\<exists>c\<in>set ps. pc_running c \<and> pc_name c = st_name spec @ ''-'' @ svc))\<rparr>) (fmlookup (expected_hashes spec) svc)"
    "os_build_units ob = build_hashes spec"
proof -
  let ?n = "st_name spec" and ?cs = "if present then ps else []"
  define r where "r = fset_of_list (map pc_name (filter pc_running ?cs))"
  define us where "us = filter (\<lambda>u. uf_stack u = ?n) (scan_units ud')"
  note att = rendered_attributed [OF ren]
  have wf: "stack_wf spec" using ren by (simp add: rendered_def)
  have us: "u \<in> set us \<longleftrightarrow> (\<exists>f c. fmlookup D f = Some c \<and> u = as_unit ?n f c)" for u
    using scanned_units [OF sync att] by (auto simp: us_def)
  note units = read_rendered(1) [OF ren us, of r] and builds = read_rendered(2) [OF ren us]
  have "us \<noteq> []" by (rule read_rendered(3) [OF ren us])
  then obtain u where "u \<in> set (scan_units ud')" "uf_stack u = ?n"
    by (metis (mono_tags, lifting) filter_False us_def)
  then have seen: "?n |\<in>| sc_seen (fold (see_file r) (scan_units ud') \<lparr>sc_units = fmempty, sc_builds = fmempty, sc_seen = {||}\<rparr>)"
    by (simp add: fold_seen fset_of_list.rep_eq) (metis imageI)
  have orph: "fmlookup (fold (units_step r) us fmempty) (removeprefix (pc_name c) (?n @ ''-'')) \<noteq> None"
    if c: "c \<in> set ?cs" "pc_running c" "pc_stack c = Some ?n" for c
  proof -
    obtain s where "s \<in> set (st_services spec)" "s_name s = removeprefix (pc_name c) (?n @ ''-'')"
      using orphans [of c] c by (auto split: if_splits)
    then show ?thesis using units expected_lookup [OF wf] by fastforce
  qed
  have act: "(x |\<in>| r) = (present \<and> (\<exists>c\<in>set ps. pc_running c \<and> pc_name c = x))" for x
    by (auto simp: r_def fset_of_list.rep_eq)
  from observed_stack_eq [OF seen r_def, folded us_def, OF orph, of t vols]
  show thesis by (rule that) (simp_all add: units builds act)
qed


lemma plain_rendered: "\<exists>D. rendered plain_stack None D"
proof -
  obtain u where u: "container_unit plain_stack example_service' = Inr u" using plain_unit by blast
  have b: "has_build example_service' = False"
    by (simp add: has_build_def truthy_def example_service'_def example_service_def service_defaults_def)
  have p: "st_services plain_stack = [example_service']" "s_name example_service' = ''web''"
    "s_depends_on example_service' = []"
    by (simp_all add: plain_stack_def example_service'_def example_service_def service_defaults_def)
  have "\<exists>D. unit_files plain_stack None = Inr D"
    by (simp add: unit_files_def service_files_def p u b)
  moreover have "stack_wf plain_stack"
    unfolding stack_wf_def p
    by (simp add: plain_stack_def plain_facts p) code_simp
  moreover have "git_ok plain_stack None" by (simp add: git_ok_def p b truthy_def)
  ultimately show ?thesis by (auto simp: rendered_def p plain_facts)
qed


end
