(* ===== verification/Convergence.thy ===== *)
theory Convergence
  imports HostModel
begin

text \<open>
  The two theorems the planner rests on, for every model host and every desired state: executing the
  plan converges the host, and a converged host needs no plan.
\<close>

lemma plan_order_props:
  "distinct (plan_order desired ob)"
  "set (plan_order desired ob) = fset (fmdom ob) \<union> fset (fmdom (desired_by_name desired))"
  by (auto simp: plan_order_def)

lemma dict_over_fmmap:
  assumes "S = fmdom m" "\<And>n x. fmlookup m n = Some x \<Longrightarrow> f n = g x"
  shows "dict_over S f = fmmap g m"
proof (rule fmap_ext)
  fix n
  show "fmlookup (dict_over S f) n = fmlookup (fmmap g m) n"
  proof (cases "fmlookup m n")
    case None
    then have "n |\<notin>| S" using assms(1) by (simp add: fmlookup_dom_iff)
    then show ?thesis using None by simp
  next
    case (Some x)
    then have "n |\<in>| S" using assms(1) by (simp add: fmdomI)
    then show ?thesis using Some assms(2) by simp
  qed
qed

lemma observe_conv:
  assumes "st_tenant spec |\<in>| mh_tenants h"
  shows "observe_stack h (conv spec) = project_stack spec"
proof -
  have "dict_over (fmdom (ss_files (conv spec)) |\<union>| ss_active (conv spec))
      (\<lambda>svc. \<lparr>ou_spec_hash = fmget (ss_files (conv spec)) svc None, ou_active = (svc |\<in>| ss_active (conv spec))\<rparr>)
    = fmmap (\<lambda>h. \<lparr>ou_spec_hash = Some h, ou_active = \<not> st_suspended spec\<rparr>) (expected_hashes spec)"
  proof (rule dict_over_fmmap)
    fix n x
    assume l: "fmlookup (expected_hashes spec) n = Some x"
    then have "n |\<in>| fmdom (expected_hashes spec)" by (rule fmdomI)
    then show "\<lparr>ou_spec_hash = fmget (ss_files (conv spec)) n None, ou_active = (n |\<in>| ss_active (conv spec))\<rparr>
        = \<lparr>ou_spec_hash = Some x, ou_active = \<not> st_suspended spec\<rparr>"
      using l by (simp add: conv_def file_hashes_def fmget_def del: fmdom_expected)
  qed (simp add: conv_def file_hashes_def)
  then show ?thesis using assms by (simp add: observe_stack_def project_stack_def conv_def)
qed

lemma map_of_pairs: "map_of (map (\<lambda>s. (f s, g s)) xs) n = map_option g (map_of (map (\<lambda>s. (f s, s)) xs) n)"
  by (induction xs) auto

lemma project_lookup:
  "desired_ok desired \<Longrightarrow>
     fmlookup (project desired) n = map_option project_stack (fmlookup (desired_by_name desired) n)"
  by (simp add: project_def desired_by_name_def desired_ok_def fmlookup_dict_of comp_def map_of_pairs [where g = project_stack])

lemma loop_inv_end:
  assumes inv: "loop_inv desired h0 (set (plan_order desired (observe h0))) h" and ok: "desired_ok desired"
  shows "observe (h\<lparr>mh_stacks := live (mh_stacks h)\<rparr>) = project desired"
proof (rule fmap_ext)
  fix n
  let ?h = "h\<lparr>mh_stacks := live (mh_stacks h)\<rparr>"
  have ob: "observe_stack ?h = observe_stack h" by (simp add: observe_stack_def fun_eq_iff)
  show "fmlookup (observe ?h) n = fmlookup (project desired) n"
  proof (cases "fmlookup (desired_by_name desired) n")
    case (Some spec)
    then have "n \<in> set (plan_order desired (observe h0))"
      unfolding plan_order_props by (simp add: fmdomI del: fmdom_desired)
    from loop_inv_settled [OF inv this] Some
    have s: "fmlookup (mh_stacks h) n = Some (conv spec)" "st_tenant spec |\<in>| mh_tenants h"
      by (simp_all add: settled_def)
    have "stack_wf spec" using Some ok by (auto simp: desired_ok_def desired_lookup_iff)
    then show ?thesis
      using s Some conv_nonempty observe_conv [of spec h]
      by (simp add: fmlookup_observe fmlookup_live ob project_lookup [OF ok])
  next
    case None
    have "\<forall>s. fmlookup (mh_stacks h) n = Some s \<longrightarrow> st_empty s"
    proof (cases "n |\<in>| fmdom (observe h0)")
      case True
      then have "n \<in> set (plan_order desired (observe h0))" unfolding plan_order_props by simp
      from loop_inv_settled [OF inv this] None show ?thesis by (simp add: settled_def)
    next
      case False
      then have "n \<notin> set (plan_order desired (observe h0))"
        using None unfolding plan_order_props by (simp add: fmlookup_dom_iff del: fmdom_desired)
      from loop_inv_untouched [OF inv this] False show ?thesis
        by (auto simp: untouched_def fmlookup_dom_iff fmlookup_observe split: option.splits if_splits)
    qed
    then show ?thesis
      using None by (auto simp: fmlookup_observe fmlookup_live project_lookup [OF ok] split: option.splits)
  qed
qed

text \<open>C2: convergence.  For every host and every consistent desired state, the plan computed from
  what the host shows runs without a failed precondition, and afterwards the host shows exactly the
  desired state: right units and hashes, right containers running, right volume directories, every
  tenant present, nothing else left.\<close>

theorem plan_converges:
  assumes "desired_ok desired"
  shows "\<exists>as h'. plan desired (observe h) = Inr as \<and> apply_plan h as = Inr h'
    \<and> observe h' = project desired"
proof -
  have "loop_inv desired h {} h" by (simp add: loop_inv_def untouched_def)
  from run_plan_names [OF this assms plan_order_props(1) [of desired "observe h"]]
  obtain h' where run: "run h (plan_actions desired (observe h)) = Inr h'"
    and inv: "loop_inv desired h (set (plan_order desired (observe h))) h'"
    unfolding plan_actions_names plan_order_props by auto
  have "distinct (map st_name desired)" using assms by (simp add: desired_ok_def)
  from plan_Inr [OF this, of "observe h"] obtain as where as: "plan desired (observe h) = Inr as"
      "run h as = Inr h'"
    using run by (cases "plan_actions desired (observe h) = []") (auto simp: run_append)
  then show ?thesis using loop_inv_end [OF inv assms] by (auto simp: apply_plan_def)
qed

definition example_stack :: stack_spec where
  "example_stack = \<lparr>st_name = ''blog'', st_tenant = ''hosty-t-7'', st_loopback_ip = ''127.77.0.3'',
     st_services = [example_service'], st_volumes = [], st_endpoints = [], st_suspended = False,
     st_server_id = None, st_generation = 0\<rparr>"

lemma example_names: "validate_slug ''blog'' = Inr ''blog''" "tenant_ok ''hosty-t-7''"
  by code_simp+

lemma example_stack_ok: "stack_wf example_stack"
  using example_names
  by (simp add: stack_wf_def example_stack_def example_service'_def example_service_def service_defaults_def)

theorem plan_converges_witness:
  "\<exists>as h'. plan [example_stack] (observe \<lparr>mh_tenants = {||}, mh_stacks = fmempty\<rparr>) = Inr as \<and>
     apply_plan \<lparr>mh_tenants = {||}, mh_stacks = fmempty\<rparr> as = Inr h' \<and> observe h' = project [example_stack]"
  by (rule plan_converges) (simp add: desired_ok_def example_stack_ok)

subsection \<open>A converged host needs no plan\<close>

lemma ffilter_empty: "(\<And>x. x |\<in>| S \<Longrightarrow> \<not> P x) \<Longrightarrow> ffilter P S = {||}"
  by (rule fset_eqI) auto

lemma stale_projected: "stale_units spec (os_units (project_stack spec)) = {||}"
  unfolding stale_units_def by (rule ffilter_empty) (simp add: project_stack_def fmlookup_dom_iff del: fmdom_expected, auto)

lemma stale_builds_projected: "stale_builds spec (os_build_units (project_stack spec)) = {||}"
  unfolding stale_builds_def
  by (rule ffilter_empty) (auto simp: project_stack_def build_hashes_def fmget_def fmlookup_dom_iff simp del: fmdom_expected_builds)

lemma converge_projected: "plan_converge spec (Some (project_stack spec)) = []"
proof -
  have "service_actions spec (os_units (project_stack spec)) {||} n = []"
    if "n |\<in>| fmdom (expected_hashes spec)" for n
    using that
    by (auto simp: service_actions_def is_active_def project_stack_def fmlookup_dom_iff Let_def simp del: fmdom_expected)
  then show ?thesis
    using stale_projected [of spec] stale_builds_projected [of spec]
    by (simp add: plan_converge_def extra_units_def extra_builds_def Let_def del: fmdom_expected fmdom_expected_builds)
       (simp add: project_stack_def build_hashes_def)
qed

lemma plan_project:
  assumes "desired_ok desired"
  shows "plan desired (project desired) = Inr []"
proof -
  have d: "fmdom (project desired) = fmdom (desired_by_name desired)"
    by (rule fset_eqI) (simp add: fmlookup_dom_iff project_lookup [OF assms] del: fmdom_desired)
  have "plan_name desired (project desired) n = []" if "n \<in> set (plan_order desired (project desired))" for n
  proof -
    have "n |\<in>| fmdom (desired_by_name desired)"
      using that unfolding plan_order_props d by simp
    then obtain spec where s: "fmlookup (desired_by_name desired) n = Some spec"
      by (auto simp: fmlookup_dom_iff simp del: fmdom_desired)
    moreover have "os_tenant (project_stack spec) = st_tenant spec" by (simp add: project_stack_def)
    ultimately show ?thesis
      by (simp add: plan_name_def plan_stack_def project_lookup [OF assms] converge_projected)
  qed
  then have "plan_actions desired (project desired) = []"
    unfolding plan_actions_names by simp
  moreover have "distinct (map st_name desired)" using assms by (simp add: desired_ok_def)
  ultimately show ?thesis by (simp add: plan_Inr)
qed

text \<open>C10: idempotency.  The plan for the projection of a consistent desired state is empty: a
  converged host gives the planner nothing to do.\<close>

theorem plan_idempotent:
  assumes "desired_ok desired"
  shows "plan desired (project desired) = Inr []"
  using assms by (rule plan_project)

theorem plan_idempotent_witness: "plan [example_stack] (project [example_stack]) = Inr []"
  by (rule plan_idempotent) (simp add: desired_ok_def example_stack_ok)

subsection \<open>What a plan may destroy, and how it ends\<close>

lemma remove_dir_teardown:
  "RemoveVolumeDir t n v \<in> set (plan_teardown m ob) \<longleftrightarrow> t = os_tenant ob \<and> n = m \<and> v |\<in>| os_volume_dirs ob"
  by (auto simp: plan_teardown_def set_sorted_list_of_fset)

lemma service_actions_keep:
  "a \<in> set (service_actions spec us stale svc) \<Longrightarrow>
     a \<in> {StartService (st_tenant spec) (st_name spec) svc, StopService (st_tenant spec) (st_name spec) svc,
          RestartService (st_tenant spec) (st_name spec) svc, ZeroDowntimeDeploy (st_tenant spec) spec svc}"
  by (auto simp: service_actions_def Let_def split: if_splits option.splits)

lemma remove_dir_converge:
  "RemoveVolumeDir t n v \<in> set (plan_converge spec ob) \<longleftrightarrow>
     t = st_tenant spec \<and> n = st_name spec \<and> v |\<notin>| desired_dirs spec
     \<and> (\<exists>o1. ob = Some o1 \<and> v |\<in>| os_volume_dirs o1)"
  using service_actions_keep [of "RemoveVolumeDir t n v" spec]
  by (auto simp: plan_converge_def Let_def set_sorted_list_of_fset split: option.splits)

lemma remove_dir_name:
  assumes a: "RemoveVolumeDir t n v \<in> set (plan_name desired ob m)" and d: "distinct (map st_name desired)"
  shows "n = m \<and> (\<exists>o1. fmlookup ob n = Some o1 \<and> os_tenant o1 = t \<and> v |\<in>| os_volume_dirs o1)
     \<and> (\<forall>spec\<in>set desired. st_name spec = n \<longrightarrow> st_tenant spec = t \<longrightarrow> v |\<notin>| desired_dirs spec)"
proof (cases "fmlookup (desired_by_name desired) m")
  case None
  then have "m \<notin> st_name ` set desired" by (auto dest: desired_lookup [OF d])
  then show ?thesis
    using a None by (auto simp: plan_name_def remove_dir_teardown split: option.splits)
next
  case (Some x)
  then have x: "st_name x = m" by (simp add: desired_lookup_iff [OF d])
  have u: "s = x" if "s \<in> set desired" "st_name s = m" for s
    using desired_lookup [OF d that(1)] that(2) Some by simp
  then show ?thesis
    using a Some x
    by (auto simp: plan_name_def plan_stack_def remove_dir_teardown remove_dir_converge
        split: option.splits if_splits dest!: u)
qed

text \<open>The planner deletes a volume directory only when that very directory was observed under
  that tenant and stack, and no desired stack of that name and tenant still has the volume.\<close>

theorem plan_deletes_unwanted:
  assumes "plan desired ob = Inr as" "RemoveVolumeDir t n v \<in> set as"
  shows "(\<exists>o1. fmlookup ob n = Some o1 \<and> os_tenant o1 = t \<and> v |\<in>| os_volume_dirs o1)
    \<and> (\<forall>spec\<in>set desired. st_name spec = n \<longrightarrow> st_tenant spec = t \<longrightarrow> v |\<notin>| desired_dirs spec)"
proof -
  have d: "distinct (map st_name desired)"
    using assms(1) plan_duplicate [of desired ob ValueError] by auto
  then have "RemoveVolumeDir t n v \<in> set (plan_actions desired ob)"
    using assms by (auto simp: plan_Inr split: if_splits)
  then obtain m where "RemoveVolumeDir t n v \<in> set (plan_name desired ob m)"
    unfolding plan_actions_names by auto
  from remove_dir_name [OF this d] show ?thesis by blast
qed

definition example_observed :: observed where
  "example_observed = fmupd ''old'' \<lparr>os_tenant = ''hosty-t-7'', os_tenant_present = True,
     os_units = fmempty, os_build_units = fmempty, os_volume_dirs = {|''data''|}\<rparr> fmempty"

theorem plan_deletes_unwanted_witness:
  "\<exists>o1. fmlookup example_observed ''old'' = Some o1 \<and> os_tenant o1 = ''hosty-t-7'' \<and> ''data'' |\<in>| os_volume_dirs o1"
proof -
  have s: "sorted_list_of_fset {|x|} = [x]" for x :: string
    by (simp add: sorted_list_of_fset.rep_eq)
  have "plan [] example_observed = Inr [RemoveUnits ''hosty-t-7'' ''old'', DaemonReload ''hosty-t-7'',
      RemoveVolumeDir ''hosty-t-7'' ''old'' ''data'', RemoveTenantIfEmpty ''hosty-t-7'', SyncCaddy]"
    by (simp add: plan_Inr plan_actions_def desired_by_name_def dict_of_def sorted_keys_def
        example_observed_def plan_teardown_def s)
  from plan_deletes_unwanted [OF this] show ?thesis by simp
qed

lemma no_sync: "SyncCaddy \<notin> set (plan_name desired ob n)"
proof -
  have "SyncCaddy \<notin> set (plan_converge spec o1)" for spec o1
    using service_actions_keep [of SyncCaddy spec] by (auto simp: plan_converge_def Let_def)
  then show ?thesis
    by (auto simp: plan_name_def plan_stack_def plan_teardown_def split: option.splits)
qed

text \<open>The routes are synchronised exactly once, after every other action, and only when the plan
  does anything at all.\<close>

theorem plan_syncs_last:
  assumes "plan desired ob = Inr as" "as \<noteq> []"
  shows "last as = SyncCaddy \<and> SyncCaddy \<notin> set (butlast as) \<and> butlast as \<noteq> []"
proof -
  have "distinct (map st_name desired)"
    using assms(1) plan_duplicate [of desired ob ValueError] by auto
  then have "as = plan_actions desired ob @ [SyncCaddy]" "plan_actions desired ob \<noteq> []"
    using assms by (auto simp: plan_Inr split: if_splits)
  moreover have "SyncCaddy \<notin> set (plan_actions desired ob)"
    unfolding plan_actions_names by (simp add: no_sync)
  ultimately show ?thesis by simp
qed

theorem plan_syncs_last_witness:
  "\<exists>as. plan [example_stack] fmempty = Inr as \<and> last as = SyncCaddy \<and> SyncCaddy \<notin> set (butlast as)"
proof -
  have n: "plan_actions [example_stack] fmempty \<noteq> []"
    by (simp add: plan_actions_def desired_by_name_def dict_of_def sorted_keys_def plan_stack_def
        plan_converge_def sorted_list_of_fset.rep_eq Let_def)
  then have "plan [example_stack] fmempty = Inr (plan_actions [example_stack] fmempty @ [SyncCaddy])"
    by (simp add: plan_Inr)
  from plan_syncs_last [OF this] show ?thesis
    using \<open>plan [example_stack] fmempty = _\<close> by simp
qed

subsection \<open>A crash between writing and restarting\<close>

text \<open>The fingerprint is compared with the files on disk only.  When a running stack is out of
  date and the process stops after the units are written, the next plan is empty: the restarts of the
  first plan are lost and the old containers keep running.\<close>

theorem restart_lost:
  assumes wf: "stack_wf spec" "\<not> st_suspended spec"
    and host: "st_tenant spec |\<in>| mh_tenants h" "mh_stacks h = fmupd (st_name spec) s fmempty"
      "ss_tenant s = st_tenant spec" "ss_active s = fmdom (expected_hashes spec)"
      "ss_dirs s = desired_dirs spec" "fmdom (ss_files s) = fmdom (expected_hashes spec)"
    and svc: "svc \<in> set (st_services spec)" "\<not> s_zero_downtime svc"
      "fmget (ss_files s) (s_name svc) None \<noteq> Some (spec_hash spec svc)"
  shows "RestartService (st_tenant spec) (st_name spec) (s_name svc) \<in> set (plan_actions [spec] (observe h))
    \<and> (\<exists>h1. run h [WriteUnits spec, DaemonReload (st_tenant spec)] = Inr h1
          \<and> plan [spec] (observe h1) = Inr [])"
proof
  have ne: "\<not> st_empty s" using expected_nonempty [OF wf(1)] host by (simp add: st_empty_def)
  have ok: "desired_ok [spec]" using wf by (simp add: desired_ok_def)
  have ob: "fmlookup (observe h) (st_name spec) = Some (observe_stack h s)"
    using host ne by (simp add: fmlookup_observe)
  have act: "is_active (os_units (observe_stack h s)) (s_name svc)"
    using host svc by (auto simp: observe_stack_def is_active_def fset_of_list.rep_eq)
  have "s_name svc |\<in>| stale_units spec (os_units (observe_stack h s))"
    using svc host wf expected_lookup [OF wf(1) svc(1)]
    by (auto simp: stale_units_def observe_stack_def fset_of_list.rep_eq)
  then have "RestartService (st_tenant spec) (st_name spec) (s_name svc) \<in>
      set (service_actions spec (os_units (observe_stack h s))
        (stale_units spec (os_units (observe_stack h s))) (s_name svc))"
    using act wf svc service_map_lookup [OF wf(1) svc(1)] by (simp add: service_actions_def)
  moreover have "s_name svc |\<in>| fmdom (expected_hashes spec)"
    using svc by (simp add: fset_of_list.rep_eq)
  then have "s_name svc \<in> set (sorted_keys (expected_hashes spec))" by simp
  ultimately have "RestartService (st_tenant spec) (st_name spec) (s_name svc) \<in>
      set (plan_converge spec (Some (observe_stack h s)))"
    by (auto simp: plan_converge_def Let_def simp del: fmdom_expected)
  then show "RestartService (st_tenant spec) (st_name spec) (s_name svc) \<in> set (plan_actions [spec] (observe h))"
    unfolding plan_actions_names
    using ob host
    by (auto simp: plan_order_props plan_name_def plan_stack_def desired_lookup intro!: bexI [of _ "st_name spec"])
  let ?h1 = "put (st_name spec) (conv spec) h"
  have "s\<lparr>ss_tenant := st_tenant spec, ss_files := file_hashes spec, ss_builds := build_hashes spec\<rparr> = conv spec"
    using host wf by (simp add: conv_def)
  then have "run h [WriteUnits spec, DaemonReload (st_tenant spec)] = Inr ?h1"
    using host by (simp add: entry_def fmget_def Let_def)
  moreover have "observe ?h1 = project [spec]"
  proof (rule fmap_ext)
    fix n
    show "fmlookup (observe ?h1) n = fmlookup (project [spec]) n"
      using host conv_nonempty [OF wf(1)] observe_conv [of spec ?h1]
      by (cases "st_name spec = n") (simp_all add: fmlookup_observe project_lookup [OF ok] desired_by_name_def dict_of_def)
  qed
  ultimately show "\<exists>h1. run h [WriteUnits spec, DaemonReload (st_tenant spec)] = Inr h1
      \<and> plan [spec] (observe h1) = Inr []"
    using plan_project [OF ok] by auto
qed

definition example_state :: stack_state where
  "example_state = \<lparr>ss_tenant = ''hosty-t-7'', ss_files = fmupd ''web'' None fmempty, ss_builds = fmempty,
     ss_active = {|''web''|}, ss_dirs = {||}\<rparr>"

theorem restart_lost_witness:
  "RestartService ''hosty-t-7'' ''blog'' ''web'' \<in> set (plan_actions [example_stack]
       (observe \<lparr>mh_tenants = {|''hosty-t-7''|}, mh_stacks = fmupd ''blog'' example_state fmempty\<rparr>))"
proof -
  note defs = example_stack_def example_service'_def example_service_def service_defaults_def example_state_def
    desired_dirs_def fmget_def
  have n: "st_tenant example_stack = ''hosty-t-7''" "st_name example_stack = ''blog''"
    "s_name example_service' = ''web''" "\<not> st_suspended example_stack"
    "st_services example_stack = [example_service']" "\<not> s_zero_downtime example_service'"
    by (simp_all add: defs)
  show ?thesis
    using restart_lost [of example_stack
        "\<lparr>mh_tenants = {|''hosty-t-7''|}, mh_stacks = fmupd ''blog'' example_state fmempty\<rparr>"
        example_state example_service'] example_stack_ok
    by (simp add: n example_state_def desired_dirs_def fmget_def) (simp add: example_stack_def)
qed

end
