(* ===== verification/Operations.thy ===== *)
theory Operations
  imports Planner
begin

text \<open>
  Operations and their recorded steps: \<open>backend/app/orchestration/operations.py\<close> and the columns of
  the \<open>Operation\<close> row it writes.  \<open>step_for\<close> raises \<open>ValueError\<close> for an action it does not list, as the
  source does.  Log lines hold arrows and ticks outside Latin-1, so a line is a value of \<open>log_line\<close>
  (one constructor per message of the reconciler, without its time stamp).
\<close>

subsection \<open>Data\<close>

record op_step =
  sp_name :: string
  sp_label :: string
  sp_status :: string

datatype log_line =
    LogStarting string string nat \<comment> \<open>operation kind, stack, number of steps\<close>
  | LogBatch string nat
  | LogStep string
  | LogOk string
  | LogFail string string
  | LogBatchOk nat string
  | LogDone nat
  | LogTimeout string

record operation =
  op_kind :: string
  op_status :: string
  op_steps :: "op_step list"
  op_log :: "log_line list"
  op_error :: "string option"
  op_created :: int
  op_finished :: "int option"
  op_stack :: "int option"
  op_site :: "int option"

subsection \<open>Operations on the row\<close>

fun step_for :: "action \<Rightarrow> (string \<times> string) res" where
  "step_for (EnsureTenant t) = Inr (''tenant'', ''Provision tenant user'')"
| "step_for (EnsureVolumeDir t n v) = Inr (''volume:'' @ v, ''Create volume '' @ v)"
| "step_for (WriteUnits spec) = Inr (''units'', ''Write unit files'')"
| "step_for (RemoveUnits t n) = Inr (''remove-units'', ''Remove unit files'')"
| "step_for (DaemonReload t) = Inr (''daemon-reload'', ''Reload tenant service manager'')"
| "step_for (StartService t n svc) = Inr (''start:'' @ svc, ''Start service '' @ svc)"
| "step_for (StopService t n svc) = Inr (''stop:'' @ svc, ''Stop service '' @ svc)"
| "step_for (RestartService t n svc) = Inr (''restart:'' @ svc, ''Restart service '' @ svc)"
| "step_for (RemoveVolumeDir t n v) = Inr (''remove-volume:'' @ v, ''Remove volume '' @ v)"
| "step_for (RemoveTenantIfEmpty t) = Inr (''tenant-gc'', ''Release tenant user if unused'')"
| "step_for SyncCaddy = Inr (''ingress'', ''Sync ingress routes'')"
| "step_for (ZeroDowntimeDeploy t spec svc) = Inl ValueError"

definition initial_steps :: "action list \<Rightarrow> op_step list res" where
  "initial_steps actions =
     bind_res (map_res step_for actions)
       (\<lambda>ps. Inr (map (\<lambda>(n, l). \<lparr>sp_name = n, sp_label = l, sp_status = ''pending''\<rparr>) ps))"

definition append_log :: "log_line \<Rightarrow> operation \<Rightarrow> operation" where
  "append_log line op = op\<lparr>op_log := op_log op @ [line]\<rparr>"

definition set_step :: "string \<Rightarrow> string \<Rightarrow> operation \<Rightarrow> operation" where
  "set_step name status op =
     op\<lparr>op_steps := map (\<lambda>s. if sp_name s = name then s\<lparr>sp_status := status\<rparr> else s) (op_steps op)\<rparr>"

definition finish :: "string \<Rightarrow> string option \<Rightarrow> int \<Rightarrow> operation \<Rightarrow> operation" where
  "finish status err now op = op\<lparr>op_status := status, op_error := err, op_finished := Some now\<rparr>"

subsection \<open>Facts\<close>

definition is_zdd :: "action \<Rightarrow> bool" where
  "is_zdd a \<longleftrightarrow> (case a of ZeroDowntimeDeploy t spec svc \<Rightarrow> True | _ \<Rightarrow> False)"

lemma step_for_Inl [simp]: "step_for a = Inl e \<longleftrightarrow> is_zdd a \<and> e = ValueError"
  by (cases a) (auto simp: is_zdd_def)

lemma step_for_Inr: "\<not> is_zdd a \<Longrightarrow> \<exists>n l. step_for a = Inr (n, l)"
  by (cases a) (auto simp: is_zdd_def)

definition step_name :: "action \<Rightarrow> string" where
  "step_name a = (case step_for a of Inl e \<Rightarrow> [] | Inr p \<Rightarrow> fst p)"

lemma map_res_step: "\<forall>a\<in>set as. \<not> is_zdd a \<Longrightarrow>
    map_res step_for as = Inr (map (\<lambda>a. (step_name a, snd (projr (step_for a)))) as)"
  by (rule map_res_map) (auto simp: step_name_def dest!: step_for_Inr)

lemma initial_steps_Inr:
  "initial_steps as = Inr steps \<longleftrightarrow> (\<forall>a\<in>set as. \<not> is_zdd a) \<and>
     steps = map (\<lambda>a. \<lparr>sp_name = step_name a, sp_label = snd (projr (step_for a)), sp_status = ''pending''\<rparr>) as"
proof (cases "\<forall>a\<in>set as. \<not> is_zdd a")
  case True
  then show ?thesis by (auto simp: initial_steps_def map_res_step comp_def)
next
  case False
  then have "map_res step_for as \<noteq> Inr ys" for ys
    by (auto simp: map_res_Inr list_all2_conv_all_nth in_set_conv_nth) (metis Inl_Inr_False step_for_Inl)
  then show ?thesis using False by (auto simp: initial_steps_def bind_res_eq_Inr)
qed

lemma initial_steps_Inl:
  "initial_steps as = Inl e \<longleftrightarrow> (\<exists>a\<in>set as. is_zdd a) \<and> e = ValueError"
proof -
  have v: "e = ValueError" if "initial_steps as = Inl e" for e
    using that by (auto simp: initial_steps_def bind_res_eq_Inl dest!: map_res_Inl)
  have "(\<exists>x. initial_steps as = Inr x) \<longleftrightarrow> (\<forall>a\<in>set as. \<not> is_zdd a)"
    using initial_steps_Inr [of as] by auto
  then show ?thesis using v by (cases "initial_steps as") auto
qed

lemma set_step_sel [simp]:
  "op_status (set_step n s op) = op_status op" "op_error (set_step n s op) = op_error op"
  "op_finished (set_step n s op) = op_finished op" "op_log (set_step n s op) = op_log op"
  "map sp_name (op_steps (set_step n s op)) = map sp_name (op_steps op)"
  by (simp_all add: set_step_def comp_def cong: map_cong)

lemma append_log_sel [simp]:
  "op_status (append_log l op) = op_status op" "op_error (append_log l op) = op_error op"
  "op_finished (append_log l op) = op_finished op" "op_steps (append_log l op) = op_steps op"
  by (simp_all add: append_log_def)

lemma finish_sel [simp]:
  "op_status (finish st e now op) = st" "op_error (finish st e now op) = e"
  "op_finished (finish st e now op) = Some now" "op_steps (finish st e now op) = op_steps op"
  by (simp_all add: finish_def)

definition step_statuses :: "operation \<Rightarrow> (string \<times> string) list" where
  "step_statuses op = map (\<lambda>s. (sp_name s, sp_status s)) (op_steps op)"

lemma step_statuses_simps [simp]:
  "step_statuses (append_log l op) = step_statuses op"
  "step_statuses (finish st e now op) = step_statuses op"
  "step_statuses (set_step n st op) = map (\<lambda>(m, s). (m, if m = n then st else s)) (step_statuses op)"
  by (simp_all add: step_statuses_def) (simp add: set_step_def comp_def)

end
