(* ===== verification/Notifications.thy ===== *)
theory Notifications
  imports Prelude
begin

text \<open>
  Admin notifications (\<open>backend/app/services/notifications.py\<close>): the table is the list of its rows in
  insertion order.  The webhook and the e-mail are best-effort output after the row is stored; a
  \<open>Some row\<close> result of \<open>emit\<close> is exactly the case in which they are attempted.
\<close>

record notification =
  nt_kind :: string
  nt_severity :: string
  nt_message :: string
  nt_key :: "string option"
  nt_created :: int
  nt_resolved :: "int option"

definition severities :: "string list" where
  "severities = [''info'', ''warning'', ''error'']"

definition unresolved :: "string \<Rightarrow> notification list \<Rightarrow> notification list" where
  "unresolved key rows = filter (\<lambda>r. nt_key r = Some key \<and> nt_resolved r = None) rows"

text \<open>\<open>scalar_one_or_none\<close> raises when more than one row matches.\<close>

definition emit :: "int \<Rightarrow> string \<Rightarrow> string \<Rightarrow> string \<Rightarrow> string option \<Rightarrow> notification list
    \<Rightarrow> (notification option \<times> notification list) res" where
  "emit now kind message severity key rows =
     (let sev = (if severity \<in> set severities then severity else ''warning'');
          row = \<lparr>nt_kind = kind, nt_severity = sev, nt_message = message, nt_key = key,
                 nt_created = now, nt_resolved = None\<rparr>
      in case key of
           None \<Rightarrow> Inr (Some row, rows @ [row])
         | Some k \<Rightarrow> (case unresolved k rows of
              [] \<Rightarrow> Inr (Some row, rows @ [row])
            | [r] \<Rightarrow> Inr (None, rows)
            | _ \<Rightarrow> Inl MultipleResultsFound))"

definition resolve :: "int \<Rightarrow> string \<Rightarrow> notification list \<Rightarrow> nat \<times> notification list" where
  "resolve now key rows =
     (length (unresolved key rows),
      map (\<lambda>r. if nt_key r = Some key \<and> nt_resolved r = None then r\<lparr>nt_resolved := Some now\<rparr> else r) rows)"

definition deduped :: "notification list \<Rightarrow> bool" where
  "deduped rows \<longleftrightarrow> (\<forall>key. length (unresolved key rows) \<le> 1)"

lemma unresolved_append [simp]: "unresolved k (xs @ ys) = unresolved k xs @ unresolved k ys"
  by (simp add: unresolved_def)

lemma unresolved_resolve:
  "unresolved k (snd (resolve now key rows)) = (if k = key then [] else unresolved k rows)"
  by (induction rows) (auto simp: unresolved_def resolve_def)

lemma emit_deduped:
  assumes "deduped rows"
  obtains r rows' where "emit now kind msg sev key rows = Inr (r, rows')" "deduped rows'"
    "key = None \<or> (\<exists>k. key = Some k \<and> length (unresolved k rows') = 1)"
    "r = None \<longleftrightarrow> (\<exists>k. key = Some k \<and> unresolved k rows \<noteq> [])" "r = None \<Longrightarrow> rows' = rows"
    "\<And>k. key \<noteq> Some k \<Longrightarrow> unresolved k rows' = unresolved k rows"
proof -
  let ?row = "\<lparr>nt_kind = kind, nt_severity = (if sev \<in> set severities then sev else ''warning''),
     nt_message = msg, nt_key = key, nt_created = now, nt_resolved = None\<rparr>"
  have one: "unresolved k [?row] = (if key = Some k then [?row] else [])" for k
    by (simp add: unresolved_def)
  have l: "length (unresolved k rows) \<le> 1" for k using assms by (simp add: deduped_def)
  show thesis
  proof (cases "\<exists>k. key = Some k \<and> unresolved k rows \<noteq> []")
    case True
    then obtain k r rs where k: "key = Some k" "unresolved k rows = r # rs" by (auto simp: neq_Nil_conv)
    with l [of k] have "rs = []" by simp
    then show thesis using k assms by (intro that [of None rows]) (auto simp: emit_def Let_def)
  next
    case False
    then have e: "emit now kind msg sev key rows = Inr (Some ?row, rows @ [?row])"
      by (auto simp: emit_def Let_def split: option.split)
    have "deduped (rows @ [?row])"
      unfolding deduped_def unresolved_append one using l False by auto
    then show thesis using e False
      by (intro that [of "Some ?row" "rows @ [?row]"]) (auto simp: one)
  qed
qed

lemma emit_key:
  assumes "deduped rows"
  shows "\<exists>r rows'. emit now kind msg sev (Some key) rows = Inr (r, rows') \<and> deduped rows'
    \<and> length (unresolved key rows') = 1 \<and> (\<forall>k. k \<noteq> key \<longrightarrow> unresolved k rows' = unresolved k rows)"
  by (rule emit_deduped [OF assms, of now kind msg sev "Some key"]) auto

text \<open>Recurring checks do not flood the list.  While at most one notification per key is open,
  emitting never raises and keeps it so; a second emission with an open key changes nothing, and
  after the condition was resolved the next emission is stored again.\<close>

theorem notifications_dedupe:
  assumes "deduped rows"
  shows "\<exists>r rows1. emit now kind msg sev (Some key) rows = Inr (r, rows1) \<and> deduped rows1
    \<and> length (unresolved key rows1) = 1
    \<and> emit now' kind' msg' sev' (Some key) rows1 = Inr (None, rows1)
    \<and> deduped (snd (resolve now' key rows1))
    \<and> (\<exists>r2 rows2. emit now'' kind'' msg'' sev'' (Some key) (snd (resolve now' key rows1)) = Inr (Some r2, rows2))"
proof -
  obtain r rows1 where e: "emit now kind msg sev (Some key) rows = Inr (r, rows1)" "deduped rows1"
      "length (unresolved key rows1) = 1"
    using emit_key [OF assms] by blast
  then have "emit now' kind' msg' sev' (Some key) rows1 = Inr (None, rows1)"
    by (auto simp: emit_def Let_def length_Suc_conv)
  moreover have "deduped (snd (resolve now' key rows1))"
    using e(2) by (auto simp: deduped_def unresolved_resolve)
  moreover have "\<exists>r2 rows2. emit now'' kind'' msg'' sev'' (Some key) (snd (resolve now' key rows1)) = Inr (Some r2, rows2)"
    by (simp add: emit_def Let_def unresolved_resolve)
  ultimately show ?thesis using e by blast
qed

theorem notifications_dedupe_witness:
  "\<exists>r rows1. emit 1 ''stack_drift'' ''m'' ''fatal'' (Some ''k'') [] = Inr (r, rows1) \<and> deduped rows1"
proof -
  have "deduped []" by (simp add: deduped_def unresolved_def)
  from notifications_dedupe [OF this] show ?thesis by blast
qed

end
