(* ===== verification/Reconciler.thy ===== *)
theory Reconciler
  imports Convergence Operations Notifications "HOL-Library.AList"
begin

text \<open>
  The reconciler (\<open>backend/app/orchestration/reconciler.py\<close>).  The executor is a parameter \<open>ex\<close>: it
  performs one action on the host and answers the text of the exception it raised, if any.  The
  tasks of one \<open>asyncio.gather\<close> run one after the other in list order.  \<open>asyncio.wait_for\<close> is the number of loop
  rounds that finish before the deadline.
\<close>

subsection \<open>State\<close>

type_synonym 'h executor = "action \<Rightarrow> 'h \<Rightarrow> string option \<times> 'h"

record 'h rstate =
  rs_host :: 'h
  rs_op :: "operation option"
  rs_status :: "(string \<times> string \<times> string option) list"

record outcome =
  oc_stack :: string
  oc_planned :: nat
  oc_executed :: nat
  oc_error :: "string option"

datatype ended = Returned outcome | Raised exn | Deadline

definition on_op :: "(operation \<Rightarrow> operation) \<Rightarrow> 'h rstate \<Rightarrow> 'h rstate" where
  "on_op f s = s\<lparr>rs_op := map_option f (rs_op s)\<rparr>"

definition hook :: "string \<Rightarrow> string \<Rightarrow> string option \<Rightarrow> 'h rstate \<Rightarrow> 'h rstate" where
  "hook name status err s = s\<lparr>rs_status := rs_status s @ [(name, status, err)]\<rparr>"

definition fail_status :: "bool \<Rightarrow> string" where
  "fail_status undesired = (if undesired then ''deleting'' else ''degraded'')"

definition ok_status :: "stack_spec option \<Rightarrow> string" where
  "ok_status spec = (case spec of None \<Rightarrow> ''absent''
     | Some s \<Rightarrow> if st_suspended s then ''suspended'' else ''ready'')"

subsection \<open>Executing a plan\<close>

fun same_class :: "action \<Rightarrow> action \<Rightarrow> bool" where
  "same_class (StartService _ _ _) (StartService _ _ _) = True"
| "same_class (StopService _ _ _) (StopService _ _ _) = True"
| "same_class (RestartService _ _ _) (RestartService _ _ _) = True"
| "same_class _ _ = False"

definition verb :: "action \<Rightarrow> string" where
  "verb a = (case a of StartService _ _ _ \<Rightarrow> ''Starting'' | StopService _ _ _ \<Rightarrow> ''Stopping''
     | RestartService _ _ _ \<Rightarrow> ''Restarting'' | _ \<Rightarrow> [])"

definition past :: "action \<Rightarrow> string" where
  "past a = rstrip_char (CHR ''e'') (lower (verb a)) @ ''ed''"

fun exec_all :: "'h executor \<Rightarrow> action list \<Rightarrow> 'h \<Rightarrow> string option list \<times> 'h" where
  "exec_all ex [] h = ([], h)"
| "exec_all ex (a # as) h = (let (r, h1) = ex a h; (rs, h2) = exec_all ex as h1 in (r # rs, h2))"

definition step_label :: "action \<Rightarrow> string" where
  "step_label a = (case step_for a of Inl e \<Rightarrow> [] | Inr p \<Rightarrow> snd p)"

text \<open>The first error among the results of a batch, with its action.\<close>

fun first_err :: "action list \<Rightarrow> string option list \<Rightarrow> (action \<times> string) option" where
  "first_err (a # as) (Some e # rs) = Some (a, e)"
| "first_err (a # as) (None # rs) = first_err as rs"
| "first_err _ _ = None"

definition set_steps :: "(action \<times> string) list \<Rightarrow> operation \<Rightarrow> operation" where
  "set_steps ps op = foldl (\<lambda>op (a, st). set_step (step_name a) st op) op ps"

definition failed_outcome :: "string \<Rightarrow> nat \<Rightarrow> nat \<Rightarrow> string \<Rightarrow> outcome" where
  "failed_outcome name planned executed err =
     \<lparr>oc_stack = name, oc_planned = planned, oc_executed = executed, oc_error = Some err\<rparr>"

text \<open>One round of the loop on a batch of at least two actions, and on a single action: \<open>Inl\<close> ends the
  loop, \<open>Inr\<close> goes on.\<close>

definition batch_round :: "'h executor \<Rightarrow> string \<Rightarrow> bool \<Rightarrow> int \<Rightarrow> nat \<Rightarrow> nat \<Rightarrow> action list \<Rightarrow> 'h rstate
    \<Rightarrow> (ended + unit) \<times> 'h rstate" where
  "batch_round ex name undesired now planned executed batch s =
     (let s1 = on_op (\<lambda>op. append_log (LogBatch (verb (hd batch)) (length batch))
                 (set_steps (map (\<lambda>a. (a, ''running'')) batch) op)) s;
          (results, h) = exec_all ex batch (rs_host s1);
          s2 = s1\<lparr>rs_host := h\<rparr>
      in case first_err batch results of
           Some (a, exc) \<Rightarrow>
             (let err = step_name a @ '': '' @ exc;
                  s3 = on_op (\<lambda>op. finish ''failed'' (Some (take 500 err)) now (append_log (LogFail (step_label a) exc)
                         (set_steps (map (\<lambda>(a, r). (a, if r = None then ''done'' else ''failed''))
                            (zip batch results)) op))) s2
              in (Inl (Returned (failed_outcome name planned executed err)),
                  hook name (fail_status undesired) (Some (take 500 err)) s3))
         | None \<Rightarrow>
             (Inr (), on_op (\<lambda>op. append_log (LogBatchOk (length batch) (past (hd batch)))
                (set_steps (map (\<lambda>a. (a, ''done'')) batch) op)) s2))"

definition single_round :: "'h executor \<Rightarrow> string \<Rightarrow> bool \<Rightarrow> int \<Rightarrow> nat \<Rightarrow> nat \<Rightarrow> action \<Rightarrow> 'h rstate
    \<Rightarrow> (ended + unit) \<times> 'h rstate" where
  "single_round ex name undesired now planned executed a s =
     (case step_for a of
        Inl e \<Rightarrow> (Inl (Raised e), s)
      | Inr (n, l) \<Rightarrow>
          (let s1 = on_op (\<lambda>op. append_log (LogStep l) (set_step n ''running'' op)) s;
               (r, h) = ex a (rs_host s1);
               s2 = s1\<lparr>rs_host := h\<rparr>
           in case r of
                Some exc \<Rightarrow>
                  (let err = n @ '': '' @ exc;
                       s3 = on_op (\<lambda>op. finish ''failed'' (Some (take 500 err)) now
                              (append_log (LogFail l exc) (set_step n ''failed'' op))) s2
                   in (Inl (Returned (failed_outcome name planned executed err)),
                       hook name (fail_status undesired) (Some (take 500 err)) s3))
              | None \<Rightarrow> (Inr (), on_op (\<lambda>op. append_log (LogOk l) (set_step n ''done'' op)) s2)))"

definition batch_of :: "action list \<Rightarrow> action list" where
  "batch_of as = (case as of [] \<Rightarrow> [] | a # rest \<Rightarrow> a # takeWhile (same_class a) rest)"

lemma batch_of_split: "as = batch_of as @ drop (length (batch_of as)) as"
  by (cases as) (auto simp: batch_of_def takeWhile_dropWhile_id dropWhile_eq_drop [symmetric])

lemma batch_of_Nil [simp]: "batch_of as = [] \<longleftrightarrow> as = []"
  by (cases as) (auto simp: batch_of_def)

text \<open>The actions of the next round: the maximal batch when it has at least two actions, else one.\<close>

definition group_of :: "action list \<Rightarrow> action list" where
  "group_of as = (if 1 < length (batch_of as) then batch_of as else take 1 as)"

definition do_round :: "'h executor \<Rightarrow> string \<Rightarrow> bool \<Rightarrow> int \<Rightarrow> nat \<Rightarrow> nat \<Rightarrow> action list \<Rightarrow> 'h rstate
    \<Rightarrow> (ended + unit) \<times> 'h rstate" where
  "do_round ex name undesired now planned executed grp s =
     (if 1 < length grp then batch_round ex name undesired now planned executed grp s
      else single_round ex name undesired now planned executed (hd grp) s)"

text \<open>\<open>rounds\<close> counts the rounds left before the deadline.\<close>

fun apply_loop :: "'h executor \<Rightarrow> string \<Rightarrow> stack_spec option \<Rightarrow> int \<Rightarrow> nat \<Rightarrow> nat \<Rightarrow> action list \<Rightarrow> nat
    \<Rightarrow> 'h rstate \<Rightarrow> ended \<times> 'h rstate" where
  "apply_loop ex name spec now planned rounds [] executed s =
     (Returned \<lparr>oc_stack = name, oc_planned = planned, oc_executed = executed, oc_error = None\<rparr>,
      hook name (ok_status spec) None
        (on_op (\<lambda>op. finish ''succeeded'' None now (append_log (LogDone executed) op)) s))"
| "apply_loop ex name spec now planned 0 (a # as) executed s = (Deadline, s)"
| "apply_loop ex name spec now planned (Suc k) (a # as) executed s =
     (let grp = group_of (a # as) in
      case do_round ex name (spec = None) now planned executed grp s of
        (Inl e, s1) \<Rightarrow> (e, s1)
      | (Inr _, s1) \<Rightarrow>
          apply_loop ex name spec now planned k (drop (length grp) (a # as)) (executed + length grp) s1)"

definition apply_inner :: "'h executor \<Rightarrow> string \<Rightarrow> stack_spec option \<Rightarrow> int \<Rightarrow> nat \<Rightarrow> action list
    \<Rightarrow> 'h rstate \<Rightarrow> ended \<times> 'h rstate" where
  "apply_inner ex name spec now rounds actions s =
     (case rs_op s of
        None \<Rightarrow> apply_loop ex name spec now (length actions) rounds actions 0 s
      | Some op \<Rightarrow>
          (case initial_steps actions of
             Inl e \<Rightarrow> (Raised e, s)
           | Inr steps \<Rightarrow>
               apply_loop ex name spec now (length actions) rounds actions 0
                 (s\<lparr>rs_op := Some (append_log (LogStarting (op_kind op) name (length actions))
                     (op\<lparr>op_status := ''running'', op_steps := steps, op_log := []\<rparr>))\<rparr>)))"

text \<open>\<open>conn\<close> is the host name and the error of a failed SSH connection of a remote host; \<open>limit\<close> is
  \<open>operation_timeout_seconds\<close>.\<close>

definition apply_actions :: "'h executor \<Rightarrow> (string \<times> string) option \<Rightarrow> nat \<Rightarrow> nat \<Rightarrow> int \<Rightarrow> string
    \<Rightarrow> stack_spec option \<Rightarrow> action list \<Rightarrow> 'h rstate \<Rightarrow> (exn + outcome) \<times> 'h rstate" where
  "apply_actions ex conn limit rounds now name spec actions s =
     (case conn of
        Some (hostname, exc) \<Rightarrow>
          (let err = ''SSH connect to '' @ hostname @ '': '' @ exc
           in (Inr (failed_outcome name (length actions) 0 err),
               hook name ''degraded'' (Some (take 500 err)) s))
      | None \<Rightarrow>
          (case apply_inner ex name spec now rounds actions s of
             (Returned out, s1) \<Rightarrow> (Inr out, s1)
           | (Raised e, s1) \<Rightarrow> (Inl e, s1)
           | (Deadline, s1) \<Rightarrow>
               (let err = ''Operation timed out after '' @ nat_str limit @ ''s'';
                    s2 = on_op (\<lambda>op. if op_status op \<in> set [''succeeded'', ''failed''] then op
                           else finish ''failed'' (Some err) now (append_log (LogTimeout err) op)) s1
                in (Inr (failed_outcome name (length actions) 0 err),
                    hook name (fail_status (spec = None)) (Some err) s2))))"

definition finish_operation :: "int \<Rightarrow> 'h rstate \<Rightarrow> 'h rstate" where
  "finish_operation now s = on_op (\<lambda>op. finish ''succeeded'' None now (op\<lparr>op_steps := []\<rparr>)) s"

definition plan_one :: "string \<Rightarrow> stack_spec option \<Rightarrow> observed_stack option \<Rightarrow> action list res" where
  "plan_one name spec obs =
     plan (case spec of None \<Rightarrow> [] | Some s \<Rightarrow> [s])
       (case obs of None \<Rightarrow> fmempty | Some ob \<Rightarrow> fmupd name ob fmempty)"

definition converge_one :: "'h executor \<Rightarrow> (string \<times> string) option \<Rightarrow> nat \<Rightarrow> nat \<Rightarrow> int \<Rightarrow> string
    \<Rightarrow> stack_spec option \<Rightarrow> observed_stack option \<Rightarrow> 'h rstate \<Rightarrow> (exn + outcome) \<times> 'h rstate" where
  "converge_one ex conn limit rounds now name spec obs s =
     (case plan_one name spec obs of
        Inl e \<Rightarrow> (Inl e, s)
      | Inr [] \<Rightarrow> (Inr \<lparr>oc_stack = name, oc_planned = 0, oc_executed = 0, oc_error = None\<rparr>,
                  hook name (ok_status spec) None (finish_operation now s))
      | Inr actions \<Rightarrow> apply_actions ex conn limit rounds now name spec actions s)"

subsection \<open>Traces of the loop\<close>

lemma group_of_split: "as = group_of as @ drop (length (group_of as)) as"
proof (cases "1 < length (batch_of as)")
  case True
  then show ?thesis using batch_of_split [of as] by (simp add: group_of_def)
next
  case False
  then show ?thesis by (cases as) (simp_all add: group_of_def)
qed

lemma group_of_Nil [simp]: "group_of as = [] \<longleftrightarrow> as = []"
  by (simp add: group_of_def)

lemma same_class_zdd [simp]: "same_class a b \<Longrightarrow> \<not> is_zdd a \<and> \<not> is_zdd b"
  by (induction a b rule: same_class.induct) (auto simp: is_zdd_def)

lemma group_no_zdd: "1 < length (group_of as) \<Longrightarrow> a \<in> set (group_of as) \<Longrightarrow> \<not> is_zdd a"
proof -
  assume l: "1 < length (group_of as)" and a: "a \<in> set (group_of as)"
  then obtain b rest where as: "as = b # rest" by (cases as) (auto simp: group_of_def batch_of_def)
  have g: "group_of as = b # takeWhile (same_class b) rest"
    using l by (auto simp: group_of_def batch_of_def as split: if_splits)
  then obtain c where "c \<in> set (takeWhile (same_class b) rest)" using l by (cases "takeWhile (same_class b) rest") auto
  then have b: "\<not> is_zdd b" by (auto dest: set_takeWhileD)
  show ?thesis using a b by (auto simp: g dest: set_takeWhileD)
qed

lemma exec_all_append:
  "exec_all ex (as @ bs) h =
     (let (rs, h1) = exec_all ex as h; (ss, h2) = exec_all ex bs h1 in (rs @ ss, h2))"
  by (induction as arbitrary: h) (auto simp: Let_def split: prod.splits)

lemma length_exec_all: "length (fst (exec_all ex as h)) = length as"
proof (induction as arbitrary: h)
  case (Cons a as)
  then show ?case
    by (cases "ex a h", cases "exec_all ex as (snd (ex a h))") (simp add: Let_def, metis fst_conv)
qed simp

definition all_ok :: "'h executor \<Rightarrow> action list \<Rightarrow> 'h \<Rightarrow> 'h \<Rightarrow> bool" where
  "all_ok ex as h h' \<longleftrightarrow> exec_all ex as h = (replicate (length as) None, h')"

lemma all_ok_Nil [simp]: "all_ok ex [] h h' \<longleftrightarrow> h' = h"
  by (auto simp: all_ok_def)

lemma all_ok_append: "all_ok ex as h h1 \<Longrightarrow> all_ok ex bs h1 h2 \<Longrightarrow> all_ok ex (as @ bs) h h2"
  by (simp add: all_ok_def exec_all_append replicate_add)

lemma all_ok_Cons: "all_ok ex (a # as) h h' \<longleftrightarrow> (\<exists>h1. ex a h = (None, h1) \<and> all_ok ex as h1 h')"
  by (auto simp: all_ok_def Let_def split: prod.splits)

lemma first_err_None:
  "length rs = length as \<Longrightarrow> first_err as rs = None \<Longrightarrow> rs = replicate (length as) None"
  by (induction as rs rule: first_err.induct) auto

lemma on_op_sel [simp]:
  "rs_host (on_op f s) = rs_host s" "rs_status (on_op f s) = rs_status s"
  "rs_op (on_op f s) = map_option f (rs_op s)"
  by (simp_all add: on_op_def)

lemma hook_sel [simp]:
  "rs_host (hook n st e s) = rs_host s" "rs_op (hook n st e s) = rs_op s"
  "rs_status (hook n st e s) = rs_status s @ [(n, st, e)]"
  by (simp_all add: hook_def)

lemma failed_outcome_sel [simp]:
  "oc_error (failed_outcome n p x err) = Some err" "oc_executed (failed_outcome n p x err) = x"
  "oc_stack (failed_outcome n p x err) = n" "oc_planned (failed_outcome n p x err) = p"
  by (simp_all add: failed_outcome_def)

lemma round_ok:
  assumes "do_round ex name u now planned n g s = (Inr x, s1)" "g \<noteq> []"
  shows "all_ok ex g (rs_host s) (rs_host s1)" "rs_status s1 = rs_status s"
proof -
  have "all_ok ex g (rs_host s) (rs_host s1) \<and> rs_status s1 = rs_status s"
  proof (cases "1 < length g")
    case True
    then show ?thesis
      using assms length_exec_all [of ex g "rs_host s"]
      by (auto simp: do_round_def batch_round_def Let_def all_ok_def split: prod.splits option.splits
          dest: first_err_None)
  next
    case False
    then obtain a where "g = [a]" using assms(2) by (cases g) auto
    then show ?thesis
      using assms(1)
      by (auto simp: do_round_def single_round_def Let_def all_ok_def split: sum.splits prod.splits option.splits)
  qed
  then show "all_ok ex g (rs_host s) (rs_host s1)" "rs_status s1 = rs_status s" by auto
qed

definition failed_with :: "'h executor \<Rightarrow> string \<Rightarrow> bool \<Rightarrow> nat \<Rightarrow> nat \<Rightarrow> action list \<Rightarrow> 'h rstate
    \<Rightarrow> ended \<Rightarrow> 'h rstate \<Rightarrow> bool" where
  "failed_with ex name u planned n g s e s1 \<longleftrightarrow>
     (\<exists>results a exc. exec_all ex g (rs_host s) = (results, rs_host s1) \<and> first_err g results = Some (a, exc)
        \<and> e = Returned (failed_outcome name planned n (step_name a @ '': '' @ exc))
        \<and> rs_status s1 = rs_status s @ [(name, fail_status u, Some (take 500 (step_name a @ '': '' @ exc)))])"

lemma round_end:
  assumes "do_round ex name u now planned n g s = (Inl e, s1)" "g \<noteq> []"
  shows "failed_with ex name u planned n g s e s1 \<or> (e = Raised ValueError \<and> s1 = s \<and> (\<exists>a. g = [a] \<and> is_zdd a))"
proof (cases "1 < length g")
  case True
  then show ?thesis
    using assms
    by (auto simp: do_round_def batch_round_def failed_with_def Let_def split: prod.splits option.splits)
next
  case False
  then obtain a where g: "g = [a]" using assms(2) by (cases g) auto
  show ?thesis
  proof (cases "step_for a")
    case (Inl x)
    moreover from this have "is_zdd a" "x = ValueError" by simp_all
    ultimately show ?thesis using assms(1) g by (simp add: do_round_def single_round_def del: step_for_Inl)
  next
    case (Inr p)
    then show ?thesis
      using assms(1) g
      by (cases p) (auto simp: do_round_def single_round_def failed_with_def Let_def step_name_def
          split: prod.splits option.splits)
  qed
qed

text \<open>How the loop ends: some prefix of the plan succeeded; then either nothing is left, or the next
  group contains a failure, or an action has no step, or the deadline has come.\<close>

definition ended_at :: "'h executor \<Rightarrow> string \<Rightarrow> stack_spec option \<Rightarrow> nat \<Rightarrow> nat \<Rightarrow> action list
    \<Rightarrow> action list \<Rightarrow> 'h rstate \<Rightarrow> ended \<Rightarrow> 'h rstate \<Rightarrow> bool" where
  "ended_at ex name spec planned executed grp post s e s' \<longleftrightarrow>
     (grp = [] \<and> post = [] \<and> rs_host s' = rs_host s \<and> rs_status s' = rs_status s @ [(name, ok_status spec, None)]
        \<and> e = Returned \<lparr>oc_stack = name, oc_planned = planned, oc_executed = executed, oc_error = None\<rparr>)
     \<or> (grp \<noteq> [] \<and> failed_with ex name (spec = None) planned executed grp s e s')
     \<or> (e = Raised ValueError \<and> rs_host s' = rs_host s \<and> rs_status s' = rs_status s \<and> (\<exists>a. grp = [a] \<and> is_zdd a))
     \<or> (e = Deadline \<and> rs_host s' = rs_host s \<and> rs_status s' = rs_status s \<and> grp = [] \<and> post \<noteq> [])"

lemma apply_loop_trace:
  assumes "apply_loop ex name spec now planned k as n s = (e, s')"
  shows "\<exists>pre grp post s1. as = pre @ grp @ post \<and> all_ok ex pre (rs_host s) (rs_host s1)
    \<and> rs_status s1 = rs_status s \<and> ended_at ex name spec planned (n + length pre) grp post s1 e s'"
  using assms
proof (induction ex name spec now planned k as n s rule: apply_loop.induct)
  case (1 ex name spec now planned rounds executed s)
  then show ?case by (intro exI [of _ "[]"] exI [of _ s]) (auto simp: ended_at_def)
next
  case (2 ex name spec now planned a as executed s)
  then show ?case
    by (intro exI [of _ "[]"] exI [of _ "a # as"] exI [of _ s]) (auto simp: ended_at_def)
next
  case (3 ex name spec now planned k a as executed s)
  let ?g = "group_of (a # as)"
  have split: "a # as = ?g @ drop (length ?g) (a # as)" by (rule group_of_split)
  obtain r s1 where r: "do_round ex name (spec = None) now planned executed ?g s = (r, s1)"
    by (cases "do_round ex name (spec = None) now planned executed ?g s")
  show ?case
  proof (cases r)
    case (Inl e1)
    then have "failed_with ex name (spec = None) planned executed ?g s e1 s1
        \<or> (e1 = Raised ValueError \<and> s1 = s \<and> (\<exists>a. ?g = [a] \<and> is_zdd a))"
      using round_end [of ex name "spec = None" now planned executed ?g s e1 s1] r by simp
    moreover have "e = e1" "s' = s1" using "3.prems" r Inl by (simp_all add: Let_def)
    ultimately have "ended_at ex name spec planned (executed + length []) ?g (drop (length ?g) (a # as)) s e s'"
      by (auto simp: ended_at_def)
    then show ?thesis
      using split
      by (intro exI [of _ "[]"] exI [of _ ?g] exI [of _ "drop (length ?g) (a # as)"] exI [of _ s]) simp
  next
    case (Inr x)
    note ok = round_ok [of ex name "spec = None" now planned executed ?g s x s1]
    have "apply_loop ex name spec now planned k (drop (length ?g) (a # as)) (executed + length ?g) s1 = (e, s')"
      using "3.prems" r Inr by (simp add: Let_def)
    from "3.IH" [OF refl r [symmetric] Inr this] obtain pre grp post s2 where
      t: "drop (length ?g) (a # as) = pre @ grp @ post" "all_ok ex pre (rs_host s1) (rs_host s2)"
        "rs_status s2 = rs_status s1"
        "ended_at ex name spec planned (executed + length ?g + length pre) grp post s2 e s'"
      by blast
    have "all_ok ex (?g @ pre) (rs_host s) (rs_host s2)"
      using all_ok_append t(2) ok(1) r Inr by auto
    then show ?thesis
      using t split ok(2) r Inr
      by (intro exI [of _ "?g @ pre"] exI [of _ grp] exI [of _ post] exI [of _ s2]) (simp add: add.assoc)
  qed
qed

subsection \<open>The recorded steps\<close>

text \<open>\<open>f\<close> gives the recorded status of every step name of the plan \<open>as\<close>.\<close>

definition tracked :: "(string \<Rightarrow> string) \<Rightarrow> action list \<Rightarrow> operation \<Rightarrow> bool" where
  "tracked f as op \<longleftrightarrow> step_statuses op = map (\<lambda>a. (step_name a, f (step_name a))) as"

definition after_steps :: "(action \<times> string) list \<Rightarrow> (string \<Rightarrow> string) \<Rightarrow> string \<Rightarrow> string" where
  "after_steps ps f n =
     (case map_of (rev (map (\<lambda>(a, st). (step_name a, st)) ps)) n of Some st \<Rightarrow> st | None \<Rightarrow> f n)"

lemma tracked_simps [simp]:
  "tracked f as (append_log l op) = tracked f as op"
  "tracked f as (finish st e now op) = tracked f as op"
  by (simp_all add: tracked_def)

lemma tracked_set_step: "tracked f as op \<Longrightarrow> tracked (f(n := st)) as (set_step n st op)"
  by (simp add: tracked_def comp_def)

lemma after_steps_Nil [simp]: "after_steps [] f = f"
  by (rule ext) (simp add: after_steps_def)

lemma after_steps_snoc: "after_steps (ps @ [(a, st)]) f = (after_steps ps f)(step_name a := st)"
  by (rule ext) (simp add: after_steps_def)

lemma tracked_set_steps: "tracked f as op \<Longrightarrow> tracked (after_steps ps f) as (set_steps ps op)"
proof (induction ps rule: rev_induct)
  case Nil
  then show ?case by (simp add: set_steps_def after_steps_def)
next
  case (snoc p ps)
  obtain a st where p: "p = (a, st)" by (cases p)
  have "set_steps (ps @ [p]) op = set_step (step_name a) st (set_steps ps op)"
    by (simp add: set_steps_def p)
  then show ?case
    using tracked_set_step [OF snoc.IH [OF snoc.prems], of "step_name a" st] 
    by (simp add: p after_steps_snoc fun_upd_def)
qed

lemma set_steps_sel [simp]:
  "op_status (set_steps ps op) = op_status op"
  by (induction ps rule: rev_induct) (auto simp: set_steps_def)

lemma after_steps_all:
  "after_steps (map (\<lambda>a. (a, st)) as) f = (\<lambda>n. if n \<in> step_name ` set as then st else f n)"
proof (induction as rule: rev_induct)
  case Nil
  then show ?case by (simp add: after_steps_def)
next
  case (snoc a as)
  then show ?case by (auto simp: after_steps_snoc)
qed

lemma after_steps_over:
  "length rs = length as \<Longrightarrow>
     after_steps (zip as rs) (\<lambda>n. if n \<in> step_name ` set as then st else f n) = after_steps (zip as rs) f"
proof (rule ext)
  fix n
  assume l: "length rs = length as"
  show "after_steps (zip as rs) (\<lambda>n. if n \<in> step_name ` set as then st else f n) n = after_steps (zip as rs) f n"
  proof (cases "n \<in> step_name ` set as")
    case True
    then obtain i where i: "i < length as" "step_name (as ! i) = n" by (auto simp: in_set_conv_nth)
    then have "(n, rs ! i) \<in> set (rev (map (\<lambda>(a, st). (step_name a, st)) (zip as rs)))"
      using l by (auto simp: in_set_zip intro!: image_eqI [of _ _ "(as ! i, rs ! i)"])
    then have "map_of (rev (map (\<lambda>(a, st). (step_name a, st)) (zip as rs))) n \<noteq> None"
      by (metis map_of_eq_None_iff fst_conv image_eqI)
    then show ?thesis by (auto simp: after_steps_def)
  next
    case False
    then show ?thesis by (simp add: after_steps_def)
  qed
qed

definition result_status :: "string option \<Rightarrow> string" where
  "result_status r = (if r = None then ''done'' else ''failed'')"

lemma round_ok_tracked:
  assumes "do_round ex name u now planned n g s = (Inr x, s1)" "g \<noteq> []"
    and "rs_op s = Some op" "tracked f as op"
  shows "\<exists>op1. rs_op s1 = Some op1 \<and> tracked (\<lambda>n. if n \<in> step_name ` set g then ''done'' else f n) as op1"
proof (cases "1 < length g")
  case True
  have "tracked (\<lambda>n. if n \<in> step_name ` set g then ''done'' else f n) as
      (set_steps (map (\<lambda>a. (a, ''done'')) g) (append_log l (set_steps (map (\<lambda>a. (a, ''running'')) g) op)))" for l
    using tracked_set_steps [of "after_steps (map (\<lambda>a. (a, ''running'')) g) f" as
        "append_log l (set_steps (map (\<lambda>a. (a, ''running'')) g) op)" "map (\<lambda>a. (a, ''done'')) g"]
      tracked_set_steps [OF assms(4), of "map (\<lambda>a. (a, ''running'')) g"]
    by (simp add: after_steps_all if_distrib cong: if_cong)
  then show ?thesis
    using assms(1,3) True
    by (auto simp: do_round_def batch_round_def Let_def split: prod.splits option.splits)
next
  case False
  then obtain a where g: "g = [a]" using assms(2) by (cases g) auto
  have "tracked (f(step_name a := ''done'')) as
      (set_step (step_name a) ''done'' (append_log l (set_step (step_name a) ''running'' op)))" for l
    using tracked_set_step [of "f(step_name a := ''running'')" as "append_log l (set_step (step_name a) ''running'' op)"
        "step_name a" "''done''"] tracked_set_step [OF assms(4)]
    by simp
  moreover obtain nm l where p: "step_for a = Inr (nm, l)" "nm = step_name a"
    using assms(1) g by (cases "step_for a") (auto simp: do_round_def single_round_def step_name_def)
  ultimately show ?thesis
    using assms(1,3) g
    by (auto simp: do_round_def single_round_def Let_def fun_upd_def split: prod.splits option.splits)
qed

lemma round_fail_tracked:
  assumes "do_round ex name u now planned n g s = (Inl (Returned out), s1)" "g \<noteq> []"
    and "rs_op s = Some op" "tracked f as op" "exec_all ex g (rs_host s) = (results, h)"
  shows "\<exists>op1. rs_op s1 = Some op1 \<and> op_status op1 = ''failed'' \<and> op_error op1 = map_option (take 500) (oc_error out)
    \<and> op_finished op1 = Some now \<and> tracked (after_steps (zip g (map result_status results)) f) as op1"
proof (cases "1 < length g")
  case True
  have len: "length results = length g" using length_exec_all [of ex g "rs_host s"] assms(5) by simp
  have z: "map (\<lambda>(a, r). (a, if r = None then ''done'' else ''failed'')) (zip g results)
      = zip g (map result_status results)"
    by (simp add: zip_map2 result_status_def split_def)
  have "tracked (after_steps (zip g (map result_status results)) f) as
      (set_steps (zip g (map result_status results)) (append_log l (set_steps (map (\<lambda>a. (a, ''running'')) g) op)))" for l
    using tracked_set_steps [of "after_steps (map (\<lambda>a. (a, ''running'')) g) f" as
        "append_log l (set_steps (map (\<lambda>a. (a, ''running'')) g) op)" "zip g (map result_status results)"]
      tracked_set_steps [OF assms(4), of "map (\<lambda>a. (a, ''running'')) g"] len
    by (simp add: after_steps_all after_steps_over)
  then show ?thesis
    using assms(1,3,5) True
    by (auto simp: do_round_def batch_round_def Let_def z split: prod.splits option.splits)
next
  case False
  then obtain a where g: "g = [a]" using assms(2) by (cases g) auto
  have t: "tracked (f(step_name a := ''failed'')) as
      (append_log l' (set_step (step_name a) ''failed'' (append_log l (set_step (step_name a) ''running'' op))))" for l l'
    using tracked_set_step [of "f(step_name a := ''running'')" as "append_log l (set_step (step_name a) ''running'' op)"
        "step_name a" "''failed''"] tracked_set_step [OF assms(4)]
    by simp
  have e: "after_steps [(a, ''failed'')] f = f(step_name a := ''failed'')"
    using after_steps_snoc [of "[]"] by simp
  obtain nm l where p: "step_for a = Inr (nm, l)" "nm = step_name a"
    using assms(1) g by (cases "step_for a") (auto simp: do_round_def single_round_def step_name_def)
  then show ?thesis
    using assms(1,3,5) g t
    by (auto simp: do_round_def single_round_def Let_def e result_status_def
        split: sum.splits prod.splits option.splits)
qed

definition done_after :: "action list \<Rightarrow> (string \<Rightarrow> string) \<Rightarrow> string \<Rightarrow> string" where
  "done_after pre f = (\<lambda>n. if n \<in> step_name ` set pre then ''done'' else f n)"

lemma done_after_append: "done_after bs (done_after as f) = done_after (as @ bs) f"
  by (rule ext) (auto simp: done_after_def)

lemma done_after_Nil [simp]: "done_after [] f = f"
  by (simp add: done_after_def)

text \<open>The row after the loop returned an outcome.\<close>

definition op_failed :: "'h executor \<Rightarrow> action list \<Rightarrow> (string \<Rightarrow> string) \<Rightarrow> action list \<Rightarrow> nat \<Rightarrow> 'h \<Rightarrow> 'h
    \<Rightarrow> outcome \<Rightarrow> operation \<Rightarrow> bool" where
  "op_failed ex acts f as n h h' out op \<longleftrightarrow>
     (\<exists>pre g post results h1 a exc. as = pre @ g @ post \<and> oc_executed out = n + length pre
        \<and> all_ok ex pre h h1 \<and> exec_all ex g h1 = (results, h') \<and> first_err g results = Some (a, exc)
        \<and> oc_error out = Some (step_name a @ '': '' @ exc)
        \<and> tracked (after_steps (zip g (map result_status results)) (done_after pre f)) acts op)"

definition op_ended :: "'h executor \<Rightarrow> int \<Rightarrow> action list \<Rightarrow> (string \<Rightarrow> string) \<Rightarrow> action list \<Rightarrow> nat \<Rightarrow> 'h \<Rightarrow> 'h
    \<Rightarrow> outcome \<Rightarrow> operation \<Rightarrow> bool" where
  "op_ended ex now acts f as n h h' out op \<longleftrightarrow>
     op_finished op = Some now \<and> op_error op = map_option (take 500) (oc_error out)
     \<and> (if oc_error out = None then op_status op = ''succeeded'' \<and> tracked (done_after as f) acts op
        else op_status op = ''failed'' \<and> op_failed ex acts f as n h h' out op)"

lemma op_failedI:
  "as = pre @ g @ post \<Longrightarrow> oc_executed out = n + length pre \<Longrightarrow> all_ok ex pre h h1 \<Longrightarrow>
   exec_all ex g h1 = (results, h') \<Longrightarrow> first_err g results = Some (a, exc) \<Longrightarrow>
   oc_error out = Some (step_name a @ '': '' @ exc) \<Longrightarrow>
   tracked (after_steps (zip g (map result_status results)) (done_after pre f)) acts op \<Longrightarrow>
   op_failed ex acts f as n h h' out op"
  unfolding op_failed_def by blast

lemma apply_loop_op:
  assumes "apply_loop ex name spec now planned k as n s = (Returned out, s')"
    and "rs_op s = Some op" "tracked f acts op"
  shows "\<exists>op'. rs_op s' = Some op' \<and> op_ended ex now acts f as n (rs_host s) (rs_host s') out op'"
  using assms
proof (induction ex name spec now planned k as n s arbitrary: op f rule: apply_loop.induct)
  case (1 ex name spec now planned rounds executed s)
  then show ?case by (auto simp: op_ended_def)
next
  case (2 ex name spec now planned a as executed s)
  then show ?case by simp
next
  case (3 ex name spec now planned k a as executed s)
  let ?g = "group_of (a # as)" and ?rest = "drop (length (group_of (a # as))) (a # as)"
  have split: "a # as = ?g @ ?rest" by (rule group_of_split)
  obtain r s1 where r: "do_round ex name (spec = None) now planned executed ?g s = (r, s1)"
    by (cases "do_round ex name (spec = None) now planned executed ?g s")
  show ?case
  proof (cases r)
    case (Inl e1)
    then have e: "e1 = Returned out" "s' = s1" using "3.prems"(1) r by (simp_all add: Let_def)
    then have f: "failed_with ex name (spec = None) planned executed ?g s (Returned out) s1"
      using round_end [of ex name "spec = None" now planned executed ?g s e1 s1] r Inl by auto
    then obtain results a' exc where res: "exec_all ex ?g (rs_host s) = (results, rs_host s1)"
      and err: "oc_error out = Some (step_name a' @ '': '' @ exc)" "oc_executed out = executed"
        "first_err ?g results = Some (a', exc)"
      by (auto simp: failed_with_def)
    obtain op1 where op1: "rs_op s1 = Some op1" "op_status op1 = ''failed''" "op_finished op1 = Some now"
        "op_error op1 = map_option (take 500) (oc_error out)"
        "tracked (after_steps (zip ?g (map result_status results)) f) acts op1"
      using round_fail_tracked [of ex name "spec = None" now planned executed ?g s out s1 op f acts results]
        r Inl e res "3.prems" by auto
    then have "op_failed ex acts f (a # as) executed (rs_host s) (rs_host s1) out op1"
      using err split res by (intro op_failedI [where pre = "[]" and g = ?g]) auto
    then show ?thesis using op1 e err by (auto simp: op_ended_def)
  next
    case (Inr x)
    note ok = round_ok [of ex name "spec = None" now planned executed ?g s x s1]
    obtain op1 where op1: "rs_op s1 = Some op1" "tracked (done_after ?g f) acts op1"
      using round_ok_tracked [of ex name "spec = None" now planned executed ?g s x s1 op f acts]
        r Inr "3.prems" by (auto simp: done_after_def)
    have "apply_loop ex name spec now planned k ?rest (executed + length ?g) s1 = (Returned out, s')"
      using "3.prems" r Inr by (simp add: Let_def)
    from "3.IH" [OF refl r [symmetric] Inr this op1] obtain op' where
      op': "rs_op s' = Some op'"
        "op_ended ex now acts (done_after ?g f) ?rest (executed + length ?g) (rs_host s1) (rs_host s') out op'"
      by blast
    have "op_ended ex now acts f (a # as) executed (rs_host s) (rs_host s') out op'"
    proof (cases "oc_error out")
      case None
      then show ?thesis using op'(2) split by (simp add: op_ended_def done_after_append)
    next
      case (Some err)
      then have "op_failed ex acts (done_after ?g f) ?rest (executed + length ?g) (rs_host s1) (rs_host s') out op'"
        using op'(2) by (simp add: op_ended_def)
      then obtain pre g post results h1 a' exc where t: "?rest = pre @ g @ post"
          "oc_executed out = executed + length ?g + length pre"
          "all_ok ex pre (rs_host s1) h1" "exec_all ex g h1 = (results, rs_host s')"
          "first_err g results = Some (a', exc)" "oc_error out = Some (step_name a' @ '': '' @ exc)"
          "tracked (after_steps (zip g (map result_status results)) (done_after pre (done_after ?g f))) acts op'"
        unfolding op_failed_def by blast
      have "all_ok ex (?g @ pre) (rs_host s) h1" using all_ok_append t(3) ok(1) r Inr by auto
      moreover have "a # as = (?g @ pre) @ g @ post" using split t(1) by simp
      moreover have "oc_executed out = executed + length (?g @ pre)" using t(2) by simp
      ultimately have "op_failed ex acts f (a # as) executed (rs_host s) (rs_host s') out op'"
        using t(4-7) unfolding done_after_append by (blast intro: op_failedI)
      then show ?thesis using op'(2) Some by (simp add: op_ended_def)
    qed
    then show ?thesis using op'(1) by blast
  qed
qed

lemma round_op_None:
  "do_round ex name u now planned n g s = (r, s1) \<Longrightarrow> rs_op s = None \<Longrightarrow> rs_op s1 = None"
  by (auto simp: do_round_def batch_round_def single_round_def Let_def
      split: if_splits sum.splits prod.splits option.splits)

lemma apply_loop_op_None:
  "apply_loop ex name spec now planned k as n s = (e, s') \<Longrightarrow> rs_op s = None \<Longrightarrow> rs_op s' = None"
proof (induction ex name spec now planned k as n s rule: apply_loop.induct)
  case (3 ex name spec now planned k a as executed s)
  obtain r s1 where r: "do_round ex name (spec = None) now planned executed (group_of (a # as)) s = (r, s1)"
    by (cases "do_round ex name (spec = None) now planned executed (group_of (a # as)) s")
  note n = round_op_None [OF r "3.prems"(2)]
  show ?case
  proof (cases r)
    case (Inr x)
    then show ?thesis using "3.IH" [OF refl r [symmetric] Inr _ n] "3.prems"(1) r by (simp add: Let_def)
  qed (use r n "3.prems"(1) in \<open>simp add: Let_def\<close>)
qed auto

lemma apply_loop_enough:
  "length as \<le> k \<Longrightarrow> fst (apply_loop ex name spec now planned k as n s) \<noteq> Deadline"
proof (induction ex name spec now planned k as n s rule: apply_loop.induct)
  case (3 ex name spec now planned k a as executed s)
  let ?g = "group_of (a # as)"
  obtain r s1 where r: "do_round ex name (spec = None) now planned executed ?g s = (r, s1)"
    by (cases "do_round ex name (spec = None) now planned executed ?g s")
  show ?case
  proof (cases r)
    case (Inl e)
    then show ?thesis
      using round_end [of ex name "spec = None" now planned executed ?g s e s1] r
      by (auto simp: failed_with_def Let_def)
  next
    case (Inr x)
    obtain j where "length ?g = Suc j" by (cases "length ?g") auto
    then have "length (drop (length ?g) (a # as)) \<le> k" using "3.prems" by simp
    from "3.IH" [OF refl r [symmetric] Inr this] show ?thesis using r Inr by (simp add: Let_def)
  qed
qed auto

lemma initial_tracked:
  "initial_steps as = Inr steps \<Longrightarrow> tracked (\<lambda>_. ''pending'') as (op\<lparr>op_status := st, op_steps := steps, op_log := l\<rparr>)"
  by (auto simp: initial_steps_Inr tracked_def step_statuses_def)

text \<open>\<open>apply_inner\<close> is the loop on the row with its fresh steps.\<close>

lemma apply_inner_loop:
  assumes "apply_inner ex name spec now k as s = (e, s')" "rs_op s = None \<or> (\<forall>a\<in>set as. \<not> is_zdd a)"
  obtains s1 where "apply_loop ex name spec now (length as) k as 0 s1 = (e, s')"
    "rs_host s1 = rs_host s" "rs_status s1 = rs_status s"
    "\<And>op. rs_op s = Some op \<Longrightarrow> \<exists>op1. rs_op s1 = Some op1 \<and> tracked (\<lambda>_. ''pending'') as op1"
proof (cases "rs_op s")
  case None
  then show ?thesis using assms(1) by (intro that [of s]) (simp_all add: apply_inner_def)
next
  case (Some op)
  then obtain steps where st: "initial_steps as = Inr steps"
    using assms(2) initial_steps_Inl [of as] by (cases "initial_steps as") auto
  let ?op = "append_log (LogStarting (op_kind op) name (length as))
      (op\<lparr>op_status := ''running'', op_steps := steps, op_log := []\<rparr>)"
  have "tracked (\<lambda>_. ''pending'') as ?op" using initial_tracked [OF st] by simp
  then show ?thesis
    using assms(1) Some st by (intro that [of "s\<lparr>rs_op := Some ?op\<rparr>"]) (simp_all add: apply_inner_def)
qed

lemma apply_inner_zdd:
  "rs_op s = Some op \<Longrightarrow> \<exists>a\<in>set as. is_zdd a \<Longrightarrow> apply_inner ex name spec now k as s = (Raised ValueError, s)"
  using initial_steps_Inl [of as ValueError] by (simp add: apply_inner_def)

subsection \<open>What one application of a plan guarantees\<close>

text \<open>C8: an application that reports no error performed every action of the plan, in the plan's
  order, each successfully; it announced the final status once; and a recorded operation is
  succeeded with all its steps done.\<close>

theorem reconcile_success:
  assumes run: "apply_inner ex name spec now k as s = (Returned out, s')" and ok: "oc_error out = None"
  shows "all_ok ex as (rs_host s) (rs_host s') \<and> oc_executed out = length as \<and> oc_planned out = length as
    \<and> rs_status s' = rs_status s @ [(name, ok_status spec, None)]
    \<and> (\<forall>op. rs_op s = Some op \<longrightarrow> (\<exists>op'. rs_op s' = Some op' \<and> op_status op' = ''succeeded''
          \<and> op_error op' = None \<and> step_statuses op' = map (\<lambda>a. (step_name a, ''done'')) as))"
proof -
  have z: "rs_op s = None \<or> (\<forall>a\<in>set as. \<not> is_zdd a)"
    using run apply_inner_zdd [of s _ as ex name spec now k] by (cases "rs_op s") auto
  obtain s1 where s1: "apply_loop ex name spec now (length as) k as 0 s1 = (Returned out, s')"
      "rs_host s1 = rs_host s" "rs_status s1 = rs_status s"
      "\<And>op. rs_op s = Some op \<Longrightarrow> \<exists>op1. rs_op s1 = Some op1 \<and> tracked (\<lambda>_. ''pending'') as op1"
    using apply_inner_loop [OF run z] by blast
  obtain pre grp post s2 where t: "as = pre @ grp @ post" "all_ok ex pre (rs_host s1) (rs_host s2)"
      "rs_status s2 = rs_status s1" "ended_at ex name spec (length as) (0 + length pre) grp post s2 (Returned out) s'"
    using apply_loop_trace [OF s1(1)] by blast
  then have "grp = [] \<and> post = [] \<and> rs_host s' = rs_host s2
      \<and> rs_status s' = rs_status s2 @ [(name, ok_status spec, None)]
      \<and> oc_executed out = length pre \<and> oc_planned out = length as"
    using ok by (auto simp: ended_at_def failed_with_def)
  moreover have "\<exists>op'. rs_op s' = Some op' \<and> op_status op' = ''succeeded'' \<and> op_error op' = None
      \<and> step_statuses op' = map (\<lambda>a. (step_name a, ''done'')) as" if op: "rs_op s = Some op" for op
  proof -
    obtain op1 where "rs_op s1 = Some op1" "tracked (\<lambda>_. ''pending'') as op1" using s1(4) [OF op] by blast
    from apply_loop_op [OF s1(1) this] obtain op' where
      "rs_op s' = Some op'" "op_ended ex now as (\<lambda>_. ''pending'') as 0 (rs_host s1) (rs_host s') out op'" by blast
    then show ?thesis using ok by (auto simp: op_ended_def tracked_def done_after_def)
  qed
  ultimately show ?thesis using t s1 by auto
qed


definition idle_state :: "operation option \<Rightarrow> nat rstate" where
  "idle_state op = \<lparr>rs_host = 0, rs_op = op, rs_status = []\<rparr>"

definition new_operation :: operation where
  "new_operation = \<lparr>op_kind = ''stack_deploy'', op_status = ''pending'', op_steps = [], op_log = [],
     op_error = None, op_created = 0, op_finished = None, op_stack = Some 1, op_site = None\<rparr>"

text \<open>Counts the actions; refuses to start the service \<open>bad\<close>.\<close>

definition counting :: "nat executor" where
  "counting a h = (case a of
     StartService t n svc \<Rightarrow> if svc = ''bad'' then (Some ''unit failed'', h) else (None, h + 1)
   | _ \<Rightarrow> (None, h + 1))"

lemmas run_defs = apply_inner_def initial_steps_def group_of_def batch_of_def do_round_def single_round_def
  batch_round_def counting_def idle_state_def new_operation_def on_op_def hook_def set_steps_def failed_outcome_def
  Let_def

theorem reconcile_success_witness:
  "\<exists>out s'. apply_inner counting ''blog'' None 9 5 [DaemonReload ''t'', StartService ''t'' ''blog'' ''a'',
       StartService ''t'' ''blog'' ''b''] (idle_state (Some new_operation)) = (Returned out, s')
     \<and> oc_executed out = 3 \<and> rs_host s' = 3"
proof -
  let ?as = "[DaemonReload ''t'', StartService ''t'' ''blog'' ''a'', StartService ''t'' ''blog'' ''b'']"
  obtain out s' where r: "apply_inner counting ''blog'' None 9 5 ?as (idle_state (Some new_operation)) = (Returned out, s')"
      "oc_error out = None"
    by (simp add: run_defs numeral_eq_Suc)
  from reconcile_success [OF this] have "all_ok counting ?as 0 (rs_host s')" "oc_executed out = 3"
    by (simp_all add: idle_state_def)
  then show ?thesis using r by (simp add: all_ok_Cons counting_def)
qed


text \<open>C40: an application always returns when the deadline leaves room for the plan and every action
  has a step: it never raises and never hangs.\<close>

theorem reconcile_returns:
  assumes "length as \<le> k" "\<forall>a\<in>set as. \<not> is_zdd a"
  shows "\<exists>out s'. apply_inner ex name spec now k as s = (Returned out, s')"
proof -
  obtain e s' where r: "apply_inner ex name spec now k as s = (e, s')"
    by (cases "apply_inner ex name spec now k as s")
  obtain s1 where s1: "apply_loop ex name spec now (length as) k as 0 s1 = (e, s')"
    using apply_inner_loop [OF r] assms(2) by blast
  then have "e \<noteq> Deadline" using apply_loop_enough [OF assms(1)] by (metis fst_conv)
  moreover have "\<not> is_zdd a" if "as = pre @ [a] @ post" for pre post a using assms(2) that by simp
  ultimately have "\<exists>out. e = Returned out"
    using apply_loop_trace [OF s1] by (auto simp: ended_at_def failed_with_def)
  then show ?thesis using r by blast
qed

theorem reconcile_returns_witness:
  "\<exists>out s'. apply_inner counting ''blog'' None 9 1 [SyncCaddy] (idle_state None) = (Returned out, s')"
  by (rule reconcile_returns) (simp_all add: is_zdd_def)

text \<open>A deploy whose plan holds a zero-downtime rollout cannot be recorded: with an operation the
  application raises before anything is performed, leaves the operation as it was and announces no
  status.\<close>

theorem zero_downtime_unrecorded:
  assumes "rs_op s = Some op" "ZeroDowntimeDeploy t st svc \<in> set as"
  shows "apply_actions ex None limit k now name spec as s = (Inl ValueError, s)"
proof -
  have "\<exists>a\<in>set as. is_zdd a" using assms(2) by (force simp: is_zdd_def)
  then show ?thesis using apply_inner_zdd [OF assms(1)] by (simp add: apply_actions_def)
qed

theorem zero_downtime_unrecorded_witness:
  "apply_actions counting None 600 5 9 ''blog'' (Some example_stack)
     [WriteUnits example_stack, ZeroDowntimeDeploy ''hosty-t-7'' example_stack ''web''] (idle_state (Some new_operation))
   = (Inl ValueError, idle_state (Some new_operation))"
  using zero_downtime_unrecorded [of "idle_state (Some new_operation)" new_operation "''hosty-t-7''" example_stack "''web''"]
  by (simp add: idle_state_def)

text \<open>When the SSH connection of a remote stack fails, the outcome is an error and the stack is
  degraded, but a recorded operation is left unfinished.\<close>

theorem ssh_failure_leaves_operation:
  "apply_actions ex (Some (hostname, exc)) limit k now name spec as s = (Inr out, s')
   \<Longrightarrow> oc_error out \<noteq> None \<and> oc_executed out = 0 \<and> rs_op s' = rs_op s \<and> rs_host s' = rs_host s
     \<and> (\<exists>msg. rs_status s' = rs_status s @ [(name, ''degraded'', msg)])"
  by (auto simp: apply_actions_def)

theorem ssh_failure_leaves_operation_witness:
  "\<exists>out s'. apply_actions counting (Some (''node2'', ''refused'')) 600 5 9 ''blog'' None [SyncCaddy]
     (idle_state (Some new_operation)) = (Inr out, s') \<and> rs_op s' = Some new_operation"
proof -
  obtain out s' where r: "apply_actions counting (Some (''node2'', ''refused'')) 600 5 9 ''blog'' None [SyncCaddy]
     (idle_state (Some new_operation)) = (Inr out, s')" by (simp add: apply_actions_def)
  from ssh_failure_leaves_operation [OF this] show ?thesis using r by (simp add: idle_state_def)
qed

end
