(* ===== verification/Cycle.thy ===== *)
theory Cycle
  imports Reconciler
begin

text \<open>
  One reconcile cycle (\<open>converge_all\<close>), the immediate queue, the drift counter and the reaper of stale
  operations, all of \<open>backend/app/orchestration/reconciler.py\<close>.  The locale \<open>executing\<close> is the contract
  between the reconciler and the executor; inside it a cycle without errors is shown to converge.
\<close>

subsection \<open>The cycle\<close>

definition merge_observed :: "observed \<Rightarrow> observed \<Rightarrow> observed" where
  "merge_observed local remote = fmadd local remote"

definition cycle_names :: "stack_spec list \<Rightarrow> observed \<Rightarrow> string list" where
  "cycle_names desired ob = sorted_list_of_fset (fmdom (desired_by_name desired) |\<union>| fmdom ob)"

text \<open>\<open>conns\<close>: the failed connections by server id (\<open>None\<close> is the local host); \<open>rounds\<close>: the rounds each
  stack gets before its deadline.  An exception of one stack leaves the \<open>gather\<close> after the other tasks
  have run.\<close>

fun converge_each :: "'h executor \<Rightarrow> (int option \<Rightarrow> (string \<times> string) option) \<Rightarrow> nat \<Rightarrow> (string \<Rightarrow> nat) \<Rightarrow> int
    \<Rightarrow> (string, stack_spec) fmap \<Rightarrow> observed \<Rightarrow> string list \<Rightarrow> 'h rstate \<Rightarrow> (exn + outcome list) \<times> 'h rstate" where
  "converge_each ex conns limit rounds now d ob [] s = (Inr [], s)"
| "converge_each ex conns limit rounds now d ob (n # ns) s =
     (let server = (case fmlookup d n of None \<Rightarrow> None | Some spec \<Rightarrow> st_server_id spec);
          (r, s1) = converge_one ex (conns server) limit (rounds n) now n (fmlookup d n) (fmlookup ob n) s;
          (rs, s2) = converge_each ex conns limit rounds now d ob ns s1
      in (case r of Inl e \<Rightarrow> Inl e | Inr out \<Rightarrow> (case rs of Inl e \<Rightarrow> Inl e | Inr outs \<Rightarrow> Inr (out # outs)), s2))"

definition tenants_in_use :: "stack_spec list \<Rightarrow> string fset" where
  "tenants_in_use desired = fset_of_list (map st_tenant desired)"

definition converge_all :: "(string fset \<Rightarrow> 'h executor) \<Rightarrow> (int option \<Rightarrow> (string \<times> string) option) \<Rightarrow> nat
    \<Rightarrow> (string \<Rightarrow> nat) \<Rightarrow> int \<Rightarrow> stack_spec list \<Rightarrow> observed \<Rightarrow> observed \<Rightarrow> 'h rstate
    \<Rightarrow> (exn + outcome list) \<times> 'h rstate" where
  "converge_all ex conns limit rounds now desired local remote s =
     (let ob = merge_observed local remote
      in converge_each (ex (tenants_in_use desired)) conns limit rounds now (desired_by_name desired) ob
           (cycle_names desired ob) s)"

subsection \<open>The immediate queue\<close>

type_synonym queue = "(string \<times> int option) list"

definition enqueue :: "string \<Rightarrow> int option \<Rightarrow> queue \<Rightarrow> queue" where
  "enqueue n oid q = q @ [(n, oid)]"

text \<open>\<open>pending[name] = op_id\<close> for each entry of the queue: the first position, the last value.\<close>

definition drain :: "queue \<Rightarrow> queue" where
  "drain q = fold (\<lambda>(n, oid) pending. AList.update n oid pending) q []"

definition recover_pending :: "(int \<times> operation) list \<Rightarrow> (int, string) fmap \<Rightarrow> queue \<Rightarrow> queue" where
  "recover_pending ops names q =
     q @ concat (map (\<lambda>(oid, op).
        if op_status op = ''pending''
        then (case op_stack op of None \<Rightarrow> []
              | Some sid \<Rightarrow> (case fmlookup names sid of None \<Rightarrow> [] | Some n \<Rightarrow> [(n, Some oid)]))
        else []) ops)"

subsection \<open>Stale operations\<close>

text \<open>The status in the message is read after it was overwritten; the em dash is written \<open>--\<close>.\<close>

definition open_status :: "operation \<Rightarrow> bool" where
  "open_status op \<longleftrightarrow> op_status op \<in> set [''pending'', ''running'']"

definition reap_one :: "int \<Rightarrow> nat \<Rightarrow> operation \<Rightarrow> operation" where
  "reap_one now timeout op =
     (if open_status op \<and> op_created op < now - int timeout
      then finish ''failed'' (Some (''Timed out after '' @ nat_str timeout @ ''s (was failed -- likely lost on server restart)'')) now op
      else op)"

definition orphan_one :: "int \<Rightarrow> operation \<Rightarrow> operation" where
  "orphan_one now op =
     (if op_stack op = None \<and> op_site op = None \<and> open_status op
      then finish ''failed'' (Some ''Parent stack/site was deleted'') now op else op)"

definition reap_stale :: "int \<Rightarrow> nat \<Rightarrow> operation list \<Rightarrow> operation list" where
  "reap_stale now timeout ops = map (orphan_one now) (map (reap_one now timeout) ops)"

subsection \<open>Drift\<close>

type_synonym drift = "(string, nat) fmap \<times> notification list"

definition drift_key :: "string \<Rightarrow> string" where
  "drift_key name = ''stack:'' @ name @ '':drift''"

definition drift_message :: "string \<Rightarrow> nat \<Rightarrow> string option \<Rightarrow> string" where
  "drift_message name count err =
     ''Stack '' @ name @ '' has diverged from its desired state for '' @ nat_str count
     @ '' consecutive reconcile cycles''
     @ (case err of None \<Rightarrow> [] | Some e \<Rightarrow> if e = [] then [] else '' (last error: '' @ e @ '')'')"

definition drift_one :: "nat \<Rightarrow> int \<Rightarrow> outcome \<Rightarrow> drift \<Rightarrow> drift res" where
  "drift_one threshold now out d =
     (let (counts, rows) = d; n = oc_stack out
      in if oc_planned out = 0
         then Inr (fmdrop n counts,
                   if fmget counts n 0 \<noteq> 0 then snd (resolve now (drift_key n) rows) else rows)
         else (let count = fmget counts n 0 + 1; counts' = fmupd n count counts
               in if threshold \<le> count
                  then bind_res (emit now ''stack_drift'' (drift_message n count (oc_error out)) ''warning''
                         (Some (drift_key n)) rows) (\<lambda>(_, rows'). Inr (counts', rows'))
                  else Inr (counts', rows)))"

fun track_drift :: "nat \<Rightarrow> int \<Rightarrow> outcome list \<Rightarrow> drift \<Rightarrow> drift res" where
  "track_drift threshold now [] d = Inr d"
| "track_drift threshold now (out # outs) d =
     bind_res (drift_one threshold now out d) (track_drift threshold now outs)"

text \<open>The cycles of a running panel: one list of outcomes each, with its time;
  \<open>cycles\<close> is the setting \<open>reconcile_drift_cycles\<close>.\<close>

fun drift_cycles :: "nat \<Rightarrow> (int \<times> outcome list) list \<Rightarrow> drift \<Rightarrow> drift res" where
  "drift_cycles cycles [] d = Inr d"
| "drift_cycles cycles ((now, outs) # rest) d =
     bind_res (track_drift (max 1 cycles) now outs d) (drift_cycles cycles rest)"

subsection \<open>The queue keeps one entry per stack, the newest\<close>

lemma fold_update:
  "map_of (fold (\<lambda>(n, oid) pending. AList.update n oid pending) q al) n =
     (case map_of (rev q) n of None \<Rightarrow> map_of al n | Some x \<Rightarrow> Some x)"
proof (induction q rule: rev_induct)
  case (snoc p q)
  obtain m x where "p = (m, x)" by (cases p)
  then show ?case using snoc.IH by (auto simp: AList.update_conv')
qed simp

lemma fold_update_distinct:
  "distinct (map fst al) \<Longrightarrow> distinct (map fst (fold (\<lambda>(n, oid) pending. AList.update n oid pending) q al))"
  by (induction q arbitrary: al) (auto simp: AList.distinct_update)

text \<open>Draining the queue converges every queued stack exactly once, with the operation that was
  enqueued last for it.\<close>

theorem drain_newest:
  "distinct (map fst (drain q)) \<and> set (map fst (drain q)) = set (map fst q)
   \<and> (\<forall>q1 n x q2. q = q1 @ (n, x) # q2 \<longrightarrow> n \<notin> fst ` set q2 \<longrightarrow> (n, x) \<in> set (drain q))"
proof -
  have d: "distinct (map fst (drain q))" unfolding drain_def by (rule fold_update_distinct) simp
  have l: "map_of (drain q) n = map_of (rev q) n" for n
    unfolding drain_def fold_update by (simp split: option.split)
  have "n \<in> set (map fst (drain q)) \<longleftrightarrow> n \<in> set (map fst q)" for n
    using l [of n] by (metis map_of_eq_None_iff set_map set_rev)
  moreover have "(n, x) \<in> set (drain q)" if "q = q1 @ (n, x) # q2" "n \<notin> fst ` set q2" for q1 n x q2
  proof -
    have "map_of (rev q2) n = None" using that(2) by (simp add: map_of_eq_None_iff)
    then have "map_of (rev q) n = Some x" using that(1) by (simp add: map_add_def)
    then have "map_of (drain q) n = Some x" by (simp add: l)
    then show ?thesis by (rule map_of_SomeD)
  qed
  ultimately show ?thesis using d by blast
qed

theorem drain_newest_witness:
  "(''a'', Some 3) \<in> set (drain [(''a'', Some 1), (''b'', None), (''a'', Some 3)])"
proof -
  let ?q = "[(''a'', Some 1), (''b'', None), (''a'', Some 3)]"
  have "?q = [(''a'', Some 1), (''b'', None)] @ (''a'', Some 3) # []" by simp
  moreover have "''a'' \<notin> fst ` set []" by simp
  ultimately show ?thesis using drain_newest [of ?q] by blast
qed

subsection \<open>Reaping\<close>

text \<open>After a reap no operation older than the timeout and none without a parent is still open;
  every other operation is exactly as it was, and reaping again at the same time changes nothing.\<close>

theorem reap_stale_closes:
  "(\<forall>op\<in>set (reap_stale now timeout ops). open_status op \<longrightarrow>
       now - int timeout \<le> op_created op \<and> (op_stack op \<noteq> None \<or> op_site op \<noteq> None))
   \<and> (\<forall>i<length ops. \<not> open_status (ops ! i)
        \<or> (now - int timeout \<le> op_created (ops ! i) \<and> (op_stack (ops ! i) \<noteq> None \<or> op_site (ops ! i) \<noteq> None))
        \<longrightarrow> reap_stale now timeout ops ! i = ops ! i)
   \<and> reap_stale now timeout (reap_stale now timeout ops) = reap_stale now timeout ops"
proof -
  have f: "\<not> open_status (finish ''failed'' e n op)" for e n op by (simp add: open_status_def)
  have c: "op_created (finish st e n op) = op_created op" "op_stack (finish st e n op) = op_stack op"
    "op_site (finish st e n op) = op_site op" for st e n op by (simp_all add: finish_def)
  let ?r = "\<lambda>op. orphan_one now (reap_one now timeout op)"
  have one: "open_status (?r op) \<Longrightarrow>
      now - int timeout \<le> op_created (?r op) \<and> (op_stack (?r op) \<noteq> None \<or> op_site (?r op) \<noteq> None)" for op
    using f c by (auto simp: reap_one_def orphan_one_def split: if_splits)
  moreover have keep: "\<not> open_status op \<or> (now - int timeout \<le> op_created op \<and> (op_stack op \<noteq> None \<or> op_site op \<noteq> None))
      \<Longrightarrow> ?r op = op" for op
    by (auto simp: reap_one_def orphan_one_def)
  ultimately have "?r (?r op) = ?r op" for op by (cases "open_status (?r op)") blast+
  then show ?thesis using one keep by (simp add: reap_stale_def comp_def)
qed

theorem reap_stale_closes_witness:
  "\<not> open_status (hd (reap_stale 5000 1800 [new_operation]))"
proof -
  have "open_status (hd (reap_stale 5000 1800 [new_operation])) \<longrightarrow> 3200 \<le> op_created (hd (reap_stale 5000 1800 [new_operation]))"
    using reap_stale_closes [of 5000 1800 "[new_operation]"] by (auto simp: reap_stale_def)
  then show ?thesis by (simp add: reap_stale_def reap_one_def orphan_one_def open_status_def new_operation_def finish_def)
qed

subsection \<open>Drift\<close>

lemma drift_key_inj [simp]: "drift_key m = drift_key n \<longleftrightarrow> m = n"
  by (simp add: drift_key_def)

text \<open>The last consecutive cycles with a non-empty plan.\<close>

definition streak :: "nat list \<Rightarrow> nat" where
  "streak ps = length (takeWhile (\<lambda>p. p \<noteq> 0) (rev ps))"

lemma streak_simps [simp]: "streak [] = 0" "streak (ps @ [p]) = (if p = 0 then 0 else Suc (streak ps))"
  by (simp_all add: streak_def)

definition history :: "string \<Rightarrow> outcome list \<Rightarrow> nat list" where
  "history n outs = map oc_planned (filter (\<lambda>out. oc_stack out = n) outs)"

definition drift_inv :: "nat \<Rightarrow> string \<Rightarrow> nat list \<Rightarrow> drift \<Rightarrow> bool" where
  "drift_inv thr n ps d \<longleftrightarrow> deduped (snd d) \<and> fmget (fst d) n 0 = streak ps
     \<and> length (unresolved (drift_key n) (snd d)) = (if thr \<le> streak ps then 1 else 0)"

lemma drift_one_inv:
  assumes inv: "drift_inv thr n ps d" and thr: "1 \<le> thr"
  shows "\<exists>d'. drift_one thr now out d = Inr d' \<and> drift_inv thr n (ps @ history n [out]) d'"
proof -
  obtain counts rows where d: "d = (counts, rows)" by (cases d)
  have ded: "deduped rows" and cnt: "fmget counts n 0 = streak ps"
    and opn: "length (unresolved (drift_key n) rows) = (if thr \<le> streak ps then 1 else 0)"
    using inv by (simp_all add: drift_inv_def d)
  show ?thesis
  proof (cases "oc_planned out = 0")
    case True
    have "deduped (snd (resolve now k rows))" for k
      using ded by (auto simp: deduped_def unresolved_resolve)
    then show ?thesis
      using True ded cnt opn thr
      by (auto simp: drift_one_def d Let_def drift_inv_def history_def unresolved_resolve fmget_def)
  next
    case False
    obtain r rows' where e: "emit now ''stack_drift''
          (drift_message (oc_stack out) (fmget counts (oc_stack out) 0 + 1) (oc_error out)) ''warning''
          (Some (drift_key (oc_stack out))) rows = Inr (r, rows')"
        "deduped rows'" "length (unresolved (drift_key (oc_stack out)) rows') = 1"
        "\<And>k. k \<noteq> drift_key (oc_stack out) \<Longrightarrow> unresolved k rows' = unresolved k rows"
      using emit_key [OF ded] by blast
    show ?thesis
    proof (cases "thr \<le> fmget counts (oc_stack out) 0 + 1")
      case True
      then show ?thesis
        using False e cnt opn
        by (auto simp: drift_one_def d Let_def drift_inv_def history_def fmget_def)
    next
      case False': False
      then show ?thesis
        using False ded cnt opn
        by (auto simp: drift_one_def d Let_def drift_inv_def history_def fmget_def)
    qed
  qed
qed

lemma history_append [simp]: "history n (xs @ ys) = history n xs @ history n ys"
  by (simp add: history_def)

lemma track_drift_inv:
  assumes "drift_inv thr n ps d" "1 \<le> thr"
  shows "\<exists>d'. track_drift thr now outs d = Inr d' \<and> drift_inv thr n (ps @ history n outs) d'"
  using assms
proof (induction outs arbitrary: ps d)
  case Nil
  then show ?case by (simp add: history_def)
next
  case (Cons out outs)
  obtain d1 where d1: "drift_one thr now out d = Inr d1" "drift_inv thr n (ps @ history n [out]) d1"
    using drift_one_inv [OF Cons.prems] by blast
  have h: "history n (out # outs) = history n [out] @ history n outs" by (simp add: history_def)
  show ?case using Cons.IH [OF d1(2) Cons.prems(2)] d1(1) by (auto simp: h simp del: history_append)
qed

lemma drift_cycles_inv:
  "drift_inv (max 1 c) n ps d \<Longrightarrow>
     \<exists>d'. drift_cycles c cs d = Inr d' \<and> drift_inv (max 1 c) n (ps @ history n (concat (map snd cs))) d'"
proof (induction cs arbitrary: ps d)
  case Nil
  then show ?case by (simp add: history_def)
next
  case (Cons x cs)
  obtain now outs where x: "x = (now, outs)" by (cases x)
  obtain d1 where d1: "track_drift (max 1 c) now outs d = Inr d1" "drift_inv (max 1 c) n (ps @ history n outs) d1"
    using track_drift_inv [OF Cons.prems] by fastforce
  then show ?case using Cons.IH [OF d1(2)] by (auto simp: x)
qed

text \<open>C30: over any sequence of cycles of a running panel, a drift notification of a stack is open exactly
  while its plan was non-empty in at least \<open>reconcile_drift_cycles\<close> consecutive cycles; there is never
  more than one, and the counter never makes a cycle fail.\<close>

theorem drift_notification_exact:
  assumes "deduped rows" "unresolved (drift_key n) rows = []"
  shows "\<exists>counts rows'. drift_cycles c cs (fmempty, rows) = Inr (counts, rows')
    \<and> length (unresolved (drift_key n) rows') =
        (if max 1 c \<le> streak (history n (concat (map snd cs))) then 1 else 0)"
proof -
  have "drift_inv (max 1 c) n [] (fmempty, rows)"
    using assms by (simp add: drift_inv_def fmget_def)
  from drift_cycles_inv [OF this, of cs] show ?thesis by (auto simp: drift_inv_def)
qed

theorem drift_notification_exact_witness:
  "\<exists>counts rows'. drift_cycles 2 [(1, [failed_outcome ''blog'' 3 1 ''x'']), (2, [failed_outcome ''blog'' 3 1 ''x''])]
     (fmempty, []) = Inr (counts, rows') \<and> length (unresolved (drift_key ''blog'') rows') = 1"
proof -
  have "deduped []" "unresolved k [] = []" for k by (simp_all add: deduped_def unresolved_def)
  from drift_notification_exact [OF this, where c = 2 and n = "''blog''" and cs =
      "[(1, [failed_outcome ''blog'' 3 1 ''x'']), (2, [failed_outcome ''blog'' 3 1 ''x''])]"]
  show ?thesis by (simp add: history_def streak_def)
qed

text \<open>The counter lives in memory.  After a restart of the panel a stack that has meanwhile
  converged never resolves the notification that is still open for it.\<close>

theorem drift_restart_unresolved:
  "track_drift thr now [\<lparr>oc_stack = n, oc_planned = 0, oc_executed = 0, oc_error = None\<rparr>] (fmempty, rows)
   = Inr (fmempty, rows)"
  by (simp add: drift_one_def Let_def fmget_def fmap_ext)

subsection \<open>More tenants do not hurt\<close>

text \<open>\<open>k\<close> holds the same stacks as \<open>m\<close> and at least its tenants.\<close>

definition below :: "model_host \<Rightarrow> model_host \<Rightarrow> bool" where
  "below m k \<longleftrightarrow> mh_stacks k = mh_stacks m \<and> mh_tenants m |\<subseteq>| mh_tenants k"

lemma below_refl [simp]: "below m m"
  by (simp add: below_def)

lemma below_put: "below m k \<Longrightarrow> below (put n s m) (put n s k)"
  by (simp add: below_def put_def)

lemma below_modify: "below m k \<Longrightarrow> below (modify n f m) (modify n f k)"
  by (auto simp: below_def modify_def put_def split: option.split)

lemma below_idle: "below m k \<Longrightarrow> tenant_idle k t = tenant_idle m t"
  by (simp add: below_def tenant_idle_def)

lemma below_start:
  "below m k \<Longrightarrow> start_effect t n svc m = Inr m' \<Longrightarrow> \<exists>k'. start_effect t n svc k = Inr k' \<and> below m' k'"
  by (auto simp: start_effect_def below_def put_def split: option.splits if_splits)

lemma apply_one_mono:
  assumes "below m k" "apply_one m a = Inr m'"
  shows "\<exists>k'. apply_one k a = Inr k' \<and> below m' k'"
proof (cases a)
  case (EnsureVolumeDir t n v)
  then show ?thesis using assms by (auto simp: Let_def below_def put_def entry_def split: if_splits)
next
  case (WriteUnits spec)
  then show ?thesis using assms by (auto simp: Let_def below_def put_def entry_def split: if_splits)
next
  case (StartService t n svc)
  then show ?thesis using below_start assms by simp
next
  case (RestartService t n svc)
  then show ?thesis using below_start assms by simp
next
  case (RemoveTenantIfEmpty t)
  then show ?thesis
    using assms below_idle [OF assms(1)] by (auto simp: below_def split: if_splits)
qed (use assms in \<open>auto simp: below_modify\<close>, auto simp: below_def)

lemma observe_below: "below m k \<Longrightarrow> observe m = project desired \<Longrightarrow> observe k = project desired"
proof (rule fmap_ext)
  fix n
  assume b: "below m k" and o: "observe m = project desired"
  have "fmlookup (observe k) n = fmlookup (observe m) n"
  proof (cases "fmlookup (mh_stacks m) n")
    case None
    then show ?thesis using b by (simp add: fmlookup_observe below_def)
  next
    case (Some s)
    show ?thesis
    proof (cases "st_empty s")
      case True
      then show ?thesis using b Some by (simp add: fmlookup_observe below_def)
    next
      case False
      then have "fmlookup (project desired) n = Some (observe_stack m s)"
        using o Some by (simp add: fmlookup_observe [of m, symmetric] o [symmetric]) (simp add: fmlookup_observe)
      then have "observe_stack m s \<in> set (map project_stack desired)"
        by (auto simp: project_def dict_of_def fmlookup_of_list dest!: map_of_SomeD)
      then have "ss_tenant s |\<in>| mh_tenants m" by (auto simp: observe_stack_def project_stack_def)
      then have "observe_stack k s = observe_stack m s"
        using b by (auto simp: observe_stack_def below_def)
      then show ?thesis using b Some by (simp add: fmlookup_observe below_def)
    qed
  qed
  then show "fmlookup (observe k) n = fmlookup (project desired) n" using o by simp
qed

subsection \<open>A cycle without errors converges\<close>

lemma apply_loop_no_zdd:
  assumes "apply_loop ex name spec now planned k as n s = (Returned out, s')" "oc_error out = None"
  shows "\<forall>a\<in>set as. \<not> is_zdd a"
  using assms
proof (induction ex name spec now planned k as n s rule: apply_loop.induct)
  case (3 ex name spec now planned k a as executed s)
  let ?g = "group_of (a # as)" and ?rest = "drop (length (group_of (a # as))) (a # as)"
  have split: "set (a # as) = set ?g \<union> set ?rest" using group_of_split [of "a # as"] by (metis set_append)
  obtain r s1 where r: "do_round ex name (spec = None) now planned executed ?g s = (r, s1)"
    by (cases "do_round ex name (spec = None) now planned executed ?g s")
  show ?case
  proof (cases r)
    case (Inl e1)
    then have "failed_with ex name (spec = None) planned executed ?g s (Returned out) s1"
      using round_end [of ex name "spec = None" now planned executed ?g s e1 s1] r "3.prems"(1)
      by (auto simp: Let_def)
    then show ?thesis using "3.prems"(2) by (auto simp: failed_with_def)
  next
    case (Inr x)
    then have rest: "apply_loop ex name spec now planned k ?rest (executed + length ?g) s1 = (Returned out, s')"
      using "3.prems"(1) r by (simp add: Let_def)
    have "\<not> is_zdd b" if b: "b \<in> set ?g" for b
    proof (cases "1 < length ?g")
      case True
      then show ?thesis using group_no_zdd b by blast
    next
      case False
      then obtain c where c: "?g = [c]" by (cases ?g) auto
      then have "is_zdd c \<Longrightarrow> step_for c = Inl ValueError" by simp
      then show ?thesis using r Inr c b by (auto simp: do_round_def single_round_def simp del: step_for_Inl)
    qed
    then show ?thesis using "3.IH" [OF refl r [symmetric] Inr rest "3.prems"(2)] split by blast
  qed
qed auto

lemma apply_actions_ok:
  assumes "apply_actions ex conn limit k now name spec as s = (Inr out, s')" "oc_error out = None" "rs_op s = None"
  shows "all_ok ex as (rs_host s) (rs_host s') \<and> (\<forall>a\<in>set as. \<not> is_zdd a) \<and> rs_op s' = None
    \<and> rs_status s' = rs_status s @ [(name, ok_status spec, None)]"
proof -
  have i: "apply_inner ex name spec now k as s = (Returned out, s')"
    using assms by (auto simp: apply_actions_def Let_def split: option.splits prod.splits ended.splits)
  then have l: "apply_loop ex name spec now (length as) k as 0 s = (Returned out, s')"
    using assms(3) by (simp add: apply_inner_def)
  obtain pre grp post s2 where t: "as = pre @ grp @ post" "all_ok ex pre (rs_host s) (rs_host s2)"
      "rs_status s2 = rs_status s" "ended_at ex name spec (length as) (0 + length pre) grp post s2 (Returned out) s'"
    using apply_loop_trace [OF l] by blast
  then show ?thesis
    using assms(2) apply_loop_no_zdd [OF l assms(2)] apply_loop_op_None [OF l assms(3)]
    by (auto simp: ended_at_def failed_with_def)
qed

lemma plan_one_name:
  assumes "distinct (map st_name desired)"
  shows "plan_one n (fmlookup (desired_by_name desired) n) (fmlookup ob n) =
    Inr (if plan_name desired ob n = [] then [] else plan_name desired ob n @ [SyncCaddy])"
proof -
  have one: "sorted_list_of_fset {|x|} = [x]" for x :: string by (simp add: sorted_list_of_fset.rep_eq)
  show ?thesis
  proof (cases "fmlookup (desired_by_name desired) n")
    case None
    then show ?thesis
      by (cases "fmlookup ob n")
        (simp_all add: plan_one_def plan_Inr plan_name_def plan_actions_def desired_by_name_def dict_of_def
          sorted_keys_def one)
  next
    case (Some spec)
    then have "st_name spec = n" using assms by (simp add: desired_lookup_iff)
    then show ?thesis
      using Some
      by (cases "fmlookup ob n")
        (simp_all add: plan_one_def plan_Inr plan_name_def plan_actions_def
          desired_by_name_def [of "[spec]"] dict_of_def sorted_keys_def one)
  qed
qed

lemma run_sync: "run h (as @ [SyncCaddy]) = run h as"
  by (cases "run h as") (simp_all add: run_append)

locale executing =
  fixes ex :: "string fset \<Rightarrow> 'h executor" and view :: "'h \<Rightarrow> model_host" and sane :: "'h \<Rightarrow> bool"
    and good :: "action \<Rightarrow> bool"
  assumes simulates: "sane h \<Longrightarrow> good a \<Longrightarrow> ex use a h = (None, h') \<Longrightarrow> \<not> is_zdd a \<Longrightarrow> below m (view h) \<Longrightarrow>
    apply_one m a = Inr m' \<Longrightarrow> sane h' \<and> below m' (view h')"
    and good_sync: "good SyncCaddy"
begin

lemma simulates_all:
  "all_ok (ex use) as h h' \<Longrightarrow> \<forall>a\<in>set as. good a \<and> \<not> is_zdd a \<Longrightarrow> sane h \<Longrightarrow> below m (view h) \<Longrightarrow>
     run m as = Inr m' \<Longrightarrow> sane h' \<and> below m' (view h')"
proof (induction as arbitrary: h m)
  case (Cons a as)
  obtain h1 where h1: "ex use a h = (None, h1)" "all_ok (ex use) as h1 h'"
    using Cons.prems(1) by (auto simp: all_ok_Cons)
  obtain m1 where m1: "apply_one m a = Inr m1" "run m1 as = Inr m'"
    using Cons.prems(5) by (auto simp: bind_res_eq_Inr)
  have "sane h1 \<and> below m1 (view h1)"
    using simulates [OF _ _ h1(1) _ _ m1(1)] Cons.prems by simp
  then show ?case using Cons.IH [OF h1(2) _ _ _ m1(2)] Cons.prems(2) by simp
qed simp

lemma converge_one_sim:
  assumes c: "converge_one (ex use) conn limit k now n (fmlookup (desired_by_name desired) n) (fmlookup ob n) s
      = (Inr out, s')" "oc_error out = None" "rs_op s = None"
    and s: "sane (rs_host s)" "below m (view (rs_host s))"
    and g: "\<forall>a\<in>set (plan_name desired ob n). good a"
    and d: "distinct (map st_name desired)" and run: "run m (plan_name desired ob n) = Inr m'"
  shows "sane (rs_host s') \<and> below m' (view (rs_host s')) \<and> rs_op s' = None
    \<and> rs_status s' = rs_status s @ [(n, ok_status (fmlookup (desired_by_name desired) n), None)]"
proof (cases "plan_name desired ob n = []")
  case True
  then show ?thesis
    using c s run by (auto simp: converge_one_def plan_one_name [OF d] finish_operation_def)
next
  case False
  then have a: "apply_actions (ex use) conn limit k now n (fmlookup (desired_by_name desired) n)
      (plan_name desired ob n @ [SyncCaddy]) s = (Inr out, s')"
    using c(1) by (simp add: converge_one_def plan_one_name [OF d] split: list.splits)
  note ok = apply_actions_ok [OF a c(2,3)]
  have "run m (plan_name desired ob n @ [SyncCaddy]) = Inr m'" using run by (simp add: run_sync)
  then show ?thesis using simulates_all [of use "plan_name desired ob n @ [SyncCaddy]" "rs_host s" "rs_host s'"] ok s g good_sync by simp
qed

lemma converge_each_sim:
  assumes "converge_each (ex use) conns limit k now (desired_by_name desired) (observe h0) ns s = (Inr outs, s')"
    and "\<forall>out\<in>set outs. oc_error out = None" "rs_op s = None"
    and "sane (rs_host s)" "below m (view (rs_host s))" "desired_ok desired" "loop_inv desired h0 dn m"
    and "distinct ns" "set ns \<inter> dn = {}"
    and "\<forall>n a. a \<in> set (plan_name desired (observe h0) n) \<longrightarrow> good a"
    and "\<And>n. n \<in> set ns \<Longrightarrow> n |\<in>| fmdom (observe h0) \<or> n |\<in>| fmdom (desired_by_name desired)"
  shows "\<exists>m'. sane (rs_host s') \<and> below m' (view (rs_host s')) \<and> loop_inv desired h0 (dn \<union> set ns) m'
    \<and> rs_status s' = rs_status s @ map (\<lambda>n. (n, ok_status (fmlookup (desired_by_name desired) n), None)) ns"
  using assms
proof (induction ns arbitrary: s m dn outs)
  case Nil
  then show ?case by auto
next
  case (Cons n ns)
  let ?d = "desired_by_name desired"
  let ?server = "case fmlookup ?d n of None \<Rightarrow> None | Some spec \<Rightarrow> st_server_id spec"
  obtain r s1 where r: "converge_one (ex use) (conns ?server) limit (k n) now n (fmlookup ?d n)
      (fmlookup (observe h0) n) s = (r, s1)"
    by (cases "converge_one (ex use) (conns ?server) limit (k n) now n (fmlookup ?d n) (fmlookup (observe h0) n) s")
  obtain rs s2 where rs: "converge_each (ex use) conns limit k now ?d (observe h0) ns s1 = (rs, s2)"
    by (cases "converge_each (ex use) conns limit k now ?d (observe h0) ns s1")
  obtain out outs1 where o: "r = Inr out" "rs = Inr outs1" "outs = out # outs1" "s' = s2"
    using Cons.prems(1) r rs by (auto simp: Let_def split: sum.splits)
  obtain m1 where m1: "run m (plan_name desired (observe h0) n) = Inr m1" "loop_inv desired h0 (insert n dn) m1"
    using run_plan_name [OF Cons.prems(7,6), of n] Cons.prems(9,11) by auto
  have d: "distinct (map st_name desired)" using Cons.prems(6) by (simp add: desired_ok_def)
  have s1: "sane (rs_host s1) \<and> below m1 (view (rs_host s1)) \<and> rs_op s1 = None
    \<and> rs_status s1 = rs_status s @ [(n, ok_status (fmlookup ?d n), None)]"
    using converge_one_sim [OF r [unfolded o(1)] _ Cons.prems(3-5) _ d m1(1)] Cons.prems(2,10) o(3) by simp
  then show ?case
    using Cons.IH [of s1 outs1 m1 "insert n dn"] rs o Cons.prems m1(2) by auto
qed

lemma cycle_converges:
  assumes "converge_all ex conns limit k now desired local remote s = (Inr outs, s')"
    and "\<forall>out\<in>set outs. oc_error out = None" "rs_op s = None" "desired_ok desired"
    and "sane (rs_host s)" "merge_observed local remote = observe (view (rs_host s))"
    and "\<forall>n a. a \<in> set (plan_name desired (merge_observed local remote) n) \<longrightarrow> good a"
  shows "observe (view (rs_host s')) = project desired \<and> sane (rs_host s')
    \<and> rs_status s' = rs_status s @ map (\<lambda>n. (n, ok_status (fmlookup (desired_by_name desired) n), None))
        (cycle_names desired (merge_observed local remote))"
proof -
  let ?h0 = "view (rs_host s)"
  let ?ns = "cycle_names desired (observe ?h0)"
  have ns: "distinct ?ns" "set ?ns = fset (fmdom (desired_by_name desired)) \<union> fset (fmdom (observe ?h0))"
    by (simp_all add: cycle_names_def set_sorted_list_of_fset del: fmdom_desired)
  have "loop_inv desired ?h0 {} ?h0" by (simp add: loop_inv_def untouched_def)
  moreover have "converge_each (ex (tenants_in_use desired)) conns limit k now (desired_by_name desired)
      (observe ?h0) ?ns s = (Inr outs, s')"
    using assms(1,6) by (simp add: converge_all_def Let_def)
  ultimately obtain m' where m': "sane (rs_host s')" "below m' (view (rs_host s'))"
      "loop_inv desired ?h0 ({} \<union> set ?ns) m'"
      "rs_status s' = rs_status s @ map (\<lambda>n. (n, ok_status (fmlookup (desired_by_name desired) n), None)) ?ns"
    using converge_each_sim [of "tenants_in_use desired" conns limit k now desired ?h0 ?ns s outs s' ?h0 "{}"]
      assms(2-7) ns
    by (auto simp del: fmdom_desired)
  have "set ?ns = set (plan_order desired (observe ?h0))" unfolding ns plan_order_props by blast
  then have "observe (m'\<lparr>mh_stacks := live (mh_stacks m')\<rparr>) = project desired"
    using loop_inv_end [of desired ?h0 m'] m'(3) assms(4) by simp
  moreover have "observe (m'\<lparr>mh_stacks := live (mh_stacks m')\<rparr>) = observe m'"
    by (rule fmap_ext) (auto simp: fmlookup_observe fmlookup_live observe_stack_def split: option.splits)
  ultimately have "observe m' = project desired" by simp
  then show ?thesis using observe_below m' assms(6) by auto
qed

end

end
