(* ===== verification/Executor.thy ===== *)
theory Executor
  imports Tenants Observer Cycle
begin

text \<open>
  The executor (\<open>backend/app/orchestration/executor.py\<close>): one action, one sequence of calls on the host.
  The host (\<open>HostContext\<close> of \<open>backend/app/system/host.py\<close>) is a record of operations on a world \<open>'w\<close>; the
  tables the executor reads are fields of the context, except the tenant ledger, which it also writes.
  Log lines have no effect on the state and are left out; the texts of exceptions are shortened.
\<close>

subsection \<open>The host and the context\<close>

record 'w host_ctx =
  hc_sync_units :: "int \<Rightarrow> string \<Rightarrow> string \<Rightarrow> dir \<Rightarrow> ('w, bool) act"
  hc_remove_units :: "int \<Rightarrow> string \<Rightarrow> string \<Rightarrow> ('w, bool) act"
  hc_scan_tenant :: "int \<Rightarrow> string \<Rightarrow> ('w, unit_file list \<times> volumes) act"
  hc_sync_env_files :: "string \<Rightarrow> string \<Rightarrow> dir \<Rightarrow> ('w, bool) act"
  hc_remove_env_files :: "string \<Rightarrow> string \<Rightarrow> ('w, bool) act"
  hc_sync_ssh_keys :: "string \<Rightarrow> (string \<times> string) list \<Rightarrow> ('w, unit) act"
  hc_ensure_volume_dir :: "string \<Rightarrow> string \<Rightarrow> string \<Rightarrow> ('w, unit) act"
  hc_remove_volume_dir :: "string \<Rightarrow> string \<Rightarrow> string \<Rightarrow> ('w, unit) act"
  hc_daemon_reload :: "string \<Rightarrow> ('w, unit) act"
  hc_control_service :: "string \<Rightarrow> string \<Rightarrow> string \<Rightarrow> ('w, unit) act"
  hc_remove_stack_containers :: "int \<Rightarrow> string \<Rightarrow> ('w, unit) act"
  hc_provision_tenant :: "string \<Rightarrow> int \<Rightarrow> int \<Rightarrow> ('w, int) act"
  hc_remove_tenant :: "string \<Rightarrow> ('w, bool) act"
  hc_run_as_tenant :: "string \<Rightarrow> string list \<Rightarrow> ('w, command_result) act"

text \<open>\<open>ec_patch_upstream\<close> is the injected \<open>caddy_patch_upstream\<close> or \<open>CaddyClient.patch_upstream\<close>;
  \<open>ec_keys\<close> are the decrypted SSH keys of a user; \<open>ec_git_token\<close> looks the installation token of a stack of a
  user up, \<open>None\<close> also when anything raised.\<close>

record 'w exec_ctx =
  ec_host :: "'w host_ctx"
  ec_sync_caddy :: "('w, unit) act"
  ec_patch_upstream :: "string \<Rightarrow> string \<Rightarrow> ('w, unit) act"
  ec_tenant_in_use :: "string \<Rightarrow> bool"
  ec_users :: "int fset"
  ec_keys :: "int \<Rightarrow> (string \<times> string) list res"
  ec_git_token :: "string \<Rightarrow> int \<Rightarrow> string option"

type_synonym ('w, 'a) exec_act = "(ledger \<times> 'w, 'a) act"

definition on_host :: "('w, 'a) act \<Rightarrow> ('w, 'a) exec_act" where
  "on_host m = (\<lambda>(rows, w). case m w of (r, w') \<Rightarrow> (r, (rows, w')))"

abbreviation done_with :: "('w, 'a) act \<Rightarrow> ('w, unit) act" where
  "done_with m \<equiv> bind_act m (\<lambda>_. ret_act ())"

definition tenant_user_id :: "string \<Rightarrow> int res" where
  "tenant_user_id linux_user =
     (if CHR ''-'' \<in> set linux_user then py_int (last (split_char (CHR ''-'') linux_user)) else Inl IndexError)"

definition uid_for :: "string \<Rightarrow> ('w, int) exec_act" where
  "uid_for linux_user = (\<lambda>(rows, w).
     ((case find (\<lambda>r. tn_linux_user r = linux_user) rows of
         Some r \<Rightarrow> (case tn_uid r of Some u \<Rightarrow> Inr u | None \<Rightarrow> Inl (ExecutorError ''tenant is not in the ledger''))
       | None \<Rightarrow> Inl (ExecutorError ''tenant is not in the ledger'')), (rows, w)))"

definition resolve_git_token :: "'w exec_ctx \<Rightarrow> stack_spec \<Rightarrow> string option" where
  "resolve_git_token ctx spec =
     (if \<not> list_ex has_build (st_services spec) then None
      else (case tenant_user_id (st_tenant spec) of Inl _ \<Rightarrow> None | Inr u \<Rightarrow> ec_git_token ctx (st_name spec) u))"

subsection \<open>Starting a unit that may not be generated yet\<close>

definition is_unit_missing :: "string \<Rightarrow> bool" where
  "is_unit_missing msg \<longleftrightarrow> list_ex (\<lambda>hint. contains (lower msg) hint) [''not found'', ''not loaded'']"

text \<open>One element of the list per attempt: is there a delay, with a daemon reload, before it?  The result
  is whether an attempt succeeded; the delays themselves take no step.\<close>

fun control_attempts :: "'w host_ctx \<Rightarrow> string \<Rightarrow> string \<Rightarrow> string \<Rightarrow> bool list \<Rightarrow> ('w, bool) act" where
  "control_attempts h tenant vb unit [] = ret_act False"
| "control_attempts h tenant vb unit (delay # rest) =
     bind_act (if delay then hc_daemon_reload h tenant else ret_act ()) (\<lambda>_ w.
       case hc_control_service h tenant vb unit w of
         (Inr _, w') \<Rightarrow> (Inr True, w')
       | (Inl e, w') \<Rightarrow>
           (case e of
              SystemdUserError msg \<Rightarrow>
                if is_unit_missing msg then control_attempts h tenant vb unit rest w' else (Inl e, w')
            | _ \<Rightarrow> (Inl e, w')))"

definition regenerate_retry_delays :: "nat" where "regenerate_retry_delays = 4"

definition control_service :: "'w exec_ctx \<Rightarrow> string \<Rightarrow> string \<Rightarrow> string \<Rightarrow> string \<Rightarrow> ('w, unit) exec_act" where
  "control_service ctx tenant st svc vb =
     bind_act (on_host (control_attempts (ec_host ctx) tenant vb (service_unit_name st svc)
       (False # replicate regenerate_retry_delays True))) (\<lambda>ok.
     if ok then ret_act ()
     else bind_act (uid_for tenant) (\<lambda>uid. bind_act (lift_res (unit_dir uid)) (\<lambda>_.
       raise_act (ExecutorError ''unit was not generated''))))"

subsection \<open>Zero-downtime deploys\<close>

definition cleanup_candidate :: "'w host_ctx \<Rightarrow> string \<Rightarrow> string \<Rightarrow> ('w, unit) act" where
  "cleanup_candidate h tenant candidate =
     bind_act (swallow (hc_run_as_tenant h tenant [''/usr/bin/podman'', ''stop'', ''--time'', ''5'', candidate])) (\<lambda>_.
     swallow (hc_run_as_tenant h tenant [''/usr/bin/podman'', ''rm'', ''-f'', candidate]))"

text \<open>\<open>while waited < 60\<close>: \<open>fuel\<close> bounds the polls; sixty are enough for every interval of at least a
  second, the least the API accepts.\<close>

fun poll_loop :: "'w host_ctx \<Rightarrow> string \<Rightarrow> string list \<Rightarrow> int \<Rightarrow> nat \<Rightarrow> int \<Rightarrow> ('w, bool) act" where
  "poll_loop h tenant probe interval 0 waited = ret_act False"
| "poll_loop h tenant probe interval (Suc fuel) waited =
     (if waited < 60 then
        (\<lambda>w. case hc_run_as_tenant h tenant probe w of
           (Inr r, w') \<Rightarrow> if cr_returncode r = 0 then (Inr True, w')
                          else poll_loop h tenant probe interval fuel (waited + interval) w'
         | (Inl _, w') \<Rightarrow> poll_loop h tenant probe interval fuel (waited + interval) w')
      else ret_act False)"

definition probe_argv :: "service_spec \<Rightarrow> int \<Rightarrow> string list" where
  "probe_argv svc port =
     [''curl'', ''-sf'', ''--max-time'', ''3'', ''http://127.0.0.1:'' @ int_str port @
        (if s_hc_path svc = [] then ''/health'' else s_hc_path svc)]"

definition health_poll :: "'w host_ctx \<Rightarrow> string \<Rightarrow> service_spec \<Rightarrow> int \<Rightarrow> ('w, bool) act" where
  "health_poll h tenant svc port =
     (if \<not> s_hc_enabled svc then ret_act True
      else poll_loop h tenant (probe_argv svc port) (s_hc_interval svc) 60 0)"

text \<open>A \<open>CaddyError\<close> is recorded and the next domain is tried.\<close>

definition swap_one :: "'w exec_ctx \<Rightarrow> string \<Rightarrow> string \<Rightarrow> ('w, unit) act" where
  "swap_one ctx upstream domain = (\<lambda>w.
     case ec_patch_upstream ctx domain upstream w of
       (Inl (CaddyError _), w') \<Rightarrow> (Inr (), w')
     | (r, w') \<Rightarrow> (r, w'))"

definition candidate_argv :: "stack_spec \<Rightarrow> string \<Rightarrow> int \<Rightarrow> int \<Rightarrow> string list" where
  "candidate_argv spec svc port internal =
     [''/usr/bin/podman'', ''run'', ''-d'', ''--name'', st_name spec @ ''-'' @ svc @ ''-candidate'',
      ''--network'', ''hosty-'' @ st_name spec, ''--network-alias'', svc @ ''-candidate'',
      ''-p'', st_loopback_ip spec @ '':'' @ int_str port @ '':'' @ int_str internal,
      ''hosty/'' @ st_name spec @ ''-'' @ svc @ '':latest'']"

definition zero_downtime_deploy :: "string \<Rightarrow> stack_spec \<Rightarrow> string \<Rightarrow> 'w exec_ctx \<Rightarrow> ('w, unit) exec_act" where
  "zero_downtime_deploy tenant spec name ctx =
     (case find (\<lambda>s. s_name s = name) (st_services spec) of
        None \<Rightarrow> raise_act (ExecutorError ''service not found or has no port'')
      | Some svc \<Rightarrow>
         (case s_internal_port svc of
            None \<Rightarrow> raise_act (ExecutorError ''service not found or has no port'')
          | Some internal \<Rightarrow>
             (let h = ec_host ctx;
                  normal = derive_host_port internal;
                  port = normal + 10000;
                  candidate = st_name spec @ ''-'' @ name @ ''-candidate'';
                  normal_upstream = st_loopback_ip spec @ '':'' @ int_str normal;
                  candidate_upstream = st_loopback_ip spec @ '':'' @ int_str port;
                  domains = map e_domain (filter (\<lambda>e. e_service e = name) (st_endpoints spec));
                  cleanup = on_host (cleanup_candidate h tenant candidate)
              in bind_act cleanup (\<lambda>_.
                 bind_act (\<lambda>w. case on_host (hc_run_as_tenant h tenant (candidate_argv spec name port internal)) w of
                     (Inl _, w') \<Rightarrow> (Inl (ExecutorError ''failed to start candidate container''), w')
                   | (Inr _, w') \<Rightarrow> (Inr (), w')) (\<lambda>_.
                 finally_act
                   (bind_act (on_host (health_poll h tenant svc port)) (\<lambda>healthy.
                    if \<not> healthy then raise_act (ExecutorError ''candidate did not become healthy'')
                    else bind_act (on_host (each_act (swap_one ctx candidate_upstream) domains)) (\<lambda>_.
                    bind_act (on_host (hc_control_service h tenant ''stop'' (service_unit_name (st_name spec) name))) (\<lambda>_.
                    bind_act (control_service ctx tenant (st_name spec) name ''start'') (\<lambda>_.
                    bind_act (on_host (health_poll h tenant svc normal)) (\<lambda>_.
                    on_host (each_act (swap_one ctx normal_upstream) domains)))))))
                   cleanup)))))"

subsection \<open>One action\<close>

definition remove_tenant_if_empty :: "string \<Rightarrow> 'w exec_ctx \<Rightarrow> ('w, unit) exec_act" where
  "remove_tenant_if_empty tenant ctx = (\<lambda>(rows, w).
     if ec_tenant_in_use ctx tenant then (Inr (), (rows, w))
     else (case find (\<lambda>r. tn_linux_user r = tenant) rows of
        None \<Rightarrow> (Inr (), (rows, w))
      | Some row \<Rightarrow>
          bind_act (case tn_uid row of
              None \<Rightarrow> ret_act True
            | Some uid \<Rightarrow> bind_act (on_host (hc_scan_tenant (ec_host ctx) uid tenant)) (\<lambda>(files, dirs).
                ret_act (files = [] \<and> fmdom dirs = {||})))
            (\<lambda>empty. if \<not> empty then ret_act ()
               else done_with (remove_tenant (hc_remove_tenant (ec_host ctx)) (tn_user_id row))) (rows, w)))"

definition write_units :: "'w exec_ctx \<Rightarrow> stack_spec \<Rightarrow> ('w, unit) exec_act" where
  "write_units ctx spec =
     bind_act (uid_for (st_tenant spec)) (\<lambda>uid.
     bind_act (lift_res (env_files spec)) (\<lambda>envs.
     bind_act (on_host (hc_sync_env_files (ec_host ctx) (st_tenant spec) (st_name spec) envs)) (\<lambda>_.
     bind_act (lift_res (unit_files spec (resolve_git_token ctx spec))) (\<lambda>files.
     done_with (on_host (hc_sync_units (ec_host ctx) uid (st_name spec) (st_tenant spec) files))))))"

fun execute :: "'w exec_ctx \<Rightarrow> action \<Rightarrow> ('w, unit) exec_act" where
  "execute ctx (EnsureTenant tenant) =
     bind_act (lift_res (tenant_user_id tenant)) (\<lambda>user.
     if user |\<notin>| ec_users ctx then raise_act (ExecutorError ''no user account for tenant'')
     else bind_act (ensure_tenant (hc_provision_tenant (ec_host ctx)) user) (\<lambda>_.
          bind_act (lift_res (ec_keys ctx user)) (\<lambda>keys.
          on_host (hc_sync_ssh_keys (ec_host ctx) tenant keys))))"
| "execute ctx (EnsureVolumeDir tenant st v) = on_host (hc_ensure_volume_dir (ec_host ctx) tenant st v)"
| "execute ctx (WriteUnits spec) = write_units ctx spec"
| "execute ctx (RemoveUnits tenant st) =
     bind_act (uid_for tenant) (\<lambda>uid.
     bind_act (on_host (hc_remove_units (ec_host ctx) uid st tenant)) (\<lambda>_.
     bind_act (on_host (hc_remove_env_files (ec_host ctx) tenant st)) (\<lambda>_.
     on_host (hc_remove_stack_containers (ec_host ctx) uid st))))"
| "execute ctx (DaemonReload tenant) = on_host (hc_daemon_reload (ec_host ctx) tenant)"
| "execute ctx (StartService tenant st svc) = control_service ctx tenant st svc ''start''"
| "execute ctx (StopService tenant st svc) =
     on_host (hc_control_service (ec_host ctx) tenant ''stop'' (service_unit_name st svc))"
| "execute ctx (RestartService tenant st svc) = control_service ctx tenant st svc ''restart''"
| "execute ctx (RemoveVolumeDir tenant st v) = on_host (hc_remove_volume_dir (ec_host ctx) tenant st v)"
| "execute ctx (ZeroDowntimeDeploy tenant spec svc) = zero_downtime_deploy tenant spec svc ctx"
| "execute ctx (RemoveTenantIfEmpty tenant) = remove_tenant_if_empty tenant ctx"
| "execute ctx SyncCaddy = on_host (ec_sync_caddy ctx)"

subsection \<open>A host that records its calls\<close>

datatype hcall =
    CSyncUnits int string string dir
  | CRemoveUnits int string string
  | CScan int string
  | CSyncEnv string string dir
  | CRemoveEnv string string
  | CSyncKeys string "(string \<times> string) list"
  | CEnsureDir string string string
  | CRemoveDir string string string
  | CReload string
  | CControl string string string
  | CRemoveContainers int string
  | CProvision string int int
  | CRemoveTenant string
  | CRun string "string list"
  | CSyncCaddy
  | CPatch string string

text \<open>What the host answers, knowing the calls made before: any host whatever.\<close>

record answers =
  an_unit :: "hcall list \<Rightarrow> hcall \<Rightarrow> unit res"
  an_bool :: "hcall list \<Rightarrow> hcall \<Rightarrow> bool res"
  an_int :: "hcall list \<Rightarrow> hcall \<Rightarrow> int res"
  an_scan :: "hcall list \<Rightarrow> hcall \<Rightarrow> (unit_file list \<times> volumes) res"
  an_run :: "hcall list \<Rightarrow> hcall \<Rightarrow> command_result res"

definition ask :: "(hcall list \<Rightarrow> hcall \<Rightarrow> 'a res) \<Rightarrow> hcall \<Rightarrow> (hcall list, 'a) act" where
  "ask an c tr = (an tr c, tr @ [c])"

definition recording_host :: "answers \<Rightarrow> hcall list host_ctx" where
  "recording_host an =
     \<lparr>hc_sync_units = (\<lambda>uid st t d. ask (an_bool an) (CSyncUnits uid st t d)),
      hc_remove_units = (\<lambda>uid st t. ask (an_bool an) (CRemoveUnits uid st t)),
      hc_scan_tenant = (\<lambda>uid t. ask (an_scan an) (CScan uid t)),
      hc_sync_env_files = (\<lambda>t st d. ask (an_bool an) (CSyncEnv t st d)),
      hc_remove_env_files = (\<lambda>t st. ask (an_bool an) (CRemoveEnv t st)),
      hc_sync_ssh_keys = (\<lambda>t ks. ask (an_unit an) (CSyncKeys t ks)),
      hc_ensure_volume_dir = (\<lambda>t st v. ask (an_unit an) (CEnsureDir t st v)),
      hc_remove_volume_dir = (\<lambda>t st v. ask (an_unit an) (CRemoveDir t st v)),
      hc_daemon_reload = (\<lambda>t. ask (an_unit an) (CReload t)),
      hc_control_service = (\<lambda>t vb u. ask (an_unit an) (CControl t vb u)),
      hc_remove_stack_containers = (\<lambda>uid st. ask (an_unit an) (CRemoveContainers uid st)),
      hc_provision_tenant = (\<lambda>t s c. ask (an_int an) (CProvision t s c)),
      hc_remove_tenant = (\<lambda>t. ask (an_bool an) (CRemoveTenant t)),
      hc_run_as_tenant = (\<lambda>t av. ask (an_run an) (CRun t av))\<rparr>"

definition recording_ctx :: "answers \<Rightarrow> (string \<Rightarrow> bool) \<Rightarrow> int fset \<Rightarrow> (int \<Rightarrow> (string \<times> string) list res)
    \<Rightarrow> (string \<Rightarrow> int \<Rightarrow> string option) \<Rightarrow> hcall list exec_ctx" where
  "recording_ctx an in_use users keys tok =
     \<lparr>ec_host = recording_host an, ec_sync_caddy = ask (an_unit an) CSyncCaddy,
      ec_patch_upstream = (\<lambda>d u. ask (an_unit an) (CPatch d u)), ec_tenant_in_use = in_use,
      ec_users = users, ec_keys = keys, ec_git_token = tok\<rparr>"

lemma recording_sel [simp]:
  "hc_sync_units (recording_host an) = (\<lambda>uid st t d. ask (an_bool an) (CSyncUnits uid st t d))"
  "hc_remove_units (recording_host an) = (\<lambda>uid st t. ask (an_bool an) (CRemoveUnits uid st t))"
  "hc_scan_tenant (recording_host an) = (\<lambda>uid t. ask (an_scan an) (CScan uid t))"
  "hc_sync_env_files (recording_host an) = (\<lambda>t st d. ask (an_bool an) (CSyncEnv t st d))"
  "hc_remove_env_files (recording_host an) = (\<lambda>t st. ask (an_bool an) (CRemoveEnv t st))"
  "hc_sync_ssh_keys (recording_host an) = (\<lambda>t ks. ask (an_unit an) (CSyncKeys t ks))"
  "hc_ensure_volume_dir (recording_host an) = (\<lambda>t st v. ask (an_unit an) (CEnsureDir t st v))"
  "hc_remove_volume_dir (recording_host an) = (\<lambda>t st v. ask (an_unit an) (CRemoveDir t st v))"
  "hc_daemon_reload (recording_host an) = (\<lambda>t. ask (an_unit an) (CReload t))"
  "hc_control_service (recording_host an) = (\<lambda>t vb u. ask (an_unit an) (CControl t vb u))"
  "hc_remove_stack_containers (recording_host an) = (\<lambda>uid st. ask (an_unit an) (CRemoveContainers uid st))"
  "hc_provision_tenant (recording_host an) = (\<lambda>t s c. ask (an_int an) (CProvision t s c))"
  "hc_remove_tenant (recording_host an) = (\<lambda>t. ask (an_bool an) (CRemoveTenant t))"
  "hc_run_as_tenant (recording_host an) = (\<lambda>t av. ask (an_run an) (CRun t av))"
  "ec_host (recording_ctx an in_use users keys tok) = recording_host an"
  "ec_sync_caddy (recording_ctx an in_use users keys tok) = ask (an_unit an) CSyncCaddy"
  "ec_patch_upstream (recording_ctx an in_use users keys tok) = (\<lambda>d u. ask (an_unit an) (CPatch d u))"
  "ec_tenant_in_use (recording_ctx an in_use users keys tok) = in_use"
  "ec_users (recording_ctx an in_use users keys tok) = users"
  "ec_keys (recording_ctx an in_use users keys tok) = keys"
  "ec_git_token (recording_ctx an in_use users keys tok) = tok"
  by (simp_all add: recording_host_def recording_ctx_def)

subsection \<open>Retries are bounded\<close>

definition attempt_calls :: "string \<Rightarrow> string \<Rightarrow> string \<Rightarrow> bool \<Rightarrow> hcall list" where
  "attempt_calls t vb u delay = (if delay then [CReload t] else []) @ [CControl t vb u]"

definition controls :: "hcall list \<Rightarrow> nat" where
  "controls cs = length (filter (\<lambda>c. case c of CControl _ _ _ \<Rightarrow> True | _ \<Rightarrow> False) cs)"

lemma controls_simps [simp]:
  "controls [] = 0" "controls (a @ b) = controls a + controls b" "controls (CReload t # cs) = controls cs"
  "controls (CControl t vb u # cs) = Suc (controls cs)"
  by (simp_all add: controls_def)

definition attempted :: "answers \<Rightarrow> string \<Rightarrow> string \<Rightarrow> string \<Rightarrow> nat \<Rightarrow> hcall list \<Rightarrow> bool res \<Rightarrow> hcall list \<Rightarrow> bool" where
  "attempted an t vb u n tr r tr' \<longleftrightarrow>
     (\<exists>cs. tr' = tr @ cs \<and> set cs \<subseteq> {CReload t, CControl t vb u} \<and> controls cs \<le> n
       \<and> (case r of
            Inr True \<Rightarrow> cs \<noteq> [] \<and> last cs = CControl t vb u \<and> an_unit an (butlast tr') (last cs) = Inr ()
          | Inr False \<Rightarrow> controls cs = n
          | Inl e \<Rightarrow> cs \<noteq> [] \<and> an_unit an (butlast tr') (last cs) = Inl e))"

lemma attempted_extend:
  "attempted an t vb u n (tr @ pre) r tr' \<Longrightarrow> set pre \<subseteq> {CReload t, CControl t vb u} \<Longrightarrow> controls pre = 1
   \<Longrightarrow> attempted an t vb u (Suc n) tr r tr'"
proof -
  assume a: "attempted an t vb u n (tr @ pre) r tr'" and p: "set pre \<subseteq> {CReload t, CControl t vb u}" "controls pre = 1"
  then obtain cs where "tr' = (tr @ pre) @ cs" "set cs \<subseteq> {CReload t, CControl t vb u}" "controls cs \<le> n"
      "case r of Inr True \<Rightarrow> cs \<noteq> [] \<and> last cs = CControl t vb u \<and> an_unit an (butlast tr') (last cs) = Inr ()
         | Inr False \<Rightarrow> controls cs = n | Inl e \<Rightarrow> cs \<noteq> [] \<and> an_unit an (butlast tr') (last cs) = Inl e"
    unfolding attempted_def by blast
  then show ?thesis
    unfolding attempted_def using p
    by (intro exI [of _ "pre @ cs"]) (auto split: sum.splits bool.splits)
qed

lemma control_attempts_calls:
  "control_attempts (recording_host an) t vb u ds tr = (r, tr') \<Longrightarrow> attempted an t vb u (length ds) tr r tr'"
proof (induction ds arbitrary: tr)
  case Nil
  then show ?case by (auto simp: attempted_def ret_act_def)
next
  case (Cons d ds)
  let ?pre = "if d then [CReload t] else []"
  show ?case
  proof (cases "d \<and> (\<exists>e. an_unit an tr (CReload t) = Inl e)")
    case True
    then obtain e where "an_unit an tr (CReload t) = Inl e" by blast
    then have "r = Inl e" "tr' = tr @ [CReload t]"
      using Cons.prems True by (simp_all add: bind_act_def ask_def)
    then show ?thesis using \<open>an_unit an tr (CReload t) = Inl e\<close> by (simp add: attempted_def)
  next
    case False
    let ?call = "CControl t vb u"
    let ?tr1 = "tr @ ?pre"
    have step: "control_attempts (recording_host an) t vb u (d # ds) tr =
        (case an_unit an ?tr1 ?call of
           Inr _ \<Rightarrow> (Inr True, ?tr1 @ [?call])
         | Inl e \<Rightarrow> (case e of SystemdUserError msg \<Rightarrow>
               if is_unit_missing msg then control_attempts (recording_host an) t vb u ds (?tr1 @ [?call])
               else (Inl e, ?tr1 @ [?call])
             | _ \<Rightarrow> (Inl e, ?tr1 @ [?call])))"
      using False by (cases d) (auto simp: bind_act_def ask_def ret_act_def simp flip: append_assoc split: sum.split exn.split)
    have pre: "set (?pre @ [?call]) \<subseteq> {CReload t, ?call}" "controls (?pre @ [?call]) = 1" by auto
    have now: "attempted an t vb u (length (d # ds)) tr (Inl e) (?tr1 @ [?call])"
      if "an_unit an ?tr1 ?call = Inl e" for e
      using that pre unfolding attempted_def by (intro exI [of _ "?pre @ [?call]"]) (simp add: butlast_append)
    have ok: "attempted an t vb u (length (d # ds)) tr (Inr True) (?tr1 @ [?call])"
      if "an_unit an ?tr1 ?call = Inr ()"
      using that pre unfolding attempted_def by (intro exI [of _ "?pre @ [?call]"]) (simp add: butlast_append)
    have later: "attempted an t vb u (length (d # ds)) tr r tr'"
      if "control_attempts (recording_host an) t vb u ds (?tr1 @ [?call]) = (r, tr')"
      using attempted_extend [of an t vb u "length ds" tr "?pre @ [?call]" r tr'] Cons.IH [OF that] pre by simp
    show ?thesis
      using Cons.prems [unfolded step] now ok later
      by (auto split: sum.splits exn.splits if_splits)
  qed
qed

text \<open>Starting or restarting a unit issues at most five control calls, with nothing between them but
  daemon reloads of the tenant; it succeeds exactly when the last call succeeded; it fails early only with
  the error the host answered to the last call, and after five missing-unit answers it raises an error of
  its own.\<close>

theorem control_service_bounded:
  assumes "control_service (recording_ctx an in_use users keys tok) t st svc vb (rows, tr) = (r, (rows', tr'))"
  shows "rows' = rows \<and> (\<exists>cs. tr' = tr @ cs \<and> set cs \<subseteq> {CReload t, CControl t vb (service_unit_name st svc)}
    \<and> controls cs \<le> 5
    \<and> (r = Inr () \<longrightarrow> cs \<noteq> [] \<and> last cs = CControl t vb (service_unit_name st svc)
         \<and> an_unit an (butlast tr') (last cs) = Inr ())
    \<and> (\<forall>e. r = Inl e \<longrightarrow> controls cs = 5 \<or> cs \<noteq> [] \<and> an_unit an (butlast tr') (last cs) = Inl e))"
proof -
  let ?u = "service_unit_name st svc"
  obtain r1 tr1 where a: "control_attempts (recording_host an) t vb ?u (False # replicate 4 True) tr = (r1, tr1)"
    by fastforce
  have len: "length (False # replicate 4 True) = 5" by simp
  have "rows' = rows \<and> tr' = tr1 \<and> (case r1 of Inr True \<Rightarrow> r = Inr () | Inr False \<Rightarrow> \<exists>e. r = Inl e | Inl e \<Rightarrow> r = Inl e)"
    using assms a
    by (auto simp: control_service_def regenerate_retry_delays_def bind_act_def on_host_def ret_act_def lift_res_def
        raise_act_def uid_for_def simp del: control_attempts.simps
        split: sum.splits bool.splits prod.splits option.splits)
  then show ?thesis
    using control_attempts_calls [OF a] unfolding len attempted_def
    by (cases r1) (auto split: bool.splits)
qed

definition answers_with :: "(hcall list \<Rightarrow> hcall \<Rightarrow> unit res) \<Rightarrow> (hcall list \<Rightarrow> hcall \<Rightarrow> command_result res) \<Rightarrow> answers" where
  "answers_with f g = \<lparr>an_unit = f, an_bool = (\<lambda>_ _. Inr True), an_int = (\<lambda>_ _. Inr 1001),
     an_scan = (\<lambda>_ _. Inr ([], fmempty)), an_run = g\<rparr>"

lemma answers_with_sel [simp]:
  "an_unit (answers_with f g) = f" "an_bool (answers_with f g) = (\<lambda>_ _. Inr True)"
  "an_int (answers_with f g) = (\<lambda>_ _. Inr 1001)" "an_scan (answers_with f g) = (\<lambda>_ _. Inr ([], fmempty))"
  "an_run (answers_with f g) = g"
  by (simp_all add: answers_with_def)

definition ok_run :: "hcall list \<Rightarrow> hcall \<Rightarrow> command_result res" where
  "ok_run tr c = Inr \<lparr>cr_returncode = 0, cr_stdout = [], cr_stderr = []\<rparr>"

definition never_generated :: "hcall list \<Rightarrow> hcall \<Rightarrow> unit res" where
  "never_generated tr c =
     (case c of CControl _ _ _ \<Rightarrow> Inl (SystemdUserError ''Unit blog-web.service not found.'') | _ \<Rightarrow> Inr ())"

definition example_rows :: ledger where
  "example_rows = [\<lparr>tn_user_id = 7, tn_linux_user = ''hosty-t-7'', tn_uid = Some 1001, tn_start = 1000000, tn_count = 65536\<rparr>]"

theorem control_service_bounded_witness:
  "\<exists>cs. snd (snd (control_service (recording_ctx (answers_with never_generated ok_run) (\<lambda>_. False) {||} (\<lambda>_. Inr []) (\<lambda>_ _. None))
       ''hosty-t-7'' ''blog'' ''web'' ''start'' (example_rows, []))) = cs \<and> controls cs = 5"
proof -
  let ?ctx = "recording_ctx (answers_with never_generated ok_run) (\<lambda>_. False) {||} (\<lambda>_. Inr []) (\<lambda>_ _. None)"
  obtain r rows tr where c: "control_service ?ctx ''hosty-t-7'' ''blog'' ''web'' ''start'' (example_rows, []) = (r, (rows, tr))"
    by (metis prod.exhaust)
  from control_service_bounded [OF this]
  obtain cs where cs: "tr = cs" "r = Inr () \<longrightarrow> cs \<noteq> [] \<and> last cs = CControl ''hosty-t-7'' ''start'' (service_unit_name ''blog'' ''web'')
      \<and> never_generated (butlast tr) (last cs) = Inr ()"
    "\<forall>e. r = Inl e \<longrightarrow> controls cs = 5 \<or> cs \<noteq> [] \<and> never_generated (butlast tr) (last cs) = Inl e" by auto
  have "is_unit_missing ''Unit blog-web.service not found.''" by code_simp
  then have "r = Inl (ExecutorError ''unit was not generated'')"
    using c
    by (simp add: control_service_def regenerate_retry_delays_def numeral_eq_Suc bind_act_def on_host_def ret_act_def
        ask_def never_generated_def uid_for_def example_rows_def lift_res_def unit_dir_def raise_act_def)
  then have "controls cs = 5" using cs(3) by (auto simp: never_generated_def split: hcall.splits)
  then show ?thesis using c cs(1) by simp
qed

subsection \<open>Blue-green deploys on a recording host\<close>

abbreviation clean_calls :: "string \<Rightarrow> string \<Rightarrow> hcall list" where
  "clean_calls t candidate \<equiv> [CRun t [''/usr/bin/podman'', ''stop'', ''--time'', ''5'', candidate],
     CRun t [''/usr/bin/podman'', ''rm'', ''-f'', candidate]]"

definition candidate_of :: "stack_spec \<Rightarrow> string \<Rightarrow> string" where
  "candidate_of spec name = st_name spec @ ''-'' @ name @ ''-candidate''"

lemma cleanup_recorded [simp]:
  "on_host (cleanup_candidate (recording_host an) t c) (rows, tr) = (Inr (), (rows, tr @ clean_calls t c))"
  by (simp add: on_host_def cleanup_candidate_def bind_act_def swallow_def ask_def)

text \<open>The part inside \<open>try ... finally\<close>.\<close>

definition deploy_body :: "'w exec_ctx \<Rightarrow> string \<Rightarrow> stack_spec \<Rightarrow> string \<Rightarrow> service_spec \<Rightarrow> int \<Rightarrow> ('w, unit) exec_act" where
  "deploy_body ctx t spec name svc internal =
     (let normal = derive_host_port internal;
          domains = map e_domain (filter (\<lambda>e. e_service e = name) (st_endpoints spec))
      in bind_act (on_host (health_poll (ec_host ctx) t svc (normal + 10000))) (\<lambda>healthy.
         if \<not> healthy then raise_act (ExecutorError ''candidate did not become healthy'')
         else bind_act (on_host (each_act (swap_one ctx (st_loopback_ip spec @ '':'' @ int_str (normal + 10000))) domains)) (\<lambda>_.
         bind_act (on_host (hc_control_service (ec_host ctx) t ''stop'' (service_unit_name (st_name spec) name))) (\<lambda>_.
         bind_act (control_service ctx t (st_name spec) name ''start'') (\<lambda>_.
         bind_act (on_host (health_poll (ec_host ctx) t svc normal)) (\<lambda>_.
         on_host (each_act (swap_one ctx (st_loopback_ip spec @ '':'' @ int_str normal)) domains)))))))"

lemma deploy_recorded:
  assumes "find (\<lambda>s. s_name s = name) (st_services spec) = Some svc" "s_internal_port svc = Some internal"
  shows "zero_downtime_deploy t spec name (recording_ctx an in_use users keys tok) (rows, tr) =
    (let tr1 = tr @ clean_calls t (candidate_of spec name);
         start = CRun t (candidate_argv spec name (derive_host_port internal + 10000) internal)
     in case an_run an tr1 start of
          Inl _ \<Rightarrow> (Inl (ExecutorError ''failed to start candidate container''), (rows, tr1 @ [start]))
        | Inr _ \<Rightarrow>
            (case deploy_body (recording_ctx an in_use users keys tok) t spec name svc internal (rows, tr1 @ [start]) of
               (r, (rows', tr2)) \<Rightarrow> (r, (rows', tr2 @ clean_calls t (candidate_of spec name)))))"
proof -
  let ?ctx = "recording_ctx an in_use users keys tok" and ?c = "st_name spec @ ''-'' @ name @ ''-candidate''"
  let ?start = "CRun t (candidate_argv spec name (derive_host_port internal + 10000) internal)"
  have "zero_downtime_deploy t spec name ?ctx =
      bind_act (on_host (cleanup_candidate (recording_host an) t ?c)) (\<lambda>_.
      bind_act (\<lambda>w. case on_host (ask (an_run an) ?start) w of
          (Inl _, w') \<Rightarrow> (Inl (ExecutorError ''failed to start candidate container''), w') | (Inr _, w') \<Rightarrow> (Inr (), w')) (\<lambda>_.
      finally_act (deploy_body ?ctx t spec name svc internal) (on_host (cleanup_candidate (recording_host an) t ?c))))"
    unfolding zero_downtime_deploy_def deploy_body_def Let_def assms option.case recording_sel by (rule refl)
  then show ?thesis
    by (auto simp: bind_act_def finally_act_def candidate_of_def on_host_def [of "ask _ _"] ask_def Let_def
        split: sum.split prod.split)
qed

text \<open>Everything recorded extends the trace, and the ledger is not touched.\<close>

definition grown :: "ledger \<Rightarrow> hcall list \<Rightarrow> ledger \<times> hcall list \<Rightarrow> bool" where
  "grown rows tr w \<longleftrightarrow> fst w = rows \<and> (\<exists>cs. snd w = tr @ cs)"

lemma keeps_ask [simp]: "keeps (grown rows tr) (on_host (ask an c))"
  by (auto simp: keeps_def grown_def on_host_def ask_def)

lemma keeps_on_host: "(\<And>w. \<exists>cs. snd (m w) = w @ cs) \<Longrightarrow> keeps (grown rows tr) (on_host m)"
proof -
  assume m: "\<And>w. \<exists>cs. snd (m w) = w @ cs"
  have "grown rows tr (snd (on_host m w))" if "grown rows tr w" for w
    using that m [of "snd w"] by (cases w) (auto simp: grown_def on_host_def split: prod.split)
  then show ?thesis by (simp add: keeps_def)
qed

lemma poll_grows: "\<exists>cs. snd (poll_loop (recording_host an) t av i k wt w) = w @ cs"
proof (induction k arbitrary: wt w)
  case 0
  then show ?case by (simp add: ret_act_def)
next
  case (Suc k)
  show ?case
    using Suc [of "wt + i" "w @ [CRun t av]"] by (auto simp: ask_def ret_act_def split: sum.split)
qed

lemma poll_keeps [simp]: "keeps (grown rows tr) (on_host (health_poll (recording_host an) t svc port))"
  by (rule keeps_on_host) (auto simp: health_poll_def ret_act_def poll_grows)

lemma swap_grows: "\<exists>cs. snd (each_act (swap_one (recording_ctx an in_use users keys tok) up) ds w) = w @ cs"
proof (induction ds arbitrary: w)
  case Nil
  then show ?case by (simp add: ret_act_def)
next
  case (Cons d ds)
  show ?case
    using Cons [of "w @ [CPatch d up]"]
    by (auto simp: bind_act_def swap_one_def ask_def split: sum.split exn.split)
qed

lemma swap_keeps [simp]:
  "keeps (grown rows tr) (on_host (each_act (swap_one (recording_ctx an in_use users keys tok) up) ds))"
  by (rule keeps_on_host) (rule swap_grows)

lemma control_keeps [simp]: "keeps (grown rows tr) (control_service (recording_ctx an in_use users keys tok) t st svc vb)"
proof -
  have "\<exists>cs. snd (control_attempts (recording_host an) t vb u ds w) = w @ cs" for u ds w
    using control_attempts_calls [of an t vb u ds w] unfolding attempted_def by (metis prod.collapse)
  then have "keeps (grown rows tr) (on_host (control_attempts (recording_host an) t vb u ds))" for u ds
    by (rule keeps_on_host)
  moreover have "keeps (grown rows tr) (uid_for x)" for x by (auto simp: keeps_def uid_for_def)
  ultimately show ?thesis
    unfolding control_service_def recording_sel by (intro keeps_bind keeps_if keeps_simple)
qed

lemma body_keeps: "keeps (grown rows tr) (deploy_body (recording_ctx an in_use users keys tok) t spec name svc internal)"
  unfolding deploy_body_def Let_def recording_sel
  by (intro keeps_bind keeps_if keeps_simple keeps_ask poll_keeps swap_keeps control_keeps)

text \<open>C11: a zero-downtime deploy of a service with a port first removes a left-over candidate; once the
  candidate container was started, whatever happens after, the last two calls stop and remove it.  The
  ledger is never touched.\<close>

theorem candidate_always_removed:
  assumes "find (\<lambda>s. s_name s = name) (st_services spec) = Some svc" "s_internal_port svc = Some internal"
    and "execute (recording_ctx an in_use users keys tok) (ZeroDowntimeDeploy t spec name) (rows, tr) = (r, (rows', tr'))"
  shows "rows' = rows \<and>
    (let clean = clean_calls t (candidate_of spec name);
         start = CRun t (candidate_argv spec name (derive_host_port internal + 10000) internal)
     in if \<exists>e. an_run an (tr @ clean) start = Inl e
        then tr' = tr @ clean @ [start] \<and> r = Inl (ExecutorError ''failed to start candidate container'')
        else \<exists>mid. tr' = tr @ clean @ [start] @ mid @ clean)"
proof -
  let ?clean = "clean_calls t (candidate_of spec name)"
  let ?start = "CRun t (candidate_argv spec name (derive_host_port internal + 10000) internal)"
  let ?tr2 = "(tr @ ?clean) @ [?start]"
  obtain rb rowsb trb where b: "deploy_body (recording_ctx an in_use users keys tok) t spec name svc internal (rows, ?tr2)
      = (rb, (rowsb, trb))" by (metis prod.exhaust)
  have "grown rows ?tr2 (rowsb, trb)"
    by (rule keepsD [OF body_keeps b]) (simp add: grown_def)
  then obtain mid where "rowsb = rows" "trb = ?tr2 @ mid" by (auto simp: grown_def)
  then show ?thesis
    using assms(3) b
    by (auto simp: deploy_recorded [OF assms(1,2)] Let_def split: sum.splits)
qed

definition example_web :: stack_spec where
  "example_web = plain_stack\<lparr>st_endpoints := [\<lparr>e_domain = ''blog.example'', e_service = ''web'', e_behind_cloudflare = False\<rparr>]\<rparr>"

lemma example_web_find:
  "find (\<lambda>s. s_name s = ''web'') (st_services example_web) = Some example_service'"
  "s_internal_port example_service' = Some 80"
  by (simp_all add: example_web_def plain_stack_def example_service'_def example_service_def service_defaults_def)

definition quiet_unit :: "hcall list \<Rightarrow> hcall \<Rightarrow> unit res" where
  "quiet_unit tr c = (case c of CControl _ vb _ \<Rightarrow> if vb = ''start'' then Inl (SystemdUserError ''image pull failed'') else Inr ()
     | _ \<Rightarrow> Inr ())"

theorem candidate_always_removed_witness:
  "\<exists>mid. snd (snd (execute (recording_ctx (answers_with quiet_unit ok_run) (\<lambda>_. False) {||} (\<lambda>_. Inr []) (\<lambda>_ _. None))
      (ZeroDowntimeDeploy ''hosty-t-7'' example_web ''web'') (example_rows, [])))
     = mid @ clean_calls ''hosty-t-7'' (candidate_of example_web ''web'')"
proof -
  obtain r rows tr where c: "execute (recording_ctx (answers_with quiet_unit ok_run) (\<lambda>_. False) {||} (\<lambda>_. Inr []) (\<lambda>_ _. None))
      (ZeroDowntimeDeploy ''hosty-t-7'' example_web ''web'') (example_rows, []) = (r, (rows, tr))"
    by (metis prod.exhaust)
  from candidate_always_removed [OF example_web_find c] show ?thesis
    unfolding c by (auto simp: Let_def ok_run_def)
qed

lemma poll_unhealthy:
  assumes "\<And>tr x. an_run an tr (CRun t av) = Inr x \<Longrightarrow> cr_returncode x \<noteq> 0"
  shows "\<exists>n. poll_loop (recording_host an) t av i k wt tr = (Inr False, tr @ replicate n (CRun t av))"
proof (induction k arbitrary: wt tr)
  case 0
  then show ?case by (auto simp: ret_act_def intro: exI [of _ 0])
next
  case (Suc k)
  obtain n where n: "poll_loop (recording_host an) t av i k (wt + i) (tr @ [CRun t av])
      = (Inr False, (tr @ [CRun t av]) @ replicate n (CRun t av))" using Suc by blast
  show ?case
  proof (cases "wt < 60")
    case True
    then show ?thesis
      using n assms by (auto simp: ask_def intro!: exI [of _ "Suc n"] split: sum.split)
  next
    case False
    then show ?thesis by (auto simp: ret_act_def intro: exI [of _ 0])
  qed
qed

text \<open>A deploy whose candidate never passes its health check leaves the running service alone: it
  raises, and between the start of the candidate and its removal there are only health probes, no control
  call and no change of a route.\<close>

theorem unhealthy_candidate_harmless:
  assumes "find (\<lambda>s. s_name s = name) (st_services spec) = Some svc" "s_internal_port svc = Some internal"
    and "s_hc_enabled svc"
    and "\<forall>tr x. an_run an tr (CRun t (probe_argv svc (derive_host_port internal + 10000))) = Inr x \<longrightarrow> cr_returncode x \<noteq> 0"
    and "execute (recording_ctx an in_use users keys tok) (ZeroDowntimeDeploy t spec name) (rows, tr) = (r, (rows', tr'))"
  shows "(\<exists>msg. r = Inl (ExecutorError msg)) \<and>
    (\<exists>cs. tr' = tr @ cs \<and> set cs \<subseteq> set (clean_calls t (candidate_of spec name)) \<union>
       {CRun t (candidate_argv spec name (derive_host_port internal + 10000) internal),
        CRun t (probe_argv svc (derive_host_port internal + 10000))})"
proof -
  let ?p = "CRun t (probe_argv svc (derive_host_port internal + 10000))"
  let ?tr2 = "(tr @ clean_calls t (candidate_of spec name)) @ [CRun t (candidate_argv spec name (derive_host_port internal + 10000) internal)]"
  obtain n where "health_poll (recording_host an) t svc (derive_host_port internal + 10000) ?tr2 = (Inr False, ?tr2 @ replicate n ?p)"
    using poll_unhealthy [of an t "probe_argv svc (derive_host_port internal + 10000)" "s_hc_interval svc" 60 0 ?tr2] assms(3,4)
    by (auto simp: health_poll_def)
  then have "deploy_body (recording_ctx an in_use users keys tok) t spec name svc internal (rows, ?tr2) =
      (Inl (ExecutorError ''candidate did not become healthy''), (rows, ?tr2 @ replicate n ?p))"
    by (simp add: deploy_body_def Let_def bind_act_def on_host_def raise_act_def)
  then show ?thesis
    using assms(5) by (auto simp: deploy_recorded [OF assms(1,2)] Let_def split: sum.splits)
qed

definition example_health :: stack_spec where
  "example_health = example_web\<lparr>st_services := [example_service'\<lparr>s_hc_enabled := True\<rparr>]\<rparr>"

lemma example_health_find:
  "find (\<lambda>s. s_name s = ''web'') (st_services example_health) = Some (example_service'\<lparr>s_hc_enabled := True\<rparr>)"
  "s_internal_port (example_service'\<lparr>s_hc_enabled := True\<rparr>) = Some 80"
  by (simp_all add: example_health_def example_service'_def example_service_def service_defaults_def)

definition refused :: "hcall list \<Rightarrow> hcall \<Rightarrow> command_result res" where
  "refused tr c = Inr \<lparr>cr_returncode = (case c of CRun _ av \<Rightarrow> if hd av = ''curl'' then 7 else 0 | _ \<Rightarrow> 0),
     cr_stdout = [], cr_stderr = []\<rparr>"

theorem unhealthy_candidate_harmless_witness:
  "\<exists>msg. fst (execute (recording_ctx (answers_with (\<lambda>_ _. Inr ()) refused) (\<lambda>_. False) {||} (\<lambda>_. Inr []) (\<lambda>_ _. None))
      (ZeroDowntimeDeploy ''hosty-t-7'' example_health ''web'') (example_rows, [])) = Inl (ExecutorError msg)"
proof -
  obtain r rows tr where c: "execute (recording_ctx (answers_with (\<lambda>_ _. Inr ()) refused) (\<lambda>_. False) {||} (\<lambda>_. Inr []) (\<lambda>_ _. None))
      (ZeroDowntimeDeploy ''hosty-t-7'' example_health ''web'') (example_rows, []) = (r, (rows, tr))"
    by (metis prod.exhaust)
  from unhealthy_candidate_harmless [OF example_health_find _ _ c] show ?thesis
    unfolding c by (auto simp: refused_def probe_argv_def)
qed

subsection \<open>Where deploys go wrong\<close>

text \<open>\<open>Stack.loopback_ip\<close> of \<open>backend/app/db/models.py\<close>: 127.1.0.0 plus the row id.\<close>

definition stack_loopback_ip :: "int \<Rightarrow> string res" where
  "stack_loopback_ip i =
     (let n = 2130771968 + i
      in if i = 0 then Inl ValueError
         else if n < 0 \<or> 2 ^ 32 \<le> n then Inl ValueError
         else Inr (join ''.'' (map (\<lambda>k. int_str (n div 2 ^ k mod 256)) [24, 16, 8, 0])))"

lemma int_str_inject: "0 \<le> a \<Longrightarrow> 0 \<le> b \<Longrightarrow> int_str a = int_str b \<longleftrightarrow> a = b"
  by (auto simp: int_str_def)

lemma int_str_no_dot: "CHR ''.'' \<notin> set (int_str i)"
  using nat_str_digits [of "CHR ''.''"] by (auto simp: int_str_def ascii_digit_range)

lemma no_dot_prefix: "CHR ''.'' \<notin> set a \<Longrightarrow> CHR ''.'' \<notin> set b \<Longrightarrow> a @ CHR ''.'' # x = b @ CHR ''.'' # y \<Longrightarrow> a = b \<and> x = y"
proof (induction a arbitrary: b)
  case Nil
  then show ?case by (cases b) auto
next
  case (Cons c a)
  then show ?case by (cases b) auto
qed

lemma loopback_not_localhost:
  assumes "stack_loopback_ip i = Inr ip" "1 \<le> i"
  shows "ip \<noteq> ''127.0.0.1''"
proof
  let ?n = "2130771968 + i"
  assume ip: "ip = ''127.0.0.1''"
  have r: "?n < 2 ^ 32" "ip = int_str (?n div 2 ^ 24 mod 256) @ CHR ''.'' # int_str (?n div 2 ^ 16 mod 256) @ CHR ''.''
      # int_str (?n div 2 ^ 8 mod 256) @ CHR ''.'' # int_str (?n mod 256)"
    using assms by (auto simp: stack_loopback_ip_def Let_def split: if_splits)
  have one: "int_str 127 = ''127''" "int_str 0 = ''0''" by code_simp+
  have "int_str (?n div 2 ^ 24 mod 256) = ''127'' \<and> int_str (?n div 2 ^ 16 mod 256) = ''0''"
  proof -
    have eq: "int_str (?n div 2 ^ 24 mod 256) @ CHR ''.'' # (int_str (?n div 2 ^ 16 mod 256) @ CHR ''.''
      # int_str (?n div 2 ^ 8 mod 256) @ CHR ''.'' # int_str (?n mod 256)) = ''127'' @ CHR ''.'' # (''0'' @ CHR ''.'' # ''0.1'')"
      using ip r(2) by simp
    have nd: "CHR ''.'' \<notin> set ''127''" "CHR ''.'' \<notin> set ''0''" by simp_all
    note first = no_dot_prefix [OF int_str_no_dot nd(1) eq]
    show ?thesis using first no_dot_prefix [OF int_str_no_dot nd(2) conjunct2 [OF first]] by blast
  qed
  then have "?n div 2 ^ 24 mod 256 = 127" "?n div 2 ^ 16 mod 256 = 0"
    unfolding one [symmetric] by (simp_all add: int_str_inject)
  moreover have "?n div 2 ^ 24 = ?n div 2 ^ 16 div 256" by (simp add: zdiv_zmult2_eq [symmetric])
  moreover have "?n div 2 ^ 24 < 256" "32513 \<le> ?n div 2 ^ 16" using r(1) assms(2) by simp_all
  moreover have False if "q div 256 mod 256 = 127" "q mod 256 = 0" "q div 256 < 256" "32513 \<le> q" for q :: int
  proof -
    have "0 \<le> q div 256" using that(4) by (simp add: pos_imp_zdiv_nonneg_iff)
    then have "q div 256 = 127" using that(1,3) mod_pos_pos_trivial [of "q div 256" 256] by simp
    then show False using that(2,4) div_mult_mod_eq [of q 256] by simp
  qed
  ultimately show False by metis
qed

text \<open>The health check of a deploy probes an address nothing is published on: the candidate publishes
  its port on the loopback address of the stack, which is never 127.0.0.1, but the probe asks
  127.0.0.1.\<close>

theorem probe_not_published:
  assumes "1 \<le> i" "stack_loopback_ip i = Inr ip" "st_loopback_ip spec = ip"
  shows "\<exists>rest. probe_argv svc port ! 4 = ''http://127.0.0.1:'' @ int_str port @ rest
    \<and> candidate_argv spec name port internal ! 10 = ip @ '':'' @ int_str port @ '':'' @ int_str internal
    \<and> ip \<noteq> ''127.0.0.1''"
  using loopback_not_localhost [OF assms(2,1)] assms(3) by (simp add: probe_argv_def candidate_argv_def)

theorem probe_not_published_witness:
  "stack_loopback_ip 7 = Inr ''127.1.0.7'' \<and>
   candidate_argv (example_web\<lparr>st_loopback_ip := ''127.1.0.7''\<rparr>) ''web'' 90 80 ! 10 = ''127.1.0.7:90:80''"
proof -
  have i: "stack_loopback_ip 7 = Inr ''127.1.0.7''" by code_simp
  have s: "int_str 90 = ''90''" "int_str 80 = ''80''" by code_simp+
  have "candidate_argv (example_web\<lparr>st_loopback_ip := ''127.1.0.7''\<rparr>) ''web'' 90 80 ! 10
      = ''127.1.0.7'' @ '':'' @ int_str 90 @ '':'' @ int_str 80"
  proof -
    have p: "(1::int) \<le> 7" "st_loopback_ip (example_web\<lparr>st_loopback_ip := ''127.1.0.7''\<rparr>) = ''127.1.0.7''" by simp_all
    show ?thesis using probe_not_published [OF p(1) i p(2), of example_service' 90 "''web''" 80] by blast
  qed
  then show ?thesis using i unfolding s by simp
qed

lemma swaps_ok:
  assumes "\<And>tr d. an_unit an tr (CPatch d up) = Inr ()"
  shows "each_act (swap_one (recording_ctx an in_use users keys tok) up) ds tr = (Inr (), tr @ map (\<lambda>d. CPatch d up) ds)"
  using assms by (induction ds arbitrary: tr) (simp_all add: ret_act_def bind_act_def swap_one_def ask_def)

text \<open>When the routes were swapped to the candidate and the unit then fails to start with an error that
  is not a missing unit, the error is raised and the candidate removed, with no attempt to swap the routes
  back or to restart the unit: every domain of the service is left routed to a container that is gone.\<close>

theorem deploy_strands_routes:
  assumes "find (\<lambda>s. s_name s = name) (st_services spec) = Some svc" "s_internal_port svc = Some internal"
    and "\<not> s_hc_enabled svc" "\<not> is_unit_missing msg"
    and "\<And>tr c. an_unit an tr c = (if c = CControl t ''start'' (service_unit_name (st_name spec) name)
          then Inl (SystemdUserError msg) else Inr ())"
    and "\<And>tr c. \<exists>x. an_run an tr c = Inr x"
  shows "execute (recording_ctx an in_use users keys tok) (ZeroDowntimeDeploy t spec name) (rows, tr) =
    (Inl (SystemdUserError msg), (rows, tr @ clean_calls t (candidate_of spec name)
       @ [CRun t (candidate_argv spec name (derive_host_port internal + 10000) internal)]
       @ map (\<lambda>e. CPatch (e_domain e) (st_loopback_ip spec @ '':'' @ int_str (derive_host_port internal + 10000)))
           (filter (\<lambda>e. e_service e = name) (st_endpoints spec))
       @ [CControl t ''stop'' (service_unit_name (st_name spec) name),
          CControl t ''start'' (service_unit_name (st_name spec) name)]
       @ clean_calls t (candidate_of spec name)))"
proof -
  have patch: "an_unit an tr (CPatch d up) = Inr ()" for tr d up using assms(5) by simp
  have ctl: "an_unit an tr (CControl t ''stop'' u) = Inr ()"
    "an_unit an tr (CControl t ''start'' (service_unit_name (st_name spec) name)) = Inl (SystemdUserError msg)" for tr u
    by (simp_all add: assms(5))
  have start: "control_service (recording_ctx an in_use users keys tok) t (st_name spec) name ''start'' (rows, w) =
      (Inl (SystemdUserError msg), (rows, w @ [CControl t ''start'' (service_unit_name (st_name spec) name)]))" for w
    using assms(4) by (simp add: control_service_def bind_act_def on_host_def ret_act_def ask_def ctl)
  have poll: "health_poll (recording_host an) t svc p w = (Inr True, w)" for p w
    using assms(3) by (simp add: health_poll_def ret_act_def)
  let ?ds = "map e_domain (filter (\<lambda>e. e_service e = name) (st_endpoints spec))"
  let ?up = "st_loopback_ip spec @ '':'' @ int_str (derive_host_port internal + 10000)"
  have body: "deploy_body (recording_ctx an in_use users keys tok) t spec name svc internal (rows, w) =
    (Inl (SystemdUserError msg), (rows, w @ map (\<lambda>d. CPatch d ?up) ?ds
       @ [CControl t ''stop'' (service_unit_name (st_name spec) name),
          CControl t ''start'' (service_unit_name (st_name spec) name)]))" for w
    by (simp add: deploy_body_def Let_def bind_act_def on_host_def poll swaps_ok [of an, OF patch] ask_def ctl start)
  let ?run = "CRun t (candidate_argv spec name (derive_host_port internal + 10000) internal)"
  obtain x where x: "an_run an (tr @ clean_calls t (candidate_of spec name)) ?run = Inr x"
    using assms(6) by blast
  have m: "map (\<lambda>d. CPatch d ?up) ?ds = map (\<lambda>e. CPatch (e_domain e) ?up) (filter (\<lambda>e. e_service e = name) (st_endpoints spec))"
    by simp
  show ?thesis
    unfolding execute.simps deploy_recorded [OF assms(1,2)] Let_def x sum.case body prod.case m append_assoc
    by (rule refl)
qed

definition pull_fails :: "hcall list \<Rightarrow> hcall \<Rightarrow> unit res" where
  "pull_fails tr c = (if c = CControl ''hosty-t-7'' ''start'' (service_unit_name (st_name example_web) ''web'')
     then Inl (SystemdUserError ''image pull failed'') else Inr ())"

theorem deploy_strands_routes_witness:
  "fst (execute (recording_ctx (answers_with pull_fails ok_run) (\<lambda>_. False) {||} (\<lambda>_. Inr []) (\<lambda>_ _. None))
      (ZeroDowntimeDeploy ''hosty-t-7'' example_web ''web'') (example_rows, [])) = Inl (SystemdUserError ''image pull failed'')"
proof -
  have h: "\<not> s_hc_enabled example_service'" by (simp add: example_service'_def example_service_def service_defaults_def)
  have m: "\<not> is_unit_missing ''image pull failed''" by code_simp
  have a: "an_unit (answers_with pull_fails ok_run) tr c =
      (if c = CControl ''hosty-t-7'' ''start'' (service_unit_name (st_name example_web) ''web'')
       then Inl (SystemdUserError ''image pull failed'') else Inr ())"
    "\<exists>x. an_run (answers_with pull_fails ok_run) tr c = Inr x" for tr c
    by (simp_all only: answers_with_sel pull_fails_def ok_run_def) blast
  show ?thesis unfolding deploy_strands_routes [OF example_web_find h m a] fst_conv by (rule refl)
qed

end
