(* ===== verification/Refinement.thy ===== *)
theory Refinement
  imports Executor
begin

text \<open>
  The reconciler run with the executor of \<open>Executor\<close>.  The host below it keeps, per stack, what the
  rendered files say about themselves: a written set of unit files is read back through its markers, as
  the scan of \<open>Stackhost\<close> and \<open>Observer\<close> does.  A control call names a unit; it reaches the one service whose
  container is called so, and fails when there is none or more than one.  Env files, keys, left-over
  containers and other commands do not show in an observation.  On this host the executor, action by
  action, does what the reference host of \<open>HostModel\<close> does, so the interface \<open>executing\<close> of \<open>Cycle\<close> is
  interpreted and a whole cycle converges.
\<close>

subsection \<open>The host\<close>

definition written_units :: "string \<Rightarrow> dir \<Rightarrow> unit_file list" where
  "written_units n files = filter (\<lambda>u. uf_stack u = n) (collect_units files)"

definition store_units :: "string \<Rightarrow> string \<Rightarrow> dir \<Rightarrow> model_host \<Rightarrow> model_host" where
  "store_units n t files m =
     put n ((entry m n t)\<lparr>ss_tenant := t,
         ss_files := fmmap ou_spec_hash (fold (units_step {||}) (written_units n files) fmempty),
         ss_builds := fold builds_step (written_units n files) fmempty\<rparr>) m"

definition units_named :: "model_host \<Rightarrow> string \<Rightarrow> (string \<times> string) list" where
  "units_named m u =
     concat (map (\<lambda>n. case fmlookup (mh_stacks m) n of
         None \<Rightarrow> []
       | Some s \<Rightarrow> map (Pair n) (filter (\<lambda>svc. service_unit_name n svc = u)
           (sorted_list_of_fset (fmdom (ss_files s) |\<union>| ss_active s)))) (sorted_keys (mh_stacks m)))"

definition control_unit :: "string \<Rightarrow> string \<Rightarrow> string \<Rightarrow> (model_host, unit) act" where
  "control_unit t vb u m =
     (case units_named m u of
        [(n, svc)] \<Rightarrow>
          if vb = ''stop'' then (Inr (), modify n (\<lambda>s. s\<lparr>ss_active := ss_active s |-| {|svc|}\<rparr>) m)
          else (case start_effect t n svc m of
                  Inl _ \<Rightarrow> (Inl (SystemdUserError ''unit failed''), m)
                | Inr m' \<Rightarrow> (Inr (), m'))
      | _ \<Rightarrow> (Inl (SystemdUserError (u @ '' not loaded'')), m))"

definition tenant_stacks :: "model_host \<Rightarrow> string \<Rightarrow> string list" where
  "tenant_stacks m t =
     filter (\<lambda>n. case fmlookup (mh_stacks m) n of None \<Rightarrow> False | Some s \<Rightarrow> ss_tenant s = t) (sorted_keys (mh_stacks m))"

text \<open>Unit files and volume directories of the tenant; running containers are not part of the scan.\<close>

definition scan_of :: "model_host \<Rightarrow> string \<Rightarrow> unit_file list \<times> volumes" where
  "scan_of m t =
     (concat (map (\<lambda>n. case fmlookup (mh_stacks m) n of None \<Rightarrow> [] | Some s \<Rightarrow>
          map (\<lambda>svc. \<lparr>uf_name = container_file_name n svc, uf_stack = n, uf_service = Some svc,
                  uf_hash = fmget (ss_files s) svc None\<rparr>) (sorted_keys (ss_files s))
          @ map (\<lambda>svc. \<lparr>uf_name = n @ ''-'' @ svc @ ''-build.service'', uf_stack = n, uf_service = Some svc,
                  uf_hash = fmget (ss_builds s) svc None\<rparr>) (sorted_keys (ss_builds s))) (tenant_stacks m t)),
      fmfilter (\<lambda>n. case fmlookup (mh_stacks m) n of None \<Rightarrow> False | Some s \<Rightarrow> ss_tenant s = t \<and> ss_dirs s \<noteq> {||})
        (fmmap ss_dirs (mh_stacks m)))"

text \<open>\<open>userdel\<close> refuses a user with running processes.\<close>

definition drop_user :: "string \<Rightarrow> (model_host, bool) act" where
  "drop_user t m =
     (if list_ex (\<lambda>n. case fmlookup (mh_stacks m) n of None \<Rightarrow> False | Some s \<Rightarrow> ss_active s \<noteq> {||}) (tenant_stacks m t)
      then (Inl TenantOperationError, m)
      else (Inr True, m\<lparr>mh_tenants := mh_tenants m |-| {|t|}\<rparr>))"

definition model_host_ctx :: "(string \<Rightarrow> int) \<Rightarrow> model_host host_ctx" where
  "model_host_ctx uids =
     \<lparr>hc_sync_units = (\<lambda>uid n t files m. (Inr True, store_units n t files m)),
      hc_remove_units = (\<lambda>uid n t m. (Inr True, modify n (\<lambda>s. s\<lparr>ss_files := fmempty, ss_builds := fmempty\<rparr>) m)),
      hc_scan_tenant = (\<lambda>uid t m. (Inr (scan_of m t), m)),
      hc_sync_env_files = (\<lambda>t n files. ret_act True),
      hc_remove_env_files = (\<lambda>t n. ret_act True),
      hc_sync_ssh_keys = (\<lambda>t keys. ret_act ()),
      hc_ensure_volume_dir = (\<lambda>t n v m. (Inr (), put n ((entry m n t)\<lparr>ss_dirs := finsert v (ss_dirs (entry m n t))\<rparr>) m)),
      hc_remove_volume_dir = (\<lambda>t n v m. (Inr (), modify n (\<lambda>s. s\<lparr>ss_dirs := ss_dirs s |-| {|v|}\<rparr>) m)),
      hc_daemon_reload = (\<lambda>t. ret_act ()),
      hc_control_service = control_unit,
      hc_remove_stack_containers = (\<lambda>uid n. ret_act ()),
      hc_provision_tenant = (\<lambda>t start count m. (Inr (uids t), m\<lparr>mh_tenants := finsert t (mh_tenants m)\<rparr>)),
      hc_remove_tenant = drop_user,
      hc_run_as_tenant = (\<lambda>t argv. ret_act \<lparr>cr_returncode = 0, cr_stdout = [], cr_stderr = []\<rparr>)\<rparr>"

definition model_ctx :: "(string \<Rightarrow> int) \<Rightarrow> int fset \<Rightarrow> (string \<Rightarrow> int \<Rightarrow> string option) \<Rightarrow> string fset \<Rightarrow> model_host exec_ctx" where
  "model_ctx uids users tok use =
     \<lparr>ec_host = model_host_ctx uids, ec_sync_caddy = ret_act (), ec_patch_upstream = (\<lambda>d u. ret_act ()),
      ec_tenant_in_use = (\<lambda>t. t |\<in>| use), ec_users = users, ec_keys = (\<lambda>_. Inr []), ec_git_token = tok\<rparr>"

text \<open>How the reconciler calls the executor: \<open>str(exc)\<close> of the exception, if any.\<close>

definition exn_text :: "exn \<Rightarrow> string" where
  "exn_text e = (case e of ExecutorError m \<Rightarrow> m | SystemdUserError m \<Rightarrow> m | CaddyError m \<Rightarrow> m | _ \<Rightarrow> [])"

definition as_executor :: "'w exec_ctx \<Rightarrow> (ledger \<times> 'w) executor" where
  "as_executor ctx a w = (case execute ctx a w of (Inl e, w') \<Rightarrow> (Some (exn_text e), w') | (Inr _, w') \<Rightarrow> (None, w'))"

subsection \<open>Sound states and actions\<close>

text \<open>\<open>U\<close> is a universe of (stack, service) pairs in which every unit name belongs to one pair.\<close>

definition hosted :: "model_host \<Rightarrow> (string \<times> string) set" where
  "hosted m = {(n, svc). \<exists>s. fmlookup (mh_stacks m) n = Some s \<and> (svc |\<in>| fmdom (ss_files s) \<or> svc |\<in>| ss_active s)}"

definition ledger_named :: "ledger \<Rightarrow> bool" where
  "ledger_named rows \<longleftrightarrow> distinct (map tn_user_id rows) \<and> (\<forall>r\<in>set rows. tn_linux_user r = ''hosty-t-'' @ int_str (tn_user_id r))"

definition sound_state :: "(string \<times> string) set \<Rightarrow> ledger \<times> model_host \<Rightarrow> bool" where
  "sound_state U w \<longleftrightarrow> inj_on (\<lambda>(n, svc). service_unit_name n svc) U \<and> hosted (snd w) \<subseteq> U \<and> ledger_named (fst w)
     \<and> (\<forall>r\<in>set (fst w). tn_uid r = None \<longrightarrow> tn_linux_user r |\<notin>| mh_tenants (snd w))"

definition sound_spec :: "(string \<times> string) set \<Rightarrow> (string \<Rightarrow> int \<Rightarrow> string option) \<Rightarrow> stack_spec \<Rightarrow> bool" where
  "sound_spec U tok spec \<longleftrightarrow> (\<exists>u\<ge>0. st_tenant spec = ''hosty-t-'' @ int_str u) \<and> stack_wf spec
     \<and> git_ok spec None \<and> (\<forall>u. git_ok spec (tok (st_name spec) u))
     \<and> (\<forall>s\<in>set (st_services spec). (\<exists>v. validate_slug (s_name s) = Inr v) \<and> (st_name spec, s_name s) \<in> U)"

definition sound_action :: "(string \<times> string) set \<Rightarrow> (string \<Rightarrow> int \<Rightarrow> string option) \<Rightarrow> action \<Rightarrow> bool" where
  "sound_action U tok a \<longleftrightarrow>
     (case a of EnsureTenant t \<Rightarrow> \<exists>u\<ge>0. t = ''hosty-t-'' @ int_str u
      | WriteUnits spec \<Rightarrow> sound_spec U tok spec
      | StartService t n svc \<Rightarrow> (n, svc) \<in> U | StopService t n svc \<Rightarrow> (n, svc) \<in> U | RestartService t n svc \<Rightarrow> (n, svc) \<in> U
      | _ \<Rightarrow> True)"

lemma model_ctx_sel [simp]:
  "ec_host (model_ctx uids users tok use) = model_host_ctx uids"
  "ec_sync_caddy (model_ctx uids users tok use) = ret_act ()"
  "ec_tenant_in_use (model_ctx uids users tok use) = (\<lambda>t. t |\<in>| use)"
  "ec_users (model_ctx uids users tok use) = users" "ec_keys (model_ctx uids users tok use) = (\<lambda>_. Inr [])"
  "ec_git_token (model_ctx uids users tok use) = tok"
  by (simp_all add: model_ctx_def)

lemma as_executor_None: "as_executor ctx a w = (None, w') \<longleftrightarrow> (\<exists>u. execute ctx a w = (Inr u, w'))"
  by (auto simp: as_executor_def split: prod.splits sum.splits)

lemma bind_act_Inr: "bind_act m f w = (Inr y, w') \<longleftrightarrow> (\<exists>x w1. m w = (Inr x, w1) \<and> f x w1 = (Inr y, w'))"
  by (auto simp: bind_act_def split: prod.splits sum.splits)

lemma on_host_Inr: "on_host m (rows, w) = (Inr y, (rows', w')) \<longleftrightarrow> m w = (Inr y, w') \<and> rows' = rows"
  by (auto simp: on_host_def split: prod.splits)

lemmas act_simps = bind_act_Inr on_host_Inr ret_act_def raise_act_def lift_res_def

lemma model_host_sel [simp]:
  "hc_sync_units (model_host_ctx uids) = (\<lambda>uid n t files m. (Inr True, store_units n t files m))"
  "hc_remove_units (model_host_ctx uids) = (\<lambda>uid n t m. (Inr True, modify n (\<lambda>s. s\<lparr>ss_files := fmempty, ss_builds := fmempty\<rparr>) m))"
  "hc_scan_tenant (model_host_ctx uids) = (\<lambda>uid t m. (Inr (scan_of m t), m))"
  "hc_sync_env_files (model_host_ctx uids) = (\<lambda>t n files. ret_act True)"
  "hc_remove_env_files (model_host_ctx uids) = (\<lambda>t n. ret_act True)"
  "hc_sync_ssh_keys (model_host_ctx uids) = (\<lambda>t keys. ret_act ())"
  "hc_ensure_volume_dir (model_host_ctx uids) = (\<lambda>t n v m. (Inr (), put n ((entry m n t)\<lparr>ss_dirs := finsert v (ss_dirs (entry m n t))\<rparr>) m))"
  "hc_remove_volume_dir (model_host_ctx uids) = (\<lambda>t n v m. (Inr (), modify n (\<lambda>s. s\<lparr>ss_dirs := ss_dirs s |-| {|v|}\<rparr>) m))"
  "hc_daemon_reload (model_host_ctx uids) = (\<lambda>t. ret_act ())" "hc_control_service (model_host_ctx uids) = control_unit"
  "hc_remove_stack_containers (model_host_ctx uids) = (\<lambda>uid n. ret_act ())"
  "hc_provision_tenant (model_host_ctx uids) = (\<lambda>t start count m. (Inr (uids t), m\<lparr>mh_tenants := finsert t (mh_tenants m)\<rparr>))"
  "hc_remove_tenant (model_host_ctx uids) = drop_user"
  by (simp_all add: model_host_ctx_def)

lemma below_trans: "below a b \<Longrightarrow> below b c \<Longrightarrow> below a c"
  by (auto simp: below_def)

lemma hosted_tenants [simp]: "hosted (m\<lparr>mh_tenants := T\<rparr>) = hosted m"
  by (simp add: hosted_def)

lemma hosted_put: "hosted (put n s m) \<subseteq> hosted m \<union> {n} \<times> (fset (fmdom (ss_files s)) \<union> fset (ss_active s))"
  by (auto simp: hosted_def split: if_splits)

lemma hosted_modify:
  assumes "\<And>s. fset (fmdom (ss_files (f s))) \<union> fset (ss_active (f s)) \<subseteq> fset (fmdom (ss_files s)) \<union> fset (ss_active s)"
  shows "hosted (modify n f m) \<subseteq> hosted m"
proof (cases "fmlookup (mh_stacks m) n")
  case (Some s)
  then have "{n} \<times> (fset (fmdom (ss_files (f s))) \<union> fset (ss_active (f s))) \<subseteq> hosted m"
    using assms [of s] by (auto simp: hosted_def)
  then show ?thesis using hosted_put [of n "f s" m] Some by auto
qed (simp add: modify_def)

lemma units_named_iff: "(n, svc) \<in> set (units_named m u) \<longleftrightarrow> (n, svc) \<in> hosted m \<and> service_unit_name n svc = u"
proof
  assume "(n, svc) \<in> set (units_named m u)"
  then show "(n, svc) \<in> hosted m \<and> service_unit_name n svc = u"
    by (auto simp: units_named_def hosted_def set_sorted_list_of_fset split: option.splits)
next
  assume h: "(n, svc) \<in> hosted m \<and> service_unit_name n svc = u"
  then obtain s where s: "fmlookup (mh_stacks m) n = Some s" "svc |\<in>| fmdom (ss_files s) \<or> svc |\<in>| ss_active s"
    by (auto simp: hosted_def)
  then have "n \<in> set (sorted_keys (mh_stacks m))" by (simp add: fmdomI)
  moreover have "(n, svc) \<in> set (case fmlookup (mh_stacks m) n of None \<Rightarrow> [] | Some s \<Rightarrow> map (Pair n)
      (filter (\<lambda>v. service_unit_name n v = u) (sorted_list_of_fset (fmdom (ss_files s) |\<union>| ss_active s))))"
    using s h by (auto simp: set_sorted_list_of_fset)
  ultimately show "(n, svc) \<in> set (units_named m u)" unfolding units_named_def set_concat set_map by blast
qed

text \<open>In a sound state a control call for a service of the universe reaches that service or fails.\<close>

lemma control_unit_sound:
  assumes "sound_state U (rows, m)" "(n, svc) \<in> U" "control_unit t vb (service_unit_name n svc) m = (Inr u, m')"
  shows "(n, svc) \<in> hosted m"
    "vb = ''stop'' \<Longrightarrow> m' = modify n (\<lambda>s. s\<lparr>ss_active := ss_active s |-| {|svc|}\<rparr>) m"
    "vb \<noteq> ''stop'' \<Longrightarrow> start_effect t n svc m = Inr m'"
proof -
  obtain n' svc' where one: "units_named m (service_unit_name n svc) = [(n', svc')]"
    using assms(3) by (auto simp: control_unit_def split: list.splits prod.splits)
  then have h: "(n', svc') \<in> hosted m" "service_unit_name n' svc' = service_unit_name n svc"
    using units_named_iff [of n' svc' m] by (metis list.set_intros(1))+
  then have eq: "n' = n" "svc' = svc"
    using assms(1,2) inj_onD [of "\<lambda>(n, svc). service_unit_name n svc" U "(n', svc')" "(n, svc)"]
    by (auto simp: sound_state_def)
  show "(n, svc) \<in> hosted m" using h(1) eq by simp
  show "vb = ''stop'' \<Longrightarrow> m' = modify n (\<lambda>s. s\<lparr>ss_active := ss_active s |-| {|svc|}\<rparr>) m"
    "vb \<noteq> ''stop'' \<Longrightarrow> start_effect t n svc m = Inr m'"
    using assms(3) by (auto simp: control_unit_def one eq split: sum.splits)
qed

lemma control_attempts_sound:
  assumes "control_attempts (model_host_ctx uids) t vb u ds m = (Inr True, m')"
  shows "\<exists>x. control_unit t vb u m = (Inr x, m')"
  using assms
proof (induction ds)
  case Nil
  then show ?case by (simp add: ret_act_def)
next
  case (Cons d ds)
  have "snd (control_unit t vb u m) = m \<or> (\<exists>x m1. control_unit t vb u m = (Inr x, m1))"
    by (auto simp: control_unit_def split: list.splits sum.splits prod.splits)
  then show ?case
    using Cons
    by (cases d; cases "control_unit t vb u m")
      (auto simp: bind_act_def ret_act_def split: sum.splits exn.splits if_splits)
qed

lemma start_sound:
  assumes "sound_state U (rows, m)" "(n, svc) \<in> U" "vb \<noteq> ''stop''"
    and "control_service (model_ctx uids users tok use) t n svc vb (rows, m) = (Inr u, (rows', m'))"
  shows "rows' = rows \<and> start_effect t n svc m = Inr m'"
proof -
  obtain b where "control_attempts (model_host_ctx uids) t vb (service_unit_name n svc)
      (False # replicate regenerate_retry_delays True) m = (Inr b, m')" "b" "rows' = rows"
    using assms(4) by (auto simp: control_service_def act_simps uid_for_def split: if_splits)
  then show ?thesis
    using control_attempts_sound control_unit_sound(3) [OF assms(1,2) _ assms(3)] by (metis (full_types))
qed

subsection \<open>Every action of the executor simulates the reference host\<close>

lemma store_rendered:
  assumes "rendered spec token D"
  shows "store_units (st_name spec) (st_tenant spec) D m =
    put (st_name spec) ((entry m (st_name spec) (st_tenant spec))\<lparr>ss_tenant := st_tenant spec,
      ss_files := file_hashes spec, ss_builds := build_hashes spec\<rparr>) m"
proof -
  let ?us = "written_units (st_name spec) D"
  have "stack_files_on_disk D (st_name spec) = D"
    using rendered_attributed [OF assms] by (intro fmap_ext) (auto simp: stack_files_on_disk_def attributed_all_def)
  then have us: "u \<in> set ?us \<longleftrightarrow> (\<exists>f c. fmlookup D f = Some c \<and> u = as_unit (st_name spec) f c)" for u
    using collect_units_iff [of u D "st_name spec"] by (auto simp: written_units_def)
  have "fmmap ou_spec_hash (fold (units_step {||}) ?us fmempty) = file_hashes spec"
    by (rule fmap_ext) (simp add: read_rendered(1) [OF assms us] file_hashes_def option.map_comp o_def)
  then show ?thesis
    by (simp add: store_units_def Let_def read_rendered(2) [OF assms us])
qed

definition keeps_sound :: "(string \<times> string) set \<Rightarrow> ledger \<times> model_host \<Rightarrow> ledger \<times> model_host \<Rightarrow> model_host \<Rightarrow> bool" where
  "keeps_sound U w w' m1 \<longleftrightarrow> (sound_state U w \<longrightarrow> sound_state U w' \<and> below m1 (snd w'))"

text \<open>Changes of the stacks that leave ledger and tenants alone.\<close>

lemma keeps_same_ledger:
  assumes "mh_tenants m' = mh_tenants m" "sound_state U (rows, m) \<Longrightarrow> hosted m' \<subseteq> U"
  shows "keeps_sound U (rows, m) (rows, m') m'"
  using assms by (auto simp: keeps_sound_def sound_state_def)

lemma start_effect_facts:
  "start_effect t n svc m = Inr m' \<Longrightarrow> mh_tenants m' = mh_tenants m \<and> hosted m' \<subseteq> insert (n, svc) (hosted m)"
  by (auto simp: start_effect_def hosted_def split: option.splits if_splits)

lemma modify_tenants [simp]: "mh_tenants (modify n f m) = mh_tenants m"
  by (simp add: modify_def split: option.split)

lemma sound_hosted: "sound_state U (rows, m) \<Longrightarrow> hosted m \<subseteq> U"
  by (simp add: sound_state_def)

lemma sim_start:
  assumes "sound_state U (rows, m)" "(n, svc) \<in> U" "vb \<noteq> ''stop''"
    and "control_service (model_ctx uids users tok use) t n svc vb (rows, m) = (Inr u, w')" "start_effect t n svc m = Inr m1"
  shows "keeps_sound U (rows, m) w' m1"
proof -
  obtain rows' m' where w: "w' = (rows', m')" by (cases w')
  then have "rows' = rows" "m' = m1" using start_sound [OF assms(1-3)] assms(4,5) by auto
  then show ?thesis
    using start_effect_facts [OF assms(5)] sound_hosted [OF assms(1)] assms(2) unfolding w
    by (auto intro!: keeps_same_ledger)
qed

lemma sim_write:
  assumes "sound_state U (rows, m)" "sound_spec U tok spec"
    and "write_units (model_ctx uids users tok use) spec (rows, m) = (Inr u, w')" "apply_one m (WriteUnits spec) = Inr m1"
  shows "keeps_sound U (rows, m) w' m1"
proof -
  let ?token = "resolve_git_token (model_ctx uids users tok use) spec"
  obtain files where f: "unit_files spec ?token = Inr files" "w' = (rows, store_units (st_name spec) (st_tenant spec) files m)"
    using assms(3) by (cases w') (auto simp: write_units_def act_simps uid_for_def)
  have "git_ok spec ?token"
    using assms(2) by (auto simp: resolve_git_token_def sound_spec_def split: sum.split)
  then have "rendered spec ?token files" using f(1) assms(2) by (auto simp: rendered_def sound_spec_def)
  then have m1: "store_units (st_name spec) (st_tenant spec) files m = m1"
    using assms(4) by (simp add: store_rendered Let_def split: if_splits)
  have files: "fset (fmdom (file_hashes spec)) = s_name ` set (st_services spec)"
    by (auto simp: file_hashes_def fset_of_list.rep_eq)
  let ?s = "entry m (st_name spec) (st_tenant spec)"
  have act: "{st_name spec} \<times> fset (ss_active ?s) \<subseteq> hosted m"
    by (auto simp: hosted_def entry_def fmget_def fresh_state_def split: option.splits)
  have mm: "m1 = put (st_name spec) (?s\<lparr>ss_tenant := st_tenant spec, ss_files := file_hashes spec, ss_builds := build_hashes spec\<rparr>) m"
    using assms(4) by (simp add: Let_def split: if_splits)
  have "hosted m1 \<subseteq> hosted m \<union> {st_name spec} \<times> (s_name ` set (st_services spec) \<union> fset (ss_active ?s))"
    unfolding mm using hosted_put [of "st_name spec" _ m] files by fastforce
  also have "\<dots> \<subseteq> U" using act assms(2) sound_hosted [OF assms(1)] by (auto simp: sound_spec_def)
  finally show ?thesis unfolding f(2) m1 mm [symmetric] by (intro keeps_same_ledger) (simp_all add: mm)
qed

lemma split_char_snoc: "c \<notin> set y \<Longrightarrow> last (split_char c (x @ c # y)) = y"
proof -
  assume y: "c \<notin> set y"
  have "last (split_char c (x @ c # y)) = y \<and> 1 < length (split_char c (x @ c # y))"
    by (induction x) (auto simp: split_char_single [OF y] split: list.split)
  then show ?thesis ..
qed

lemma tenant_user_id_name: "0 \<le> u \<Longrightarrow> tenant_user_id (''hosty-t-'' @ int_str u) = Inr u"
proof -
  assume u: "0 \<le> u"
  then have s: "int_str u = nat_str (nat u)" by (simp add: int_str_def)
  have "CHR ''-'' \<notin> set (nat_str (nat u))" using nat_str_digits by (auto simp: ascii_digit_range)
  then have "last (split_char CHR ''-'' (''hosty-t'' @ CHR ''-'' # nat_str (nat u))) = nat_str (nat u)"
    by (rule split_char_snoc)
  then show ?thesis using u py_int_nat_str [of "nat u"] by (simp add: tenant_user_id_def s del: split_char.simps)
qed

lemma int_str_eq: "int_str a = int_str b \<longleftrightarrow> a = b"
proof -
  have d: "CHR ''-'' \<notin> set (nat_str n)" for n
    using nat_str_digits [of "CHR ''-''" n] by (auto simp: ascii_digit_range)
  have "CHR ''-'' # x \<noteq> nat_str n" "nat_str n \<noteq> CHR ''-'' # x" for x n
    using d [of n] by (metis list.set_intros(1))+
  then show ?thesis by (auto simp: int_str_def)
qed

lemma reserve_named:
  assumes "reserve rows u = Inr (r, rows1)" "ledger_named rows"
  shows "tn_linux_user r = ''hosty-t-'' @ int_str u" "tn_user_id r = u" "r \<in> set rows1" "ledger_named rows1"
    "set rows1 \<subseteq> insert r (set rows)" "r \<in> set rows \<or> tn_uid r = None"
  using assms
  by (auto simp: reserve_def get_tenant_def linux_user_for_def validate_tenant_username_def ledger_named_def Let_def
      bind_res_eq_Inr find_Some_iff find_None_iff split: option.splits if_splits)

lemma sim_ensure:
  assumes "sound_state U (rows, m)" "t = ''hosty-t-'' @ int_str u0" "0 \<le> u0"
    and "execute (model_ctx uids users tok use) (EnsureTenant t) (rows, m) = (Inr x, w')"
  shows "keeps_sound U (rows, m) w' (m\<lparr>mh_tenants := finsert t (mh_tenants m)\<rparr>)"
proof -
  have named: "ledger_named rows" using assms(1) by (simp add: sound_state_def)
  have id: "tenant_user_id t = Inr u0" using assms(2,3) tenant_user_id_name by simp
  obtain row rows' m' where e: "ensure_tenant (hc_provision_tenant (model_host_ctx uids)) u0 (rows, m) = (Inr row, (rows', m'))"
      "w' = (rows', m')"
    using assms(4) by (cases w') (auto simp: act_simps id split: if_splits)
  then obtain r rows1 where r: "reserve rows u0 = Inr (r, rows1)"
    by (auto simp: ensure_tenant_def split: sum.splits prod.splits)
  note named1 = reserve_named [OF r named]
  have lu: "tn_linux_user r = t" using named1(1) assms(2) by simp
  have m': "m' = m\<lparr>mh_tenants := finsert t (mh_tenants m)\<rparr>"
    and rows': "rows' = (if tn_uid r \<noteq> Some (uids t) then set_uid u0 (uids t) rows1 else rows1)"
    using e(1) by (auto simp: ensure_tenant_def r lu split: if_splits)
  have "map tn_user_id (set_uid u0 (uids t) rows1) = map tn_user_id rows1" by (simp add: set_uid_def o_def)
  moreover have "\<forall>r\<in>set (set_uid u0 (uids t) rows1). tn_linux_user r = ''hosty-t-'' @ int_str (tn_user_id r)"
    using named1(4) by (auto simp: ledger_named_def set_uid_def)
  ultimately have "ledger_named rows'" using named1(4) by (auto simp only: rows' ledger_named_def split: if_splits)
  moreover have "tn_linux_user r' |\<notin>| mh_tenants m'" if r': "r' \<in> set rows'" "tn_uid r' = None" for r'
  proof -
    have "r' \<in> set rows1 \<and> tn_user_id r' \<noteq> u0 \<or> r' \<in> set rows1 \<and> tn_uid r = Some (uids t)"
      using r' by (auto simp: rows' set_uid_def split: if_splits)
    then have "r' \<in> set rows \<and> tn_user_id r' \<noteq> u0 \<or> r' \<in> set rows \<and> tn_uid r = Some (uids t)"
      using named1(2,5) r'(2) by auto
    moreover have "r' \<in> set rows \<Longrightarrow> tn_linux_user r' |\<notin>| mh_tenants m"
      using assms(1) r'(2) by (simp add: sound_state_def)
    moreover have "tn_user_id r' \<noteq> u0" if "r' \<in> set rows" "tn_uid r = Some (uids t)"
    proof
      assume "tn_user_id r' = u0"
      moreover have "r \<in> set rows" using named1(6) that(2) by auto
      ultimately have "r' = r"
        using named that(1) named1(2) by (metis distinct_map inj_onD ledger_named_def)
      then show False using that(2) r'(2) by simp
    qed
    ultimately show ?thesis
      using named by (auto simp: m' ledger_named_def assms(2) int_str_eq)
  qed
  ultimately show ?thesis
    using assms(1) by (auto simp: keeps_sound_def sound_state_def e(2) m')
qed

lemma scan_idle:
  assumes "fst (scan_of m t) = []" "fmdom (snd (scan_of m t)) = {||}" "drop_user t m = (Inr b, m')"
  shows "tenant_idle m t"
  unfolding tenant_idle_iff
proof (intro allI impI)
  fix n s
  assume s: "fmlookup (mh_stacks m) n = Some s" "ss_tenant s = t"
  then have n: "n \<in> set (tenant_stacks m t)" by (auto simp: tenant_stacks_def fmdomI)
  have "sorted_keys (ss_files s) = []" "sorted_keys (ss_builds s) = []"
    using assms(1) n s(1) by (auto simp: scan_of_def)
  moreover have "n |\<notin>| fmdom (snd (scan_of m t))" using assms(2) by simp
  then have "ss_dirs s = {||}" using s by (auto simp: scan_of_def fmlookup_dom_iff)
  moreover have "ss_active s = {||}"
    using assms(3) n s(1) by (auto simp: drop_user_def list_ex_iff split: if_splits)
  ultimately show "st_empty s" by (simp add: st_empty_def sorted_keys_def)
qed

lemma sim_remove:
  assumes "sound_state U (rows, m)"
    and "remove_tenant_if_empty t (model_ctx uids users tok use) (rows, m) = (Inr x, w')" "apply_one m (RemoveTenantIfEmpty t) = Inr m1"
  shows "keeps_sound U (rows, m) w' m1"
proof -
  have named: "ledger_named rows" using assms(1) by (simp add: sound_state_def)
  have b1: "below m1 m" using assms(3) by (auto simp: below_def split: if_splits)
  have stay: ?thesis if "w' = (rows, m)" using b1 that assms(1) by (simp add: keeps_sound_def)
  show ?thesis
  proof (cases "w' = (rows, m)")
    case False
    then obtain row where row: "find (\<lambda>r. tn_linux_user r = t) rows = Some row"
      using assms(2) by (auto simp: remove_tenant_if_empty_def split: if_splits option.splits)
    then have mem: "row \<in> set rows" "tn_linux_user row = t" by (auto simp: find_Some_iff)
    have e: "\<exists>b. remove_tenant drop_user (tn_user_id row) (rows, m) = (Inr b, w')"
      and scan: "tn_uid row \<noteq> None \<Longrightarrow> fst (scan_of m t) = [] \<and> fmdom (snd (scan_of m t)) = {||}"
      using assms(2) False row
      by (cases w', auto simp: remove_tenant_if_empty_def act_simps split: if_splits option.splits prod.splits)+
    obtain r where r: "get_tenant rows (tn_user_id row) = Some r"
      using mem(1) by (cases "get_tenant rows (tn_user_id row)") (auto simp: get_tenant_def find_None_iff)
    then have r': "tn_linux_user r = t"
      using mem named by (auto simp: get_tenant_def find_Some_iff ledger_named_def)
    obtain b m' where d: "drop_user t m = (Inr b, m')" "w' = (filter (\<lambda>r. tn_user_id r \<noteq> tn_user_id row) rows, m')"
      using e by (auto simp: remove_tenant_def r r' split: sum.splits prod.splits)
    have m': "m' = m\<lparr>mh_tenants := mh_tenants m |-| {|t|}\<rparr>" using d(1) by (auto simp: drop_user_def split: if_splits)
    have "below m1 m'"
    proof (cases "tn_uid row")
      case None
      then have "mh_tenants m |-| {|t|} = mh_tenants m" using assms(1) mem by (auto simp: sound_state_def)
      then show ?thesis using b1 by (auto simp: m' below_def)
    next
      case (Some uid)
      then have "tenant_idle m t" using scan_idle [OF _ _ d(1)] scan by simp
      then show ?thesis using assms(3) by (auto simp: m' below_def)
    qed
    moreover have "sound_state U w'"
      using assms(1) by (auto simp: d(2) m' sound_state_def ledger_named_def distinct_map_filter)
    ultimately show ?thesis by (simp add: keeps_sound_def d(2))
  qed (rule stay)
qed

lemma executor_simulates:
  assumes "sound_state U w" "sound_action U tok a" "as_executor (model_ctx uids users tok use) a w = (None, w')"
    and "\<not> is_zdd a" "below m (snd w)" "apply_one m a = Inr m'"
  shows "sound_state U w' \<and> below m' (snd w')"
proof -
  obtain rows k where w: "w = (rows, k)" by (cases w)
  obtain k1 where k1: "apply_one k a = Inr k1" "below m' k1"
    using apply_one_mono [OF _ assms(6), of k] assms(5) w by auto
  have s: "sound_state U (rows, k)" using assms(1) w by simp
  obtain x where x: "execute (model_ctx uids users tok use) a (rows, k) = (Inr x, w')"
    using assms(3) w by (auto simp: as_executor_None)
  obtain rows' k' where w': "w' = (rows', k')" by (cases w')
  have h: "hosted k \<subseteq> U" by (rule sound_hosted [OF s])
  have "keeps_sound U (rows, k) w' k1"
  proof (cases a)
    case (EnsureTenant t)
    then show ?thesis using sim_ensure [OF s _ _ x [unfolded EnsureTenant]] assms(2) k1(1) by (auto simp: sound_action_def)
  next
    case (EnsureVolumeDir t n v)
    let ?s = "(entry k n t)\<lparr>ss_dirs := finsert v (ss_dirs (entry k n t))\<rparr>"
    have e: "w' = (rows, put n ?s k)" "k1 = put n ?s k"
      using x k1(1) w' EnsureVolumeDir by (auto simp: act_simps Let_def split: if_splits)
    have "{n} \<times> (fset (fmdom (ss_files ?s)) \<union> fset (ss_active ?s)) \<subseteq> hosted k"
      by (auto simp: hosted_def entry_def fmget_def fresh_state_def split: option.splits)
    then show ?thesis unfolding e using hosted_put [of n ?s k] h by (intro keeps_same_ledger) auto
  next
    case (WriteUnits spec)
    then show ?thesis using sim_write [OF s] x k1(1) assms(2) by (simp add: sound_action_def)
  next
    case (RemoveUnits t n)
    then have "w' = (rows, k1)" using x k1(1) w' by (auto simp: act_simps uid_for_def)
    then show ?thesis using RemoveUnits k1(1) h hosted_modify [of "\<lambda>s. s\<lparr>ss_files := fmempty, ss_builds := fmempty\<rparr>" n k]
      by (auto intro!: keeps_same_ledger)
  next
    case (RemoveVolumeDir t n v)
    then have "w' = (rows, k1)" using x k1(1) w' by (auto simp: act_simps)
    then show ?thesis using RemoveVolumeDir k1(1) h hosted_modify [of "\<lambda>s. s\<lparr>ss_dirs := ss_dirs s |-| {|v|}\<rparr>" n k]
      by (auto intro!: keeps_same_ledger)
  next
    case (StartService t n svc)
    then show ?thesis using sim_start [OF s, of n svc "''start''"] x k1(1) assms(2) by (simp add: sound_action_def)
  next
    case (RestartService t n svc)
    then show ?thesis using sim_start [OF s, of n svc "''restart''"] x k1(1) assms(2) by (simp add: sound_action_def)
  next
    case (StopService t n svc)
    then have "w' = (rows, k1)"
      using x k1(1) w' assms(2) control_unit_sound(2) [OF s, of n svc t "''stop''" x k']
      by (auto simp: act_simps sound_action_def)
    then show ?thesis using StopService k1(1) h hosted_modify [of "\<lambda>s. s\<lparr>ss_active := ss_active s |-| {|svc|}\<rparr>" n k]
      by (auto intro!: keeps_same_ledger)
  next
    case (RemoveTenantIfEmpty t)
    then show ?thesis using sim_remove [OF s] x k1(1) by simp
  next
    case (DaemonReload t)
    then have "w' = (rows, k1)" using x k1(1) w' by (auto simp: act_simps)
    then show ?thesis using DaemonReload k1(1) h by (auto intro!: keeps_same_ledger)
  next
    case SyncCaddy
    then have "w' = (rows, k1)" using x k1(1) w' by (auto simp: act_simps)
    then show ?thesis using SyncCaddy k1(1) h by (auto intro!: keeps_same_ledger)
  qed (use assms(4) in \<open>simp add: is_zdd_def\<close>)
  then show ?thesis using s below_trans [OF k1(2)] by (auto simp: keeps_sound_def)
qed

interpretation running: executing "\<lambda>use. as_executor (model_ctx uids users tok use)" snd "sound_state U" "sound_action U tok"
  for uids users tok U
proof
  show "sound_action U tok SyncCaddy" by (simp add: sound_action_def)
qed (rule executor_simulates)

subsection \<open>A whole cycle\<close>

lemma sound_action_simps [simp]:
  "sound_action U tok (StartService t n svc) \<longleftrightarrow> (n, svc) \<in> U" "sound_action U tok (StopService t n svc) \<longleftrightarrow> (n, svc) \<in> U"
  "sound_action U tok (RestartService t n svc) \<longleftrightarrow> (n, svc) \<in> U" "sound_action U tok (EnsureVolumeDir t n v)"
  "sound_action U tok (RemoveUnits t n)" "sound_action U tok (DaemonReload t)" "sound_action U tok (RemoveVolumeDir t n v)"
  "sound_action U tok (ZeroDowntimeDeploy t spec svc)" "sound_action U tok (RemoveTenantIfEmpty t)" "sound_action U tok SyncCaddy"
  "sound_action U tok (WriteUnits spec) \<longleftrightarrow> sound_spec U tok spec"
  by (simp_all add: sound_action_def)

lemma teardown_sound:
  assumes "a \<in> set (plan_teardown n ob)" "\<And>svc. svc |\<in>| fmdom (os_units ob) \<Longrightarrow> (n, svc) \<in> U"
  shows "sound_action U tok a"
  using assms by (auto simp: plan_teardown_def is_active_def fmdomI split: option.splits)

lemma converge_sound:
  assumes "a \<in> set (plan_converge spec ob)" "sound_spec U tok spec"
    and "\<And>o1 svc. ob = Some o1 \<Longrightarrow> svc |\<in>| fmdom (os_units o1) \<Longrightarrow> (st_name spec, svc) \<in> U"
  shows "sound_action U tok a"
proof -
  have svc: "(st_name spec, svc) \<in> U" if "svc |\<in>| fmdom (expected_hashes spec)" for svc
    using that assms(2) by (auto simp: sound_spec_def fset_of_list.rep_eq)
  have "sound_action U tok a" if "svc |\<in>| fmdom (expected_hashes spec)" "a \<in> set (service_actions spec us st svc)" for us st svc
    using service_actions_keep [OF that(2)] svc [OF that(1)] by auto
  moreover have "sound_action U tok (EnsureTenant (st_tenant spec))"
    using assms(2) by (simp add: sound_action_def sound_spec_def)
  moreover have "sound_action U tok (StopService t (st_name spec) svc)"
    if "is_active (case ob of None \<Rightarrow> fmempty | Some o1 \<Rightarrow> os_units o1) svc" for t svc
    using that assms(3) [of _ svc] by (auto simp: is_active_def fmdomI split: option.splits)
  ultimately show ?thesis
    using assms(1,2) by (auto simp: plan_converge_def Let_def simp del: fmdom_expected split: if_splits)
qed

lemma plan_sound:
  assumes "a \<in> set (plan_name desired (observe m) n)" "\<forall>spec\<in>set desired. sound_spec U tok spec" "hosted m \<subseteq> U"
    and "distinct (map st_name desired)"
  shows "sound_action U tok a"
proof -
  have units: "(n, svc) \<in> U" if "fmlookup (observe m) n = Some ob" "svc |\<in>| fmdom (os_units ob)" for ob svc
    using that assms(3) by (auto simp: fmlookup_observe observe_stack_def hosted_def split: option.splits if_splits)
  show ?thesis
  proof (cases "fmlookup (desired_by_name desired) n")
    case None
    then show ?thesis
      using assms(1) teardown_sound [of a n _ U tok] units by (cases "fmlookup (observe m) n") (auto simp: plan_name_def)
  next
    case (Some spec)
    then have s: "st_name spec = n" "sound_spec U tok spec"
      using assms(2,4) by (simp_all add: desired_lookup_iff)
    show ?thesis
    proof (cases "fmlookup (observe m) n")
      case None
      then show ?thesis using assms(1) Some converge_sound [of a spec None U tok] s by (simp add: plan_name_def plan_stack_def)
    next
      case ob: (Some ob)
      then have "a \<in> set (plan_teardown n ob) \<or> a \<in> set (plan_converge spec None) \<or> a \<in> set (plan_converge spec (Some ob))"
        using assms(1) Some s(1) by (auto simp: plan_name_def plan_stack_def split: if_splits)
      then show ?thesis
        using teardown_sound [of a n ob U tok] converge_sound [of a spec _ U tok] units [OF ob] s by auto
    qed
  qed
qed


definition leftover :: "ledger \<times> model_host" where
  "leftover = (example_rows, \<lparr>mh_tenants = {|''hosty-t-7''|},
     mh_stacks = fmupd ''old'' \<lparr>ss_tenant = ''hosty-t-7'', ss_files = fmempty, ss_builds = fmempty,
       ss_active = {||}, ss_dirs = {|''data''|}\<rparr> fmempty\<rparr>)"

lemma leftover_observed: "observe (snd leftover) = example_observed"
  by (rule fmap_ext)
    (simp add: fmlookup_observe leftover_def example_observed_def st_empty_def observe_stack_def dict_over_def)

definition swept :: "ledger \<times> model_host" where
  "swept = ([], \<lparr>mh_tenants = {||}, mh_stacks = fmupd ''old'' (fresh_state ''hosty-t-7'') fmempty\<rparr>)"

abbreviation leftover_ctx :: "model_host exec_ctx" where
  "leftover_ctx \<equiv> model_ctx (\<lambda>_. 1001) {|7|} (\<lambda>_ _. None) {||}"

lemma leftover_steps:
  "as_executor leftover_ctx (RemoveUnits ''hosty-t-7'' ''old'') leftover = (None, leftover)"
  "as_executor leftover_ctx (DaemonReload ''hosty-t-7'') leftover = (None, leftover)"
  "as_executor leftover_ctx SyncCaddy swept = (None, swept)"
  "\<exists>w. as_executor leftover_ctx (RemoveVolumeDir ''hosty-t-7'' ''old'' ''data'') leftover = (None, w)
     \<and> as_executor leftover_ctx (RemoveTenantIfEmpty ''hosty-t-7'') w = (None, swept)"
proof -
  let ?w = "(example_rows, \<lparr>mh_tenants = {|''hosty-t-7''|}, mh_stacks = fmupd ''old'' (fresh_state ''hosty-t-7'') fmempty\<rparr>)"
  have none: "fmfilter P (fmupd k (x :: 'a) fmempty) = fmempty" if "\<not> P k" for P and k :: string and x
    using that by (intro fmap_ext) simp
  have "as_executor leftover_ctx (RemoveVolumeDir ''hosty-t-7'' ''old'' ''data'') leftover = (None, ?w)"
    by (simp add: as_executor_def leftover_def on_host_def modify_def put_def fresh_state_def)
  moreover have "as_executor leftover_ctx (RemoveTenantIfEmpty ''hosty-t-7'') ?w = (None, swept)"
    by (simp add: as_executor_def remove_tenant_if_empty_def example_rows_def bind_act_def on_host_def ret_act_def
        scan_of_def tenant_stacks_def sorted_keys_single fresh_state_def sorted_keys_def none
        remove_tenant_def get_tenant_def drop_user_def swept_def)
  ultimately show "\<exists>w. as_executor leftover_ctx (RemoveVolumeDir ''hosty-t-7'' ''old'' ''data'') leftover = (None, w)
     \<and> as_executor leftover_ctx (RemoveTenantIfEmpty ''hosty-t-7'') w = (None, swept)" by blast
qed (simp_all add: as_executor_def leftover_def uid_for_def example_rows_def bind_act_def on_host_def ret_act_def modify_def
    put_def swept_def)


subsection \<open>One action\<close>



end
