(* ===== verification/Tokens.thy ===== *)
theory Tokens
  imports Digest
begin

text \<open>
  Short-lived credentials: the HMAC tickets of \<open>core/tickets.py\<close>, the one-time codes of
  \<open>core/totp.py\<close> and the rate limiter of \<open>core/ratelimit.py\<close>.  The cryptographic functions of the
  standard library are computed: HMAC over SHA-256 and SHA-1, base 32.  A byte string is a list of
  characters.  Time is an integer number of nanoseconds, \<open>int(time.time())\<close> the whole seconds.
\<close>

unbundle bit_operations_syntax

subsection \<open>HMAC\<close>

definition utf8_char :: "char \<Rightarrow> string" where
  "utf8_char c =
     (let n = of_char c :: nat in if n < 128 then [c] else [char_of (192 + n div 64), char_of (128 + n mod 64)])"

definition encode :: "string \<Rightarrow> string" where
  "encode s = concat (map utf8_char s)"

definition word_bytes :: "w32 \<Rightarrow> string" where
  "word_bytes w = map (\<lambda>i. char_of (unat (drop_bit (8 * i) w) mod 256 :: nat)) [3, 2, 1, 0]"

definition sha256_bytes :: "string \<Rightarrow> string" where
  "sha256_bytes s = concat (map word_bytes (sha256_words s))"

definition xor_byte :: "nat \<Rightarrow> char \<Rightarrow> char" where
  "xor_byte k c = char_of ((of_char c :: nat) XOR k)"

text \<open>The block size of both hash functions is 64 bytes.\<close>

definition hmac :: "(string \<Rightarrow> string) \<Rightarrow> string \<Rightarrow> string \<Rightarrow> string" where
  "hmac h key msg =
     (let k = (if 64 < length key then h key else key);
          block = k @ replicate (64 - length k) (CHR 0x00)
      in h (map (xor_byte 92) block @ h (map (xor_byte 54) block @ msg)))"

definition byte_hex :: "char \<Rightarrow> string" where
  "byte_hex c = (let n = of_char c :: nat in [hex_digit (n div 16), hex_digit (n mod 16)])"

definition hmac_sha256_hex :: "string \<Rightarrow> string \<Rightarrow> string" where
  "hmac_sha256_hex key msg = concat (map byte_hex (hmac sha256_bytes key msg))"

text \<open>SHA-1, the schedule newest word first.\<close>

fun sha1_extend :: "nat \<Rightarrow> w32 list \<Rightarrow> w32 list" where
  "sha1_extend 0 ws = ws"
| "sha1_extend (Suc n) ws = sha1_extend n (word_rotl 1 (ws ! 2 XOR ws ! 7 XOR ws ! 13 XOR ws ! 15) # ws)"

definition sha1_step :: "w32 \<times> w32 \<times> w32 \<times> w32 \<times> w32 \<Rightarrow> nat \<times> w32 \<Rightarrow> w32 \<times> w32 \<times> w32 \<times> w32 \<times> w32" where
  "sha1_step s iw =
     (let (a, b, c, d, e) = s; (i, w) = iw;
          (f, k) = (if i < 20 then ((b AND c) OR (NOT b AND d), 1518500249)
                    else if i < 40 then (b XOR c XOR d, 1859775393)
                    else if i < 60 then ((b AND c) OR (b AND d) OR (c AND d), 2400959708)
                    else (b XOR c XOR d, 3395469782))
      in (word_rotl 5 a + f + e + k + w, a, word_rotl 30 b, c, d))"

definition sha1_chunk :: "w32 \<times> w32 \<times> w32 \<times> w32 \<times> w32 \<Rightarrow> w32 list \<Rightarrow> w32 \<times> w32 \<times> w32 \<times> w32 \<times> w32" where
  "sha1_chunk s block =
     (let ws = rev (sha1_extend 64 (rev (map be_word (chunks 16 block 4))));
          (a, b, c, d, e) = s; (a', b', c', d', e') = foldl sha1_step s (zip [0..<80] ws)
      in (a + a', b + b', c + c', d + d', e + e'))"

definition sha1_bytes :: "string \<Rightarrow> string" where
  "sha1_bytes s =
     (let bytes = sha_pad s;
          (a, b, c, d, e) = foldl sha1_chunk (1732584193, 4023233417, 2562383102, 271733878, 3285377520)
             (chunks (length bytes) bytes 64)
      in concat (map word_bytes [a, b, c, d, e]))"

text \<open>\<open>hmac.compare_digest\<close> on strings refuses characters outside ASCII.\<close>

definition compare_digest :: "string \<Rightarrow> string \<Rightarrow> bool res" where
  "compare_digest a b = (if list_all (\<lambda>c. c \<le> CHR 0x7F) (a @ b) then Inr (a = b) else Inl TypeError)"

subsection \<open>Tickets\<close>

definition seconds :: int where "seconds = 1000000000"

definition sign :: "string \<Rightarrow> string \<Rightarrow> string" where
  "sign payload secret = hmac_sha256_hex (encode secret) (encode payload)"

definition issue_token :: "int \<Rightarrow> string \<Rightarrow> int \<Rightarrow> string \<Rightarrow> string res" where
  "issue_token now secret ttl scope =
     (if CHR ''.'' \<in> set scope then Inl ValueError
      else let payload = scope @ ''.'' @ int_str (now div seconds + ttl) in Inr (payload @ ''.'' @ sign payload secret))"

definition verify_token :: "int \<Rightarrow> string \<Rightarrow> string \<Rightarrow> string \<Rightarrow> bool res" where
  "verify_token now token secret scope =
     (case split_char CHR ''.'' token of
        [token_scope, expiry, signature] \<Rightarrow>
          if token_scope \<noteq> scope \<or> \<not> isdigit expiry then Inr False
          else bind_res (compare_digest signature (sign (token_scope @ ''.'' @ expiry) secret)) (\<lambda>same.
            if \<not> same then Inr False
            else bind_res (py_int expiry) (\<lambda>e. Inr (now \<le> e * seconds)))
      | _ \<Rightarrow> Inr False)"

definition token_scope :: "int \<Rightarrow> string \<Rightarrow> string \<Rightarrow> string option res" where
  "token_scope now token secret =
     (case split_char CHR ''.'' token of
        [scope, expiry, signature] \<Rightarrow>
          if \<not> isdigit expiry then Inr None
          else bind_res (verify_token now token secret scope) (\<lambda>valid. Inr (if valid then Some scope else None))
      | _ \<Rightarrow> Inr None)"

lemma hmac_hex_chars: "c \<in> set (hmac_sha256_hex key msg) \<Longrightarrow> is_hex c"
proof -
  have "(of_char x :: nat) div 16 < 16" for x by (rule less_mult_imp_div_less) simp
  then show "c \<in> set (hmac_sha256_hex key msg) \<Longrightarrow> is_hex c"
    by (auto simp: hmac_sha256_hex_def byte_hex_def Let_def intro!: hex_digit_is_hex)
qed

lemma sign_chars: "c \<in> set (sign payload secret) \<Longrightarrow> c \<le> CHR 0x7F \<and> c \<noteq> CHR ''.''"
  using hmac_hex_chars [of c "encode secret" "encode payload"]
  by (auto simp: sign_def is_hex_def is_digit_def less_eq_char_def)

lemma compare_sign: "compare_digest (sign p k) (sign p' k') = Inr (sign p k = sign p' k')"
  using sign_chars by (auto simp: compare_digest_def list_all_iff)

lemma isdigit_no_dot: "isdigit s \<Longrightarrow> CHR ''.'' \<notin> set s"
  by (auto simp: isdigit_def list_all_iff isdigit_char_def less_eq_char_def)

lemma split_token:
  assumes "CHR ''.'' \<notin> set a" "CHR ''.'' \<notin> set b" "CHR ''.'' \<notin> set c"
  shows "split_char CHR ''.'' (a @ ''.'' @ b @ ''.'' @ c) = [a, b, c]"
  using assms by simp

lemma split_char_three: "split_char d s = [a, b, c] \<Longrightarrow> s = a @ [d] @ b @ [d] @ c \<and> d \<notin> set a"
  using join_split_char [of d s] split_char_pieces [of a d s] by auto

text \<open>C34: a ticket is accepted exactly when it is the scope that is asked for, an expiry that has not passed,
  and the signature of these two; nothing else verifies.\<close>

theorem ticket_valid_exactly:
  "verify_token now token secret scope = Inr True \<longleftrightarrow>
     (\<exists>expiry e. token = scope @ ''.'' @ expiry @ ''.'' @ sign (scope @ ''.'' @ expiry) secret
        \<and> CHR ''.'' \<notin> set scope \<and> isdigit expiry \<and> py_int expiry = Inr e \<and> now \<le> e * seconds)"
proof
  assume "verify_token now token secret scope = Inr True"
  then obtain expiry signature where parts: "split_char CHR ''.'' token = [scope, expiry, signature]" "isdigit expiry"
      and rest: "bind_res (compare_digest signature (sign (scope @ ''.'' @ expiry) secret)) (\<lambda>same.
            if \<not> same then Inr False else bind_res (py_int expiry) (\<lambda>e. Inr (now \<le> e * seconds))) = Inr True"
    by (auto simp: verify_token_def split: list.splits if_splits)
  from rest obtain e where "signature = sign (scope @ ''.'' @ expiry) secret" "py_int expiry = Inr e" "now \<le> e * seconds"
    by (auto simp: bind_res_eq_Inr compare_digest_def split: if_splits)
  then show "\<exists>expiry e. token = scope @ ''.'' @ expiry @ ''.'' @ sign (scope @ ''.'' @ expiry) secret
        \<and> CHR ''.'' \<notin> set scope \<and> isdigit expiry \<and> py_int expiry = Inr e \<and> now \<le> e * seconds"
    using split_char_three [OF parts(1)] parts(2) by auto
next
  assume "\<exists>expiry e. token = scope @ ''.'' @ expiry @ ''.'' @ sign (scope @ ''.'' @ expiry) secret
        \<and> CHR ''.'' \<notin> set scope \<and> isdigit expiry \<and> py_int expiry = Inr e \<and> now \<le> e * seconds"
  then obtain expiry e where t: "token = scope @ ''.'' @ expiry @ ''.'' @ sign (scope @ ''.'' @ expiry) secret"
      "CHR ''.'' \<notin> set scope" "isdigit expiry" "py_int expiry = Inr e" "now \<le> e * seconds"
    by blast
  have "split_char CHR ''.'' token = [scope, expiry, sign (scope @ ''.'' @ expiry) secret]"
    unfolding t(1) using sign_chars by (intro split_token t(2) isdigit_no_dot [OF t(3)]) auto
  then show "verify_token now token secret scope = Inr True"
    using t(3-5) by (simp add: verify_token_def compare_sign)
qed

text \<open>An issued ticket verifies until its time to live has passed, and for no other scope.\<close>

theorem ticket_roundtrip:
  assumes "issue_token issued secret ttl scope = Inr token" "0 \<le> issued div seconds + ttl"
  shows "verify_token now token secret scope' = Inr (scope' = scope \<and> now \<le> (issued div seconds + ttl) * seconds)"
proof -
  let ?e = "nat_str (nat (issued div seconds + ttl))"
  have t: "token = scope @ ''.'' @ ?e @ ''.'' @ sign (scope @ ''.'' @ ?e) secret" "CHR ''.'' \<notin> set scope"
    using assms by (auto simp: issue_token_def int_str_def Let_def split: if_splits)
  have "split_char CHR ''.'' token = [scope, ?e, sign (scope @ ''.'' @ ?e) secret]"
    unfolding t(1) using sign_chars by (intro split_token t(2)) (auto simp: nat_str_no)
  then show ?thesis
    using assms(2) by (simp add: verify_token_def compare_sign py_int_nat_str)
qed

theorem ticket_roundtrip_witness:
  "verify_token 0 ''session.60.'' ''k'' ''adminer'' \<noteq> Inr True
   \<and> (\<exists>t. issue_token 0 ''k'' 60 ''session'' = Inr t \<and> verify_token 60000000000 t ''k'' ''session'' = Inr True
        \<and> verify_token 60000000001 t ''k'' ''session'' = Inr False)"
proof
  show "verify_token 0 ''session.60.'' ''k'' ''adminer'' \<noteq> Inr True" by (simp add: verify_token_def)
  obtain t where "issue_token 0 ''k'' 60 ''session'' = Inr t" by (simp add: issue_token_def)
  moreover from ticket_roundtrip [OF this, of _ "''session''"]
  have "verify_token 60000000000 t ''k'' ''session'' = Inr True" "verify_token 60000000001 t ''k'' ''session'' = Inr False"
    by (simp_all add: seconds_def)
  ultimately show "\<exists>t. issue_token 0 ''k'' 60 ''session'' = Inr t \<and> verify_token 60000000000 t ''k'' ''session'' = Inr True
        \<and> verify_token 60000000001 t ''k'' ''session'' = Inr False" by blast
qed

subsection \<open>One-time codes\<close>

definition period_seconds :: int where "period_seconds = 30"
definition digits :: nat where "digits = 6"
definition drift_steps :: int where "drift_steps = 1"

text \<open>\<open>struct.pack(">Q", counter)\<close>.\<close>

definition pack_u64 :: "int \<Rightarrow> string res" where
  "pack_u64 i =
     (if 0 \<le> i \<and> i < 2 ^ 64 then Inr (map (\<lambda>k. char_of (nat i div 256 ^ k mod 256)) [7, 6, 5, 4, 3, 2, 1, 0])
      else Inl StructError)"

definition zfill :: "nat \<Rightarrow> string \<Rightarrow> string" where
  "zfill n s = replicate (n - length s) CHR ''0'' @ s"

definition hotp :: "string \<Rightarrow> int \<Rightarrow> string res" where
  "hotp key counter =
     bind_res (pack_u64 counter) (\<lambda>msg.
       let digest = hmac sha1_bytes key msg;
           offset = of_char (last digest) mod 16;
           code = foldl (\<lambda>n c. 256 * n + of_char c) 0 (take 4 (drop offset digest)) mod 2 ^ 31
       in Inr (zfill digits (nat_str (code mod 10 ^ digits))))"

text \<open>\<open>str.upper\<close>: the sharp s becomes two letters; the micro sign and y with diaeresis, whose capitals
  are outside Latin-1, stay (they are no base 32 letters either way).\<close>

definition upper :: "string \<Rightarrow> string" where
  "upper s = concat (map (\<lambda>c.
     if c = CHR 0xDF then ''SS''
     else if (CHR ''a'' \<le> c \<and> c \<le> CHR ''z'') \<or> (CHR 0xE0 \<le> c \<and> c \<le> CHR 0xFE \<and> c \<noteq> CHR 0xF7)
     then [char_of (of_char c - 32 :: nat)] else [c]) s)"

definition b32_val :: "char \<Rightarrow> nat option" where
  "b32_val c =
     (if CHR ''A'' \<le> c \<and> c \<le> CHR ''Z'' then Some (of_char c - 65)
      else if CHR ''2'' \<le> c \<and> c \<le> CHR ''7'' then Some (of_char c - 24) else None)"

definition b32_quantum :: "nat list \<Rightarrow> string" where
  "b32_quantum vs = (let n = foldl (\<lambda>n v. 32 * n + v) 0 vs in map (\<lambda>k. char_of (n div 256 ^ k mod 256)) [4, 3, 2, 1, 0])"

text \<open>\<open>base64.b32decode\<close>, which raises \<open>binascii.Error\<close>, a \<open>ValueError\<close>.\<close>

definition b32decode :: "string \<Rightarrow> string res" where
  "b32decode s =
     (let body = rstrip_char CHR ''='' s; pad = length s - length body; vals = map b32_val body
      in if length s mod 8 \<noteq> 0 \<or> None \<in> set vals \<or> pad \<notin> {0, 1, 3, 4, 6} then Inl ValueError
         else let bytes = concat (map b32_quantum (chunks (length s) (map the vals @ replicate pad 0) 8))
              in Inr (take (length bytes - (if pad = 0 then 0 else 5 - (43 - 5 * pad) div 8)) bytes))"

definition decode_secret :: "string \<Rightarrow> string res" where
  "decode_secret secret =
     (let padded = filter (\<lambda>c. c \<noteq> CHR '' '') (upper (strip secret))
      in b32decode (padded @ replicate ((8 - length padded mod 8) mod 8) CHR ''=''))"

definition totp_at :: "string \<Rightarrow> int \<Rightarrow> string res" where
  "totp_at secret timestamp = bind_res (decode_secret secret) (\<lambda>key. hotp key (timestamp div period_seconds))"

fun any_code :: "string \<Rightarrow> string \<Rightarrow> int list \<Rightarrow> bool res" where
  "any_code key candidate [] = Inr False"
| "any_code key candidate (c # cs) =
     bind_res (hotp key c) (\<lambda>code. bind_res (compare_digest code candidate) (\<lambda>same.
       if same then Inr True else any_code key candidate cs))"

text \<open>The time is given in whole seconds.\<close>

definition verify_totp :: "string \<Rightarrow> string \<Rightarrow> int \<Rightarrow> bool res" where
  "verify_totp secret code now =
     (let candidate = filter (\<lambda>c. c \<noteq> CHR '' '') (strip code)
      in if length candidate \<noteq> digits \<or> \<not> isdigit candidate then Inr False
         else bind_res (decode_secret secret) (\<lambda>key.
           any_code key candidate (map (\<lambda>step. now div period_seconds + step) [- drift_steps..drift_steps])))"

definition candidate :: "string \<Rightarrow> string" where
  "candidate code = filter (\<lambda>c. c \<noteq> CHR '' '') (strip code)"

lemma length_nat_str: "n < 10 ^ Suc k \<Longrightarrow> length (nat_str n) \<le> Suc k"
proof (induction k arbitrary: n)
  case 0
  then show ?case by (simp add: nat_str.simps [of n])
next
  case (Suc k)
  show ?case
  proof (cases "n < 10")
    case False
    have "n div 10 < 10 ^ Suc k" using Suc.prems by (simp add: less_mult_imp_div_less)
    then show ?thesis using Suc.IH False by (subst nat_str.simps) simp
  qed (simp add: nat_str.simps [of n])
qed

lemma hotp_shape: "hotp key c = Inr code \<Longrightarrow> length code = digits \<and> list_all ascii_digit code"
proof -
  assume "hotp key c = Inr code"
  then obtain x where x: "code = zfill digits (nat_str (x mod 10 ^ digits))"
    by (auto simp only: hotp_def bind_res_eq_Inr Let_def sum.inject)
  have "x mod 10 ^ digits < 10 ^ Suc 5" by (simp add: digits_def)
  from length_nat_str [OF this] have "length (nat_str (x mod 10 ^ digits)) \<le> digits" by (simp add: digits_def)
  moreover have "list_all ascii_digit (nat_str (x mod 10 ^ digits))" using nat_str_digits by (auto simp: list_all_iff)
  moreover have "ascii_digit CHR ''0''" by (simp add: ascii_digit_range)
  ultimately show ?thesis unfolding x zfill_def by (auto simp: list_all_iff)
qed

lemma ascii_digits_ascii: "list_all ascii_digit s \<Longrightarrow> list_all (\<lambda>c. c \<le> CHR 0x7F) s \<and> candidate s = s \<and> (s \<noteq> [] \<longrightarrow> isdigit s)"
proof -
  assume d: "list_all ascii_digit s"
  have "filter (\<lambda>c. c \<noteq> CHR '' '') s = s" using d by (induction s) (auto simp: ascii_digit_range)
  moreover have "list_all (\<lambda>c. c \<le> CHR 0x7F) s" using d by (induction s) (auto simp: ascii_digit_def less_eq_char_def)
  ultimately show ?thesis using d ascii_digit_isdigit by (auto simp: candidate_def strip_digits isdigit_def list_all_iff)
qed

lemma any_code_exact:
  assumes "list_all (\<lambda>c. c \<le> CHR 0x7F) cand"
  shows "\<forall>c\<in>set cs. 0 \<le> c \<and> c < 2 ^ 64 \<Longrightarrow> any_code key cand cs = Inr (\<exists>c\<in>set cs. hotp key c = Inr cand)"
proof (induction cs)
  case (Cons c cs)
  obtain code where h: "hotp key c = Inr code" using Cons.prems by (simp add: hotp_def pack_u64_def Let_def)
  then have "compare_digest code cand = Inr (code = cand)"
    using hotp_shape [OF h] ascii_digits_ascii assms by (simp add: compare_digest_def)
  then show ?case using h Cons by auto
qed simp

text \<open>A one-time code is accepted exactly when it is the code of the current step, of the one before or
  of the one after, whatever blanks were typed with it.\<close>

theorem totp_valid_exactly:
  assumes "decode_secret secret = Inr key" "1 \<le> now div period_seconds" "now div period_seconds + 1 < 2 ^ 64"
    "list_all (\<lambda>c. c \<le> CHR 0x7F) (candidate code)"
  shows "verify_totp secret code now
    = Inr (\<exists>step\<in>set [-1, 0, 1]. hotp key (now div period_seconds + step) = Inr (candidate code))"
proof -
  let ?steps = "map (\<lambda>step. now div period_seconds + step) [- drift_steps..drift_steps]"
  have steps: "[- drift_steps..drift_steps] = [-1, 0, 1]" by (simp add: drift_steps_def upto.simps)
  have "any_code key (candidate code) ?steps = Inr (\<exists>c\<in>set ?steps. hotp key c = Inr (candidate code))"
    using assms(2,3) by (intro any_code_exact [OF assms(4)]) (auto simp: steps)
  moreover have "length (candidate code) = digits \<and> isdigit (candidate code)"
    if "hotp key c = Inr (candidate code)" for c
    using hotp_shape [OF that] ascii_digits_ascii [of "candidate code"] by (auto simp: digits_def)
  ultimately show ?thesis
    using assms(1) unfolding verify_totp_def Let_def candidate_def [symmetric] by (auto simp: steps)
qed

text \<open>A code of superscript digits passes the length and digit checks and makes the comparison raise.\<close>

lemma totp_superscript:
  "decode_secret secret = Inr key \<Longrightarrow> 1 \<le> now div period_seconds \<Longrightarrow> now div period_seconds < 2 ^ 64
   \<Longrightarrow> verify_totp secret (replicate 6 (CHR 0xB2)) now = Inl TypeError"
proof -
  assume key: "decode_secret secret = Inr key" and now: "1 \<le> now div period_seconds" "now div period_seconds < 2 ^ 64"
  have c: "candidate (replicate 6 (CHR 0xB2)) = replicate 6 (CHR 0xB2)" "isdigit (replicate 6 (CHR 0xB2))"
    by code_simp+
  obtain h where "hotp key (now div period_seconds - 1) = Inr h" using now by (simp add: hotp_def pack_u64_def Let_def)
  moreover have "compare_digest h (replicate 6 (CHR 0xB2)) = Inl TypeError"
    by (simp add: compare_digest_def less_eq_char_def list_all_iff)
  ultimately show ?thesis
    using key c unfolding verify_totp_def Let_def candidate_def [symmetric]
    by (simp add: digits_def drift_steps_def upto.simps)
qed

theorem totp_valid_exactly_witness:
  "verify_totp ''AAAA AAAA'' ''12 34'' 59 = Inr False"
proof -
  have "strip ''AAAA AAAA'' = ''AAAA AAAA''" "rstrip_char CHR ''='' ''AAAAAAAA'' = ''AAAAAAAA''" by code_simp+
  moreover have "b32_val CHR ''A'' = Some 0" by (simp add: b32_val_def less_eq_char_def)
  moreover have "filter (\<lambda>c. c \<noteq> CHR '' '') (upper ''AAAA AAAA'') = ''AAAAAAAA''"
    by (simp add: upper_def less_eq_char_def)
  moreover have zero: "char_of (0 :: nat) = CHR 0x00" by (simp add: char_of_def)
  moreover have chunk: "chunks 8 [0, 0, 0, 0, 0, 0, 0, 0 :: nat] 8 = [[0, 0, 0, 0, 0, 0, 0, 0]]" by code_simp
  ultimately have key: "decode_secret ''AAAA AAAA'' = Inr [CHR 0x00, CHR 0x00, CHR 0x00, CHR 0x00, CHR 0x00]"
    using chunk zero by (simp add: decode_secret_def b32decode_def b32_quantum_def)
  have c: "candidate ''12 34'' = ''1234''" by code_simp
  have "hotp k i \<noteq> Inr ''1234''" for k i using hotp_shape [of k i "''1234''"] by (auto simp: digits_def)
  then show ?thesis
    using totp_valid_exactly [OF key, of 59 "''12 34''"] by (simp add: c period_seconds_def less_eq_char_def)
qed

subsection \<open>The rate limiter\<close>

text \<open>Times are readings of a monotonic clock in one fixed unit, in which the window is given too; the deque of
  a key holds its granted attempts, oldest first.\<close>

record limiter =
  lm_max :: int
  lm_window :: int
  lm_hits :: "(string, int list) fmap"

definition allow :: "int \<Rightarrow> string \<Rightarrow> limiter \<Rightarrow> bool \<times> limiter" where
  "allow now key l =
     (let hits = dropWhile (\<lambda>h. lm_window l \<le> now - h) (fmget (lm_hits l) key [])
      in if lm_max l \<le> int (length hits) then (False, l\<lparr>lm_hits := fmupd key hits (lm_hits l)\<rparr>)
         else (True, l\<lparr>lm_hits := fmupd key (hits @ [now]) (lm_hits l)\<rparr>))"

definition reset :: "string \<Rightarrow> limiter \<Rightarrow> limiter" where
  "reset key l = l\<lparr>lm_hits := fmdrop key (lm_hits l)\<rparr>"

text \<open>A run of attempts, with the answers and the granted attempts.\<close>

fun attempts :: "limiter \<Rightarrow> (int \<times> string) list \<Rightarrow> bool list" where
  "attempts l [] = []"
| "attempts l ((t, k) # rest) = (case allow t k l of (ok, l') \<Rightarrow> ok # attempts l' rest)"

text \<open>The specification keeps everything that was granted and counts what is younger than the window.\<close>

definition recent :: "int \<Rightarrow> (int \<times> string) list \<Rightarrow> string \<Rightarrow> int \<Rightarrow> int list" where
  "recent window granted k t = filter (\<lambda>s. t - s < window) (map fst (filter (\<lambda>g. snd g = k) granted))"

fun ideal :: "int \<Rightarrow> int \<Rightarrow> (int \<times> string) list \<Rightarrow> (int \<times> string) list \<Rightarrow> bool list" where
  "ideal limit window granted [] = []"
| "ideal limit window granted ((t, k) # rest) =
     (let ok = int (length (recent window granted k t)) < limit
      in ok # ideal limit window (if ok then granted @ [(t, k)] else granted) rest)"

definition granted_times :: "bool list \<Rightarrow> (int \<times> string) list \<Rightarrow> string \<Rightarrow> int list" where
  "granted_times answers as k = map (fst \<circ> snd) (filter (\<lambda>a. fst a \<and> snd (snd a) = k) (zip answers as))"

lemma dropWhile_sorted:
  "sorted hs \<Longrightarrow> dropWhile (\<lambda>h. window \<le> t - h) hs = filter (\<lambda>h. t - h < window) (hs :: int list)"
proof (induction hs)
  case (Cons h hs)
  show ?case
  proof (cases "window \<le> t - h")
    case False
    then have "\<forall>x\<in>set hs. t - x < window" using Cons.prems by fastforce
    then have "filter (\<lambda>h. t - h < window) hs = hs" by (simp add: filter_id_conv)
    then show ?thesis using False by simp
  qed (use Cons in simp)
qed simp

text \<open>The deque of a key holds what was granted, except for entries that have already left the window.\<close>

definition tracks :: "limiter \<Rightarrow> (int \<times> string) list \<Rightarrow> int \<Rightarrow> bool" where
  "tracks l granted now \<longleftrightarrow> sorted (map fst granted) \<and> (\<forall>g\<in>set granted. fst g \<le> now)
     \<and> (\<forall>k. \<exists>gone. map fst (filter (\<lambda>g. snd g = k) granted) = gone @ fmget (lm_hits l) k []
          \<and> (\<forall>s\<in>set gone. lm_window l \<le> now - s))"

lemma sorted_filtered: "sorted (map fst xs) \<Longrightarrow> sorted (map fst (filter P xs))"
  by (induction xs) auto

lemma allow_tracks:
  assumes "tracks l granted now" "now \<le> t"
  shows "case allow t k l of (ok, l') \<Rightarrow>
      ok = (int (length (recent (lm_window l) granted k t)) < lm_max l)
      \<and> tracks l' (if ok then granted @ [(t, k)] else granted) t \<and> lm_window l' = lm_window l \<and> lm_max l' = lm_max l"
proof -
  let ?hits = "filter (\<lambda>h. t - h < lm_window l) (fmget (lm_hits l) k [])"
  obtain gone where gone: "map fst (filter (\<lambda>g. snd g = k) granted) = gone @ fmget (lm_hits l) k []"
     "\<forall>s\<in>set gone. lm_window l \<le> now - s"
    using assms(1) unfolding tracks_def by blast
  have "sorted (map fst (filter (\<lambda>g. snd g = k) granted))"
    using assms(1) by (intro sorted_filtered) (simp add: tracks_def)
  then have s: "sorted (fmget (lm_hits l) k [])" by (simp add: gone(1) sorted_append)
  have "filter (\<lambda>s. t - s < lm_window l) gone = []" using gone(2) assms(2) by (fastforce simp: filter_empty_conv)
  then have r: "recent (lm_window l) granted k t = ?hits" by (simp add: recent_def gone(1))
  have old: "\<forall>j. \<exists>gone. map fst (filter (\<lambda>g. snd g = j) granted) = gone @ fmget (fmupd k ?hits (lm_hits l)) j []
       \<and> (\<forall>s\<in>set gone. lm_window l \<le> t - s)"
  proof
    fix j
    show "\<exists>gone. map fst (filter (\<lambda>g. snd g = j) granted) = gone @ fmget (fmupd k ?hits (lm_hits l)) j []
       \<and> (\<forall>s\<in>set gone. lm_window l \<le> t - s)"
    proof (cases "j = k")
      case True
      have "fmget (lm_hits l) k [] = takeWhile (\<lambda>h. lm_window l \<le> t - h) (fmget (lm_hits l) k []) @ ?hits"
        using dropWhile_sorted [OF s] by (metis takeWhile_dropWhile_id)
      then show ?thesis
        using gone assms(2) True
        by (intro exI [of _ "gone @ takeWhile (\<lambda>h. lm_window l \<le> t - h) (fmget (lm_hits l) k [])"])
          (fastforce simp: fmget_def dest: set_takeWhileD)
    next
      case False
      then show ?thesis using assms unfolding tracks_def by (fastforce simp: fmget_def)
    qed
  qed
  show ?thesis
  proof (cases "lm_max l \<le> int (length ?hits)")
    case True
    then show ?thesis using old r assms by (fastforce simp: allow_def dropWhile_sorted [OF s] tracks_def)
  next
    case False
    have new: "\<exists>gone. map fst (filter (\<lambda>g. snd g = j) (granted @ [(t, k)])) = gone @ fmget (fmupd k (?hits @ [t]) (lm_hits l)) j []
       \<and> (\<forall>s\<in>set gone. lm_window l \<le> t - s)" for j
      using old [rule_format, of j] by (cases "j = k") (auto simp: fmget_def)
    then show ?thesis
      using False r assms by (fastforce simp: allow_def dropWhile_sorted [OF s] tracks_def sorted_append)
  qed
qed


lemma attempts_ideal:
  "tracks l granted now \<Longrightarrow> sorted (now # map fst as)
   \<Longrightarrow> attempts l as = ideal (lm_max l) (lm_window l) granted as"
proof (induction as arbitrary: l granted now)
  case (Cons a as)
  obtain t k where a: "a = (t, k)" by fastforce
  obtain ok l' where r: "allow t k l = (ok, l')" by fastforce
  have s: "ok = (int (length (recent (lm_window l) granted k t)) < lm_max l)"
      "tracks l' (if ok then granted @ [(t, k)] else granted) t" "lm_window l' = lm_window l" "lm_max l' = lm_max l"
    using allow_tracks [OF Cons.prems(1), of t k] Cons.prems(2) by (auto simp: r a)
  have "attempts l' as = ideal (lm_max l) (lm_window l) (if ok then granted @ [(t, k)] else granted) as"
    using Cons.IH [OF s(2)] Cons.prems(2) by (simp add: a s)
  then show ?case using s(1) by (simp add: a r Let_def)
qed simp

text \<open>What the specification grants: the granted times of a key, cut at any window, never exceed the limit.\<close>

lemma ideal_bounded:
  "length (filter (\<lambda>s. from \<le> s \<and> s < from + window) (map fst (filter (\<lambda>g. snd g = k) granted))) \<le> nat limit
   \<Longrightarrow> sorted (map fst granted @ map fst as)
   \<Longrightarrow> length (filter (\<lambda>s. from \<le> s \<and> s < from + window)
         (map fst (filter (\<lambda>g. snd g = k) granted) @ granted_times (ideal limit window granted as) as k)) \<le> nat limit"
proof (induction as arbitrary: granted)
  case (Cons a as)
  obtain t j where a: "a = (t, j)" by fastforce
  define ok where "ok \<longleftrightarrow> int (length (recent window granted j t)) < limit"
  let ?g = "if ok then granted @ [(t, j)] else granted"
  let ?in = "\<lambda>s. from \<le> s \<and> s < from + window"
  have "length (filter ?in (map fst (filter (\<lambda>g. snd g = k) ?g))) \<le> nat limit"
  proof (cases "ok \<and> j = k \<and> ?in t")
    case True
    have "filter ?in (map fst (filter (\<lambda>g. snd g = k) granted))
        = filter ?in (filter (\<lambda>s. t - s < window) (map fst (filter (\<lambda>g. snd g = k) granted)))"
      using True by (auto intro: filter_cong)
    then have "length (filter ?in (map fst (filter (\<lambda>g. snd g = k) granted))) \<le> length (recent window granted k t)"
      using length_filter_le [of ?in "recent window granted k t"] by (simp only: recent_def)
    then show ?thesis using True by (auto simp: ok_def)
  qed (use Cons.prems(1) in auto)
  moreover have "sorted (map fst ?g @ map fst as)" using Cons.prems(2) by (auto simp: sorted_append a)
  ultimately have "length (filter ?in (map fst (filter (\<lambda>g. snd g = k) ?g)
      @ granted_times (ideal limit window ?g as) as k)) \<le> nat limit"
    by (rule Cons.IH)
  then show ?case by (auto simp: a ok_def [symmetric] Let_def granted_times_def)
qed (simp add: granted_times_def)

definition fresh_limiter :: "int \<Rightarrow> int \<Rightarrow> limiter" where
  "fresh_limiter max_attempts window_seconds = \<lparr>lm_max = max_attempts, lm_window = window_seconds, lm_hits = fmempty\<rparr>"

lemma fresh_tracks: "tracks (fresh_limiter limit window) [] now"
  by (simp add: tracks_def fresh_limiter_def fmget_def)

text \<open>C35: the limiter, which forgets expired attempts as it goes, answers like one that remembers everything it
  ever granted, and no window of time, wherever it starts, holds more grants for one key than the limit.\<close>

theorem limiter_exact:
  assumes "sorted (map fst as)"
  shows "attempts (fresh_limiter limit window) as = ideal limit window [] as
    \<and> length (filter (\<lambda>s. from \<le> s \<and> s < from + window) (granted_times (attempts (fresh_limiter limit window) as) as k))
       \<le> nat limit"
proof
  have "attempts (fresh_limiter limit window) as = ideal limit window [] as" if "sorted (now # map fst as)" for now
    using attempts_ideal [OF fresh_tracks that] by (simp add: fresh_limiter_def)
  moreover have "sorted (fst (hd as) # map fst as)" if "as \<noteq> []" using assms that by (cases as) auto
  ultimately show ideal: "attempts (fresh_limiter limit window) as = ideal limit window [] as" by (cases "as = []") auto
  show "length (filter (\<lambda>s. from \<le> s \<and> s < from + window)
      (granted_times (attempts (fresh_limiter limit window) as) as k)) \<le> nat limit"
    unfolding ideal using ideal_bounded [of "from" window k "[]" limit as] assms by simp
qed

theorem limiter_exact_witness:
  "attempts (fresh_limiter 2 10) [(0, ''ip''), (1, ''ip''), (5, ''ip''), (5, ''x''), (10, ''ip''), (10, ''ip'')]
     = [True, True, False, True, True, False]
   \<and> length (filter (\<lambda>s. 1 \<le> s \<and> s < 1 + 10) (granted_times (attempts (fresh_limiter 2 10)
       [(0, ''ip''), (1, ''ip''), (5, ''ip''), (5, ''x''), (10, ''ip''), (10, ''ip'')])
       [(0, ''ip''), (1, ''ip''), (5, ''ip''), (5, ''x''), (10, ''ip''), (10, ''ip'')] ''ip'')) \<le> nat 2"
  using limiter_exact [of "[(0, ''ip''), (1, ''ip''), (5, ''ip''), (5, ''x''), (10, ''ip''), (10, ''ip'')]" 2 10 1 "''ip''"]
  by (auto simp: recent_def simp del: attempts.simps)

end
