(* ===== verification/Access.thy ===== *)
theory Access
  imports Digest Tokens
begin

text \<open>
  Who may do what: \<open>backend/app/api/deps.py\<close>, the tokens of \<open>core/security.py\<close>, the quotas of
  \<open>services/quotas.py\<close> and the port ledger of \<open>services/ports.py\<close>.  The third-party libraries are the
  record \<open>auth_lib\<close>: PyJWT (\<open>jwt_decode\<close> is given the time and checks signature, expiry and the required
  claims; \<open>None\<close> is any \<open>PyJWTError\<close>), Argon2 with \<open>verify_password\<close>'s \<open>except\<close>, and the encryption of
  \<open>core/secrets.py\<close> under the panel's key.  A payload is the association list of a JSON object.  Times are
  microseconds.
\<close>

subsection \<open>Rows\<close>

type_synonym claims = "(string \<times> json) list"

record auth_lib =
  jwt_encode :: "claims \<Rightarrow> string"
  jwt_decode :: "int \<Rightarrow> string \<Rightarrow> claims option"
  pw_hash :: "string \<Rightarrow> string"
  pw_verify :: "string \<Rightarrow> string \<Rightarrow> bool"
  seal_text :: "string \<Rightarrow> string"
  open_text :: "string \<Rightarrow> string res"

record limits =
  l_sites :: "int option"
  l_databases :: "int option"
  l_apps :: "int option"
  l_stacks :: "int option"
  l_disk_mb :: "int option"
  l_cpu_percent :: "int option"
  l_memory_mb :: "int option"

record user_row =
  us_id :: int
  us_username :: string
  us_password :: string
  us_role :: string
  us_must_change :: bool
  us_suspended :: bool
  us_limits :: limits
  us_plan :: "int option"
  us_totp_secret :: "string option"
  us_totp_enabled :: bool
  us_password_changed :: int
  us_version :: int

record api_token_row =
  at_owner :: int
  at_hash :: string
  at_scopes :: string
  at_expires :: "int option"
  at_last_used :: "int option"

record refresh_row =
  rt_id :: int
  rt_user :: int
  rt_hash :: string
  rt_family :: string
  rt_expires :: int
  rt_revoked :: "int option"
  rt_created :: int

record auth_db =
  au_users :: "user_row list"
  au_tokens :: "api_token_row list"
  au_refresh :: "refresh_row list"
  au_setup :: "int option"
  au_plans :: "(int \<times> limits) list"

definition user_by_id :: "auth_db \<Rightarrow> int \<Rightarrow> user_row option" where
  "user_by_id d i = find (\<lambda>u. us_id u = i) (au_users d)"

subsection \<open>Tokens\<close>

definition unauthorized :: exn where "unauthorized = AppError 401 ''unauthorized''"
definition forbidden :: exn where "forbidden = AppError 403 ''forbidden''"
definition not_found :: exn where "not_found = AppError 404 ''not_found''"
definition conflict :: exn where "conflict = AppError 409 ''conflict''"
definition rate_limited :: exn where "rate_limited = AppError 429 ''rate_limited''"
definition password_change_required :: exn where "password_change_required = AppError 403 ''password_change_required''"

definition micros :: int where "micros = 1000000"
definition totp_challenge_ttl :: int where "totp_challenge_ttl = 5 * 60"
definition terminal_ticket_ttl :: int where "terminal_ticket_ttl = 30"

text \<open>\<open>jti\<close> is the \<open>uuid4().hex\<close> of the call.  Later keys of a dict display replace earlier ones in place.\<close>

definition base_claims :: "int \<Rightarrow> string \<Rightarrow> int \<Rightarrow> string \<Rightarrow> string \<Rightarrow> claims" where
  "base_claims now subject ttl kind jti =
     [(''sub'', JStr subject), (''iat'', JInt (now div micros)), (''exp'', JInt (now div micros + ttl)),
      (''type'', JStr kind), (''jti'', JStr jti)]"

definition create_access_token :: "auth_lib \<Rightarrow> int \<Rightarrow> string \<Rightarrow> int \<Rightarrow> claims \<Rightarrow> string \<Rightarrow> string" where
  "create_access_token lib now subject ttl extra jti =
     jwt_encode lib (fold (\<lambda>(k, x). AList.update k x) extra (base_claims now subject ttl ''access'' jti))"

definition create_totp_challenge :: "auth_lib \<Rightarrow> int \<Rightarrow> string \<Rightarrow> string \<Rightarrow> string" where
  "create_totp_challenge lib now subject jti =
     jwt_encode lib (base_claims now subject totp_challenge_ttl ''totp_challenge'' jti)"

definition create_terminal_ticket :: "auth_lib \<Rightarrow> int \<Rightarrow> string \<Rightarrow> int \<Rightarrow> string \<Rightarrow> string \<Rightarrow> string" where
  "create_terminal_ticket lib now subject stack service jti =
     jwt_encode lib
       [(''sub'', JStr subject), (''iat'', JInt (now div micros)), (''exp'', JInt (now div micros + terminal_ticket_ttl)),
        (''type'', JStr ''terminal_ticket''), (''stack_id'', JInt stack), (''svc'', JStr service), (''jti'', JStr jti)]"

definition decode_kind :: "auth_lib \<Rightarrow> int \<Rightarrow> string \<Rightarrow> string \<Rightarrow> claims res" where
  "decode_kind lib now kind token =
     (case jwt_decode lib now token of
        None \<Rightarrow> Inl unauthorized
      | Some p \<Rightarrow> if map_of p ''type'' = Some (JStr kind) then Inr p else Inl unauthorized)"

definition decode_totp_challenge :: "auth_lib \<Rightarrow> int \<Rightarrow> string \<Rightarrow> claims res" where
  "decode_totp_challenge lib now token = decode_kind lib now ''totp_challenge'' token"

definition decode_access_token :: "auth_lib \<Rightarrow> int \<Rightarrow> string \<Rightarrow> claims res" where
  "decode_access_token lib now token = decode_kind lib now ''access'' token"

text \<open>Python compares an integer with a decoded JSON value; \<open>True\<close> equals 1.  A missing claim is \<open>None\<close>.\<close>

definition claim_is_int :: "claims \<Rightarrow> string \<Rightarrow> int \<Rightarrow> bool" where
  "claim_is_int p k n =
     (case map_of p k of
        Some (JInt i) \<Rightarrow> i = n
      | Some (JBool b) \<Rightarrow> (if b then 1 else 0) = n
      | _ \<Rightarrow> False)"

definition decode_terminal_ticket :: "auth_lib \<Rightarrow> int \<Rightarrow> string \<Rightarrow> int \<Rightarrow> string \<Rightarrow> claims res" where
  "decode_terminal_ticket lib now token stack service =
     bind_res (decode_kind lib now ''terminal_ticket'' token) (\<lambda>p.
       if claim_is_int p ''stack_id'' stack \<and> map_of p ''svc'' = Some (JStr service) then Inr p else Inl unauthorized)"

definition hash_token :: "string \<Rightarrow> string" where
  "hash_token raw = sha256_hex (encode raw)"

text \<open>\<open>int(x)\<close> of a decoded JSON value.\<close>

definition int_of_json :: "json \<Rightarrow> int res" where
  "int_of_json j = (case j of JInt i \<Rightarrow> Inr i | JBool b \<Rightarrow> Inr (if b then 1 else 0) | JStr s \<Rightarrow> py_int s | _ \<Rightarrow> Inl TypeError)"

definition claim_int :: "claims \<Rightarrow> string \<Rightarrow> int res" where
  "claim_int p k = (case map_of p k of None \<Rightarrow> Inl KeyError | Some j \<Rightarrow> int_of_json j)"

subsection \<open>The current user\<close>

definition password_change_allowed :: "string list" where
  "password_change_allowed = [''/api/auth/change-password'', ''/api/auth/me'', ''/api/auth/logout'']"

definition require_password :: "string \<Rightarrow> user_row \<Rightarrow> unit res" where
  "require_password path u = guard (\<not> (us_must_change u \<and> path \<notin> set password_change_allowed)) password_change_required"

definition update_token :: "string \<Rightarrow> (api_token_row \<Rightarrow> api_token_row) \<Rightarrow> auth_db \<Rightarrow> auth_db" where
  "update_token h f d = d\<lparr>au_tokens := map (\<lambda>t. if at_hash t = h then f t else t) (au_tokens d)\<rparr>"

definition api_token_owner :: "int \<Rightarrow> string \<Rightarrow> auth_db \<Rightarrow> api_token_row \<Rightarrow> user_row res" where
  "api_token_owner now path d row =
     bind_res (guard (\<not> (case at_expires row of None \<Rightarrow> False | Some e \<Rightarrow> e \<le> now)) unauthorized) (\<lambda>_.
     case user_by_id d (at_owner row) of None \<Rightarrow> Inl unauthorized | Some u \<Rightarrow>
     bind_res (guard (\<not> us_suspended u) unauthorized) (\<lambda>_.
     bind_res (require_password path u) (\<lambda>_. Inr u)))"

definition api_token_user :: "int \<Rightarrow> string \<Rightarrow> string \<Rightarrow> auth_db \<Rightarrow> user_row res \<times> auth_db" where
  "api_token_user now path bearer d =
     (let h = hash_token (if startswith bearer ''hst_'' then drop 4 bearer else bearer)
      in case filter (\<lambda>t. at_hash t = h) (au_tokens d) of
           [] \<Rightarrow> (Inl unauthorized, d)
         | [row] \<Rightarrow>
             (case api_token_owner now path d row of
                Inl e \<Rightarrow> (Inl e, d)
              | Inr u \<Rightarrow> (Inr u, update_token h (\<lambda>t. t\<lparr>at_last_used := Some now\<rparr>) d))
         | _ \<Rightarrow> (Inl MultipleResultsFound, d))"

text \<open>The user of a decoded payload, and the impersonating admin if there is one.\<close>

definition user_of_payload :: "string \<Rightarrow> claims \<Rightarrow> auth_db \<Rightarrow> (user_row \<times> user_row option) res" where
  "user_of_payload path p d =
     bind_res (claim_int p ''sub'') (\<lambda>i.
     case user_by_id d i of None \<Rightarrow> Inl unauthorized | Some u \<Rightarrow>
     (if map_of p ''imp'' \<notin> {None, Some JNull}
      then bind_res (claim_int p ''imp'') (\<lambda>a.
        (case user_by_id d a of None \<Rightarrow> Inl unauthorized | Some admin \<Rightarrow>
         bind_res (guard (us_role admin = ''admin'') unauthorized) (\<lambda>_.
         bind_res (guard (claim_is_int p ''imp_ver'' (us_version admin)) unauthorized) (\<lambda>_.
         bind_res (require_password path u) (\<lambda>_. Inr (u, Some admin))))))
      else
        bind_res (guard (claim_is_int p ''ver'' (us_version u)) unauthorized) (\<lambda>_.
        bind_res (guard (\<not> us_suspended u) unauthorized) (\<lambda>_.
        bind_res (require_password path u) (\<lambda>_. Inr (u, None))))))"

definition get_current_user :: "auth_lib \<Rightarrow> int \<Rightarrow> string \<Rightarrow> string option \<Rightarrow> auth_db
    \<Rightarrow> (user_row \<times> user_row option) res \<times> auth_db" where
  "get_current_user lib now path credentials d =
     (case credentials of
        None \<Rightarrow> (Inl unauthorized, d)
      | Some raw \<Rightarrow>
          if startswith raw ''hst_''
          then (case api_token_user now path raw d of (r, d') \<Rightarrow> (bind_res r (\<lambda>u. Inr (u, None)), d'))
          else (bind_res (decode_access_token lib now raw) (\<lambda>p. user_of_payload path p d), d))"

definition require_admin :: "user_row \<Rightarrow> user_row res" where
  "require_admin u = bind_res (guard (us_role u = ''admin'') forbidden) (\<lambda>_. Inr u)"

definition is_admin :: "user_row \<Rightarrow> bool" where
  "is_admin u \<longleftrightarrow> us_role u = ''admin''"

text \<open>\<open>fetch_owned_site\<close>, on the owners of the sites by id.\<close>

definition fetch_owned_site :: "(int \<times> int option) list \<Rightarrow> user_row \<Rightarrow> int \<Rightarrow> int res" where
  "fetch_owned_site sites u i =
     (case map_of sites i of
        None \<Rightarrow> Inl not_found
      | Some owner \<Rightarrow> if \<not> is_admin u \<and> owner \<noteq> Some (us_id u) then Inl not_found else Inr i)"

text \<open>The terminal's own check, for web sockets: a ticket for this container or any access token.\<close>

definition auth_user_from_ticket :: "auth_lib \<Rightarrow> int \<Rightarrow> auth_db \<Rightarrow> string \<Rightarrow> int \<Rightarrow> string \<Rightarrow> user_row option res" where
  "auth_user_from_ticket lib now d token stack service =
     (case (case decode_terminal_ticket lib now token stack service of
              Inr p \<Rightarrow> Some p
            | Inl _ \<Rightarrow> (case decode_access_token lib now token of Inr p \<Rightarrow> Some p | Inl _ \<Rightarrow> None)) of
        None \<Rightarrow> Inr None
      | Some p \<Rightarrow> bind_res (claim_int p ''sub'') (\<lambda>i.
          Inr (case user_by_id d i of
             None \<Rightarrow> None
           | Some u \<Rightarrow> if us_suspended u \<or> (map_of p ''ver'' \<noteq> None \<and> \<not> claim_is_int p ''ver'' (us_version u)) then None
                       else Some u)))"

subsection \<open>Quotas and ports\<close>

definition unlimited :: limits where
  "unlimited = \<lparr>l_sites = None, l_databases = None, l_apps = None, l_stacks = None, l_disk_mb = None,
                l_cpu_percent = None, l_memory_mb = None\<rparr>"

definition pick :: "int option \<Rightarrow> int option \<Rightarrow> int option" where
  "pick explicit from_plan = (if explicit \<noteq> None then explicit else from_plan)"

definition resolve_limits :: "user_row \<Rightarrow> limits option \<Rightarrow> limits" where
  "resolve_limits u plan =
     (if us_role u = ''admin'' then unlimited
      else let own = us_limits u; p = (case plan of None \<Rightarrow> unlimited | Some p \<Rightarrow> p)
           in \<lparr>l_sites = pick (l_sites own) (l_sites p), l_databases = pick (l_databases own) (l_databases p),
               l_apps = pick (l_apps own) (l_apps p), l_stacks = pick (l_stacks own) (l_stacks p),
               l_disk_mb = pick (l_disk_mb own) (l_disk_mb p), l_cpu_percent = pick (l_cpu_percent own) (l_cpu_percent p),
               l_memory_mb = pick (l_memory_mb own) (l_memory_mb p)\<rparr>)"

definition effective_limits :: "auth_db \<Rightarrow> user_row \<Rightarrow> limits" where
  "effective_limits d u = resolve_limits u (case us_plan u of None \<Rightarrow> None | Some i \<Rightarrow> map_of (au_plans d) i)"

definition no_free_port :: exn where "no_free_port = AppError 409 ''no_free_port''"

definition allocate_host_port :: "int \<Rightarrow> int \<Rightarrow> int option list \<Rightarrow> int res" where
  "allocate_host_port lo hi ports =
     (case find (\<lambda>p. Some p \<notin> set ports) [lo..hi] of None \<Rightarrow> Inl no_free_port | Some p \<Rightarrow> Inr p)"

end
