(* ===== verification/Sessions.thy ===== *)
theory Sessions
  imports Access
begin

text \<open>
  Signing in: \<open>backend/app/api/routes/auth.py\<close> (setup, login, refresh rotation, logout, password change,
  second factor, sessions) and the parts of \<open>routes/users.py\<close> that act on credentials.  A handler maps
  the state, the database and the rate limiter, to a result and a state; an exception rolls the
  database back and leaves the limiter as it is.  What a request draws from outside is the record
  \<open>env\<close>: two clocks, the client's address, its cookie and the random values.
\<close>

subsection \<open>State\<close>

record env =
  en_now :: int \<comment> \<open>\<open>utcnow\<close> and \<open>time.time\<close>, in microseconds\<close>
  en_mono :: int
  en_host :: "string option"
  en_cookie :: "string option"
  en_raw :: string
  en_family :: string
  en_jti :: string
  en_secret :: string
  en_temp :: string

record auth_settings =
  cf_access_ttl :: int
  cf_refresh_ttl :: int

record auth_state =
  as_db :: auth_db
  as_limiter :: limiter

definition on_db :: "(auth_db \<Rightarrow> auth_db) \<Rightarrow> auth_state \<Rightarrow> auth_state" where
  "on_db f st = st\<lparr>as_db := f (as_db st)\<rparr>"

definition on_users :: "int \<Rightarrow> (user_row \<Rightarrow> user_row) \<Rightarrow> auth_db \<Rightarrow> auth_db" where
  "on_users i f d = d\<lparr>au_users := map (\<lambda>u. if us_id u = i then f u else u) (au_users d)\<rparr>"

text \<open>\<open>UPDATE ... SET revoked_at = now WHERE P AND revoked_at IS NULL\<close>.\<close>

definition revoke_where :: "int \<Rightarrow> (refresh_row \<Rightarrow> bool) \<Rightarrow> auth_db \<Rightarrow> auth_db" where
  "revoke_where now P d = d\<lparr>au_refresh := map (\<lambda>r. if P r \<and> rt_revoked r = None then r\<lparr>rt_revoked := Some now\<rparr> else r) (au_refresh d)\<rparr>"

definition fresh_id :: "int list \<Rightarrow> int" where
  "fresh_id ids = 1 + fold max ids 0"

definition client_key :: "env \<Rightarrow> string" where
  "client_key en = (case en_host en of None \<Rightarrow> ''unknown'' | Some h \<Rightarrow> h)"

definition invalid_request :: exn where "invalid_request = AppError 422 ''validation_error''"

definition password_bounds :: "string \<Rightarrow> bool" where
  "password_bounds p \<longleftrightarrow> 12 \<le> length p \<and> length p \<le> 128"

definition username_ok :: "string \<Rightarrow> bool" where
  "username_ok s \<longleftrightarrow> 3 \<le> length s \<and> length s \<le> 32 \<and> (is_lower (hd s) \<or> is_upper (hd s))
     \<and> list_all (\<lambda>c. is_lower c \<or> is_upper c \<or> is_digit c \<or> c \<in> set ''_.-'') (tl s)"

subsection \<open>Issuing tokens\<close>

text \<open>The hash of a refresh token is unique in its table.\<close>

definition issue_tokens :: "auth_lib \<Rightarrow> auth_settings \<Rightarrow> env \<Rightarrow> user_row \<Rightarrow> string option \<Rightarrow> auth_state
    \<Rightarrow> (string \<times> string) res \<times> auth_state" where
  "issue_tokens lib cf en u family st =
     (let access = create_access_token lib (en_now en) (int_str (us_id u)) (cf_access_ttl cf)
            [(''ver'', JInt (us_version u))] (en_jti en);
          rows = au_refresh (as_db st); h = hash_token (en_raw en);
          row = \<lparr>rt_id = fresh_id (map rt_id rows), rt_user = us_id u, rt_hash = h,
                 rt_family = (if truthy family then the family else en_family en),
                 rt_expires = en_now en + cf_refresh_ttl cf * micros, rt_revoked = None, rt_created = en_now en\<rparr>
      in if h \<in> rt_hash ` set rows then (Inl IntegrityError, st)
         else (Inr (access, en_raw en), on_db (\<lambda>d. d\<lparr>au_refresh := rows @ [row]\<rparr>) st))"

datatype login_response = Tokens string string | Challenge string

subsection \<open>First boot and login\<close>

definition setup_status :: "auth_db \<Rightarrow> bool" where
  "setup_status d \<longleftrightarrow> au_setup d = None \<and> au_users d = []"

definition no_limits :: "user_row \<Rightarrow> user_row" where
  "no_limits u = u\<lparr>us_limits := unlimited, us_plan := None\<rparr>"

definition new_user :: "auth_lib \<Rightarrow> env \<Rightarrow> auth_db \<Rightarrow> string \<Rightarrow> string \<Rightarrow> string \<Rightarrow> bool \<Rightarrow> limits \<Rightarrow> int option \<Rightarrow> user_row" where
  "new_user lib en d username password role must_change own plan =
     \<lparr>us_id = fresh_id (map us_id (au_users d)), us_username = username, us_password = pw_hash lib password,
      us_role = role, us_must_change = must_change, us_suspended = False, us_limits = own, us_plan = plan,
      us_totp_secret = None, us_totp_enabled = False, us_password_changed = en_now en, us_version = 0\<rparr>"

definition first_setup :: "auth_lib \<Rightarrow> env \<Rightarrow> string \<Rightarrow> string \<Rightarrow> auth_state \<Rightarrow> user_row res \<times> auth_state" where
  "first_setup lib en username password st =
     (let d = as_db st; u = new_user lib en d username password ''admin'' False unlimited None
      in if \<not> (username_ok username \<and> password_bounds password) then (Inl invalid_request, st)
         else if au_users d \<noteq> [] \<or> au_setup d \<noteq> None then (Inl conflict, st)
         else (Inr u, on_db (\<lambda>d. d\<lparr>au_users := au_users d @ [u], au_setup := Some (en_now en)\<rparr>) st))"

definition limited :: "env \<Rightarrow> string \<Rightarrow> (auth_state \<Rightarrow> 'a res \<times> auth_state) \<Rightarrow> auth_state \<Rightarrow> 'a res \<times> auth_state" where
  "limited en key body st =
     (case allow (en_mono en) key (as_limiter st) of (ok, lm) \<Rightarrow>
        let st1 = st\<lparr>as_limiter := lm\<rparr> in if ok then body st1 else (Inl rate_limited, st1))"

definition reset_limiter :: "string \<Rightarrow> auth_state \<Rightarrow> auth_state" where
  "reset_limiter key st = st\<lparr>as_limiter := reset key (as_limiter st)\<rparr>"

definition login :: "auth_lib \<Rightarrow> auth_settings \<Rightarrow> env \<Rightarrow> string \<Rightarrow> string \<Rightarrow> auth_state \<Rightarrow> login_response res \<times> auth_state" where
  "login lib cf en username password =
     limited en (client_key en) (\<lambda>st.
       case find (\<lambda>u. us_username u = username) (au_users (as_db st)) of
         None \<Rightarrow> (Inl unauthorized, st)
       | Some u \<Rightarrow>
           if \<not> pw_verify lib (us_password u) password then (Inl unauthorized, st)
           else if us_suspended u then (Inl unauthorized, st)
           else if us_totp_enabled u
           then (Inr (Challenge (create_totp_challenge lib (en_now en) (int_str (us_id u)) (en_jti en))), st)
           else (case issue_tokens lib cf en u None (reset_limiter (client_key en) st) of
                   (Inl e, st') \<Rightarrow> (Inl e, st') | (Inr (a, r), st') \<Rightarrow> (Inr (Tokens a r), st')))"

text \<open>\<open>decrypt_secret\<close> raises a subclass of \<open>ValueError\<close>, which is caught here; \<open>totp_lib.verify\<close> may raise and
  is not.\<close>

definition login_totp :: "auth_lib \<Rightarrow> auth_settings \<Rightarrow> env \<Rightarrow> string \<Rightarrow> string \<Rightarrow> auth_state \<Rightarrow> (string \<times> string) res \<times> auth_state" where
  "login_totp lib cf en challenge code =
     limited en (client_key en) (\<lambda>st.
       case bind_res (decode_totp_challenge lib (en_now en) challenge) (\<lambda>p.
            bind_res (claim_int p ''sub'') (\<lambda>i.
            case user_by_id (as_db st) i of None \<Rightarrow> Inl unauthorized | Some u \<Rightarrow>
            bind_res (guard (\<not> us_suspended u \<and> us_totp_enabled u \<and> truthy (us_totp_secret u)) unauthorized) (\<lambda>_.
            bind_res (case open_text lib (the (us_totp_secret u)) of Inl _ \<Rightarrow> Inl unauthorized | Inr s \<Rightarrow> Inr s) (\<lambda>secret.
            bind_res (verify_totp secret code (en_now en div micros)) (\<lambda>ok.
            if ok then Inr u else Inl unauthorized))))) of
         Inl e \<Rightarrow> (Inl e, st)
       | Inr u \<Rightarrow> issue_tokens lib cf en u None (reset_limiter (client_key en) st))"

subsection \<open>Refresh rotation\<close>

text \<open>The handler reads the token's row and the user, and then claims the row with an update that another
  request may have made before it.\<close>

definition refresh_lookup :: "env \<Rightarrow> auth_state \<Rightarrow> (refresh_row \<times> user_row) res \<times> auth_state" where
  "refresh_lookup en st =
     (if \<not> truthy (en_cookie en) then (Inl unauthorized, st)
      else case filter (\<lambda>r. rt_hash r = hash_token (the (en_cookie en))) (au_refresh (as_db st)) of
         [] \<Rightarrow> (Inl unauthorized, st)
       | [row] \<Rightarrow>
           if rt_revoked row \<noteq> None
           then (Inl unauthorized, on_db (revoke_where (en_now en) (\<lambda>r. rt_family r = rt_family row)) st)
           else if rt_expires row < en_now en then (Inl unauthorized, st)
           else (case user_by_id (as_db st) (rt_user row) of
                   None \<Rightarrow> (Inl unauthorized, st)
                 | Some u \<Rightarrow> if us_suspended u then (Inl unauthorized, st) else (Inr (row, u), st))
       | _ \<Rightarrow> (Inl MultipleResultsFound, st))"

definition refresh_claim :: "auth_lib \<Rightarrow> auth_settings \<Rightarrow> env \<Rightarrow> refresh_row \<Rightarrow> user_row \<Rightarrow> auth_state
    \<Rightarrow> (string \<times> string) res \<times> auth_state" where
  "refresh_claim lib cf en row u st =
     (let rowcount = length (filter (\<lambda>r. rt_id r = rt_id row \<and> rt_revoked r = None) (au_refresh (as_db st)));
          claimed = on_db (revoke_where (en_now en) (\<lambda>r. rt_id r = rt_id row)) st
      in if rowcount \<noteq> 1
         then (Inl unauthorized, on_db (revoke_where (en_now en) (\<lambda>r. rt_family r = rt_family row)) claimed)
         else (case issue_tokens lib cf en u (Some (rt_family row)) claimed of
                 (Inl e, _) \<Rightarrow> (Inl e, st) | (Inr tokens, st') \<Rightarrow> (Inr tokens, st')))"

definition refresh :: "auth_lib \<Rightarrow> auth_settings \<Rightarrow> env \<Rightarrow> auth_state \<Rightarrow> (string \<times> string) res \<times> auth_state" where
  "refresh lib cf en st =
     (case refresh_lookup en st of
        (Inl e, st') \<Rightarrow> (Inl e, st') | (Inr (row, u), st') \<Rightarrow> refresh_claim lib cf en row u st')"

text \<open>Logging out stamps the row again even when it was revoked before.\<close>

definition logout :: "env \<Rightarrow> auth_state \<Rightarrow> auth_state" where
  "logout en st =
     (if \<not> truthy (en_cookie en) then st
      else on_db (\<lambda>d. d\<lparr>au_refresh := map (\<lambda>r. if rt_hash r = hash_token (the (en_cookie en))
             then r\<lparr>rt_revoked := Some (en_now en)\<rparr> else r) (au_refresh d)\<rparr>) st)"

subsection \<open>The signed-in user\<close>

definition change_password :: "auth_lib \<Rightarrow> env \<Rightarrow> user_row \<Rightarrow> string \<Rightarrow> string \<Rightarrow> auth_state \<Rightarrow> unit res \<times> auth_state" where
  "change_password lib en u current new st =
     (if \<not> password_bounds new then (Inl invalid_request, st)
      else if \<not> pw_verify lib (us_password u) current then (Inl unauthorized, st)
      else (Inr (), on_db (\<lambda>d. revoke_where (en_now en) (\<lambda>r. rt_user r = us_id u)
             (on_users (us_id u) (\<lambda>x. x\<lparr>us_password := pw_hash lib new, us_must_change := False,
                us_password_changed := en_now en, us_version := us_version u + 1\<rparr>) d)) st))"

definition totp_setup :: "auth_lib \<Rightarrow> env \<Rightarrow> user_row \<Rightarrow> auth_state \<Rightarrow> string res \<times> auth_state" where
  "totp_setup lib en u st =
     (if us_totp_enabled u then (Inl conflict, st)
      else (Inr (en_secret en),
            on_db (on_users (us_id u) (\<lambda>x. x\<lparr>us_totp_secret := Some (seal_text lib (en_secret en))\<rparr>)) st))"

definition totp_enable :: "auth_lib \<Rightarrow> env \<Rightarrow> user_row \<Rightarrow> string \<Rightarrow> auth_state \<Rightarrow> unit res \<times> auth_state" where
  "totp_enable lib en u code =
     limited en (''totp:'' @ int_str (us_id u)) (\<lambda>st.
       case bind_res (guard (\<not> us_totp_enabled u) conflict) (\<lambda>_.
            bind_res (guard (truthy (us_totp_secret u)) conflict) (\<lambda>_.
            bind_res (open_text lib (the (us_totp_secret u))) (\<lambda>secret.
            verify_totp secret code (en_now en div micros)))) of
         Inl e \<Rightarrow> (Inl e, st)
       | Inr ok \<Rightarrow>
           if ok then (Inr (), on_db (on_users (us_id u) (\<lambda>x. x\<lparr>us_totp_enabled := True\<rparr>))
                         (reset_limiter (''totp:'' @ int_str (us_id u)) st))
           else (Inl unauthorized, st))"

definition totp_disable :: "auth_lib \<Rightarrow> user_row \<Rightarrow> string \<Rightarrow> auth_state \<Rightarrow> unit res \<times> auth_state" where
  "totp_disable lib u password st =
     (if \<not> pw_verify lib (us_password u) password then (Inl unauthorized, st)
      else (Inr (), on_db (on_users (us_id u) (\<lambda>x. x\<lparr>us_totp_enabled := False, us_totp_secret := None\<rparr>)) st))"

definition list_sessions :: "env \<Rightarrow> user_row \<Rightarrow> auth_state \<Rightarrow> (refresh_row \<times> bool) list" where
  "list_sessions en u st =
     (let current = (if truthy (en_cookie en) then Some (hash_token (the (en_cookie en))) else None)
      in map (\<lambda>r. (r, Some (rt_hash r) = current))
           (rev (sort_key rt_created (rev (filter (\<lambda>r. rt_user r = us_id u \<and> rt_revoked r = None \<and> en_now en < rt_expires r)
              (au_refresh (as_db st)))))))"

definition revoke_session :: "env \<Rightarrow> user_row \<Rightarrow> int \<Rightarrow> auth_state \<Rightarrow> unit res \<times> auth_state" where
  "revoke_session en u i st =
     (case find (\<lambda>r. rt_id r = i) (au_refresh (as_db st)) of
        None \<Rightarrow> (Inl not_found, st)
      | Some row \<Rightarrow>
          if rt_user row \<noteq> us_id u \<or> rt_revoked row \<noteq> None then (Inl not_found, st)
          else (Inr (), on_db (revoke_where (en_now en) (\<lambda>r. rt_id r = i)) st))"

definition revoke_other_sessions :: "env \<Rightarrow> user_row \<Rightarrow> auth_state \<Rightarrow> auth_state" where
  "revoke_other_sessions en u st =
     (let current = hash_token (case en_cookie en of None \<Rightarrow> [] | Some c \<Rightarrow> c)
      in on_db (revoke_where (en_now en) (\<lambda>r. rt_user r = us_id u \<and> rt_hash r \<noteq> current)) st)"

subsection \<open>Administration of accounts\<close>

definition revoke_sessions :: "int \<Rightarrow> int \<Rightarrow> auth_db \<Rightarrow> auth_db" where
  "revoke_sessions now i d =
     on_users i (\<lambda>x. x\<lparr>us_version := us_version x + 1\<rparr>) (revoke_where now (\<lambda>r. rt_user r = i) d)"

text \<open>\<open>email_sent\<close> is the result of sending the temporary password; \<open>emails\<close> says whether another account has
  the address.\<close>

definition create_user :: "auth_lib \<Rightarrow> env \<Rightarrow> string \<Rightarrow> string option \<Rightarrow> limits \<Rightarrow> int option \<Rightarrow> bool \<Rightarrow> bool \<Rightarrow> auth_state
    \<Rightarrow> (user_row \<times> string option) res \<times> auth_state" where
  "create_user lib en username password own plan email_taken email_sent st =
     (let d = as_db st; temp = (if truthy password then the password else en_temp en);
          u = new_user lib en d username temp ''client'' True own plan
      in if \<not> (username_ok username \<and> (password = None \<or> password_bounds (the password))) then (Inl invalid_request, st)
         else if username \<in> us_username ` set (au_users d) \<or> email_taken then (Inl conflict, st)
         else if (case plan of None \<Rightarrow> False | Some p \<Rightarrow> map_of (au_plans d) p = None) then (Inl not_found, st)
         else (Inr (u, if email_sent then None else Some temp), on_db (\<lambda>d. d\<lparr>au_users := au_users d @ [u]\<rparr>) st))"

datatype 'a change = Keep | Clear | Put 'a

fun apply_change :: "'a change \<Rightarrow> 'a option \<Rightarrow> 'a option" where
  "apply_change Keep old = old"
| "apply_change Clear old = None"
| "apply_change (Put x) old = Some x"

record limit_changes =
  lc_sites :: "int change"
  lc_databases :: "int change"
  lc_apps :: "int change"
  lc_stacks :: "int change"
  lc_disk_mb :: "int change"
  lc_cpu_percent :: "int change"
  lc_memory_mb :: "int change"
  lc_plan :: "int change"

definition apply_limits :: "limit_changes \<Rightarrow> user_row \<Rightarrow> user_row" where
  "apply_limits c u = u\<lparr>us_limits :=
     \<lparr>l_sites = apply_change (lc_sites c) (l_sites (us_limits u)),
      l_databases = apply_change (lc_databases c) (l_databases (us_limits u)),
      l_apps = apply_change (lc_apps c) (l_apps (us_limits u)),
      l_stacks = apply_change (lc_stacks c) (l_stacks (us_limits u)),
      l_disk_mb = apply_change (lc_disk_mb c) (l_disk_mb (us_limits u)),
      l_cpu_percent = apply_change (lc_cpu_percent c) (l_cpu_percent (us_limits u)),
      l_memory_mb = apply_change (lc_memory_mb c) (l_memory_mb (us_limits u))\<rparr>,
     us_plan := apply_change (lc_plan c) (us_plan u)\<rparr>"

definition updated_account :: "env \<Rightarrow> int \<Rightarrow> bool option \<Rightarrow> limit_changes \<Rightarrow> bool \<Rightarrow> auth_db \<Rightarrow> auth_db" where
  "updated_account en i suspended changes reset_totp d =
     (let d1 = on_users i (\<lambda>x. x\<lparr>us_suspended := (case suspended of None \<Rightarrow> us_suspended x | Some b \<Rightarrow> b)\<rparr>) d;
          d2 = (if suspended = Some True then revoke_sessions (en_now en) i d1 else d1);
          d3 = on_users i (apply_limits changes) d2
      in if reset_totp
         then revoke_sessions (en_now en) i (on_users i (\<lambda>x. x\<lparr>us_totp_enabled := False, us_totp_secret := None\<rparr>) d3)
         else d3)"

definition update_user :: "env \<Rightarrow> int \<Rightarrow> bool option \<Rightarrow> limit_changes \<Rightarrow> bool \<Rightarrow> auth_state \<Rightarrow> user_row res \<times> auth_state" where
  "update_user en i suspended changes reset_totp st =
     (case user_by_id (as_db st) i of
        None \<Rightarrow> (Inl not_found, st)
      | Some u \<Rightarrow>
          if us_role u = ''admin'' then (Inl conflict, st)
          else if (case lc_plan changes of Put p \<Rightarrow> map_of (au_plans (as_db st)) p = None | _ \<Rightarrow> False) then (Inl not_found, st)
          else
            let d = updated_account en i suspended changes reset_totp (as_db st)
            in (case user_by_id d i of None \<Rightarrow> Inl not_found | Some u' \<Rightarrow> Inr u', st\<lparr>as_db := d\<rparr>))"

definition reset_user_password :: "auth_lib \<Rightarrow> env \<Rightarrow> user_row \<Rightarrow> int \<Rightarrow> bool \<Rightarrow> auth_state \<Rightarrow> string option res \<times> auth_state" where
  "reset_user_password lib en admin i email_sent st =
     (case user_by_id (as_db st) i of
        None \<Rightarrow> (Inl not_found, st)
      | Some u \<Rightarrow>
          if us_id u = us_id admin \<or> us_role u = ''admin'' then (Inl conflict, st)
          else (Inr (if email_sent then None else Some (en_temp en)),
            on_db (\<lambda>d. revoke_sessions (en_now en) i
              (on_users i (\<lambda>x. x\<lparr>us_password := pw_hash lib (en_temp en), us_must_change := True,
                 us_password_changed := en_now en\<rparr>) d)) st))"

definition impersonate_user :: "auth_lib \<Rightarrow> auth_settings \<Rightarrow> env \<Rightarrow> user_row \<Rightarrow> int \<Rightarrow> auth_state \<Rightarrow> string res" where
  "impersonate_user lib cf en admin i st =
     (case user_by_id (as_db st) i of
        None \<Rightarrow> Inl not_found
      | Some u \<Rightarrow>
          if us_role u = ''admin'' then Inl conflict
          else Inr (create_access_token lib (en_now en) (int_str (us_id u)) (cf_access_ttl cf)
            [(''imp'', JInt (us_id admin)), (''imp_ver'', JInt (us_version admin)), (''ver'', JInt (us_version u))] (en_jti en)))"

end
