(* ===== verification/SessionFacts.thy ===== *)
theory SessionFacts
  imports Sessions
begin

text \<open>
  Sessions over time: the handlers of \<open>Sessions\<close> as steps of a state machine, in which overlapping
  refreshes read before either claims, and what every sequence of requests preserves.
\<close>

subsection \<open>Steps\<close>

abbreviation rows :: "auth_state \<Rightarrow> refresh_row list" where
  "rows st \<equiv> au_refresh (as_db st)"

text \<open>The random family of a new session has not been drawn before.\<close>

definition fresh_family :: "env \<Rightarrow> auth_state \<Rightarrow> bool" where
  "fresh_family en st \<longleftrightarrow> en_family en \<noteq> [] \<and> en_family en \<notin> rt_family ` set (rows st)"

text \<open>A row that some request read earlier: only its revocation may have changed since.\<close>

definition known_row :: "refresh_row \<Rightarrow> auth_state \<Rightarrow> bool" where
  "known_row row st \<longleftrightarrow> (\<exists>r\<in>set (rows st). rt_id r = rt_id row \<and> rt_family r = rt_family row)"

inductive auth_step :: "auth_lib \<Rightarrow> auth_settings \<Rightarrow> auth_state \<Rightarrow> auth_state \<Rightarrow> bool" for lib cf where
  Setup: "auth_step lib cf st (snd (first_setup lib en n p st))"
| Login: "fresh_family en st \<Longrightarrow> auth_step lib cf st (snd (login lib cf en n p st))"
| LoginTotp: "fresh_family en st \<Longrightarrow> auth_step lib cf st (snd (login_totp lib cf en ch code st))"
| RefreshLookup: "auth_step lib cf st (snd (refresh_lookup en st))"
| RefreshClaim: "known_row row st \<Longrightarrow> auth_step lib cf st (snd (refresh_claim lib cf en row u st))"
| Logout: "auth_step lib cf st (logout en st)"
| ChangePassword: "user_by_id (as_db st) (us_id u) = Some u \<Longrightarrow> auth_step lib cf st (snd (change_password lib en u p q st))"
| TotpSetup: "auth_step lib cf st (snd (totp_setup lib en u st))"
| TotpEnable: "auth_step lib cf st (snd (totp_enable lib en u code st))"
| TotpDisable: "auth_step lib cf st (snd (totp_disable lib u p st))"
| RevokeSession: "auth_step lib cf st (snd (revoke_session en u i st))"
| RevokeOthers: "auth_step lib cf st (revoke_other_sessions en u st)"
| CreateUser: "auth_step lib cf st (snd (create_user lib en n pw own plan taken sent st))"
| UpdateUser: "auth_step lib cf st (snd (update_user en i susp c rt st))"
| ResetPassword: "auth_step lib cf st (snd (reset_user_password lib en admin i sent st))"

inductive auth_steps :: "auth_lib \<Rightarrow> auth_settings \<Rightarrow> auth_state \<Rightarrow> auth_state \<Rightarrow> bool" for lib cf where
  Refl: "auth_steps lib cf st st"
| Step: "auth_steps lib cf st st' \<Longrightarrow> auth_step lib cf st' st'' \<Longrightarrow> auth_steps lib cf st st''"

subsection \<open>What an operation does to the session table\<close>

text \<open>Rows keep everything but their revocation, which is never undone, and are never removed.\<close>

definition keeps_row :: "(refresh_row \<Rightarrow> refresh_row) \<Rightarrow> bool" where
  "keeps_row g \<longleftrightarrow> (\<forall>r. rt_id (g r) = rt_id r \<and> rt_user (g r) = rt_user r \<and> rt_hash (g r) = rt_hash r
     \<and> rt_family (g r) = rt_family r \<and> (rt_revoked r \<noteq> None \<longrightarrow> rt_revoked (g r) \<noteq> None))"

definition only_revokes :: "auth_state \<Rightarrow> auth_state \<Rightarrow> bool" where
  "only_revokes st st' \<longleftrightarrow> (\<exists>g. keeps_row g \<and> rows st' = map g (rows st))"

lemma only_revokes_refl [simp, intro]: "only_revokes st st" "rows st' = rows st \<Longrightarrow> only_revokes st st'"
  by (auto simp: only_revokes_def keeps_row_def intro: exI [of _ id])

lemma only_revokes_where [simp]: "only_revokes st (on_db (revoke_where now P) st)"
  unfolding only_revokes_def
  by (rule exI [of _ "\<lambda>r. if P r \<and> rt_revoked r = None then r\<lparr>rt_revoked := Some now\<rparr> else r"])
    (simp add: on_db_def revoke_where_def keeps_row_def)

lemma only_revokes_trans: "only_revokes a b \<Longrightarrow> only_revokes b c \<Longrightarrow> only_revokes a c"
proof -
  assume "only_revokes a b" "only_revokes b c"
  then obtain g h where "keeps_row g" "keeps_row h" "rows b = map g (rows a)" "rows c = map h (rows b)"
    by (auto simp: only_revokes_def)
  then show ?thesis unfolding only_revokes_def by (intro exI [of _ "h \<circ> g"]) (auto simp: keeps_row_def)
qed

lemma on_users_rows [simp]: "au_refresh (on_users i f d) = au_refresh d" by (simp add: on_users_def)

lemma revoke_where_users [simp]: "au_users (revoke_where now P d) = au_users d" "au_tokens (revoke_where now P d) = au_tokens d"
  by (simp_all add: revoke_where_def)

lemma rows_on_db [simp]: "rows (on_db f st) = au_refresh (f (as_db st))" by (simp add: on_db_def)

lemma rows_limiter [simp]: "rows (st\<lparr>as_limiter := l\<rparr>) = rows st" "rows (reset_limiter k st) = rows st"
  by (simp_all add: reset_limiter_def)

lemma rows_limited: "(\<And>s. rows s = rows st \<Longrightarrow> as_db s = as_db st \<Longrightarrow> Q (snd (body s))) \<Longrightarrow> (\<And>s. rows s = rows st \<Longrightarrow> as_db s = as_db st \<Longrightarrow> Q s)
   \<Longrightarrow> Q (snd (limited en key body st))"
  by (auto simp: limited_def Let_def split: prod.split)

text \<open>The other shape of change: a row is added, in a new family or for the one just revoked.\<close>

definition adds_session :: "auth_state \<Rightarrow> auth_state \<Rightarrow> bool" where
  "adds_session st st' \<longleftrightarrow> (\<exists>row. rows st' = rows st @ [row] \<and> rt_id row = fresh_id (map rt_id (rows st))
     \<and> rt_hash row \<notin> rt_hash ` set (rows st) \<and> rt_family row \<noteq> []
     \<and> (\<forall>r\<in>set (rows st). rt_family r = rt_family row \<longrightarrow> rt_revoked r \<noteq> None))"

definition live :: "string \<Rightarrow> auth_state \<Rightarrow> refresh_row list" where
  "live f st = filter (\<lambda>r. rt_family r = f \<and> rt_revoked r = None) (rows st)"

definition sessions_ok :: "auth_state \<Rightarrow> bool" where
  "sessions_ok st \<longleftrightarrow> distinct (map rt_id (rows st)) \<and> distinct (map rt_hash (rows st))
     \<and> (\<forall>r\<in>set (rows st). rt_family r \<noteq> []) \<and> (\<forall>f. length (live f st) \<le> 1)"

lemma fold_max_start: "(a :: int) \<le> fold max ks a"
proof (induction ks arbitrary: a)
  case (Cons b ks)
  then show ?case using Cons [of "max b a"] by (metis fold_simps(2) max.boundedE)
qed simp

lemma fold_max_elem: "(i :: int) \<in> set ks \<Longrightarrow> i \<le> fold max ks a"
proof (induction ks arbitrary: a)
  case (Cons b ks)
  show ?case
  proof (cases "i = b")
    case True
    then show ?thesis using fold_max_start [of "max i a" ks] by (metis fold_simps(2) max.boundedE)
  next
    case False
    then show ?thesis using Cons by simp
  qed
qed simp

lemma fresh_id_less: "i \<in> set ks \<Longrightarrow> i < fresh_id ks"
  using fold_max_elem [of i ks 0] by (simp add: fresh_id_def)

lemma length_live_map: "keeps_row g \<Longrightarrow>
    length (filter (\<lambda>r. rt_family r = f \<and> rt_revoked r = None) (map g rs)) \<le> length (filter (\<lambda>r. rt_family r = f \<and> rt_revoked r = None) rs)"
  by (induction rs) (auto simp: keeps_row_def)

lemma only_revokes_ok: "sessions_ok st \<Longrightarrow> only_revokes st st' \<Longrightarrow> sessions_ok st'"
proof -
  assume ok: "sessions_ok st" and "only_revokes st st'"
  then obtain g where g: "keeps_row g" "rows st' = map g (rows st)" by (auto simp: only_revokes_def)
  then have "map rt_id (rows st') = map rt_id (rows st)" "map rt_hash (rows st') = map rt_hash (rows st)"
    by (auto simp: keeps_row_def)
  moreover have "length (live f st') \<le> 1" for f
    unfolding live_def g(2) by (rule le_trans [OF length_live_map [OF g(1)]]) (use ok in \<open>simp add: sessions_ok_def live_def\<close>)
  moreover have "\<forall>r\<in>set (rows st'). rt_family r \<noteq> []" using ok g by (auto simp: sessions_ok_def keeps_row_def)
  ultimately show ?thesis using ok unfolding sessions_ok_def by presburger
qed

lemma adds_session_ok: "sessions_ok st \<Longrightarrow> adds_session st st' \<Longrightarrow> sessions_ok st'"
proof -
  assume ok: "sessions_ok st" and "adds_session st st'"
  then obtain row where row: "rows st' = rows st @ [row]" "rt_id row = fresh_id (map rt_id (rows st))"
      "rt_hash row \<notin> rt_hash ` set (rows st)" "rt_family row \<noteq> []"
      "\<And>r. r \<in> set (rows st) \<Longrightarrow> rt_family r = rt_family row \<Longrightarrow> rt_revoked r \<noteq> None"
    by (auto simp: adds_session_def)
  have "rt_id row \<notin> rt_id ` set (rows st)" using fresh_id_less [of _ "map rt_id (rows st)"] row(2) by fastforce
  moreover have "live (rt_family row) st = []" using row(5) by (auto simp: live_def filter_empty_conv)
  moreover have "live f st' = live f st @ (if rt_family row = f \<and> rt_revoked row = None then [row] else [])" for f
    by (simp add: live_def row(1))
  ultimately show ?thesis using ok row unfolding sessions_ok_def by auto
qed

lemma issue_tokens_adds:
  assumes "issue_tokens lib cf en u family st = (r, st')"
    "family = None \<and> fresh_family en st \<or> (\<exists>f. family = Some f \<and> f \<noteq> [] \<and> live f st = [])"
  shows "st' = st \<or> adds_session st st'"
proof -
  let ?f = "if truthy family then the family else en_family en"
  have "?f \<noteq> []" using assms(2) by (auto simp: truthy_def fresh_family_def)
  moreover have "rt_revoked r \<noteq> None" if "r \<in> set (rows st)" "rt_family r = ?f" for r
    using assms(2) that by (auto simp: truthy_def fresh_family_def live_def filter_empty_conv image_iff)
  ultimately show ?thesis using assms(1)
    by (auto simp: issue_tokens_def adds_session_def Let_def split: if_split_asm)
qed


subsection \<open>What every step does\<close>

definition session_change :: "auth_state \<Rightarrow> auth_state \<Rightarrow> bool" where
  "session_change st st' \<longleftrightarrow> only_revokes st st' \<or> (\<exists>mid. only_revokes st mid \<and> adds_session mid st')"

lemma session_change_ok: "sessions_ok st \<Longrightarrow> session_change st st' \<Longrightarrow> sessions_ok st'"
  by (auto simp: session_change_def intro: only_revokes_ok adds_session_ok)

lemma live_same: "rows s = rows st \<Longrightarrow> live f s = live f st" by (simp add: live_def)

lemma adds_session_same: "rows s = rows st \<Longrightarrow> adds_session s st' = adds_session st st'" by (simp add: adds_session_def)

lemma issue_change:
  assumes "issue_tokens lib cf en u None s = (r, st')" "fresh_family en st" "rows s = rows st"
  shows "session_change st st'"
proof -
  have "fresh_family en s" using assms(2,3) by (simp add: fresh_family_def)
  then have "st' = s \<or> adds_session s st'" using issue_tokens_adds [OF assms(1)] by blast
  then show ?thesis using only_revokes_refl(2) [OF assms(3)] adds_session_same [OF assms(3)]
    unfolding session_change_def by (metis assms(3) only_revokes_refl)
qed

lemma issue_reset:
  assumes "issue_tokens lib cf en u None (reset_limiter k s) = (r, st')" "fresh_family en st" "rows s = rows st"
  shows "session_change st st'"
  by (rule issue_change [OF assms(1,2)]) (simp add: assms(3))

lemma claimed_dead:
  assumes "sessions_ok st" "known_row row st"
    "length (filter (\<lambda>r. rt_id r = rt_id row \<and> rt_revoked r = None) (rows st)) = 1"
  shows "live (rt_family row) (on_db (revoke_where now (\<lambda>r. rt_id r = rt_id row)) st) = []"
proof -
  obtain r where r: "filter (\<lambda>r. rt_id r = rt_id row \<and> rt_revoked r = None) (rows st) = [r]"
    using assms(3) by (auto simp: length_Suc_conv)
  then have "r \<in> set (filter (\<lambda>r. rt_id r = rt_id row \<and> rt_revoked r = None) (rows st))" by simp
  then have r': "r \<in> set (rows st)" "rt_id r = rt_id row" "rt_revoked r = None" by auto
  then have fam: "rt_family r = rt_family row"
    using assms(1,2) unfolding sessions_ok_def known_row_def distinct_map by (metis inj_onD)
  have "s = r" if "s \<in> set (rows st)" "rt_family s = rt_family row" "rt_revoked s = None" for s
  proof -
    have "r \<in> set (live (rt_family row) st)" "s \<in> set (live (rt_family row) st)" using r' fam that by (auto simp: live_def)
    moreover have "length (live (rt_family row) st) \<le> 1" using assms(1) by (simp add: sessions_ok_def)
    ultimately show ?thesis by (cases "live (rt_family row) st") auto
  qed
  then show ?thesis using r'(2) by (fastforce simp: live_def revoke_where_def filter_empty_conv)
qed

lemma refresh_claim_change:
  assumes "sessions_ok st" "known_row row st"
  shows "session_change st (snd (refresh_claim lib cf en row u st))"
proof -
  let ?claimed = "on_db (revoke_where (en_now en) (\<lambda>r. rt_id r = rt_id row)) st"
  show ?thesis
  proof (cases "length (filter (\<lambda>r. rt_id r = rt_id row \<and> rt_revoked r = None) (rows st)) = 1")
    case True
    obtain x st' where x: "issue_tokens lib cf en u (Some (rt_family row)) ?claimed = (x, st')" by fastforce
    have "rt_family row \<noteq> []" using assms by (auto simp: sessions_ok_def known_row_def)
    then have "st' = ?claimed \<or> adds_session ?claimed st'"
      using issue_tokens_adds [OF x] claimed_dead [OF assms True] by blast
    then show ?thesis using True x by (auto simp: refresh_claim_def Let_def session_change_def split: sum.split)
  next
    case False
    then show ?thesis
      by (auto simp: refresh_claim_def Let_def session_change_def intro: only_revokes_trans only_revokes_where)
  qed
qed

lemma change_same: "rows s = rows st \<Longrightarrow> session_change st s"
  by (simp add: session_change_def)

lemma change_where: "session_change st (on_db (revoke_where now P) st)"
  by (simp add: session_change_def)

lemma logout_change: "session_change st (logout en st)"
  unfolding session_change_def only_revokes_def logout_def
  by (rule disjI1, cases "truthy (en_cookie en)", simp_all,
      rule exI [of _ "\<lambda>r. if rt_hash r = hash_token (the (en_cookie en)) then r\<lparr>rt_revoked := Some (en_now en)\<rparr> else r"],
      auto simp: keeps_row_def intro: exI [of _ id])

lemma change_rows: "rows st' = au_refresh (revoke_where now P (as_db st)) \<Longrightarrow> session_change st st'"
  using only_revokes_where [of st now P] by (simp add: session_change_def only_revokes_def)

lemma revoke_where_on_users [simp]: "au_refresh (revoke_where now P (on_users i f d)) = au_refresh (revoke_where now P d)"
  by (simp add: revoke_where_def)

lemma revoke_where_sessions [simp]:
  "au_refresh (revoke_where now (\<lambda>r. rt_user r = i) (revoke_sessions now i d)) = au_refresh (revoke_where now (\<lambda>r. rt_user r = i) d)"
  by (simp add: revoke_where_def revoke_sessions_def)

lemma revoke_sessions_rows: "au_refresh (revoke_sessions now i d) = au_refresh (revoke_where now (\<lambda>r. rt_user r = i) d)"
  by (simp add: revoke_sessions_def)

lemma step_change:
  assumes "auth_step lib cf st st'" "sessions_ok st"
  shows "session_change st st'"
  using assms
proof (cases rule: auth_step.cases)
  case (Setup en n p)
  then show ?thesis by (auto simp: first_setup_def Let_def intro!: change_same)
next
  case (Login en n p)
  show ?thesis unfolding Login(1) login_def
    by (rule rows_limited) (use Login(2) in \<open>auto simp: change_same dest: issue_reset split: option.split prod.split sum.split\<close>)
next
  case (LoginTotp en ch code)
  show ?thesis unfolding LoginTotp(1) login_totp_def
    by (rule rows_limited) (use LoginTotp(2) in \<open>auto simp: change_same issue_reset [OF prod.collapse [symmetric]] split: sum.split\<close>)
next
  case (RefreshLookup en)
  then show ?thesis by (auto simp: refresh_lookup_def intro!: change_same change_where split: list.split option.split)
next
  case (RefreshClaim row u en)
  then show ?thesis using refresh_claim_change assms(2) by blast
next
  case (Logout en)
  then show ?thesis using logout_change by blast
next
  case (ChangePassword u en p q)
  then have "rows st' = rows st \<or> rows st' = au_refresh (revoke_where (en_now en) (\<lambda>r. rt_user r = us_id u) (as_db st))"
    by (auto simp: change_password_def)
  then show ?thesis using change_same change_rows by blast
next
  case (TotpEnable en u code)
  show ?thesis unfolding TotpEnable totp_enable_def
    by (rule rows_limited) (auto intro!: change_same split: sum.split)
next
  case (RevokeSession en u i)
  then show ?thesis by (auto simp: revoke_session_def intro!: change_same change_where split: option.split)
next
  case (RevokeOthers en u)
  then show ?thesis by (auto simp: revoke_other_sessions_def Let_def intro!: change_where)
next
  case (UpdateUser en i susp c rt)
  have "au_refresh (updated_account en i susp c rt d) = au_refresh d
      \<or> au_refresh (updated_account en i susp c rt d) = au_refresh (revoke_where (en_now en) (\<lambda>r. rt_user r = i) d)" for d
    by (auto simp: updated_account_def Let_def revoke_sessions_rows)
  then have "rows st' = rows st \<or> rows st' = au_refresh (revoke_where (en_now en) (\<lambda>r. rt_user r = i) (as_db st))"
    unfolding UpdateUser update_user_def Let_def by (auto split: option.split)
  then show ?thesis using change_same change_rows by blast
next
  case (ResetPassword en admin i sent)
  then have "rows st' = rows st \<or> rows st' = au_refresh (revoke_where (en_now en) (\<lambda>r. rt_user r = i) (as_db st))"
    by (auto simp: reset_user_password_def revoke_sessions_rows split: option.split)
  then show ?thesis using change_same change_rows by blast
qed (auto simp: totp_setup_def totp_disable_def create_user_def Let_def intro!: change_same)


subsection \<open>Over a history\<close>

lemma steps_ok: "auth_steps lib cf st st' \<Longrightarrow> sessions_ok st \<Longrightarrow> sessions_ok st'"
  by (induction rule: auth_steps.induct) (auto dest: step_change session_change_ok)

lemma empty_ok: "rows st = [] \<Longrightarrow> sessions_ok st"
  by (simp add: sessions_ok_def live_def)

text \<open>A row with its fields, as it is seen later.\<close>

definition same_row :: "refresh_row \<Rightarrow> refresh_row \<Rightarrow> bool" where
  "same_row r r' \<longleftrightarrow> rt_id r' = rt_id r \<and> rt_user r' = rt_user r \<and> rt_hash r' = rt_hash r \<and> rt_family r' = rt_family r
     \<and> (rt_revoked r \<noteq> None \<longrightarrow> rt_revoked r' \<noteq> None)"

lemma same_row_trans: "same_row r s \<Longrightarrow> same_row s t \<Longrightarrow> same_row r t"
  by (auto simp: same_row_def)

lemma change_row: "session_change st st' \<Longrightarrow> r \<in> set (rows st) \<Longrightarrow> \<exists>r'\<in>set (rows st'). same_row r r'"
proof -
  have "only_revokes st s \<Longrightarrow> r \<in> set (rows st) \<Longrightarrow> \<exists>r'\<in>set (rows s). same_row r r'" for s
    by (auto simp: only_revokes_def keeps_row_def same_row_def)
  then show "session_change st st' \<Longrightarrow> r \<in> set (rows st) \<Longrightarrow> \<exists>r'\<in>set (rows st'). same_row r r'"
    unfolding session_change_def adds_session_def by force
qed

lemma steps_row: "auth_steps lib cf st st' \<Longrightarrow> sessions_ok st \<Longrightarrow> r \<in> set (rows st) \<Longrightarrow> \<exists>r'\<in>set (rows st'). same_row r r'"
proof (induction rule: auth_steps.induct)
  case (Step st st' st'')
  then obtain r' where "r' \<in> set (rows st')" "same_row r r'" by blast
  moreover have "session_change st' st''" using Step step_change steps_ok by blast
  ultimately show ?case using change_row same_row_trans by blast
qed (auto simp: same_row_def)

lemma hash_row: "sessions_ok st \<Longrightarrow> r \<in> set (rows st) \<Longrightarrow> filter (\<lambda>x. rt_hash x = rt_hash r) (rows st) = [r]"
proof -
  have "distinct (map f xs) \<Longrightarrow> r \<in> set xs \<Longrightarrow> filter (\<lambda>x. f x = f r) xs = [r]" for f :: "refresh_row \<Rightarrow> string" and xs
    by (induction xs) (auto simp: filter_empty_conv image_iff)
  then show "sessions_ok st \<Longrightarrow> r \<in> set (rows st) \<Longrightarrow> filter (\<lambda>x. rt_hash x = rt_hash r) (rows st) = [r]"
    by (simp add: sessions_ok_def)
qed

lemma lookup_dead:
  assumes "sessions_ok st" "r \<in> set (rows st)" "rt_revoked r \<noteq> None" "en_cookie en = Some c" "c \<noteq> []" "rt_hash r = hash_token c"
  shows "refresh_lookup en st = (Inl unauthorized, on_db (revoke_where (en_now en) (\<lambda>x. rt_family x = rt_family r)) st)"
  using hash_row [OF assms(1,2)] assms(3-6) by (simp add: refresh_lookup_def truthy_def)

lemma family_dead: "live f (on_db (revoke_where now (\<lambda>x. rt_family x = f)) st) = []"
proof -
  have "filter (\<lambda>r. rt_family r = f \<and> rt_revoked r = None)
     (map (\<lambda>r. if rt_family r = f \<and> rt_revoked r = None then r\<lparr>rt_revoked := Some now\<rparr> else r) rs) = []" for rs
    by (induction rs) simp_all
  then show ?thesis by (simp add: live_def revoke_where_def)
qed

lemma filter_single: "filter P xs = [x] \<Longrightarrow> x \<in> set xs \<and> P x"
  by (induction xs) (auto split: if_split_asm)

lemma lookup_Inr:
  assumes "refresh_lookup en st = (Inr (row, u), st')"
  shows "st' = st \<and> row \<in> set (rows st) \<and> rt_revoked row = None \<and> en_now en \<le> rt_expires row
    \<and> (\<exists>c. en_cookie en = Some c \<and> c \<noteq> [] \<and> rt_hash row = hash_token c)
    \<and> user_by_id (as_db st) (rt_user row) = Some u \<and> \<not> us_suspended u"
proof -
  obtain c where c: "en_cookie en = Some c" "c \<noteq> []" using assms by (auto simp: refresh_lookup_def truthy_def split: if_splits)
  have "filter (\<lambda>r. rt_hash r = hash_token c) (rows st) = [row] \<and> st' = st \<and> rt_revoked row = None \<and> en_now en \<le> rt_expires row
     \<and> user_by_id (as_db st) (rt_user row) = Some u \<and> \<not> us_suspended u"
    using assms c by (auto simp: refresh_lookup_def truthy_def not_less split: list.splits if_splits option.splits)
  then show ?thesis using c filter_single [of _ "rows st" row] by blast
qed

text \<open>C28: rotation keeps one session per sign-in.  Whatever requests arrive, in whatever order, and with
  refreshes overlapping, a family of refresh tokens never has two that are not revoked.\<close>

theorem family_single_live:
  assumes "auth_steps lib cf st0 st" "au_refresh (as_db st0) = []"
  shows "length (live f st) \<le> 1"
  using steps_ok [OF assms(1) empty_ok [OF assms(2)]] by (simp add: sessions_ok_def)

lemma claim_Inr:
  assumes "refresh_claim lib cf en row u st = (Inr t, st')" "sessions_ok st" "row \<in> set (rows st)"
  shows "\<exists>r'\<in>set (rows st'). same_row row r' \<and> rt_revoked r' \<noteq> None"
proof -
  let ?mid = "on_db (revoke_where (en_now en) (\<lambda>r. rt_id r = rt_id row)) st"
  obtain x s where x: "issue_tokens lib cf en u (Some (rt_family row)) ?mid = (x, s)" by fastforce
  then have "x = Inr t" "s = st'" using assms(1) by (auto simp: refresh_claim_def Let_def split: if_splits sum.splits prod.splits)
  then have "set (rows ?mid) \<subseteq> set (rows st')" using x by (auto simp: issue_tokens_def Let_def split: if_splits)
  moreover have "(if rt_revoked row = None then row\<lparr>rt_revoked := Some (en_now en)\<rparr> else row) \<in> set (rows ?mid)"
    using assms(3) by (force simp: revoke_where_def)
  moreover have "same_row row (if rt_revoked row = None then row\<lparr>rt_revoked := Some (en_now en)\<rparr> else row)"
    by (simp add: same_row_def)
  moreover have "rt_revoked (if rt_revoked row = None then row\<lparr>rt_revoked := Some (en_now en)\<rparr> else row) \<noteq> None" by simp
  ultimately show ?thesis by blast
qed

text \<open>C16: a rotated token betrays its thief.  Once a refresh token has been exchanged, presenting it again at
  any later time is refused and leaves no usable token in its family, whoever holds it.\<close>

theorem reuse_kills_family:
  assumes "auth_steps lib cf st0 st" "au_refresh (as_db st0) = []" "refresh lib cf en st = (Inr t, st1)"
    "auth_steps lib cf st1 st2" "en_cookie en2 = en_cookie en"
  shows "\<exists>r\<in>set (au_refresh (as_db st)). rt_hash r = hash_token (the (en_cookie en))
    \<and> fst (refresh lib cf en2 st2) = Inl unauthorized \<and> live (rt_family r) (snd (refresh lib cf en2 st2)) = []"
proof -
  have ok: "sessions_ok st" using steps_ok assms(1,2) empty_ok by blast
  obtain row u s where l: "refresh_lookup en st = (Inr (row, u), s)" using assms(3)
    by (auto simp: refresh_def split: prod.splits sum.splits)
  note row = lookup_Inr [OF l]
  then obtain c where c: "en_cookie en = Some c" "c \<noteq> []" "rt_hash row = hash_token c" by blast
  have claim: "refresh_claim lib cf en row u st = (Inr t, st1)" using assms(3) l row by (simp add: refresh_def)
  have "known_row row st" using row by (auto simp: known_row_def)
  then have ok1: "sessions_ok st1" using refresh_claim_change [OF ok] session_change_ok [OF ok] claim by (metis snd_conv)
  obtain r1 where r1: "r1 \<in> set (rows st1)" "same_row row r1" "rt_revoked r1 \<noteq> None" using claim_Inr [OF claim ok] row by blast
  then obtain r2 where r2: "r2 \<in> set (rows st2)" "same_row r1 r2" using steps_row [OF assms(4) ok1] by blast
  have "rt_hash r2 = hash_token c" "rt_revoked r2 \<noteq> None" "rt_family r2 = rt_family row"
    using r1 r2 c by (auto simp: same_row_def)
  then have "refresh_lookup en2 st2 = (Inl unauthorized, on_db (revoke_where (en_now en2) (\<lambda>x. rt_family x = rt_family row)) st2)"
    using lookup_dead [OF steps_ok [OF assms(4) ok1] r2(1)] assms(5) c by simp
  then show ?thesis using row c family_dead by (intro bexI [of _ row]) (simp_all add: refresh_def)
qed

text \<open>Two refreshes with the same token that both read it before either claims it: the first is served, the
  second is refused, and the session is over for both.\<close>

theorem refresh_race:
  assumes "auth_steps lib cf st0 st" "au_refresh (as_db st0) = []"
    "refresh_lookup en1 st = (Inr (row, u), st)" "refresh_lookup en2 st = (Inr (row, u), st)"
    "refresh_claim lib cf en1 row u st = (Inr t, st1)"
  shows "fst (refresh_claim lib cf en2 row u st1) = Inl unauthorized
    \<and> live (rt_family row) (snd (refresh_claim lib cf en2 row u st1)) = []"
proof -
  have ok: "sessions_ok st" using steps_ok assms(1,2) empty_ok by blast
  have row: "row \<in> set (rows st)" using lookup_Inr [OF assms(3)] by blast
  then have "known_row row st" by (auto simp: known_row_def)
  then have ok1: "sessions_ok st1" using refresh_claim_change [OF ok] session_change_ok [OF ok] assms(5) by (metis snd_conv)
  obtain r1 where r1: "r1 \<in> set (rows st1)" "same_row row r1" "rt_revoked r1 \<noteq> None" using claim_Inr [OF assms(5) ok row] by blast
  have "rt_revoked r \<noteq> None" if "r \<in> set (rows st1)" "rt_id r = rt_id row" for r
  proof -
    have "r = r1" using ok1 that r1 unfolding sessions_ok_def distinct_map same_row_def by (metis inj_onD)
    then show ?thesis using r1 by simp
  qed
  then have "filter (\<lambda>r. rt_id r = rt_id row \<and> rt_revoked r = None) (rows st1) = []" by (auto simp: filter_empty_conv)
  then show ?thesis using family_dead by (simp add: refresh_claim_def Let_def)
qed

end
