(* ===== verification/Lockout.thy ===== *)
theory Lockout
  imports SessionFacts
begin

text \<open>
  What signing in, changing a password and suspending an account guarantee, over the histories of
  \<open>SessionFacts\<close>, and where the guarantees end: tokens of the API, the second factor, the rate limit of
  the login and the terminal's own check.
\<close>

subsection \<open>Accounts over time\<close>

definition users_grow :: "auth_db \<Rightarrow> auth_db \<Rightarrow> bool" where
  "users_grow d d' \<longleftrightarrow> (\<forall>i u. user_by_id d i = Some u \<longrightarrow> (\<exists>u'. user_by_id d' i = Some u' \<and> us_version u \<le> us_version u'))"

lemma users_grow_refl [simp, intro]: "users_grow d d" "au_users d' = au_users d \<Longrightarrow> users_grow d d'"
  by (auto simp: users_grow_def user_by_id_def)

lemma users_grow_trans: "users_grow a b \<Longrightarrow> users_grow b c \<Longrightarrow> users_grow a c"
  unfolding users_grow_def by (meson order_trans)

lemma find_map: "(\<And>x. P (f x) = P x) \<Longrightarrow> find P (map f xs) = map_option f (find P xs)"
  by (induction xs) auto

lemma user_by_id_on_users: "(\<And>x. us_id (f x) = us_id x) \<Longrightarrow>
    user_by_id (on_users i f d) j = map_option (\<lambda>u. if us_id u = i then f u else u) (user_by_id d j)"
  by (simp add: user_by_id_def on_users_def find_map)

lemma user_by_id_id: "user_by_id d i = Some u \<Longrightarrow> us_id u = i"
  unfolding user_by_id_def find_Some_iff by blast

lemma grow_on_users: "(\<And>x. us_id (f x) = us_id x) \<Longrightarrow> (\<And>x. us_version x \<le> us_version (f x)) \<Longrightarrow> users_grow d (on_users i f d)"
  by (auto simp: users_grow_def user_by_id_on_users)

lemma find_append: "find P xs = Some x \<Longrightarrow> find P (xs @ ys) = Some x"
  by (induction xs) auto

lemma grow_append: "au_users d' = au_users d @ us \<Longrightarrow> users_grow d d'"
  by (auto simp: users_grow_def user_by_id_def find_append)

lemma grow_revoke: "users_grow d (revoke_sessions now i d)"
  unfolding revoke_sessions_def
  by (rule users_grow_trans [OF users_grow_refl(2) grow_on_users]) simp_all

lemma limited_db: "(\<And>s. as_db s = as_db st \<Longrightarrow> users_grow (as_db st) (as_db (snd (body s)))) \<Longrightarrow>
    users_grow (as_db st) (as_db (snd (limited en key body st)))"
  by (auto simp: limited_def Let_def split: prod.split)

lemma issue_users: "issue_tokens lib cf en u fam st = (r, st') \<Longrightarrow> au_users (as_db st') = au_users (as_db st)"
  by (auto simp: issue_tokens_def Let_def on_db_def split: if_split_asm)

lemma issue_users_snd [simp]: "au_users (as_db (snd (issue_tokens lib cf en u fam st))) = au_users (as_db st)"
  by (simp add: issue_tokens_def Let_def on_db_def)

lemma on_db_sel [simp]: "as_db (on_db f st) = f (as_db st)" by (simp add: on_db_def)

lemma reset_db [simp]: "as_db (reset_limiter k st) = as_db st" by (simp add: reset_limiter_def)

lemma apply_limits_sel [simp]: "us_id (apply_limits c u) = us_id u" "us_version (apply_limits c u) = us_version u"
  by (simp_all add: apply_limits_def)

lemma step_grow:
  assumes "auth_step lib cf st st'"
  shows "users_grow (as_db st) (as_db st')"
  using assms
proof (cases rule: auth_step.cases)
  case (Setup en n p)
  then show ?thesis by (auto simp: first_setup_def Let_def intro: grow_append)
next
  case (Login en n p)
  show ?thesis unfolding Login(1) login_def
    by (rule limited_db) (auto dest!: issue_users split: option.split prod.split sum.split)
next
  case (LoginTotp en ch code)
  show ?thesis unfolding LoginTotp(1) login_totp_def
    by (rule limited_db) (auto split: sum.split)
next
  case (RefreshLookup en)
  then show ?thesis by (auto simp: refresh_lookup_def split: list.split option.split)
next
  case (RefreshClaim row u en)
  then show ?thesis by (auto simp: refresh_claim_def Let_def dest: issue_users split: prod.split sum.split)
next
  case (Logout en)
  then show ?thesis by (auto simp: logout_def)
next
  case (ChangePassword u en p q)
  let ?d = "on_users (us_id u) (\<lambda>x. x\<lparr>us_password := pw_hash lib q, us_must_change := False,
                us_password_changed := en_now en, us_version := us_version u + 1\<rparr>) (as_db st)"
  have "users_grow (as_db st) ?d"
    unfolding users_grow_def
  proof (intro allI impI)
    fix i x assume x: "user_by_id (as_db st) i = Some x"
    then have "us_id x = us_id u \<Longrightarrow> x = u" using ChangePassword(2) user_by_id_id [OF x] by (metis option.inject)
    moreover have "user_by_id ?d i = map_option (\<lambda>y. if us_id y = us_id u then y\<lparr>us_password := pw_hash lib q,
        us_must_change := False, us_password_changed := en_now en, us_version := us_version u + 1\<rparr> else y) (Some x)"
      unfolding x [symmetric] by (rule user_by_id_on_users) simp
    ultimately show "\<exists>x'. user_by_id ?d i = Some x' \<and> us_version x \<le> us_version x'" by auto
  qed
  then have "users_grow (as_db st) (revoke_where (en_now en) (\<lambda>r. rt_user r = us_id u) ?d)"
    by (rule users_grow_trans) simp
  then show ?thesis using ChangePassword by (auto simp: change_password_def)
next
  case (TotpSetup en u)
  then show ?thesis by (auto simp: totp_setup_def intro: grow_on_users)
next
  case (TotpEnable en u code)
  show ?thesis unfolding TotpEnable totp_enable_def
    by (rule limited_db) (auto intro: grow_on_users split: sum.split)
next
  case (TotpDisable u p)
  then show ?thesis by (auto simp: totp_disable_def intro: grow_on_users)
next
  case (RevokeSession en u i)
  then show ?thesis by (auto simp: revoke_session_def split: option.split)
next
  case (RevokeOthers en u)
  then show ?thesis by (auto simp: revoke_other_sessions_def Let_def)
next
  case (CreateUser en n pw own plan taken sent)
  then show ?thesis by (auto simp: create_user_def Let_def intro: grow_append)
next
  case (UpdateUser en i susp c rt)
  have "users_grow d (on_users i (\<lambda>x. x\<lparr>us_suspended := (case susp of None \<Rightarrow> us_suspended x | Some b \<Rightarrow> b)\<rparr>) d)"
    "users_grow d (on_users i (apply_limits c) d)"
    "users_grow d (on_users i (\<lambda>x. x\<lparr>us_totp_enabled := False, us_totp_secret := None\<rparr>) d)" for d
    by (intro grow_on_users; simp)+
  then have "users_grow d (updated_account en i susp c rt d)" for d
    unfolding updated_account_def Let_def using grow_revoke users_grow_trans by (smt (verit, best))
  then show ?thesis
    unfolding UpdateUser update_user_def Let_def by (auto split: option.split)
next
  case (ResetPassword en admin i sent)
  then show ?thesis
    by (auto simp: reset_user_password_def split: option.split intro: users_grow_trans [OF grow_on_users grow_revoke])
qed

lemma steps_grow: "auth_steps lib cf st st' \<Longrightarrow> users_grow (as_db st) (as_db st')"
  by (induction rule: auth_steps.induct) (auto dest: step_grow intro: users_grow_trans)


subsection \<open>Password changes\<close>

lemma lookup_locked:
  assumes "sessions_ok st" "auth_steps lib cf st st2" "r \<in> set (rows st)" "rt_revoked r \<noteq> None"
    "rt_hash r = hash_token c" "en_cookie en2 = Some c"
  shows "fst (refresh lib cf en2 st2) = Inl unauthorized"
proof (cases "c = []")
  case False
  obtain r' where r': "r' \<in> set (rows st2)" "same_row r r'" using steps_row [OF assms(2,1,3)] by blast
  then show ?thesis
    using lookup_dead [OF steps_ok [OF assms(2,1)] r'(1) _ assms(6) False] assms(4,5)
    by (simp add: refresh_def same_row_def)
qed (simp add: refresh_def refresh_lookup_def truthy_def assms(6))


definition bearer_hash :: "string \<Rightarrow> string" where
  "bearer_hash bearer = hash_token (if startswith bearer ''hst_'' then drop 4 bearer else bearer)"

lemma api_token_user_Inr:
  "fst (api_token_user now path bearer d) = Inr x \<longleftrightarrow>
     (\<exists>row. filter (\<lambda>t. at_hash t = bearer_hash bearer) (au_tokens d) = [row] \<and> api_token_owner now path d row = Inr x)"
  unfolding api_token_user_def bearer_hash_def Let_def by (auto split: list.split sum.split)

text \<open>Tokens of the API outlive the password.  Whoever holds one is let in after the owner changed the
  password exactly as before, and what the scopes of the token say makes no difference to any request.\<close>

theorem api_token_outlives_password:
  assumes "fst (api_token_user now path bearer (as_db st)) = Inr x" "change_password lib en u p q st = (Inr (), st1)"
  shows "(\<exists>x'. fst (api_token_user now path bearer (as_db st1)) = Inr x' \<and> us_id x' = us_id x)
    \<and> fst (api_token_user now path bearer ((as_db st)\<lparr>au_tokens := map (at_scopes_update scopes) (au_tokens (as_db st))\<rparr>)) = Inr x"
proof
  define f :: "user_row \<Rightarrow> user_row" where "f = (\<lambda>x. x\<lparr>us_password := pw_hash lib q, us_must_change := False,
                us_password_changed := en_now en, us_version := us_version u + 1\<rparr>)"
  have d1: "as_db st1 = revoke_where (en_now en) (\<lambda>r. rt_user r = us_id u) (on_users (us_id u) f (as_db st))"
    using assms(2) by (auto simp: change_password_def f_def split: if_splits)
  have f: "us_id (f y) = us_id y" "us_suspended (f y) = us_suspended y" "us_must_change (f y) = False" for y by (simp_all add: f_def)
  have "user_by_id (as_db st1) i = user_by_id (on_users (us_id u) f (as_db st)) i" for i by (simp add: d1 user_by_id_def)
  then have by_id: "user_by_id (as_db st1) i = map_option (\<lambda>y. if us_id y = us_id u then f y else y) (user_by_id (as_db st) i)" for i
    by (simp add: user_by_id_on_users f)
  have "\<exists>x'. api_token_owner now path (as_db st1) row = Inr x' \<and> us_id x' = us_id x"
    if "api_token_owner now path (as_db st) row = Inr x" for row
    using that by (auto simp: api_token_owner_def by_id bind_res_eq_Inr require_password_def f split: option.splits)
  moreover have "au_tokens (as_db st1) = au_tokens (as_db st)" by (simp add: d1 on_users_def)
  ultimately show "\<exists>x'. fst (api_token_user now path bearer (as_db st1)) = Inr x' \<and> us_id x' = us_id x"
    using api_token_user_Inr [of now path bearer] assms(1) by metis
next
  let ?d = "(as_db st)\<lparr>au_tokens := map (at_scopes_update scopes) (au_tokens (as_db st))\<rparr>"
  obtain row where row: "filter (\<lambda>t. at_hash t = bearer_hash bearer) (au_tokens (as_db st)) = [row]"
      "api_token_owner now path (as_db st) row = Inr x"
    using api_token_user_Inr assms(1) by blast
  have "filter (\<lambda>t. at_hash t = bearer_hash bearer) (au_tokens ?d) = [at_scopes_update scopes row]"
    using row(1) by (simp add: filter_map comp_def)
  moreover have "api_token_owner now path ?d (at_scopes_update scopes row) = Inr x"
    using row(2) by (simp add: api_token_owner_def user_by_id_def)
  ultimately show "fst (api_token_user now path bearer ?d) = Inr x" using api_token_user_Inr by blast
qed

subsection \<open>Suspension\<close>

definition all_suspended :: "int \<Rightarrow> auth_db \<Rightarrow> bool" where
  "all_suspended i d \<longleftrightarrow> (\<forall>x\<in>set (au_users d). us_id x = i \<longrightarrow> us_suspended x)"

lemma suspended_by_id: "all_suspended i d \<Longrightarrow> user_by_id d j = Some x \<Longrightarrow> \<not> us_suspended x \<Longrightarrow> us_id x \<noteq> i"
  unfolding all_suspended_def user_by_id_def find_Some_iff by (metis nth_mem)

lemma suspended_on_users:
  "all_suspended i d \<Longrightarrow> (\<And>x. us_id (f x) = us_id x) \<Longrightarrow> (\<And>x. us_suspended (f x) = us_suspended x) \<Longrightarrow> all_suspended i (on_users j f d)"
  by (auto simp: all_suspended_def on_users_def)

lemma suspended_revoke: "all_suspended i d \<Longrightarrow> all_suspended i (revoke_sessions now j d)"
  unfolding revoke_sessions_def by (rule suspended_on_users) (simp_all add: all_suspended_def)

lemma update_user_suspends:
  assumes "update_user en i (Some True) c rt st = (Inr u, st1)"
  shows "all_suspended i (as_db st1)"
proof -
  let ?d1 = "on_users i (\<lambda>x. x\<lparr>us_suspended := True\<rparr>) (as_db st)"
  let ?d3 = "on_users i (apply_limits c) (revoke_sessions (en_now en) i ?d1)"
  define g :: "user_row \<Rightarrow> user_row" where "g = (\<lambda>u. if us_id u = i then u\<lparr>us_suspended := True\<rparr> else u)"
  have "us_id (g x) = i \<longrightarrow> us_suspended (g x)" for x by (simp add: g_def)
  moreover have "au_users ?d1 = map g (au_users (as_db st))" by (simp add: on_users_def g_def)
  ultimately have "all_suspended i ?d1" by (simp add: all_suspended_def)
  then have "all_suspended i (revoke_sessions (en_now en) i ?d1)" by (rule suspended_revoke)
  then have d3: "all_suspended i ?d3" by (rule suspended_on_users) (simp_all add: apply_limits_def)
  then have "all_suspended i (on_users i (\<lambda>x. x\<lparr>us_totp_enabled := False, us_totp_secret := None\<rparr>) ?d3)"
    by (rule suspended_on_users) simp_all
  then have "all_suspended i (updated_account en i (Some True) c rt (as_db st))"
    using d3 suspended_revoke by (simp add: updated_account_def Let_def)
  moreover have "as_db st1 = updated_account en i (Some True) c rt (as_db st)"
    using assms unfolding update_user_def Let_def by (simp split: option.split_asm if_split_asm) auto
  ultimately show ?thesis by simp
qed

lemma limited_Inr: "fst (limited en key body st) = Inr r \<Longrightarrow> \<exists>lm. fst (body (st\<lparr>as_limiter := lm\<rparr>)) = Inr r"
  by (auto simp: limited_def Let_def split: prod.splits if_splits)

lemma login_Inr:
  assumes "fst (login lib cf en n p st) = Inr resp"
  shows "\<exists>x. find (\<lambda>u. us_username u = n) (au_users (as_db st)) = Some x \<and> \<not> us_suspended x \<and> pw_verify lib (us_password x) p"
  using limited_Inr [OF assms [unfolded login_def]]
  by (auto split: option.splits if_splits)

lemma payload_unsuspended:
  "user_of_payload path p d = Inr (x, None) \<Longrightarrow> \<exists>j. user_by_id d j = Some x \<and> \<not> us_suspended x"
  by (auto simp: user_of_payload_def bind_res_eq_Inr split: option.splits if_splits)

lemma current_user_unsuspended:
  assumes "fst (get_current_user lib now path cred d) = Inr (x, None)"
  shows "\<exists>j. user_by_id d j = Some x \<and> \<not> us_suspended x"
proof -
  obtain raw where raw: "cred = Some raw" using assms by (cases cred) (simp_all add: get_current_user_def)
  show ?thesis
  proof (cases "startswith raw ''hst_''")
    case True
    then have "fst (api_token_user now path raw d) = Inr x"
      using assms raw by (auto simp: get_current_user_def bind_res_eq_Inr split: prod.splits)
    then show ?thesis by (auto simp: api_token_user_Inr api_token_owner_def bind_res_eq_Inr split: option.splits)
  next
    case False
    then show ?thesis using assms raw payload_unsuspended by (auto simp: get_current_user_def bind_res_eq_Inr)
  qed
qed

text \<open>C18: suspending an account shuts it out.  After the administrator's request no password, no refresh token,
  no access token of its own, no API token and no terminal ticket lets it in; only the access token of an
  impersonating administrator still does.\<close>

theorem suspension_locks_out:
  assumes "update_user en i (Some True) c rt st = (Inr u, st1)"
  shows "(fst (login lib cf en2 n p st1) = Inr resp \<longrightarrow> (\<exists>x\<in>set (au_users (as_db st1)). us_username x = n \<and> us_id x \<noteq> i))
    \<and> (fst (refresh_lookup en2 st1) = Inr (row, x) \<longrightarrow> us_id x \<noteq> i)
    \<and> (fst (get_current_user lib now path cred (as_db st1)) = Inr (x, None) \<longrightarrow> us_id x \<noteq> i)
    \<and> (auth_user_from_ticket lib now (as_db st1) token stack service = Inr (Some x) \<longrightarrow> us_id x \<noteq> i)"
proof (intro conjI impI)
  note s = update_user_suspends [OF assms]
  note by_id = suspended_by_id [OF s]
  { assume "fst (login lib cf en2 n p st1) = Inr resp"
    then obtain x where "find (\<lambda>u. us_username u = n) (au_users (as_db st1)) = Some x" "\<not> us_suspended x" using login_Inr by blast
    then show "\<exists>x\<in>set (au_users (as_db st1)). us_username x = n \<and> us_id x \<noteq> i"
      using s unfolding all_suspended_def find_Some_iff by (metis nth_mem)
  next
    assume "fst (refresh_lookup en2 st1) = Inr (row, x)"
    then show "us_id x \<noteq> i" using lookup_Inr [of en2 st1 row x] by_id by (metis prod.collapse)
  next
    assume "fst (get_current_user lib now path cred (as_db st1)) = Inr (x, None)"
    then have "\<exists>j. user_by_id (as_db st1) j = Some x \<and> \<not> us_suspended x"
      by (rule current_user_unsuspended)
    then show "us_id x \<noteq> i" using by_id by blast
  next
    assume "auth_user_from_ticket lib now (as_db st1) token stack service = Inr (Some x)"
    then have "\<exists>j. user_by_id (as_db st1) j = Some x \<and> \<not> us_suspended x"
      by (auto simp: auth_user_from_ticket_def bind_res_eq_Inr split: option.splits if_splits sum.splits)
    then show "us_id x \<noteq> i" using by_id by blast }
qed

text \<open>The terminal does not look at the impersonator.  An access token minted by an administrator who has
  since been demoted, deleted or has changed the password is refused by every route, and opens a shell
  in the client's containers all the same.\<close>

theorem terminal_ignores_impersonator:
  assumes "jwt_decode lib now raw = Some payload" "map_of payload ''type'' = Some (JStr ''access'')" "\<not> startswith raw ''hst_''"
    "claim_int payload ''sub'' = Inr i" "user_by_id d i = Some u" "\<not> us_suspended u"
    "map_of payload ''ver'' = Some (JInt (us_version u))" "map_of payload ''imp'' = Some (JInt a)"
    "user_by_id d a = None \<or> (\<exists>x. user_by_id d a = Some x \<and> (us_role x \<noteq> ''admin'' \<or> \<not> claim_is_int payload ''imp_ver'' (us_version x)))"
  shows "get_current_user lib now path (Some raw) d = (Inl unauthorized, d)
    \<and> auth_user_from_ticket lib now d raw stack service = Inr (Some u)"
proof
  have imp: "claim_int payload ''imp'' = Inr a" using assms(8) by (simp add: claim_int_def int_of_json_def)
  show "get_current_user lib now path (Some raw) d = (Inl unauthorized, d)"
    using assms by (auto simp: get_current_user_def decode_access_token_def decode_kind_def user_of_payload_def imp guard_def)
  have "decode_terminal_ticket lib now raw stack service = Inl unauthorized"
    using assms(1,2) by (simp add: decode_terminal_ticket_def decode_kind_def)
  moreover have "decode_access_token lib now raw = Inr payload" using assms(1,2) by (simp add: decode_access_token_def decode_kind_def)
  moreover have "claim_is_int payload ''ver'' (us_version u)" using assms(7) by (simp add: claim_is_int_def)
  ultimately show "auth_user_from_ticket lib now d raw stack service = Inr (Some u)"
    using assms(4-6) by (simp add: auth_user_from_ticket_def)
qed

subsection \<open>The second factor and the rate limit\<close>

text \<open>With a second factor the password alone yields no session.  Login answers with a challenge, stores no
  refresh token, and the challenge is not an access token.\<close>

theorem second_factor_required:
  assumes "find (\<lambda>u. us_username u = n) (au_users (as_db st)) = Some u" "us_totp_enabled u"
    "login lib cf en n p st = (Inr resp, st1)"
    "jwt_decode lib now (create_totp_challenge lib (en_now en) (int_str (us_id u)) (en_jti en))
      = Some (base_claims (en_now en) (int_str (us_id u)) totp_challenge_ttl ''totp_challenge'' (en_jti en))"
    "\<not> startswith (create_totp_challenge lib (en_now en) (int_str (us_id u)) (en_jti en)) ''hst_''"
  shows "\<exists>token. resp = Challenge token \<and> as_db st1 = as_db st
    \<and> get_current_user lib now path (Some token) d = (Inl unauthorized, d)"
proof -
  have r: "resp = Challenge (create_totp_challenge lib (en_now en) (int_str (us_id u)) (en_jti en))" "as_db st1 = as_db st"
    using assms(1-3) by (auto simp: login_def limited_def Let_def split: prod.splits if_splits)
  have "map_of (base_claims now' s ttl k j) ''type'' = Some (JStr k)" for now' s ttl k j by (simp add: base_claims_def)
  then show ?thesis
    using r assms(4,5) by (simp add: get_current_user_def decode_access_token_def decode_kind_def)
qed

text \<open>An attacker with an account of his own, who alternates a guess with a login of his own.\<close>

fun guesses :: "auth_lib \<Rightarrow> auth_settings \<Rightarrow> string \<Rightarrow> string \<Rightarrow> string \<Rightarrow> (env \<times> env \<times> string) list \<Rightarrow> auth_state
    \<Rightarrow> login_response res list" where
  "guesses lib cf victim own ownpw [] st = []"
| "guesses lib cf victim own ownpw ((en1, en2, guess) # rest) st =
     (case login lib cf en1 victim guess st of (r, st1) \<Rightarrow>
        r # guesses lib cf victim own ownpw rest (snd (login lib cf en2 own ownpw st1)))"

definition at_most_hits :: "nat \<Rightarrow> string \<Rightarrow> int \<Rightarrow> auth_state \<Rightarrow> bool" where
  "at_most_hits n key m st \<longleftrightarrow> length (fmget (lm_hits (as_limiter st)) key []) \<le> n \<and> lm_max (as_limiter st) = m"

lemma at_most_reset: "at_most_hits n key m st \<Longrightarrow> at_most_hits 0 key m (reset_limiter key st)"
  by (simp add: at_most_hits_def reset_limiter_def reset_def fmget_def)

lemma allow_hits:
  assumes "at_most_hits n key m st" "int n < m"
  shows "\<exists>lm. allow t key (as_limiter st) = (True, lm) \<and> at_most_hits (Suc n) key m (st\<lparr>as_limiter := lm\<rparr>)"
proof -
  let ?hits = "dropWhile (\<lambda>h. lm_window (as_limiter st) \<le> t - h) (fmget (lm_hits (as_limiter st)) key [])"
  have "length ?hits \<le> n" using assms(1) length_dropWhile_le le_trans unfolding at_most_hits_def by blast
  moreover from this have "\<not> lm_max (as_limiter st) \<le> int (length ?hits)" using assms by (simp add: at_most_hits_def)
  ultimately show ?thesis using assms(1) by (simp add: allow_def at_most_hits_def fmget_def)
qed

lemma issue_limiter: "as_limiter (snd (issue_tokens lib cf en u fam st)) = as_limiter st"
  by (simp add: issue_tokens_def Let_def on_db_def)

lemma login_not_limited:
  assumes "at_most_hits n key m st" "int n < m" "client_key en = key"
  shows "fst (login lib cf en u p st) \<noteq> Inl rate_limited \<and> au_users (as_db (snd (login lib cf en u p st))) = au_users (as_db st)
    \<and> at_most_hits (Suc n) key m (snd (login lib cf en u p st))"
proof -
  obtain lm where lm: "allow (en_mono en) key (as_limiter st) = (True, lm)" "at_most_hits (Suc n) key m (st\<lparr>as_limiter := lm\<rparr>)"
    using allow_hits [OF assms(1,2)] by blast
  have differ: "unauthorized \<noteq> rate_limited" by (simp add: unauthorized_def rate_limited_def)
  show ?thesis
  proof (cases "find (\<lambda>x. us_username x = u) (au_users (as_db st))")
    case None
    then show ?thesis using lm assms(3) differ by (simp add: login_def limited_def)
  next
    case (Some x)
    obtain r st' where r: "issue_tokens lib cf en x None (reset_limiter key (st\<lparr>as_limiter := lm\<rparr>)) = (r, st')" by fastforce
    then have "r \<noteq> Inl rate_limited" by (auto simp: issue_tokens_def Let_def rate_limited_def split: if_splits)
    moreover have "au_users (as_db st') = au_users (as_db st)" using issue_users [OF r] by simp
    moreover have "at_most_hits (Suc n) key m st'"
      using at_most_reset [OF lm(2)] issue_limiter [of lib cf en x None "reset_limiter key (st\<lparr>as_limiter := lm\<rparr>)"]
      by (simp add: at_most_hits_def r)
    ultimately show ?thesis using lm assms(3) differ Some r by (cases r) (auto simp: login_def limited_def Let_def)
  qed
qed

lemma own_login_resets:
  assumes "at_most_hits 1 key m st" "2 \<le> m" "client_key en = key"
    "find (\<lambda>u. us_username u = own) (au_users (as_db st)) = Some u" "pw_verify lib (us_password u) ownpw"
    "\<not> us_suspended u" "\<not> us_totp_enabled u"
  shows "at_most_hits 0 key m (snd (login lib cf en own ownpw st))"
proof -
  obtain lm where lm: "allow (en_mono en) key (as_limiter st) = (True, lm)" "at_most_hits 2 key m (st\<lparr>as_limiter := lm\<rparr>)"
    using allow_hits [OF assms(1)] assms(2) by (auto simp: numeral_2_eq_2)
  have "at_most_hits 0 key m (snd (issue_tokens lib cf en u None (reset_limiter key (st\<lparr>as_limiter := lm\<rparr>))))"
    using at_most_reset [OF lm(2)] by (simp add: at_most_hits_def issue_limiter)
  then show ?thesis
    using lm assms(3-7) by (auto simp: login_def limited_def Let_def split: prod.splits sum.splits)
qed

text \<open>The login limit does not bound guessing.  Any successful login from an address clears its count, so
  someone with an account of his own can try passwords for another account without end: however long
  the list of guesses, none of them is rate limited.\<close>

theorem login_limit_bypass:
  assumes "2 \<le> lm_max (as_limiter st)" "fmget (lm_hits (as_limiter st)) key [] = []"
    "find (\<lambda>u. us_username u = own) (au_users (as_db st)) = Some u" "pw_verify lib (us_password u) ownpw"
    "\<not> us_suspended u" "\<not> us_totp_enabled u"
    "\<forall>(en1, en2, guess)\<in>set gs. client_key en1 = key \<and> client_key en2 = key"
  shows "length (guesses lib cf victim own ownpw gs st) = length gs
    \<and> Inl rate_limited \<notin> set (guesses lib cf victim own ownpw gs st)"
proof -
  have "at_most_hits 0 key m st \<Longrightarrow> 2 \<le> m \<Longrightarrow> find (\<lambda>u. us_username u = own) (au_users (as_db st)) = Some u
     \<Longrightarrow> \<forall>(en1, en2, guess)\<in>set gs. client_key en1 = key \<and> client_key en2 = key
     \<Longrightarrow> length (guesses lib cf victim own ownpw gs st) = length gs
       \<and> Inl rate_limited \<notin> set (guesses lib cf victim own ownpw gs st)" for m
  proof (induction gs arbitrary: st)
    case (Cons g gs)
    obtain en1 en2 guess where g: "g = (en1, en2, guess)" by (cases g)
    obtain r st1 where r: "login lib cf en1 victim guess st = (r, st1)" by fastforce
    have k: "client_key en1 = key" "client_key en2 = key" using Cons.prems(4) by (auto simp: g)
    have one: "r \<noteq> Inl rate_limited" "au_users (as_db st1) = au_users (as_db st)" "at_most_hits 1 key m st1"
      using login_not_limited [OF Cons.prems(1) _ k(1), of lib cf victim guess] Cons.prems(2) by (simp_all add: r)
    let ?st2 = "snd (login lib cf en2 own ownpw st1)"
    have "au_users (as_db ?st2) = au_users (as_db st1)"
      using login_not_limited [OF one(3) _ k(2), of lib cf own ownpw] Cons.prems(2) by simp
    moreover have "at_most_hits 0 key m ?st2"
      using own_login_resets [OF one(3) Cons.prems(2) k(2)] Cons.prems(3) one(2) assms(4-6) by simp
    ultimately show ?case using Cons.IH [of ?st2] Cons.prems one by (simp add: g r)
  qed simp
  then show ?thesis using assms by (simp add: at_most_hits_def)
qed

end
