(* ===== verification/SessionExamples.thy ===== *)
theory SessionExamples
  imports Lockout
begin

text \<open>
  Concrete sign-ins: the theorems of \<open>SessionFacts\<close> and \<open>Lockout\<close> applied to a panel with two accounts.
  The digests of two one-letter tokens are computed, to know that they differ.
\<close>

subsection \<open>Two digests\<close>

definition one_letter :: "w32 \<Rightarrow> w32 list" where
  "one_letter b = [b, 128] @ replicate 61 0 @ [8]"

lemma pad_one: "sha_pad [c] = one_letter (word_of_nat (of_char c))"
proof -
  have "replicate (54 + 7) (0 :: w32) = replicate 54 0 @ replicate 7 0" by (rule replicate_add)
  moreover have "replicate 7 (0 :: w32) = [0, 0, 0, 0, 0, 0, 0]" by code_simp
  ultimately have "replicate 61 (0 :: w32) = replicate 54 0 @ [0, 0, 0, 0, 0, 0, 0]" by simp
  then show ?thesis by (simp add: sha_pad_def one_letter_def Let_def)
qed

lemma chunks_Nil: "chunks k [] n = []" by (cases k) simp_all

lemma chunks_one: "length xs = n \<Longrightarrow> 0 < n \<Longrightarrow> chunks n xs n = [xs]"
  by (cases n) (auto simp: chunks_Nil)

lemma hash_first_word:
  "take 8 (hash_token [c]) = word_hex (ha (sha_block sha_init (one_letter (word_of_nat (of_char c)))))" if "encode [c] = [c]"
proof -
  have "length (one_letter b) = 64" for b by (simp add: one_letter_def)
  then have "chunks (length (one_letter b)) (one_letter b) 64 = [one_letter b]" for b
    by (simp add: chunks_one)
  then show ?thesis
    by (simp add: hash_token_def that sha256_hex_def sha256_words_def pad_one Let_def word_hex_props(1))
qed

lemma block_a: "ha (sha_block sha_init (one_letter 97)) = 3398926610"
  by code_simp

lemma block_b: "ha (sha_block sha_init (one_letter 98)) = 1042540566"
  by code_simp

lemma hash_prefixes:
  "take 8 (hash_token ''a'') = word_hex 3398926610" "take 8 (hash_token ''b'') = word_hex 1042540566"
proof -
  have "encode ''a'' = ''a''" "encode ''b'' = ''b''" by (simp_all add: encode_def utf8_char_def)
  moreover have "word_of_nat (of_char CHR ''a'') = (97 :: w32)" "word_of_nat (of_char CHR ''b'') = (98 :: w32)" by simp_all
  ultimately show "take 8 (hash_token ''a'') = word_hex 3398926610" "take 8 (hash_token ''b'') = word_hex 1042540566"
    using hash_first_word [of "CHR ''a''"] hash_first_word [of "CHR ''b''"] by (simp_all only: block_a block_b)
qed

lemma hashes_differ: "hash_token ''a'' \<noteq> hash_token ''b''"
proof -
  have "hd (word_hex 3398926610) = hex_digit 12" "hd (word_hex 1042540566) = hex_digit 3" by (simp_all add: word_hex_def)
  moreover have "hex_digit 12 \<noteq> hex_digit 3" by code_simp
  ultimately have "word_hex 3398926610 \<noteq> word_hex 1042540566" by metis
  then show ?thesis using hash_prefixes by metis
qed

subsection \<open>A panel with two accounts\<close>

definition demo_lib :: "claims \<Rightarrow> auth_lib" where
  "demo_lib p = \<lparr>jwt_encode = (\<lambda>_. ''eyJ''), jwt_decode = (\<lambda>_ _. Some p), pw_hash = (\<lambda>s. s), pw_verify = (=),
     seal_text = (\<lambda>s. s), open_text = Inr\<rparr>"

definition demo_user :: "int \<Rightarrow> string \<Rightarrow> string \<Rightarrow> user_row" where
  "demo_user i name role = \<lparr>us_id = i, us_username = name, us_password = ''correct horse'', us_role = role, us_must_change = False,
     us_suspended = False, us_limits = unlimited, us_plan = None, us_totp_secret = None, us_totp_enabled = False,
     us_password_changed = 0, us_version = 0\<rparr>"

definition demo_state :: auth_state where
  "demo_state = \<lparr>as_db = \<lparr>au_users = [demo_user 1 ''ann'' ''admin'', demo_user 2 ''bob'' ''client''],
     au_tokens = [\<lparr>at_owner = 2, at_hash = hash_token ''t'', at_scopes = ''read'', at_expires = None, at_last_used = None\<rparr>],
     au_refresh = [], au_setup = Some 0, au_plans = []\<rparr>, as_limiter = fresh_limiter 5 60\<rparr>"

definition demo_env :: "string option \<Rightarrow> string \<Rightarrow> env" where
  "demo_env cookie raw = \<lparr>en_now = 5000000, en_mono = 5, en_host = Some ''10.0.0.1'', en_cookie = cookie, en_raw = raw,
     en_family = ''fam'', en_jti = ''j'', en_secret = ''S'', en_temp = ''temporary one''\<rparr>"

definition demo_cf :: auth_settings where "demo_cf = \<lparr>cf_access_ttl = 900, cf_refresh_ttl = 3600\<rparr>"

definition demo_in :: "claims \<Rightarrow> auth_state" where
  "demo_in p = snd (login (demo_lib p) demo_cf (demo_env None ''a'') ''bob'' ''correct horse'' demo_state)"

definition demo_row :: refresh_row where
  "demo_row = \<lparr>rt_id = 1, rt_user = 2, rt_hash = hash_token ''a'', rt_family = ''fam'', rt_expires = 3605000000,
     rt_revoked = None, rt_created = 5000000\<rparr>"

lemmas demo_defs = demo_lib_def demo_user_def demo_state_def demo_env_def demo_cf_def fresh_limiter_def

lemma demo_env_sel [simp]: "en_cookie (demo_env c r) = c" "en_raw (demo_env c r) = r" "en_now (demo_env c r) = 5000000"
  "client_key (demo_env c r) = ''10.0.0.1''" "en_family (demo_env c r) = ''fam''"
  by (simp_all add: demo_env_def client_key_def)

lemma demo_in_db: "as_db (demo_in p) = (as_db demo_state)\<lparr>au_refresh := [demo_row]\<rparr>"
  by (simp add: demo_in_def login_def limited_def allow_def demo_defs issue_tokens_def Let_def fmget_def client_key_def
      fresh_id_def truthy_def micros_def demo_row_def)

lemma demo_steps: "auth_steps (demo_lib p) demo_cf demo_state (demo_in p)"
  unfolding demo_in_def
  by (rule auth_steps.Step [OF auth_steps.Refl auth_step.Login]) (simp add: fresh_family_def demo_state_def)

lemma demo_start: "au_refresh (as_db demo_state) = []" by (simp add: demo_state_def)

lemma demo_bob: "user_by_id (as_db (demo_in p)) 2 = Some (demo_user 2 ''bob'' ''client'')"
  by (simp add: demo_in_db user_by_id_def) (simp add: demo_state_def demo_user_def)

lemma demo_lookup: "refresh_lookup (demo_env (Some ''a'') raw) (demo_in p) = (Inr (demo_row, demo_user 2 ''bob'' ''client''), demo_in p)"
proof -
  have "rt_user demo_row = 2" "rt_hash demo_row = hash_token ''a''" "rt_revoked demo_row = None" "rt_expires demo_row = 3605000000"
    by (simp_all add: demo_row_def)
  moreover have "\<not> us_suspended (demo_user 2 ''bob'' ''client'')" by (simp add: demo_user_def)
  ultimately show ?thesis using demo_bob [of p] by (simp add: refresh_lookup_def truthy_def demo_in_db)
qed

lemma demo_claim: "\<exists>t st. refresh_claim (demo_lib p) demo_cf (demo_env (Some ''a'') ''b'') demo_row (demo_user 2 ''bob'' ''client'') (demo_in p) = (Inr t, st)"
  using hashes_differ by (simp add: refresh_claim_def issue_tokens_def Let_def demo_in_db revoke_where_def demo_row_def)

lemma demo_refresh: "\<exists>t st. refresh (demo_lib p) demo_cf (demo_env (Some ''a'') ''b'') (demo_in p) = (Inr t, st)"
  using demo_claim by (simp add: refresh_def demo_lookup)

theorem family_single_live_witness: "length (live ''fam'' (demo_in [])) \<le> 1"
  by (rule family_single_live [OF demo_steps demo_start])

theorem reuse_kills_family_witness:
  "\<exists>t st. refresh (demo_lib []) demo_cf (demo_env (Some ''a'') ''b'') (demo_in []) = (Inr t, st)
     \<and> fst (refresh (demo_lib []) demo_cf (demo_env (Some ''a'') ''c'') st) = Inl unauthorized"
proof -
  obtain t st where r: "refresh (demo_lib []) demo_cf (demo_env (Some ''a'') ''b'') (demo_in []) = (Inr t, st)"
    using demo_refresh by blast
  show ?thesis
    using reuse_kills_family [OF demo_steps demo_start r auth_steps.Refl, of "demo_env (Some ''a'') ''c''"] r by auto
qed

theorem refresh_race_witness:
  "\<exists>t st. refresh_claim (demo_lib []) demo_cf (demo_env (Some ''a'') ''b'') demo_row (demo_user 2 ''bob'' ''client'') (demo_in []) = (Inr t, st)
     \<and> fst (refresh_claim (demo_lib []) demo_cf (demo_env (Some ''a'') ''c'') demo_row (demo_user 2 ''bob'' ''client'') st) = Inl unauthorized"
proof -
  obtain t st where r: "refresh_claim (demo_lib []) demo_cf (demo_env (Some ''a'') ''b'') demo_row (demo_user 2 ''bob'' ''client'') (demo_in []) = (Inr t, st)"
    using demo_claim by blast
  show ?thesis
    using refresh_race [OF demo_steps demo_start demo_lookup demo_lookup [where raw = "''c''"] r] r by auto
qed

definition demo_payload :: claims where
  "demo_payload = [(''sub'', JInt 2), (''type'', JStr ''access''), (''ver'', JInt 0)]"

definition demo_changed :: auth_state where
  "demo_changed = snd (change_password (demo_lib demo_payload) (demo_env None ''b'') (demo_user 2 ''bob'' ''client'')
     ''correct horse'' ''a better horse'' (demo_in demo_payload))"

lemma demo_change:
  "change_password (demo_lib demo_payload) (demo_env None ''b'') (demo_user 2 ''bob'' ''client'')
     ''correct horse'' ''a better horse'' (demo_in demo_payload) = (Inr (), demo_changed)"
  unfolding demo_changed_def by (simp add: change_password_def password_bounds_def demo_lib_def demo_user_def)


lemma demo_api_token: "fst (api_token_user 0 ''/api/stacks'' ''hst_t'' (as_db (demo_in p))) = Inr (demo_user 2 ''bob'' ''client'')"
proof -
  have "au_tokens (as_db (demo_in p)) = [\<lparr>at_owner = 2, at_hash = hash_token ''t'', at_scopes = ''read'', at_expires = None, at_last_used = None\<rparr>]"
    unfolding demo_in_db by (simp add: demo_state_def)
  then show ?thesis
    by (simp add: api_token_user_Inr bearer_hash_def api_token_owner_def demo_bob require_password_def)
       (simp add: demo_user_def guard_def)
qed

theorem api_token_outlives_password_witness:
  "\<exists>x. fst (api_token_user 0 ''/api/stacks'' ''hst_t'' (as_db demo_changed)) = Inr x \<and> us_id x = 2"
  using api_token_outlives_password [OF demo_api_token demo_change] by (simp add: demo_user_def)

definition no_changes :: limit_changes where
  "no_changes = \<lparr>lc_sites = Keep, lc_databases = Keep, lc_apps = Keep, lc_stacks = Keep, lc_disk_mb = Keep, lc_cpu_percent = Keep,
     lc_memory_mb = Keep, lc_plan = Keep\<rparr>"

definition demo_suspended :: auth_state where
  "demo_suspended = snd (update_user (demo_env None ''b'') 2 (Some True) no_changes False (demo_in []))"

lemma demo_suspend: "\<exists>u. update_user (demo_env None ''b'') 2 (Some True) no_changes False (demo_in []) = (Inr u, demo_suspended)"
proof -
  have "\<exists>u. user_by_id (updated_account (demo_env None ''b'') 2 (Some True) no_changes False (as_db (demo_in []))) 2 = Some u"
    by (simp add: updated_account_def Let_def user_by_id_on_users revoke_sessions_def) (simp add: user_by_id_def revoke_where_def on_users_def demo_in_db demo_state_def demo_user_def)
  then show ?thesis
    unfolding demo_suspended_def update_user_def by (auto simp: demo_bob Let_def no_changes_def) (simp_all add: demo_user_def)
qed

lemma demo_suspended_names: "x \<in> set (au_users (as_db demo_suspended)) \<Longrightarrow> us_username x = ''bob'' \<Longrightarrow> us_id x = 2"
proof -
  have "demo_suspended = (demo_in [])\<lparr>as_db := updated_account (demo_env None ''b'') 2 (Some True) no_changes False (as_db (demo_in []))\<rparr>"
    using demo_suspend unfolding update_user_def Let_def by (auto simp: demo_bob split: if_split_asm)
  from arg_cong [OF this, of as_db]
  have "as_db demo_suspended = updated_account (demo_env None ''b'') 2 (Some True) no_changes False (as_db (demo_in []))" by simp
  moreover have "map us_username (au_users (updated_account (demo_env None ''b'') 2 (Some True) no_changes False (as_db (demo_in [])))) = [''ann'', ''bob'']"
    "map us_id (au_users (updated_account (demo_env None ''b'') 2 (Some True) no_changes False (as_db (demo_in [])))) = [1, 2]"
    by (simp_all add: updated_account_def Let_def revoke_sessions_def revoke_where_def on_users_def demo_in_db demo_state_def demo_user_def apply_limits_def)
  ultimately show "x \<in> set (au_users (as_db demo_suspended)) \<Longrightarrow> us_username x = ''bob'' \<Longrightarrow> us_id x = 2"
    by (auto simp: map_eq_Cons_conv)
qed

theorem suspension_locks_out_witness:
  "\<not> (\<exists>resp. fst (login (demo_lib []) demo_cf (demo_env None ''b'') ''bob'' ''correct horse'' demo_suspended) = Inr resp)
   \<and> \<not> (\<exists>row x. fst (refresh_lookup (demo_env (Some ''a'') ''b'') demo_suspended) = Inr (row, x) \<and> us_id x = 2)"
proof -
  obtain u where "update_user (demo_env None ''b'') 2 (Some True) no_changes False (demo_in []) = (Inr u, demo_suspended)"
    using demo_suspend by blast
  note s = suspension_locks_out [OF this, of "demo_lib []" demo_cf _ "''bob''" "''correct horse''"]
  show ?thesis using s demo_suspended_names by blast
qed

text \<open>An impersonation token of an administrator whose version has moved on.\<close>

definition imp_payload :: claims where
  "imp_payload = [(''sub'', JStr ''2''), (''type'', JStr ''access''), (''imp'', JInt 1), (''imp_ver'', JInt 7), (''ver'', JInt 0)]"

lemma demo_users_by_id:
  "user_by_id (as_db demo_state) 2 = Some (demo_user 2 ''bob'' ''client'')" "user_by_id (as_db demo_state) 1 = Some (demo_user 1 ''ann'' ''admin'')"
  by (simp_all add: user_by_id_def demo_state_def) (simp_all add: demo_user_def)

theorem terminal_ignores_impersonator_witness:
  "get_current_user (demo_lib imp_payload) 0 ''/api/stacks'' (Some ''eyJ'') (as_db demo_state) = (Inl unauthorized, as_db demo_state)
   \<and> auth_user_from_ticket (demo_lib imp_payload) 0 (as_db demo_state) ''eyJ'' 3 ''web'' = Inr (Some (demo_user 2 ''bob'' ''client''))"
proof (rule terminal_ignores_impersonator [OF _ _ _ _ demo_users_by_id(1)])
  have "py_int ''2'' = Inr 2" by code_simp
  then show "claim_int imp_payload ''sub'' = Inr 2" by (simp add: imp_payload_def claim_int_def int_of_json_def)
  show "map_of imp_payload ''imp'' = Some (JInt 1)" by (simp add: imp_payload_def)
  show "user_by_id (as_db demo_state) 1 = None \<or> (\<exists>x. user_by_id (as_db demo_state) 1 = Some x
     \<and> (us_role x \<noteq> ''admin'' \<or> \<not> claim_is_int imp_payload ''imp_ver'' (us_version x)))"
    by (simp add: demo_users_by_id imp_payload_def claim_is_int_def) (simp add: demo_user_def)
qed (simp_all add: demo_lib_def imp_payload_def demo_user_def)

definition totp_state :: auth_state where
  "totp_state = on_db (on_users 2 (\<lambda>u. u\<lparr>us_totp_enabled := True, us_totp_secret := Some ''AAAAAAAA''\<rparr>)) demo_state"

definition totp_user :: user_row where
  "totp_user = (demo_user 2 ''bob'' ''client'')\<lparr>us_totp_enabled := True, us_totp_secret := Some ''AAAAAAAA''\<rparr>"

lemma totp_user_facts: "us_totp_enabled totp_user" "us_id totp_user = 2" "us_password totp_user = ''correct horse''" "\<not> us_suspended totp_user"
  by (simp_all add: totp_user_def demo_user_def)

theorem second_factor_required_witness:
  "\<exists>token st. login (demo_lib (base_claims 5000000 (int_str 2) totp_challenge_ttl ''totp_challenge'' ''j'')) demo_cf (demo_env None ''b'')
       ''bob'' ''correct horse'' totp_state = (Inr (Challenge token), st)
     \<and> get_current_user (demo_lib (base_claims 5000000 (int_str 2) totp_challenge_ttl ''totp_challenge'' ''j'')) 0 ''/'' (Some token) (as_db st)
       = (Inl unauthorized, as_db st)"
proof -
  let ?p = "base_claims 5000000 (int_str 2) totp_challenge_ttl ''totp_challenge'' ''j''"
  have f: "find (\<lambda>u. us_username u = ''bob'') (au_users (as_db totp_state)) = Some totp_user"
    by (simp add: totp_state_def on_db_def on_users_def demo_state_def demo_user_def totp_user_def)
  obtain resp st where r: "login (demo_lib ?p) demo_cf (demo_env None ''b'') ''bob'' ''correct horse'' totp_state = (Inr resp, st)"
    using f totp_user_facts by (simp add: login_def limited_def allow_def totp_state_def on_db_def demo_state_def fresh_limiter_def fmget_def demo_lib_def Let_def)
  have "\<exists>token. resp = Challenge token \<and> as_db st = as_db totp_state
    \<and> get_current_user (demo_lib ?p) 0 ''/'' (Some token) (as_db st) = (Inl unauthorized, as_db st)"
    by (rule second_factor_required [OF f totp_user_facts(1) r]) (simp_all add: demo_lib_def totp_user_facts demo_env_def create_totp_challenge_def)
  then show ?thesis using r by blast
qed

definition attack :: "(env \<times> env \<times> string) list" where
  "attack = map (\<lambda>g. (demo_env None ''a'', demo_env None ''a'', g)) [''guess one'', ''guess two'', ''guess three'', ''guess four'', ''guess five'', ''guess six'', ''guess seven'']"

theorem login_limit_bypass_witness:
  "length (guesses (demo_lib []) demo_cf ''ann'' ''bob'' ''correct horse'' attack demo_state) = 7
   \<and> Inl rate_limited \<notin> set (guesses (demo_lib []) demo_cf ''ann'' ''bob'' ''correct horse'' attack demo_state)"
proof -
  have f: "find (\<lambda>u. us_username u = ''bob'') (au_users (as_db demo_state)) = Some (demo_user 2 ''bob'' ''client'')"
    by (simp add: demo_state_def demo_user_def)
  have "length attack = 7" by (simp add: attack_def)
  then show ?thesis
    using login_limit_bypass [of demo_state "''10.0.0.1''", OF _ _ f, of "demo_lib []" "''correct horse''" attack demo_cf "''ann''"]
    by (simp add: demo_lib_def attack_def) (simp add: demo_state_def demo_user_def fresh_limiter_def fmget_def)
qed

end
