(* ===== verification/Caddy.thy ===== *)
theory Caddy
  imports Specs "HOL-Library.Multiset" "HOL-Library.AList"
begin

text \<open>
  The web server's configuration, \<open>backend/app/services/caddy.py\<close>.  \<open>build_config\<close> is pure: it maps
  the sites, apps and stack routes to the complete JSON document, which is built here with the JSON
  values of \<open>Digest\<close>, keys in the source's order.  \<open>CaddyClient\<close> is a few requests to the admin
  interface of the server; the interface is not part of the program, so it is the argument \<open>req\<close>
  of the client's operations: a method, a path and a body go in, a status code and a body come out,
  or the transport error.
\<close>

subsection \<open>What is routed\<close>

record site_spec =
  si_domain :: string
  si_doc_root :: string
  si_php_socket :: string
  si_internal_tls :: bool
  si_suspended :: bool

record app_spec =
  ap_domain :: string
  ap_upstream :: string
  ap_internal_tls :: bool
  ap_suspended :: bool

record stack_route =
  sr_domain :: string
  sr_upstream :: string
  sr_internal_tls :: bool
  sr_suspended :: bool

record adminer_spec =
  ad_listen :: string
  ad_root :: string
  ad_php_socket :: string

record panel_spec =
  pn_domain :: string
  pn_upstream :: string
  pn_allowed_ips :: "string list"

text \<open>\<open>server_name\<close> is \<open>SERVER_NAME\<close>.  The em dash in the title is written as two hyphens.\<close>

definition server_name :: string where "server_name = ''hosty''"

definition suspended_body :: string where
  "suspended_body = join [nl]
     [''<!doctype html>'', ''<html lang='' @ [CHR 0x22] @ ''en'' @ [CHR 0x22] @ ''>'',
      ''<title>503 -- Account suspended</title>'',
      ''<style>body{font-family:system-ui,sans-serif;display:grid;place-items:center;min-height:90vh;color:#333}</style>'',
      ''<body><div><h1>Account suspended</h1>'',
      ''<p>This site is temporarily unavailable. Please contact the hosting administrator.</p></div></body>'',
      ''</html>'', []]"

subsection \<open>Routes\<close>

definition host_match :: "string \<Rightarrow> json" where
  "host_match domain = JList [JObj [(''host'', JList [JStr domain])]]"

definition suspended_route :: "string \<Rightarrow> json" where
  "suspended_route domain = JObj
     [(''match'', host_match domain),
      (''handle'', JList [JObj
        [(''handler'', JStr ''static_response''), (''status_code'', JInt 503),
         (''headers'', JObj [(''Content-Type'', JList [JStr ''text/html; charset=utf-8''])]),
         (''body'', JStr suspended_body)]]),
      (''terminal'', JBool True)]"

definition fastcgi_proxy :: "string \<Rightarrow> string \<Rightarrow> json" where
  "fastcgi_proxy root sock = JObj
     [(''handler'', JStr ''reverse_proxy''),
      (''transport'', JObj [(''protocol'', JStr ''fastcgi''), (''root'', JStr root),
         (''split_path'', JList [JStr ''.php''])]),
      (''upstreams'', JList [JObj [(''dial'', JStr (''unix/'' @ sock))]])]"

definition site_route :: "site_spec \<Rightarrow> json" where
  "site_route site =
     (if si_suspended site then suspended_route (si_domain site)
      else JObj
        [(''match'', host_match (si_domain site)),
         (''handle'', JList [JObj
           [(''handler'', JStr ''subroute''),
            (''routes'', JList
              [JObj
                [(''match'', JList [JObj [(''file'', JObj
                    [(''root'', JStr (si_doc_root site)),
                     (''try_files'', JList [JStr ''{http.request.uri.path}'',
                        JStr ''{http.request.uri.path}/index.php'', JStr ''/index.php'']),
                     (''split_path'', JList [JStr ''.php''])])]]),
                 (''handle'', JList [JObj [(''handler'', JStr ''rewrite''),
                    (''uri'', JStr ''{http.matchers.file.relative}'')]])],
               JObj
                [(''match'', JList [JObj [(''path'', JList [JStr ''*.php''])]]),
                 (''handle'', JList [fastcgi_proxy (si_doc_root site) (si_php_socket site)])],
               JObj [(''handle'', JList [JObj [(''handler'', JStr ''file_server''),
                    (''root'', JStr (si_doc_root site))]])]])]]),
         (''terminal'', JBool True)])"

text \<open>\<open>_app_route\<close> and \<open>_stack_route\<close> build the same object.\<close>

definition proxy_route :: "string \<Rightarrow> string \<Rightarrow> json" where
  "proxy_route domain upstream = JObj
     [(''match'', host_match domain),
      (''handle'', JList [JObj [(''handler'', JStr ''reverse_proxy''),
         (''upstreams'', JList [JObj [(''dial'', JStr upstream)]])]]),
      (''terminal'', JBool True)]"

definition app_route :: "app_spec \<Rightarrow> json" where
  "app_route app =
     (if ap_suspended app then suspended_route (ap_domain app) else proxy_route (ap_domain app) (ap_upstream app))"

definition stack_route_json :: "stack_route \<Rightarrow> json" where
  "stack_route_json r =
     (if sr_suspended r then suspended_route (sr_domain r) else proxy_route (sr_domain r) (sr_upstream r))"

text \<open>The cross-references were checked when the \<open>StackSpec\<close> was made; the lookup of a missing
  service would raise.\<close>

definition route_of :: "stack_spec \<Rightarrow> bool \<Rightarrow> endpoint_spec \<Rightarrow> stack_route res" where
  "route_of st susp e =
     (case find_service (rev (st_services st)) (e_service e) of
        None \<Rightarrow> Inl KeyError
      | Some s \<Rightarrow> (case s_internal_port s of
          None \<Rightarrow> Inl TypeError
        | Some p \<Rightarrow> Inr \<lparr>sr_domain = e_domain e,
            sr_upstream = st_loopback_ip st @ '':'' @ int_str (derive_host_port p),
            sr_internal_tls = e_behind_cloudflare e, sr_suspended = susp\<rparr>))"

definition routes_for_stack :: "stack_spec \<Rightarrow> bool \<Rightarrow> stack_route list res" where
  "routes_for_stack st susp = map_res (route_of st susp) (st_endpoints st)"

definition adminer_server :: "adminer_spec \<Rightarrow> json" where
  "adminer_server ad = JObj
     [(''listen'', JList [JStr (ad_listen ad)]),
      (''routes'', JList [JObj
        [(''handle'', JList [JObj
           [(''handler'', JStr ''subroute''),
            (''routes'', JList [JObj [(''handle'', JList
               [JObj [(''handler'', JStr ''rewrite''), (''uri'', JStr ''/adminer.php'')],
                fastcgi_proxy (ad_root ad) (ad_php_socket ad)])]])]]),
         (''terminal'', JBool True)]])]"

definition panel_route :: "panel_spec \<Rightarrow> json" where
  "panel_route p = JObj
     [(''match'', JList [JObj ((''host'', JList [JStr (pn_domain p)])
         # (if pn_allowed_ips p \<noteq> [] then [(''remote_ip'', JObj [(''ranges'', JList (map JStr (pn_allowed_ips p)))])]
            else []))]),
      (''handle'', JList [JObj [(''handler'', JStr ''reverse_proxy''),
         (''upstreams'', JList [JObj [(''dial'', JStr (pn_upstream p))]])]]),
      (''terminal'', JBool True)]"

subsection \<open>The configuration\<close>

definition all_routes :: "site_spec list \<Rightarrow> app_spec list \<Rightarrow> stack_route list \<Rightarrow> panel_spec option \<Rightarrow> json list" where
  "all_routes sites apps stacks panel =
     (case panel of None \<Rightarrow> [] | Some p \<Rightarrow> [panel_route p])
     @ map site_route (sort_key si_domain sites) @ map app_route (sort_key ap_domain apps)
     @ map stack_route_json (sort_key sr_domain stacks)"

text \<open>The domains that get a certificate of the internal CA: all of them with \<open>tls_internal\<close>, those
  behind the Cloudflare proxy otherwise.\<close>

definition internal_subjects :: "bool \<Rightarrow> site_spec list \<Rightarrow> app_spec list \<Rightarrow> stack_route list \<Rightarrow> string list" where
  "internal_subjects tls sites apps stacks =
     (let ordered = sort_key si_domain sites; apps' = sort_key ap_domain apps; stacks' = sort_key sr_domain stacks
      in if tls \<and> (ordered \<noteq> [] \<or> apps' \<noteq> [] \<or> stacks' \<noteq> [])
         then map si_domain ordered @ map ap_domain apps' @ map sr_domain stacks'
         else map si_domain (filter si_internal_tls ordered) @ map ap_domain (filter ap_internal_tls apps')
              @ map sr_domain (filter sr_internal_tls stacks'))"

definition tls_app :: "string list \<Rightarrow> (string \<times> json) list" where
  "tls_app subjects =
     (if subjects = [] then []
      else [(''tls'', JObj [(''automation'', JObj [(''policies'', JList [JObj
             [(''subjects'', JList (map JStr subjects)),
              (''issuers'', JList [JObj [(''module'', JStr ''internal'')]])]])])])])"

definition build_config :: "site_spec list \<Rightarrow> app_spec list \<Rightarrow> stack_route list \<Rightarrow> adminer_spec option \<Rightarrow> bool
    \<Rightarrow> panel_spec option \<Rightarrow> string option \<Rightarrow> json" where
  "build_config sites apps stacks adminer tls panel log_path =
     (let logged = truthy log_path;
          servers = (server_name, JObj
              ([(''listen'', JList [JStr '':80'', JStr '':443'']),
                (''routes'', JList (all_routes sites apps stacks panel))]
               @ (if logged then [(''logs'', JObj [(''default_logger_name'', JStr ''hosty_access'')])] else [])))
            # (case adminer of None \<Rightarrow> [] | Some ad \<Rightarrow> [(''hosty_adminer'', adminer_server ad)])
      in JObj
        ([(''admin'', JObj [(''listen'', JStr ''127.0.0.1:2019'')]),
          (''apps'', JObj ((''http'', JObj [(''servers'', JObj servers)])
             # tls_app (internal_subjects tls sites apps stacks)))]
         @ (if logged then [(''logging'', JObj [(''logs'', JObj [(''hosty_access'', JObj
               [(''writer'', JObj [(''output'', JStr ''file''), (''filename'', JStr (the log_path))]),
                (''encoder'', JObj [(''format'', JStr ''json'')]),
                (''include'', JList [JStr ''http.log.access.hosty_access''])])])])]
            else [])))"

subsection \<open>The client of the admin interface\<close>

type_synonym 'w admin = "string \<Rightarrow> string \<Rightarrow> json option \<Rightarrow> ('w, nat \<times> json) act"

definition request :: "'w admin \<Rightarrow> string \<Rightarrow> string \<Rightarrow> string \<Rightarrow> json option \<Rightarrow> ('w, nat \<times> json) act" where
  "request req base verb' path body w =
     (case req verb' (rstrip_char CHR ''/'' base @ path) body w of
        (Inl HTTPError, w') \<Rightarrow> (Inl (CaddyError ''unreachable''), w')
      | answer \<Rightarrow> answer)"

text \<open>A configuration of \<open>null\<close> is Python's \<open>None\<close>.\<close>

definition get_config :: "'w admin \<Rightarrow> string \<Rightarrow> ('w, json option) act" where
  "get_config req base =
     bind_act (request req base ''GET'' ''/config/'' None) (\<lambda>(status, body).
       if status \<noteq> 200 then raise_act (CaddyError ''get'')
       else ret_act (if body = JNull then None else Some body))"

definition load_config :: "'w admin \<Rightarrow> string \<Rightarrow> json \<Rightarrow> ('w, unit) act" where
  "load_config req base config =
     bind_act (request req base ''POST'' ''/load'' (Some config)) (\<lambda>(status, body).
       if status div 100 \<noteq> 2 then raise_act (CaddyError ''rejected'') else ret_act ())"

definition is_caddy_error :: "exn \<Rightarrow> bool" where
  "is_caddy_error e = (case e of CaddyError _ \<Rightarrow> True | _ \<Rightarrow> False)"

text \<open>\<open>restore\<close> is the handler of a failed load: whatever becomes of it, the first error is raised,
  unless the restore fails with something that is not a \<open>CaddyError\<close>.\<close>

definition restore :: "'w admin \<Rightarrow> string \<Rightarrow> json option \<Rightarrow> exn \<Rightarrow> ('w, unit) act" where
  "restore req base previous e w =
     (case previous of
        None \<Rightarrow> (Inl e, w)
      | Some p \<Rightarrow> (case load_config req base p w of
            (Inr _, w') \<Rightarrow> (Inl e, w')
          | (Inl e', w') \<Rightarrow> (Inl (if is_caddy_error e' then e else e'), w')))"

definition apply_config :: "'w admin \<Rightarrow> string \<Rightarrow> json \<Rightarrow> ('w, unit) act" where
  "apply_config req base config =
     bind_act (get_config req base) (\<lambda>previous w.
       case load_config req base config w of
         (Inr u, w') \<Rightarrow> (Inr u, w')
       | (Inl e, w') \<Rightarrow> if is_caddy_error e then restore req base previous e w' else (Inl e, w'))"

text \<open>\<open>d.get(k, [])\<close> of a JSON object, as a list.  The documents come from \<open>build_config\<close>; a value
  of another shape counts as empty.\<close>

definition jget :: "string \<Rightarrow> json \<Rightarrow> json option" where
  "jget k j = (case j of JObj kvs \<Rightarrow> map_of kvs k | _ \<Rightarrow> None)"

definition jlist :: "string \<Rightarrow> json \<Rightarrow> json list" where
  "jlist k j = (case jget k j of Some (JList xs) \<Rightarrow> xs | _ \<Rightarrow> [])"

definition jset :: "string \<Rightarrow> json \<Rightarrow> json \<Rightarrow> json" where
  "jset k v j = (case j of JObj kvs \<Rightarrow> JObj (AList.update k v kvs) | _ \<Rightarrow> j)"

definition has_host :: "string \<Rightarrow> json \<Rightarrow> bool" where
  "has_host domain route = list_ex (\<lambda>m. JStr domain \<in> set (jlist ''host'' m)) (jlist ''match'' route)"

text \<open>The first reverse proxy among the handlers gets the new upstream.\<close>

fun patch_handlers :: "string \<Rightarrow> json list \<Rightarrow> json list option" where
  "patch_handlers upstream [] = None"
| "patch_handlers upstream (h # hs) =
     (if jget ''handler'' h = Some (JStr ''reverse_proxy'')
      then Some (jset ''upstreams'' (JList [JObj [(''dial'', JStr upstream)]]) h # hs)
      else map_option ((#) h) (patch_handlers upstream hs))"

fun find_patch :: "string \<Rightarrow> string \<Rightarrow> nat \<Rightarrow> json list \<Rightarrow> (nat \<times> json) option" where
  "find_patch domain upstream i [] = None"
| "find_patch domain upstream i (r # rs) =
     (if has_host domain r
      then (case patch_handlers upstream (jlist ''handle'' r) of
              Some hs \<Rightarrow> Some (i, jset ''handle'' (JList hs) r)
            | None \<Rightarrow> find_patch domain upstream (Suc i) rs)
      else find_patch domain upstream (Suc i) rs)"

definition routes_path :: string where
  "routes_path = ''/config/apps/http/servers/'' @ server_name @ ''/routes''"

definition patch_upstream :: "'w admin \<Rightarrow> string \<Rightarrow> string \<Rightarrow> string \<Rightarrow> ('w, unit) act" where
  "patch_upstream req base domain upstream =
     bind_act (request req base ''GET'' routes_path None) (\<lambda>(status, body).
       if status \<noteq> 200 then raise_act (CaddyError ''get routes'')
       else (case find_patch domain upstream 0 (case body of JList rs \<Rightarrow> rs | _ \<Rightarrow> []) of
           None \<Rightarrow> raise_act (CaddyError ''no route'')
         | Some (i, route) \<Rightarrow>
             bind_act (request req base ''PUT'' (routes_path @ ''/'' @ nat_str i) (Some route)) (\<lambda>(status, _).
               if status div 100 \<noteq> 2 then raise_act (CaddyError ''put'') else ret_act ())))"

subsection \<open>Every domain has its route\<close>

text \<open>The server takes the first route that matches the host of a request.\<close>

definition first_route :: "json list \<Rightarrow> string \<Rightarrow> json option" where
  "first_route routes domain = find (has_host domain) routes"

definition config_routes :: "json \<Rightarrow> json list" where
  "config_routes cfg =
     (case jget ''apps'' cfg of None \<Rightarrow> [] | Some apps \<Rightarrow>
     (case jget ''http'' apps of None \<Rightarrow> [] | Some http \<Rightarrow>
     (case jget ''servers'' http of None \<Rightarrow> [] | Some servers \<Rightarrow>
     (case jget server_name servers of None \<Rightarrow> [] | Some server \<Rightarrow> jlist ''routes'' server))))"

lemma config_routes_build [simp]:
  "config_routes (build_config sites apps stacks adminer tls panel log) = all_routes sites apps stacks panel"
  by (simp add: config_routes_def build_config_def Let_def jget_def jlist_def server_name_def)

lemmas route_defs = suspended_route_def proxy_route_def host_match_def has_host_def jlist_def jget_def

lemma has_host_routes [simp]:
  "has_host d (site_route s) \<longleftrightarrow> d = si_domain s"
  "has_host d (app_route a) \<longleftrightarrow> d = ap_domain a"
  "has_host d (stack_route_json r) \<longleftrightarrow> d = sr_domain r"
  "has_host d (panel_route p) \<longleftrightarrow> d = pn_domain p"
  by (auto simp: site_route_def app_route_def stack_route_json_def panel_route_def route_defs)

lemma find_keyed:
  "(\<And>k j e. (k, j) \<in> set kjs \<Longrightarrow> P e j \<longleftrightarrow> e = k) \<Longrightarrow> find (P d) (map snd kjs) = map_of kjs d"
  by (induction kjs) fastforce+

definition panel_domains :: "panel_spec option \<Rightarrow> string list" where
  "panel_domains panel = (case panel of None \<Rightarrow> [] | Some p \<Rightarrow> [pn_domain p])"

definition all_domains :: "site_spec list \<Rightarrow> app_spec list \<Rightarrow> stack_route list \<Rightarrow> panel_spec option \<Rightarrow> string list" where
  "all_domains sites apps stacks panel =
     panel_domains panel @ map si_domain sites @ map ap_domain apps @ map sr_domain stacks"

text \<open>The routes with the domains they serve.\<close>

definition keyed_routes :: "site_spec list \<Rightarrow> app_spec list \<Rightarrow> stack_route list \<Rightarrow> panel_spec option \<Rightarrow> (string \<times> json) list" where
  "keyed_routes sites apps stacks panel =
     (case panel of None \<Rightarrow> [] | Some p \<Rightarrow> [(pn_domain p, panel_route p)])
     @ map (\<lambda>x. (si_domain x, site_route x)) (sort_key si_domain sites)
     @ map (\<lambda>x. (ap_domain x, app_route x)) (sort_key ap_domain apps)
     @ map (\<lambda>x. (sr_domain x, stack_route_json x)) (sort_key sr_domain stacks)"

lemma all_routes_keyed: "all_routes sites apps stacks panel = map snd (keyed_routes sites apps stacks panel)"
  by (simp add: all_routes_def keyed_routes_def comp_def split: option.splits)

lemma keyed_domains: "mset (map fst (keyed_routes sites apps stacks panel)) = mset (all_domains sites apps stacks panel)"
  by (simp add: keyed_routes_def all_domains_def panel_domains_def comp_def split: option.splits)

lemma first_route_keyed:
  "first_route (all_routes sites apps stacks panel) d = map_of (keyed_routes sites apps stacks panel) d"
  unfolding first_route_def all_routes_keyed
  by (rule find_keyed) (auto simp: keyed_routes_def split: option.splits)

text \<open>Every domain is served by its own route.  When no domain is configured twice, the first
  route the server finds for the domain of a site, of an app or of a stack endpoint is exactly the
  one rendered for it (the 503 page when its owner is suspended), and for any other domain there is
  none.\<close>

theorem each_domain_served:
  assumes "distinct (all_domains sites apps stacks panel)"
  shows "(\<forall>site\<in>set sites. first_route (config_routes (build_config sites apps stacks adminer tls panel log))
            (si_domain site) = Some (site_route site))
    \<and> (\<forall>app\<in>set apps. first_route (config_routes (build_config sites apps stacks adminer tls panel log))
            (ap_domain app) = Some (app_route app))
    \<and> (\<forall>r\<in>set stacks. first_route (config_routes (build_config sites apps stacks adminer tls panel log))
            (sr_domain r) = Some (stack_route_json r))
    \<and> (\<forall>d. d \<notin> set (all_domains sites apps stacks panel) \<longrightarrow>
            first_route (config_routes (build_config sites apps stacks adminer tls panel log)) d = None)"
proof -
  have k: "distinct (map fst (keyed_routes sites apps stacks panel))"
    "set (map fst (keyed_routes sites apps stacks panel)) = set (all_domains sites apps stacks panel)"
    using assms keyed_domains mset_eq_imp_distinct_iff mset_eq_setD by metis+
  have "map_of (keyed_routes sites apps stacks panel) d = None" if "d \<notin> set (all_domains sites apps stacks panel)" for d
    using that unfolding k(2) [symmetric] by (auto simp: map_of_eq_None_iff)
  then show ?thesis
    using map_of_is_SomeI [OF k(1)] by (auto simp: first_route_keyed keyed_routes_def)
qed

text \<open>The configuration depends only on what is served, not on the order in which the rows come
  out of the database.\<close>

theorem config_deterministic:
  assumes "mset sites = mset sites'" "inj_on si_domain (set sites)"
    "mset apps = mset apps'" "inj_on ap_domain (set apps)"
    "mset stacks = mset stacks'" "inj_on sr_domain (set stacks)"
  shows "build_config sites apps stacks adminer tls panel log = build_config sites' apps' stacks' adminer tls panel log"
proof -
  have "sort_key si_domain sites = sort_key si_domain sites'" "sort_key ap_domain apps = sort_key ap_domain apps'"
    "sort_key sr_domain stacks = sort_key sr_domain stacks'"
    using assms by (auto intro!: sort_key_inj_key_eq)
  then show ?thesis by (simp add: build_config_def all_routes_def internal_subjects_def Let_def)
qed

subsection \<open>What the client does to the server\<close>

text \<open>The documented behaviour of the admin interface: a reachable server answers with its
  configuration, and a load that is not answered with success leaves the running one.\<close>

definition atomic_admin :: "'w admin \<Rightarrow> string \<Rightarrow> ('w \<Rightarrow> json) \<Rightarrow> bool" where
  "atomic_admin req base running \<longleftrightarrow>
     (\<forall>w. req ''GET'' (rstrip_char CHR ''/'' base @ ''/config/'') None w = (Inr (200, running w), w))
     \<and> (\<forall>w c. \<exists>status body w'. req ''POST'' (rstrip_char CHR ''/'' base @ ''/load'') (Some c) w = (Inr (status, body), w')
          \<and> running w' = (if status div 100 = 2 then c else running w))"

lemma load_atomic:
  assumes "atomic_admin req base running"
  shows "\<exists>r w'. load_config req base c w = (r, w')
    \<and> (r = Inr () \<and> running w' = c \<or> (\<exists>m. r = Inl (CaddyError m)) \<and> running w' = running w)"
proof -
  obtain status body w' where "req ''POST'' (rstrip_char CHR ''/'' base @ ''/load'') (Some c) w = (Inr (status, body), w')"
    "running w' = (if status div 100 = 2 then c else running w)"
    using assms unfolding atomic_admin_def by blast
  then show ?thesis
    by (auto simp: load_config_def request_def bind_act_def raise_act_def ret_act_def)
qed


text \<open>The documented behaviour for the routes: \<open>GET\<close> answers with the list, and \<open>PUT\<close> on an index of
  an array inserts the value there.\<close>

definition inserting_admin :: "'w admin \<Rightarrow> string \<Rightarrow> ('w \<Rightarrow> json list) \<Rightarrow> bool" where
  "inserting_admin req base routes \<longleftrightarrow>
     (\<forall>w. req ''GET'' (rstrip_char CHR ''/'' base @ routes_path) None w = (Inr (200, JList (routes w)), w))
     \<and> (\<forall>w r i. i \<le> length (routes w) \<longrightarrow>
          (\<exists>body w'. req ''PUT'' (rstrip_char CHR ''/'' base @ routes_path @ ''/'' @ nat_str i) (Some r) w = (Inr (200, body), w')
             \<and> routes w' = take i (routes w) @ r # drop i (routes w)))"

lemma patch_proxy:
  "patch_handlers up (jlist ''handle'' (proxy_route d old)) = Some (jlist ''handle'' (proxy_route d up))"
  "jset ''handle'' (JList (jlist ''handle'' (proxy_route d up))) (proxy_route d old) = proxy_route d up"
  "has_host d (proxy_route d up)"
  by (simp_all add: route_defs jset_def)

lemma find_patch_first:
  assumes "first_route rs d = Some (proxy_route d old)"
  shows "\<exists>i. find_patch d up k rs = Some (k + i, proxy_route d up) \<and> i \<le> length rs
     \<and> first_route (take i rs @ proxy_route d up # drop i rs) d = Some (proxy_route d up)"
  using assms unfolding first_route_def
proof (induction rs arbitrary: k)
  case Nil
  then show ?case by simp
next
  case (Cons r rs)
  show ?case
  proof (cases "has_host d r")
    case True
    then have "r = proxy_route d old" using Cons.prems by simp
    then have "find_patch d up k (r # rs) = Some (k + 0, proxy_route d up)"
      using True by (simp add: patch_proxy)
    then show ?thesis using patch_proxy(3) [of d up] by (intro exI [of _ 0]) simp
  next
    case False
    then have "find (has_host d) rs = Some (proxy_route d old)" using Cons.prems by simp
    then obtain i where "find_patch d up (Suc k) rs = Some (Suc k + i, proxy_route d up)" "i \<le> length rs"
      "find (has_host d) (take i rs @ proxy_route d up # drop i rs) = Some (proxy_route d up)"
      using Cons.IH [of "Suc k"] by blast
    then show ?thesis using False by (intro exI [of _ "Suc i"]) simp
  qed
qed

text \<open>The swap of an upstream inserts.  On a server that behaves as documented, \<open>patch_upstream\<close>
  for a routed domain does send the traffic to the new upstream, but the old route stays behind it:
  the list of routes grows by one with each swap.\<close>

theorem patch_upstream_shadows:
  assumes "inserting_admin req base routes" "first_route (routes w) domain = Some (proxy_route domain old)"
  shows "\<exists>w'. patch_upstream req base domain upstream w = (Inr (), w')
    \<and> first_route (routes w') domain = Some (proxy_route domain upstream)
    \<and> mset (routes w') = add_mset (proxy_route domain upstream) (mset (routes w))"
proof -
  obtain i where i: "find_patch domain upstream 0 (routes w) = Some (i, proxy_route domain upstream)" "i \<le> length (routes w)"
     "first_route (take i (routes w) @ proxy_route domain upstream # drop i (routes w)) domain = Some (proxy_route domain upstream)"
    using find_patch_first [OF assms(2), of upstream 0] by auto
  then obtain body w' where put: "req ''PUT'' (rstrip_char CHR ''/'' base @ routes_path @ ''/'' @ nat_str i)
       (Some (proxy_route domain upstream)) w = (Inr (200, body), w')"
     "routes w' = take i (routes w) @ proxy_route domain upstream # drop i (routes w)"
    using assms(1) unfolding inserting_admin_def by meson
  have get: "req ''GET'' (rstrip_char CHR ''/'' base @ routes_path) None w = (Inr (200, JList (routes w)), w)"
    using assms(1) by (simp add: inserting_admin_def)
  have "mset (routes w') = add_mset (proxy_route domain upstream) (mset (take i (routes w)) + mset (drop i (routes w)))"
    unfolding put(2) by simp
  also have "mset (take i (routes w)) + mset (drop i (routes w)) = mset (routes w)"
    by (metis append_take_drop_id mset_append)
  finally have "mset (routes w') = add_mset (proxy_route domain upstream) (mset (routes w))" .
  then show ?thesis
    using put get i by (intro exI [of _ w']) (simp add: patch_upstream_def request_def bind_act_def ret_act_def)
qed

subsection \<open>Instances\<close>

definition example_route :: stack_route where
  "example_route = \<lparr>sr_domain = ''a.example'', sr_upstream = ''127.1.0.7:3000'', sr_internal_tls = False, sr_suspended = False\<rparr>"

theorem each_domain_served_witness:
  "first_route (config_routes (build_config [] [] [example_route] None False None None)) ''a.example''
     = Some (proxy_route ''a.example'' ''127.1.0.7:3000'')"
proof -
  have "distinct (all_domains [] [] [example_route] None)" by (simp add: all_domains_def panel_domains_def)
  from each_domain_served [OF this, of None False None] show ?thesis
    by (simp add: example_route_def stack_route_json_def)
qed

theorem config_deterministic_witness:
  "build_config [] [] [example_route, example_route\<lparr>sr_domain := ''b.example''\<rparr>] None False None None
   = build_config [] [] [example_route\<lparr>sr_domain := ''b.example''\<rparr>, example_route] None False None None"
  by (rule config_deterministic) (simp_all add: example_route_def)

definition json_server :: "json admin" where
  "json_server m url body w =
     (case body of None \<Rightarrow> (Inr (200, w), w) | Some c \<Rightarrow> if c = JNull then (Inr (400, JNull), w) else (Inr (200, JNull), c))"


definition routes_server :: "json list admin" where
  "routes_server m url body rs =
     (case body of None \<Rightarrow> (Inr (200, JList rs), rs)
      | Some r \<Rightarrow> (let i = nat_of_digits (last (split_char CHR ''/'' url)) in (Inr (200, JNull), take i rs @ r # drop i rs)))"

theorem patch_upstream_shadows_witness:
  "\<exists>rs. patch_upstream routes_server ''http://127.0.0.1:2019'' ''a.example'' ''127.1.0.7:13000'' [stack_route_json example_route]
       = (Inr (), rs) \<and> length rs = 2"
proof -
  have index: "last (split_char CHR ''/'' (u @ v @ CHR ''/'' # nat_str i)) = nat_str i" for u v i
    using split_char_at [of "CHR ''/''" "u @ v" "nat_str i"] by (simp add: nat_str_no)
  have "inserting_admin routes_server ''http://127.0.0.1:2019'' (\<lambda>rs. rs)"
    using index by (simp add: inserting_admin_def routes_server_def Let_def)
  moreover have "first_route [stack_route_json example_route] ''a.example'' = Some (proxy_route ''a.example'' ''127.1.0.7:3000'')"
    by (simp add: first_route_def example_route_def) (simp add: stack_route_json_def)
  ultimately have "\<exists>rs. patch_upstream routes_server ''http://127.0.0.1:2019'' ''a.example'' ''127.1.0.7:13000''
        [stack_route_json example_route] = (Inr (), rs)
      \<and> first_route rs ''a.example'' = Some (proxy_route ''a.example'' ''127.1.0.7:13000'')
      \<and> mset rs = add_mset (proxy_route ''a.example'' ''127.1.0.7:13000'') (mset [stack_route_json example_route])"
    by (rule patch_upstream_shadows)
  then show ?thesis by (metis length_Cons list.size(3) size_add_mset size_mset One_nat_def Suc_1)
qed

end
