(* ===== verification/Stacks.thy ===== *)
theory Stacks
  imports Executor Caddy
begin

text \<open>
  The stacks layer, \<open>backend/app/services/stacks.py\<close>: the rows of the database and the domain specs
  they stand for.  The tables are lists of records, in the order a query returns them; timestamps are
  left out.  Secrets are stored encrypted: \<open>json.dumps\<close> followed by the Fernet encryption of
  \<open>core/secrets.py\<close> is one parameter, the record \<open>vault\<close>, and what is relied on is that opening what
  was sealed gives it back.  The JSON text of \<open>depends_on_json\<close> is modelled by the list it encodes.
\<close>

subsection \<open>Rows\<close>

record stack_row =
  sk_id :: int
  sk_owner :: "int option"
  sk_server :: "int option"
  sk_name :: string
  sk_blueprint :: string
  sk_blueprint_version :: int
  sk_inputs :: "string option"
  sk_status :: string
  sk_error :: "string option"
  sk_generation :: int
  sk_observed :: int
  sk_watch_paths :: "string list option"

record service_row =
  w_stack :: int
  w_name :: string
  w_image :: string
  w_digest :: "string option"
  w_build_repo :: "string option"
  w_build_branch :: "string option"
  w_build_tool :: string
  w_build_context :: string
  w_dockerfile_path :: string
  w_build_args :: "string option"
  w_depends_on :: "string list option"
  w_internal_port :: "int option"
  w_env :: "string option"
  w_memory_mb :: "int option"
  w_cpu_percent :: "int option"
  w_is_web :: bool
  w_exposed :: bool
  w_post_start :: "string option"
  w_hc_enabled :: bool
  w_hc_path :: "string option"
  w_hc_port :: "int option"
  w_hc_interval :: int
  w_hc_retries :: int
  w_hc_start_period :: int
  w_hc_timeout :: int
  w_zero_downtime :: bool

record volume_row =
  vr_stack :: int
  vr_name :: string
  vr_service :: string
  vr_mount_path :: string

record endpoint_row =
  er_stack :: int
  er_domain :: string
  er_service :: string
  er_behind_cloudflare :: bool

record panel_db =
  db_users :: "(int \<times> bool) list" \<comment> \<open>id and \<open>suspended\<close>\<close>
  db_stacks :: "stack_row list"
  db_services :: "service_row list"
  db_volumes :: "volume_row list"
  db_endpoints :: "endpoint_row list"

record vault =
  seal_env :: "(string, string) fmap \<Rightarrow> string"
  open_env :: "string \<Rightarrow> (string, string) fmap res"
  seal_inputs :: "(string \<times> json) list \<Rightarrow> string"
  open_inputs :: "string \<Rightarrow> (string \<times> json) list res"

definition faithful :: "vault \<Rightarrow> bool" where
  "faithful v \<longleftrightarrow> (\<forall>m. open_env v (seal_env v m) = Inr m \<and> seal_env v m \<noteq> [])"

definition active_statuses :: "string list" where
  "active_statuses = [''converging'', ''ready'', ''degraded'', ''suspended'', ''error'']"

definition tenant_for :: "int option \<Rightarrow> string res" where
  "tenant_for owner = (case owner of None \<Rightarrow> Inl ValueError | Some i \<Rightarrow> Inr (''hosty-t-'' @ int_str i))"

subsection \<open>Domains\<close>

definition strip_char :: "char \<Rightarrow> string \<Rightarrow> string" where
  "strip_char d s = rstrip_char d (dropWhile (\<lambda>c. c = d) s)"

definition or_empty :: "string option \<Rightarrow> string" where
  "or_empty x = (case x of None \<Rightarrow> [] | Some s \<Rightarrow> s)"

text \<open>The arguments are the settings \<open>apps_base_domain\<close> and \<open>public_ip\<close>.\<close>

definition suggested_domain :: "string option \<Rightarrow> string option \<Rightarrow> string \<Rightarrow> string option" where
  "suggested_domain base_domain public_ip name =
     (let base = strip_char CHR ''.'' (lower (strip (or_empty base_domain))); ip = strip (or_empty public_ip)
      in if base \<noteq> [] then Some (name @ ''.'' @ base)
         else if ip \<noteq> [] then Some (name @ ''.'' @ ip @ ''.sslip.io'') else None)"

definition with_auto_domain :: "string option \<Rightarrow> string option \<Rightarrow> stack_spec \<Rightarrow> stack_spec res" where
  "with_auto_domain base_domain public_ip st =
     (if st_endpoints st \<noteq> [] then Inr st
      else (case find (\<lambda>s. s_is_web s \<and> s_internal_port s \<noteq> None) (st_services st) of
          None \<Rightarrow> Inr st
        | Some web \<Rightarrow> (case suggested_domain base_domain public_ip (st_name st) of
            None \<Rightarrow> Inr st
          | Some domain \<Rightarrow>
              bind_res (endpoint_post_init \<lparr>e_domain = domain, e_service = s_name web, e_behind_cloudflare = False\<rparr>) (\<lambda>e.
              stack_post_init (st\<lparr>st_endpoints := [e]\<rparr>)))))"

text \<open>\<open>urlparse(u).hostname\<close>; \<open>None\<close> also when it raises.  Control characters and blanks in front and
  tabs and line ends anywhere are dropped, a scheme is a letter followed by letters, digits and
  \<open>+-.\<close>, user names and ports are cut off.\<close>

definition is_letter :: "char \<Rightarrow> bool" where
  "is_letter c \<longleftrightarrow> is_lower c \<or> is_upper c"

definition url_scheme_rest :: "string \<Rightarrow> string" where
  "url_scheme_rest u =
     (case partition_char CHR '':'' u of (a, found, b) \<Rightarrow>
        if found \<and> a \<noteq> [] \<and> is_letter (hd a)
           \<and> list_all (\<lambda>c. is_letter c \<or> is_digit c \<or> c \<in> set ''+-.'') a
        then b else u)"

definition url_hostname :: "string \<Rightarrow> string option" where
  "url_hostname url =
     (let rest = url_scheme_rest (filter (\<lambda>c. c \<notin> {CHR 0x09, CHR 0x0A, CHR 0x0D}) (dropWhile (\<lambda>c. c \<le> CHR 0x20) url));
          netloc = takeWhile (\<lambda>c. c \<notin> set ''/?#'') (drop 2 rest);
          hostinfo = rev (takeWhile (\<lambda>c. c \<noteq> CHR ''@'') (rev netloc));
          (_, bracket, br) = partition_char CHR ''['' hostinfo;
          name = (if bracket then fst (partition_char CHR '']'' br) else fst (partition_char CHR '':'' hostinfo));
          (h, percent, zone) = partition_char CHR ''%'' name
      in if \<not> startswith rest ''//'' \<or> (CHR ''['' \<in> set netloc) \<noteq> (CHR '']'' \<in> set netloc) \<or> name = [] then None
         else Some (lower h @ (if percent then CHR ''%'' # zone else [])))"

definition fqdn_env_keys :: "string list" where
  "fqdn_env_keys = [''FQDN'', ''APP_URL'', ''SITE_URL'', ''PUBLIC_URL'', ''NEXT_PUBLIC_SITE_URL'']"

text \<open>\<open>_parse_domain\<close>, and the same few lines of \<open>_detect_fqdn_endpoint\<close>.\<close>

definition parse_domain :: "string \<Rightarrow> string option" where
  "parse_domain raw0 =
     (let raw = strip raw0
      in if raw = [] then None
         else (case url_hostname (if contains raw ''://'' then raw else ''https://'' @ raw) of
             None \<Rightarrow> None
           | Some host \<Rightarrow> if CHR ''.'' \<in> set host then Some host else None))"

definition decrypt_env :: "vault \<Rightarrow> string option \<Rightarrow> (string, string) fmap res" where
  "decrypt_env v x = (if truthy x then open_env v (the x) else Inr fmempty)"

definition encrypt_env :: "vault \<Rightarrow> (string, string) fmap \<Rightarrow> string option" where
  "encrypt_env v m = (if m = fmempty then None else Some (seal_env v m))"

text \<open>\<open>sorted(services, key=lambda s: (not s.is_web, s.name))\<close>: web services first, by name.\<close>

definition web_first :: "service_row list \<Rightarrow> service_row list" where
  "web_first ws = sort_key w_name (filter w_is_web ws) @ sort_key w_name (filter (\<lambda>w. \<not> w_is_web w) ws)"

fun detect_loop :: "vault \<Rightarrow> (string \<times> service_row) list \<Rightarrow> endpoint_spec option res" where
  "detect_loop v [] = Inr None"
| "detect_loop v ((key, w) # rest) =
     (if w_internal_port w = None then detect_loop v rest
      else bind_res (decrypt_env v (w_env w)) (\<lambda>env.
        (case parse_domain (fmget env key []) of
           None \<Rightarrow> detect_loop v rest
         | Some domain \<Rightarrow>
             (case endpoint_post_init \<lparr>e_domain = domain, e_service = w_name w, e_behind_cloudflare = False\<rparr> of
                Inr e \<Rightarrow> Inr (Some e)
              | Inl _ \<Rightarrow> detect_loop v rest))))"

definition detect_fqdn_endpoint :: "vault \<Rightarrow> service_row list \<Rightarrow> endpoint_spec option res" where
  "detect_fqdn_endpoint v ws = detect_loop v (List.product fqdn_env_keys (web_first ws))"

definition endpoint_of_row :: "endpoint_row \<Rightarrow> endpoint_spec" where
  "endpoint_of_row r = \<lparr>e_domain = er_domain r, e_service = er_service r, e_behind_cloudflare = er_behind_cloudflare r\<rparr>"

definition build_endpoints :: "vault \<Rightarrow> endpoint_row list \<Rightarrow> service_row list \<Rightarrow> endpoint_spec list res" where
  "build_endpoints v ers ws =
     (if ers \<noteq> []
      then map_res (\<lambda>r. endpoint_post_init (endpoint_of_row r)) (sort_key er_domain ers)
      else bind_res (detect_fqdn_endpoint v ws) (\<lambda>auto. Inr (case auto of None \<Rightarrow> [] | Some e \<Rightarrow> [e])))"

subsection \<open>Rows to specs\<close>

text \<open>\<open>str.upper\<close> on the characters of a service name.\<close>

definition upper_char :: "char \<Rightarrow> char" where
  "upper_char c = (if is_lower c then char_of (of_char c - 32 :: nat) else c)"

definition magic_key :: "string \<Rightarrow> string" where
  "magic_key service = map (\<lambda>c. if upper_char c = CHR ''-'' then CHR ''_'' else upper_char c) service"

definition magic_service_env :: "endpoint_spec list \<Rightarrow> (string \<times> string) list" where
  "magic_service_env es = concat (map (\<lambda>e.
     [(''SERVICE_FQDN_'' @ magic_key (e_service e), ''https://'' @ e_domain e),
      (''SERVICE_URL_'' @ magic_key (e_service e), e_domain e)]) es)"

definition sorted_items :: "(string, string) fmap \<Rightarrow> (string \<times> string) list" where
  "sorted_items m = map (\<lambda>k. (k, the (fmlookup m k))) (sorted_keys m)"

definition service_of_row :: "vault \<Rightarrow> (string \<times> string) list \<Rightarrow> service_row \<Rightarrow> service_spec res" where
  "service_of_row v magic w =
     bind_res (decrypt_env v (w_env w)) (\<lambda>env.
     bind_res (decrypt_env v (w_build_args w)) (\<lambda>args.
     service_post_init
       \<lparr>s_name = w_name w,
        s_image = (if truthy (w_digest w) then the (w_digest w) else w_image w),
        s_env = sorted_items (dict_of magic ++\<^sub>f env),
        s_internal_port = w_internal_port w, s_host_port = None,
        s_memory_mb = w_memory_mb w, s_cpu_percent = w_cpu_percent w, s_is_web = w_is_web w,
        s_build_repo = w_build_repo w, s_build_branch = w_build_branch w, s_build_tool = w_build_tool w,
        s_build_context = w_build_context w, s_dockerfile_path = w_dockerfile_path w,
        s_build_args = sorted_items args, s_exposed = w_exposed w,
        s_depends_on = (case w_depends_on w of None \<Rightarrow> [] | Some ds \<Rightarrow> ds),
        s_command = [], s_post_start_command = or_empty (w_post_start w),
        s_hc_enabled = w_hc_enabled w,
        s_hc_path = (if truthy (w_hc_path w) then the (w_hc_path w) else ''/health''),
        s_hc_port = w_hc_port w, s_hc_interval = w_hc_interval w, s_hc_retries = w_hc_retries w,
        s_hc_start_period = w_hc_start_period w, s_hc_timeout = w_hc_timeout w,
        s_zero_downtime = w_zero_downtime w\<rparr>))"

definition volume_of_row :: "volume_row \<Rightarrow> volume_spec res" where
  "volume_of_row r = volume_post_init \<lparr>v_name = vr_name r, v_service = vr_service r, v_mount_path = vr_mount_path r\<rparr>"

definition spec_for :: "vault \<Rightarrow> stack_row \<Rightarrow> service_row list \<Rightarrow> volume_row list \<Rightarrow> endpoint_row list \<Rightarrow> bool \<Rightarrow> stack_spec res" where
  "spec_for v k ws vs ers susp =
     bind_res (build_endpoints v ers ws) (\<lambda>ends.
     bind_res (tenant_for (sk_owner k)) (\<lambda>tenant.
     bind_res (stack_loopback_ip (sk_id k)) (\<lambda>ip.
     bind_res (map_res (service_of_row v (magic_service_env ends)) (sort_key w_name ws)) (\<lambda>services.
     bind_res (map_res volume_of_row (sort_key vr_name vs)) (\<lambda>volumes.
     stack_post_init
       \<lparr>st_name = sk_name k, st_tenant = tenant, st_loopback_ip = ip, st_services = services, st_volumes = volumes,
        st_endpoints = ends, st_suspended = susp, st_server_id = sk_server k, st_generation = sk_generation k\<rparr>)))))"

definition stack_services :: "panel_db \<Rightarrow> int \<Rightarrow> service_row list" where
  "stack_services d i = filter (\<lambda>w. w_stack w = i) (db_services d)"

definition stack_volumes :: "panel_db \<Rightarrow> int \<Rightarrow> volume_row list" where
  "stack_volumes d i = filter (\<lambda>r. vr_stack r = i) (db_volumes d)"

definition stack_endpoints :: "panel_db \<Rightarrow> int \<Rightarrow> endpoint_row list" where
  "stack_endpoints d i = filter (\<lambda>r. er_stack r = i) (db_endpoints d)"

definition spec_of_stack :: "vault \<Rightarrow> panel_db \<Rightarrow> stack_row \<Rightarrow> bool \<Rightarrow> stack_spec res" where
  "spec_of_stack v d k susp =
     spec_for v k (stack_services d (sk_id k)) (stack_volumes d (sk_id k)) (stack_endpoints d (sk_id k)) susp"

text \<open>The join with the owner's row.\<close>

definition active_stacks :: "panel_db \<Rightarrow> (stack_row \<times> bool) list" where
  "active_stacks d = concat (map (\<lambda>k.
     if sk_status k \<in> set active_statuses
     then map (\<lambda>u. (k, snd u)) (filter (\<lambda>u. Some (fst u) = sk_owner k) (db_users d)) else []) (db_stacks d))"

fun load_specs :: "vault \<Rightarrow> panel_db \<Rightarrow> (stack_row \<times> bool) list \<Rightarrow> stack_spec list res" where
  "load_specs v d [] = Inr []"
| "load_specs v d ((k, susp) # rest) =
     (case spec_of_stack v d k susp of
        Inr st \<Rightarrow> bind_res (load_specs v d rest) (\<lambda>sts. Inr (st # sts))
      | Inl e \<Rightarrow> if e = SpecValidationError then load_specs v d rest else Inl e)"

definition load_desired :: "vault \<Rightarrow> panel_db \<Rightarrow> stack_spec list res" where
  "load_desired v d = load_specs v d (active_stacks d)"

fun collect_routes :: "vault \<Rightarrow> panel_db \<Rightarrow> (stack_row \<times> bool) list \<Rightarrow> stack_route list res" where
  "collect_routes v d [] = Inr []"
| "collect_routes v d ((k, susp) # rest) =
     (if stack_endpoints d (sk_id k) = [] then collect_routes v d rest
      else (case spec_of_stack v d k susp of
          Inl e \<Rightarrow> if e = SpecValidationError then collect_routes v d rest else Inl e
        | Inr st \<Rightarrow> bind_res (routes_for_stack st (st_suspended st)) (\<lambda>rs.
            bind_res (collect_routes v d rest) (\<lambda>more. Inr (rs @ more)))))"

definition stack_routes :: "vault \<Rightarrow> panel_db \<Rightarrow> stack_route list res" where
  "stack_routes v d = collect_routes v d (active_stacks d)"

subsection \<open>The status hook\<close>

text \<open>Deleting a row deletes its children: the foreign keys cascade.\<close>

definition delete_stack_row :: "panel_db \<Rightarrow> int \<Rightarrow> panel_db" where
  "delete_stack_row d i = d\<lparr>db_stacks := filter (\<lambda>k. sk_id k \<noteq> i) (db_stacks d),
     db_services := filter (\<lambda>w. w_stack w \<noteq> i) (db_services d),
     db_volumes := filter (\<lambda>r. vr_stack r \<noteq> i) (db_volumes d),
     db_endpoints := filter (\<lambda>r. er_stack r \<noteq> i) (db_endpoints d)\<rparr>"

definition update_stack :: "panel_db \<Rightarrow> int \<Rightarrow> (stack_row \<Rightarrow> stack_row) \<Rightarrow> panel_db" where
  "update_stack d i f = d\<lparr>db_stacks := map (\<lambda>k. if sk_id k = i then f k else k) (db_stacks d)\<rparr>"

definition on_stack_status :: "string \<Rightarrow> string \<Rightarrow> string option \<Rightarrow> panel_db \<Rightarrow> panel_db" where
  "on_stack_status name status err d =
     (case find (\<lambda>k. sk_name k = name) (db_stacks d) of
        None \<Rightarrow> d
      | Some k \<Rightarrow>
          if status = ''absent'' then delete_stack_row d (sk_id k)
          else update_stack d (sk_id k) (\<lambda>k. k\<lparr>sk_status := status, sk_error := err,
             sk_observed := (if status \<in> set [''ready'', ''suspended''] then sk_generation k else sk_observed k)\<rparr>))"

subsection \<open>Specs to rows\<close>

text \<open>\<open>locks\<close> is the result of \<open>resolve_stack_image_locks\<close>.\<close>

definition row_of_service :: "vault \<Rightarrow> int \<Rightarrow> (string \<Rightarrow> string option) \<Rightarrow> service_spec \<Rightarrow> service_row" where
  "row_of_service v i locks s =
     \<lparr>w_stack = i, w_name = s_name s, w_image = s_image s, w_digest = locks (s_name s),
      w_build_repo = s_build_repo s, w_build_branch = s_build_branch s, w_build_tool = s_build_tool s,
      w_build_context = s_build_context s, w_dockerfile_path = s_dockerfile_path s,
      w_build_args = encrypt_env v (dict_of (s_build_args s)),
      w_depends_on = (if s_depends_on s \<noteq> [] then Some (s_depends_on s) else None),
      w_internal_port = s_internal_port s, w_env = encrypt_env v (dict_of (s_env s)),
      w_memory_mb = s_memory_mb s, w_cpu_percent = s_cpu_percent s, w_is_web = s_is_web s, w_exposed = s_exposed s,
      w_post_start = None, w_hc_enabled = False, w_hc_path = None, w_hc_port = None, w_hc_interval = 10,
      w_hc_retries = 3, w_hc_start_period = 30, w_hc_timeout = 5, w_zero_downtime = False\<rparr>"

definition persist_rendered :: "vault \<Rightarrow> int \<Rightarrow> (string \<Rightarrow> string option) \<Rightarrow> stack_spec \<Rightarrow> panel_db \<Rightarrow> panel_db" where
  "persist_rendered v i locks st d =
     d\<lparr>db_services := db_services d @ map (row_of_service v i locks) (st_services st),
       db_volumes := db_volumes d @ map (\<lambda>x. \<lparr>vr_stack = i, vr_name = v_name x, vr_service = v_service x,
                        vr_mount_path = v_mount_path x\<rparr>) (st_volumes st),
       db_endpoints := db_endpoints d @ map (\<lambda>e. \<lparr>er_stack = i, er_domain = e_domain e, er_service = e_service e,
                        er_behind_cloudflare = e_behind_cloudflare e\<rparr>) (st_endpoints st)\<rparr>"

subsection \<open>Environment and domain kept in step\<close>

definition env_of_inputs :: "(string \<times> json) list \<Rightarrow> (string \<times> json) list" where
  "env_of_inputs inputs = (case map_of inputs ''env'' of Some (JObj kvs) \<Rightarrow> kvs | _ \<Rightarrow> [])"

definition points_to :: "string option \<Rightarrow> json \<Rightarrow> bool" where
  "points_to old x =
     (case (old, x) of
        (Some d, JStr s) \<Rightarrow> d \<noteq> [] \<and> rstrip_char CHR ''/'' s \<in> set (map (rstrip_char CHR ''/'')
           [''https://'' @ d, ''http://'' @ d, ''https://'' @ d @ ''/'', ''http://'' @ d @ ''/''])
      | _ \<Rightarrow> False)"

definition update_env_for_domain :: "(string \<times> json) list \<Rightarrow> string \<Rightarrow> string option \<Rightarrow> bool \<Rightarrow> (string \<times> json) list \<times> bool" where
  "update_env_for_domain inputs new_domain old_domain allow_fallback =
     (let env = env_of_inputs inputs;
          new_url = JStr (''https://'' @ new_domain);
          changed = list_ex (\<lambda>kx. points_to old_domain (snd kx)) env;
          env1 = map (\<lambda>(k, x). (k, if points_to old_domain x then new_url else x)) env;
          (env2, changed2) =
            (if \<not> changed \<and> allow_fallback
             then (case find (\<lambda>k. k \<in> fst ` set env1) fqdn_env_keys of
                     None \<Rightarrow> (env1, False) | Some k \<Rightarrow> (AList.update k new_url env1, True))
             else (env1, changed))
      in (AList.update ''env'' (JObj env2) inputs, changed2))"

text \<open>\<open>by_domain\<close> and \<open>by_service\<close> are dicts: the last row with a key wins.\<close>

definition sync_key :: "int \<Rightarrow> (string, string) fmap \<Rightarrow> (string, string) fmap \<Rightarrow> service_row list \<Rightarrow> endpoint_row list \<Rightarrow> bool
    \<Rightarrow> string \<Rightarrow> endpoint_row list \<times> endpoint_row list \<Rightarrow> endpoint_row list \<times> endpoint_row list" where
  "sync_key i old_env new_env ports eps cloudflare key acc =
     (let (to_delete, to_add) = acc;
          old_raw = fmget old_env key []; new_raw = fmget new_env key []
      in if old_raw = new_raw then acc
         else (case parse_domain new_raw of
            None \<Rightarrow> acc
          | Some new_domain \<Rightarrow>
             (case parse_domain old_raw of
                Some old_domain \<Rightarrow>
                  (case find (\<lambda>e. er_domain e = old_domain) (rev eps) of
                     Some old_ep \<Rightarrow>
                       (if old_ep \<in> set to_delete then to_delete else to_delete @ [old_ep],
                        to_add @ [\<lparr>er_stack = i, er_domain = new_domain, er_service = er_service old_ep,
                                   er_behind_cloudflare = er_behind_cloudflare old_ep\<rparr>])
                   | None \<Rightarrow> acc)
              | None \<Rightarrow>
                  (case ports of
                     [svc] \<Rightarrow>
                       ((case find (\<lambda>e. er_service e = w_name svc) (rev eps) of
                           Some e \<Rightarrow> if e \<in> set to_delete then to_delete else to_delete @ [e]
                         | None \<Rightarrow> to_delete),
                        to_add @ [\<lparr>er_stack = i, er_domain = new_domain, er_service = w_name svc,
                                   er_behind_cloudflare = cloudflare\<rparr>])
                   | _ \<Rightarrow> acc))))"

definition sync_endpoints_from_env_change :: "(string, string) fmap \<Rightarrow> (string, string) fmap \<Rightarrow> service_row list
    \<Rightarrow> endpoint_row list \<Rightarrow> int \<Rightarrow> bool \<Rightarrow> endpoint_row list \<times> endpoint_row list" where
  "sync_endpoints_from_env_change old_env new_env services eps i cloudflare =
     fold (sync_key i old_env new_env (filter (\<lambda>w. w_internal_port w \<noteq> None) services) eps cloudflare) fqdn_env_keys ([], [])"

subsection \<open>Connection links\<close>

definition hex_upper :: "nat \<Rightarrow> char" where
  "hex_upper d = (if d < 10 then char_of (48 + d) else char_of (55 + d))"

definition utf8 :: "char \<Rightarrow> nat list" where
  "utf8 c = (let n = of_char c in if n < 128 then [n] else [192 + n div 64, 128 + n mod 64])"

text \<open>\<open>urllib.parse.quote(s, safe="")\<close>.\<close>

definition quote_char :: "char \<Rightarrow> string" where
  "quote_char c =
     (if is_letter c \<or> is_digit c \<or> c \<in> set ''_.-~'' then [c]
      else concat (map (\<lambda>b. [CHR ''%'', hex_upper (b div 16), hex_upper (b mod 16)]) (utf8 c)))"

definition quote :: "string \<Rightarrow> string" where
  "quote s = concat (map quote_char s)"

definition build_uri :: "string \<Rightarrow> string \<Rightarrow> string \<Rightarrow> string \<Rightarrow> int \<Rightarrow> string \<Rightarrow> string" where
  "build_uri scheme user password host port database =
     (let auth = (if user \<noteq> [] then quote user @ '':'' @ quote password @ ''@''
                  else if password \<noteq> [] then '':'' @ quote password @ ''@'' else []);
          path = (if database \<noteq> [] then ''/'' @ quote database else [])
      in scheme @ ''://'' @ auth @ host @ '':'' @ int_str port @ path)"

record connection_meta =
  cm_scheme :: string
  cm_service :: string
  cm_user_env :: string
  cm_password_env :: string
  cm_database_env :: string

record connection_link =
  cl_service :: string
  cl_scheme :: string
  cl_exposed :: bool
  cl_internal_uri :: string
  cl_host_uri :: string
  cl_public_uri :: "string option"

definition connection_links :: "vault \<Rightarrow> connection_meta option \<Rightarrow> string option \<Rightarrow> stack_row \<Rightarrow> service_row list
    \<Rightarrow> connection_link list res" where
  "connection_links v meta public_ip0 k ws =
     (case meta of None \<Rightarrow> Inr [] | Some m \<Rightarrow>
     (case find (\<lambda>w. w_name w = cm_service m) ws of None \<Rightarrow> Inr [] | Some target \<Rightarrow>
     (case w_internal_port target of None \<Rightarrow> Inr [] | Some port \<Rightarrow>
     bind_res (decrypt_env v (w_env target)) (\<lambda>env.
     bind_res (stack_loopback_ip (sk_id k)) (\<lambda>ip.
     let user = fmget env (cm_user_env m) []; password = fmget env (cm_password_env m) [];
         database = fmget env (cm_database_env m) []; public_ip = strip (or_empty public_ip0);
         uri = (\<lambda>host p. build_uri (cm_scheme m) user password host p database)
     in Inr [\<lparr>cl_service = w_name target, cl_scheme = cm_scheme m, cl_exposed = w_exposed target,
              cl_internal_uri = uri (sk_name k @ ''-'' @ w_name target) port,
              cl_host_uri = uri ip (derive_host_port port),
              cl_public_uri = (if w_exposed target \<and> public_ip \<noteq> [] then Some (uri public_ip (derive_host_port port)) else None)\<rparr>])))))"

end
