(* ===== verification/Templates.thy ===== *)
theory Templates
  imports Stacks Quadlet
begin

text \<open>
  The text work of compose templates, \<open>orchestration/blueprints/compose.py\<close>: \<open>str\<close> of a YAML value,
  the substitution of variables, and \<open>shlex.split\<close>.  A YAML document is a \<open>json\<close> value: mappings with
  string keys, lists, strings, integers, booleans and null; dates and floating-point numbers are left
  out.
\<close>

subsection \<open>\<open>str\<close> of a value\<close>

text \<open>A string inside a list or mapping is printed by \<open>repr\<close>.\<close>

fun json_repr :: "json \<Rightarrow> string" where
  "json_repr JNull = ''None''"
| "json_repr (JBool b) = (if b then ''True'' else ''False'')"
| "json_repr (JInt i) = int_str i"
| "json_repr (JStr s) = py_repr s"
| "json_repr (JList xs) = ''['' @ join '', '' (map json_repr xs) @ '']''"
| "json_repr (JObj kvs) = ''{'' @ join '', '' (map (\<lambda>kv. py_repr (fst kv) @ '': '' @ json_repr (snd kv)) kvs) @ ''}''"

definition py_str :: "json \<Rightarrow> string" where
  "py_str j = (case j of JStr s \<Rightarrow> s | _ \<Rightarrow> json_repr j)"

subsection \<open>Variables\<close>

definition name_start :: "char \<Rightarrow> bool" where
  "name_start c \<longleftrightarrow> is_letter c \<or> c = CHR ''_''"

definition name_char :: "char \<Rightarrow> bool" where
  "name_char c \<longleftrightarrow> name_start c \<or> is_digit c"

definition take_name :: "string \<Rightarrow> (string \<times> string) option" where
  "take_name s = (if s \<noteq> [] \<and> name_start (hd s) then Some (takeWhile name_char s, dropWhile name_char s) else None)"

text \<open>The operator of a reference: none, \<open>:-\<close> or \<open>-\<close> with a default, \<open>:?\<close> or \<open>?\<close> with an error text.\<close>

datatype alternative = Nothing | Default string | Required string

definition take_operator :: "string \<Rightarrow> ((string \<Rightarrow> alternative) \<times> string) option" where
  "take_operator s =
     (let t = (if startswith s '':'' then tl s else s)
      in if startswith t ''-'' then Some (Default, tl t) else if startswith t ''?'' then Some (Required, tl t) else None)"

text \<open>The reference after \<open>${\<close>: name, operator with its text up to the first closing brace (on the same
  line), and what follows.\<close>

definition braced :: "string \<Rightarrow> (string \<times> alternative \<times> string) option" where
  "braced s =
     (case take_name s of None \<Rightarrow> None
      | Some (key, r) \<Rightarrow>
          if startswith r [CHR 0x7D] then Some (key, Nothing, tl r)
          else (case take_operator r of None \<Rightarrow> None
                | Some (alt, body) \<Rightarrow>
                    (case partition_char CHR 0x7D body of (text, found, rest) \<Rightarrow>
                       if found \<and> CHR 0x0A \<notin> set text then Some (key, alt text, rest) else None)))"

definition expand :: "(string, string) fmap \<Rightarrow> string \<Rightarrow> alternative \<Rightarrow> string res" where
  "expand subs key alt =
     (let current = fmlookup subs key
      in case alt of
        Nothing \<Rightarrow> Inr (or_empty current)
      | Default text \<Rightarrow> Inr (if truthy current then the current else text)
      | Required text \<Rightarrow>
          if truthy current then Inr (the current) else if text \<noteq> [] then Inr text else Inl SpecValidationError)"

definition reference :: "char \<Rightarrow> string \<Rightarrow> (string \<times> alternative \<times> string) option" where
  "reference c s = (if c = CHR ''$'' \<and> startswith s [CHR 0x7B] then braced (tl s) else None)"

lemma partition_shorter: "partition_char d x = (a, True, c) \<Longrightarrow> length c \<le> length x"
proof (induction x arbitrary: a)
  case (Cons y x)
  then show ?case by (cases "partition_char d x") (auto split: if_splits)
qed simp

lemma braced_shorter: "braced s = Some (key, alt, rest) \<Longrightarrow> length rest \<le> length s"
proof -
  assume b: "braced s = Some (key, alt, rest)"
  have name: "length r \<le> length s" if "take_name s = Some (k, r)" for k r
    using that by (auto simp: take_name_def length_dropWhile_le split: if_splits)
  have operator: "length x \<le> length r" if "take_operator r = Some (f, x)" for r x and f :: "string \<Rightarrow> alternative"
    using that by (auto simp: take_operator_def Let_def split: if_splits)
  obtain r where r: "take_name s = Some (key, r)"
      "startswith r [CHR 0x7D] \<and> rest = tl r \<or> (\<exists>f body text. take_operator r = Some (f, body) \<and> partition_char CHR 0x7D body = (text, True, rest))"
    using b by (auto simp: braced_def split: option.splits if_splits prod.splits)
  have "length rest \<le> length r"
    using r(2) operator partition_shorter by (auto, fastforce)
  then show ?thesis using name [OF r(1)] by simp
qed

function substitute_braced :: "(string, string) fmap \<Rightarrow> string \<Rightarrow> string res" where
  "substitute_braced subs [] = Inr []"
| "substitute_braced subs (c # s) =
     (case reference c s of
        None \<Rightarrow> bind_res (substitute_braced subs s) (\<lambda>r. Inr (c # r))
      | Some (key, alt, rest) \<Rightarrow>
          bind_res (expand subs key alt) (\<lambda>x. bind_res (substitute_braced subs rest) (\<lambda>r. Inr (x @ r))))"
  by pat_completeness auto

termination
proof (relation "measure (\<lambda>(subs, s). length s)")
  fix subs :: "(string, string) fmap" and c s x key alt rest y z
  assume "reference c s = Some x" "(key, y) = x" "(alt, rest) = y"
  then have "braced (tl s) = Some (key, alt, rest)" by (auto simp: reference_def split: if_splits)
  then show "((subs, rest), (subs, c # s)) \<in> measure (\<lambda>(subs, s). length s)"
    using braced_shorter by fastforce
qed auto

fun substitute_bare :: "(string, string) fmap \<Rightarrow> nat \<Rightarrow> string \<Rightarrow> string" where
  "substitute_bare subs n [] = []"
| "substitute_bare subs (Suc n) (c # s) = substitute_bare subs n s"
| "substitute_bare subs 0 (c # s) =
     (if c = CHR ''$'' then
        (case take_name s of None \<Rightarrow> c # substitute_bare subs 0 s
         | Some (key, rest) \<Rightarrow> fmget subs key [] @ substitute_bare subs (length key) s)
      else c # substitute_bare subs 0 s)"

text \<open>The second pass also reads what the first one put in.\<close>

definition substitute :: "(string, string) fmap \<Rightarrow> json \<Rightarrow> string res" where
  "substitute subs j = bind_res (substitute_braced subs (py_str j)) (\<lambda>t. Inr (substitute_bare subs 0 t))"

subsection \<open>\<open>shlex.split\<close>\<close>

datatype lexing = Blank | Inside | Quoted char | Escaped "char option"

definition lex_blank :: "char \<Rightarrow> bool" where
  "lex_blank c \<longleftrightarrow> c \<in> set [CHR '' '', CHR 0x09, CHR 0x0D, CHR 0x0A]"

definition lex_quote :: "char \<Rightarrow> bool" where
  "lex_quote c \<longleftrightarrow> c = CHR 0x27 \<or> c = CHR 0x22"

fun shlex :: "lexing \<Rightarrow> string \<Rightarrow> string \<Rightarrow> string list res" where
  "shlex Blank w [] = Inr []"
| "shlex Inside w [] = Inr [w]"
| "shlex (Quoted q) w [] = Inl ValueError"
| "shlex (Escaped q) w [] = Inl ValueError"
| "shlex Blank w (c # s) =
     (if lex_blank c then shlex Blank [] s
      else if c = CHR 0x5C then shlex (Escaped None) [] s
      else if lex_quote c then shlex (Quoted c) [] s
      else shlex Inside [c] s)"
| "shlex Inside w (c # s) =
     (if lex_blank c then bind_res (shlex Blank [] s) (\<lambda>ws. Inr (w # ws))
      else if c = CHR 0x5C then shlex (Escaped None) w s
      else if lex_quote c then shlex (Quoted c) w s
      else shlex Inside (w @ [c]) s)"
| "shlex (Quoted q) w (c # s) =
     (if c = q then shlex Inside w s
      else if c = CHR 0x5C \<and> q = CHR 0x22 then shlex (Escaped (Some q)) w s
      else shlex (Quoted q) (w @ [c]) s)"
| "shlex (Escaped None) w (c # s) = shlex Inside (w @ [c]) s"
| "shlex (Escaped (Some q)) w (c # s) = shlex (Quoted q) (if c = CHR 0x5C \<or> c = q then w @ [c] else w @ [CHR 0x5C, c]) s"

definition shlex_split :: "string \<Rightarrow> string list res" where
  "shlex_split s = shlex Blank [] s"

end
