(* ===== verification/Loading.thy ===== *)
theory Loading
  imports Stacks
begin

text \<open>
  What the reconciler loads from the rows of \<open>Stacks\<close>: which stacks make up the desired world, what
  becomes of one that is missing from it, where the routes come from, and that persisting what a
  blueprint rendered and loading it again is the identity up to the address variables.
\<close>


subsection \<open>What is loaded\<close>

lemma load_specs_Inr:
  "load_specs v d ks = Inr sts \<longleftrightarrow>
     (\<forall>(k, susp)\<in>set ks. \<forall>e. spec_of_stack v d k susp = Inl e \<longrightarrow> e = SpecValidationError)
     \<and> sts = concat (map (\<lambda>(k, susp). case spec_of_stack v d k susp of Inr st \<Rightarrow> [st] | Inl _ \<Rightarrow> []) ks)"
proof (induction v d ks arbitrary: sts rule: load_specs.induct)
  case (2 v d k susp rest)
  show ?case
  proof (cases "spec_of_stack v d k susp")
    case (Inl e)
    then show ?thesis using 2(1) by auto
  next
    case (Inr st)
    then show ?thesis using 2(2) by (auto simp: bind_res_eq_Inr)
  qed
qed auto

text \<open>Which stacks a bad row takes down.  The desired world loads exactly when no active stack fails with
  anything but a grammar error; then it consists of the specs of the stacks that construct, in order,
  and the others are missing from it.  A stack whose secrets cannot be opened stops the world.\<close>

theorem load_desired_exact:
  "load_desired v d = Inr sts \<longleftrightarrow>
     (\<forall>(k, susp)\<in>set (active_stacks d). \<forall>e. spec_of_stack v d k susp = Inl e \<longrightarrow> e = SpecValidationError)
     \<and> sts = concat (map (\<lambda>(k, susp). case spec_of_stack v d k susp of Inr st \<Rightarrow> [st] | Inl _ \<Rightarrow> []) (active_stacks d))"
  unfolding load_desired_def by (rule load_specs_Inr)

lemma spec_of_stack_name: "spec_of_stack v d k susp = Inr st \<Longrightarrow> st_name st = sk_name k"
  by (auto simp: spec_of_stack_def spec_for_def bind_res_eq_Inr stack_post_init_iff)

lemma load_desired_names:
  assumes "load_desired v d = Inr sts" "st \<in> set sts"
  shows "\<exists>k susp. (k, susp) \<in> set (active_stacks d) \<and> spec_of_stack v d k susp = Inr st"
  using assms unfolding load_desired_def load_specs_Inr by (force split: sum.splits)

lemma active_stacks_in: "(k, susp) \<in> set (active_stacks d) \<Longrightarrow> k \<in> set (db_stacks d)"
  by (auto simp: active_stacks_def split: if_splits)

lemma active_stacks_owner: "(k, susp) \<in> set (active_stacks d) \<Longrightarrow> \<exists>i. sk_owner k = Some i \<and> (i, susp) \<in> set (db_users d)"
  by (force simp: active_stacks_def split: if_splits)

lemma plan_one_absent: "plan_one n None (Some ob) = Inr (plan_teardown n ob @ [SyncCaddy])"
  by (simp add: plan_one_def plan_Inr plan_actions_def desired_by_name_def dict_of_def sorted_keys_def plan_teardown_def)

lemma invalid_row_gone:
  assumes "load_desired v d = Inr desired" "(k, susp) \<in> set (active_stacks d)"
    "spec_of_stack v d k susp = Inl SpecValidationError" "distinct (map sk_name (db_stacks d))"
    "distinct (map fst (db_users d))"
  shows "fmlookup (desired_by_name desired) (sk_name k) = None
    \<and> (\<exists>as. plan_one (sk_name k) None (Some ob) = Inr as
          \<and> (\<forall>x. x |\<in>| os_volume_dirs ob \<longrightarrow> RemoveVolumeDir (os_tenant ob) (sk_name k) x \<in> set as))
    \<and> on_stack_status (sk_name k) (ok_status None) None d = delete_stack_row d (sk_id k)"
proof (intro conjI)
  have k: "k \<in> set (db_stacks d)" using assms(2) by (rule active_stacks_in)
  have "sk_name k \<notin> st_name ` set desired"
  proof
    assume "sk_name k \<in> st_name ` set desired"
    then obtain st where st: "st \<in> set desired" "st_name st = sk_name k" by auto
    obtain k' susp' where k': "(k', susp') \<in> set (active_stacks d)" "spec_of_stack v d k' susp' = Inr st"
      using load_desired_names [OF assms(1) st(1)] by blast
    have "sk_name k' = sk_name k" using spec_of_stack_name [OF k'(2)] st(2) by simp
    then have "k' = k" using assms(4) active_stacks_in [OF k'(1)] k by (auto simp: distinct_map inj_on_def)
    moreover have "susp' = susp"
      using active_stacks_owner [OF k'(1)] active_stacks_owner [OF assms(2)] \<open>k' = k\<close> eq_key_imp_eq_value [OF assms(5)]
      by fastforce
    ultimately show False using k'(2) assms(3) by simp
  qed
  then show "fmlookup (desired_by_name desired) (sk_name k) = None"
    by (simp add: desired_by_name_def dict_of_def fmlookup_of_list map_of_eq_None_iff image_image)
  show "\<exists>as. plan_one (sk_name k) None (Some ob) = Inr as
          \<and> (\<forall>x. x |\<in>| os_volume_dirs ob \<longrightarrow> RemoveVolumeDir (os_tenant ob) (sk_name k) x \<in> set as)"
    by (simp add: plan_one_absent plan_teardown_def set_sorted_list_of_fset)
  show "on_stack_status (sk_name k) (ok_status None) None d = delete_stack_row d (sk_id k)"
    using find_by_key [OF assms(4) k] by (simp add: on_stack_status_def ok_status_def)
qed

text \<open>C13: a row the grammar rejects destroys the stack.  An active stack whose rows do not construct is missing
  from the desired world, so whatever the host shows of it is torn down: the plan deletes every volume
  directory, and when it succeeds the status hook deletes the row, although nobody asked for the
  stack to be deleted.\<close>

theorem invalid_row_destroyed:
  assumes "load_desired v d = Inr desired" "(k, susp) \<in> set (active_stacks d)"
    "spec_of_stack v d k susp = Inl SpecValidationError" "distinct (map sk_name (db_stacks d))"
    "distinct (map fst (db_users d))"
  shows "fmlookup (desired_by_name desired) (sk_name k) = None
    \<and> (\<exists>as. plan_one (sk_name k) None (Some ob) = Inr as
          \<and> (\<forall>x. x |\<in>| os_volume_dirs ob \<longrightarrow> RemoveVolumeDir (os_tenant ob) (sk_name k) x \<in> set as))
    \<and> on_stack_status (sk_name k) (ok_status None) None d = delete_stack_row d (sk_id k)"
  using assms by (rule invalid_row_gone)

subsection \<open>Detected domains\<close>

lemma endpoint_post_init_Inr: "endpoint_post_init e = Inr e' \<Longrightarrow> e' = e"
  by (auto simp: endpoint_post_init_def bind_res_eq_Inr)

lemma volume_post_init_Inr: "volume_post_init x = Inr x' \<Longrightarrow> x' = x"
  by (auto simp: volume_post_init_def bind_res_eq_Inr)

lemma build_endpoints_rows:
  "build_endpoints v ers ws = Inr es \<Longrightarrow> ers \<noteq> [] \<Longrightarrow> es = map endpoint_of_row (sort_key er_domain ers)"
  by (auto simp: build_endpoints_def intro!: map_res_det dest: endpoint_post_init_Inr)

lemma spec_of_stack_endpoints:
  assumes "spec_of_stack v d k susp = Inr st"
  shows "build_endpoints v (stack_endpoints d (sk_id k)) (stack_services d (sk_id k)) = Inr (st_endpoints st)"
  using assms by (auto simp: spec_of_stack_def spec_for_def bind_res_eq_Inr stack_post_init_iff)

lemma routes_domains: "routes_for_stack st susp = Inr rs \<Longrightarrow> map sr_domain rs = map e_domain (st_endpoints st)"
proof -
  have "route_of st susp e = Inr r \<Longrightarrow> sr_domain r = e_domain e" for e r
    by (auto simp: route_of_def split: option.splits)
  then show "routes_for_stack st susp = Inr rs \<Longrightarrow> map sr_domain rs = map e_domain (st_endpoints st)"
    unfolding routes_for_stack_def map_res_Inr by (auto simp: list_all2_conv_all_nth intro: nth_equalityI)
qed

lemma collect_routes_rows:
  "collect_routes v d ks = Inr rs \<Longrightarrow> r \<in> set rs \<Longrightarrow> sr_domain r \<in> er_domain ` set (db_endpoints d)"
proof (induction v d ks arbitrary: rs rule: collect_routes.induct)
  case (2 v d k susp rest)
  show ?case
  proof (cases "stack_endpoints d (sk_id k) = []")
    case False
    show ?thesis
    proof (cases "spec_of_stack v d k susp")
      case (Inr st)
      then obtain rs1 rs2 where rs: "routes_for_stack st (st_suspended st) = Inr rs1" "collect_routes v d rest = Inr rs2" "rs = rs1 @ rs2"
        using 2 False by (auto simp: bind_res_eq_Inr)
      have "st_endpoints st = map endpoint_of_row (sort_key er_domain (stack_endpoints d (sk_id k)))"
        using spec_of_stack_endpoints [OF Inr] build_endpoints_rows False by blast
      then have "map sr_domain rs1 = map er_domain (sort_key er_domain (stack_endpoints d (sk_id k)))"
        using routes_domains [OF rs(1)] by (simp add: endpoint_of_row_def comp_def)
      then have "sr_domain ` set rs1 = er_domain ` set (stack_endpoints d (sk_id k))"
        by (metis list.set_map set_sort)
      then show ?thesis using 2(3) rs 2 Inr False by (auto simp: stack_endpoints_def)
    qed (use 2 False in \<open>auto split: if_splits\<close>)
  qed (use 2 in auto)
qed simp


text \<open>A domain that is only detected is never routed.  When a stack has no endpoint row, the domain found
  in its environment becomes an endpoint of its spec, but the routes of the web server are made
  from stacks with endpoint rows only.\<close>

theorem detected_domain_unrouted:
  assumes "stack_endpoints d (sk_id k) = []" "detect_fqdn_endpoint v (stack_services d (sk_id k)) = Inr (Some e)"
    "spec_of_stack v d k susp = Inr st" "e_domain e \<notin> er_domain ` set (db_endpoints d)" "stack_routes v d = Inr rs"
  shows "st_endpoints st = [e] \<and> (\<forall>r\<in>set rs. sr_domain r \<noteq> e_domain e)"
proof
  show "st_endpoints st = [e]"
    using spec_of_stack_endpoints [OF assms(3)] assms(1,2) by (simp add: build_endpoints_def)
  show "\<forall>r\<in>set rs. sr_domain r \<noteq> e_domain e"
    using collect_routes_rows assms(4,5) unfolding stack_routes_def by metis
qed

subsection \<open>Persisting and loading\<close>

lemma sort_key_sorted: "sorted (map f xs) \<Longrightarrow> sort_key f xs = xs"
  by (induction xs) (auto intro: insort_is_Cons)

lemma pair_le_keys: "distinct (map fst kvs) \<Longrightarrow> pairs_sorted kvs \<longleftrightarrow> sorted (map fst kvs)"
  unfolding pairs_sorted_def
  by (induction kvs) (auto simp: pair_le_def less_le image_iff Ball_def, blast)

lemma map_fst_sorted_items: "map fst (sorted_items m) = sorted_keys m"
  by (simp add: sorted_items_def comp_def)

lemma pairs_sorted_items [simp]: "pairs_sorted (sorted_items m)"
  by (simp add: pair_le_keys map_fst_sorted_items)

lemma sorted_items_in: "(k, x) \<in> set (sorted_items m) \<longleftrightarrow> fmlookup m k = Some x"
  by (auto simp: sorted_items_def image_iff fmlookup_dom_iff)

lemma sorted_items_dict:
  assumes "distinct (map fst kvs)" "pairs_sorted kvs"
  shows "sorted_items (dict_of kvs) = kvs"
proof (rule map_sorted_distinct_set_unique [where f = fst])
  show "inj_on fst (set (sorted_items (dict_of kvs)) \<union> set kvs)"
    using assms(1) by (auto simp: inj_on_def sorted_items_in fmlookup_dict_of map_of_eq_Some_iff dest: eq_key_imp_eq_value)
  show "sorted (map fst (sorted_items (dict_of kvs)))" "distinct (map fst (sorted_items (dict_of kvs)))"
    by (simp_all add: map_fst_sorted_items)
  show "sorted (map fst kvs)" "distinct (map fst kvs)" using assms pair_le_keys by blast+
  show "set (sorted_items (dict_of kvs)) = set kvs"
    using assms(1) by (auto simp: sorted_items_in fmlookup_dict_of map_of_eq_Some_iff)
qed

lemma post_init_env:
  assumes "service_post_init s = Inr s'" "check_each check_pair env = Inr u" "pairs_sorted env"
  shows "service_post_init (s\<lparr>s_env := env\<rparr>) = Inr (s'\<lparr>s_env := env\<rparr>)"
proof -
  have "has_build (s\<lparr>s_env := env\<rparr>) = has_build s" by (simp add: has_build_def)
  moreover have "service_build_init s = Inr t \<Longrightarrow> service_build_init (s\<lparr>s_env := env\<rparr>) = Inr (t\<lparr>s_env := env\<rparr>)" for t
    by (auto simp: service_build_init_def bind_res_eq_Inr)
  ultimately show ?thesis
    using assms by (auto simp: service_post_init_def bind_res_eq_Inr split: if_splits) 
qed


lemma upper_lower: "is_lower c \<Longrightarrow> is_upper (upper_char c)"
proof -
  assume l: "is_lower c"
  then have "of_char c \<le> (122 :: nat)" "97 \<le> (of_char c :: nat)" by (simp_all add: is_lower_def less_eq_char_def)
  then have "(of_char c - 32 :: nat) mod 256 = of_char c - 32" "65 \<le> (of_char c - 32 :: nat)" "(of_char c - 32 :: nat) \<le> 90"
    by simp_all
  then show ?thesis
    using l by (simp add: upper_char_def is_upper_def less_eq_char_def of_char_of take_bit_eq_mod)
qed

lemma upper_magic: "slug_char c \<Longrightarrow> upper_char c \<noteq> CHR ''-'' \<Longrightarrow> is_upper (upper_char c) \<or> is_digit (upper_char c)"
  using upper_lower [of c] by (auto simp: slug_char_def) (auto simp: upper_char_def)

lemma magic_key_ok:
  assumes "validate_slug n = Inr m" "p \<in> {''SERVICE_FQDN_'', ''SERVICE_URL_''}"
  shows "validate_env_key (p @ magic_key n) = Inr (p @ magic_key n)"
proof -
  have n: "length n \<le> 32" "list_all slug_char n" using assms(1) by (auto simp: validate_slug_iff)
  have "\<forall>c\<in>set (magic_key n). is_upper c \<or> is_digit c \<or> c = CHR ''_''"
    using n(2) upper_magic by (auto simp: magic_key_def list_all_iff)
  then have "fullmatch env_key_rx (p @ magic_key n)"
    using assms(2) by (auto simp: fullmatch_iff env_key_rx_def cls_def matches_Seq_Cls matches_Star_Cls class_defs less_eq_char_def)
  then show ?thesis using n(1) assms(2) by (auto simp: validate_env_key_def magic_key_def)
qed

lemma magic_checked:
  assumes "\<forall>e\<in>set es. endpoint_post_init e = Inr e"
  shows "kv \<in> set (magic_service_env es) \<Longrightarrow> check_pair kv = Inr ()"
proof -
  assume "kv \<in> set (magic_service_env es)"
  then obtain e where e: "e \<in> set es" "kv = (''SERVICE_FQDN_'' @ magic_key (e_service e), ''https://'' @ e_domain e)
      \<or> kv = (''SERVICE_URL_'' @ magic_key (e_service e), e_domain e)"
    by (auto simp: magic_service_env_def)
  have "endpoint_post_init e = Inr e" using assms e(1) by blast
  then obtain m w where "validate_domain_name (e_domain e) = Inr w" and slug: "validate_slug (e_service e) = Inr m"
    by (auto simp: endpoint_post_init_def bind_res_eq_Inr)
  then have dom: "validate_domain_name (e_domain e) = Inr (e_domain e)" using domain_safe(1) by metis
  have "nul \<notin> set (e_domain e)" "nl \<notin> set (e_domain e)"
    using domain_safe(3) [OF dom] safe_charD by blast+
  moreover have "length (e_domain e) \<le> 253" using dom by (simp add: validate_domain_name_def split: if_splits)
  ultimately have "validate_env_value k (e_domain e) = Inr (e_domain e)"
    "validate_env_value k (''https://'' @ e_domain e) = Inr (''https://'' @ e_domain e)" for k
    by (simp_all add: validate_env_value_def)
  then have "check_pair (p @ magic_key (e_service e), e_domain e) = Inr ()"
      "check_pair (p @ magic_key (e_service e), ''https://'' @ e_domain e) = Inr ()"
    if "p \<in> {''SERVICE_FQDN_'', ''SERVICE_URL_''}" for p
    using magic_key_ok [OF slug that] by (simp_all only: check_pair_def fst_conv snd_conv bind_res_simps)
  then show "check_pair kv = Inr ()" using e(2) by (metis insertCI)
qed

definition with_magic :: "stack_spec \<Rightarrow> stack_spec" where
  "with_magic st = st\<lparr>st_services := map (\<lambda>s. s\<lparr>s_env :=
     sorted_items (dict_of (magic_service_env (st_endpoints st)) ++\<^sub>f dict_of (s_env s))\<rparr>) (st_services st)\<rparr>"

text \<open>What a blueprint renders: constructed, with the fields that are set elsewhere at their defaults.\<close>

definition rendered_service :: "service_spec \<Rightarrow> bool" where
  "rendered_service s \<longleftrightarrow> service_post_init s = Inr s
     \<and> s_host_port s = None \<and> s_post_start_command s = [] \<and> \<not> s_hc_enabled s
     \<and> s_hc_path s = ''/health'' \<and> s_hc_port s = None \<and> s_hc_interval s = 10 \<and> s_hc_retries s = 3
     \<and> s_hc_start_period s = 30 \<and> s_hc_timeout s = 5 \<and> \<not> s_zero_downtime s
     \<and> distinct (map fst (s_env s)) \<and> distinct (map fst (s_build_args s)) \<and> pairs_sorted (s_build_args s)"

definition rendered_stack :: "stack_spec \<Rightarrow> bool" where
  "rendered_stack st \<longleftrightarrow> stack_post_init st = Inr st \<and> list_all rendered_service (st_services st)
     \<and> list_all (\<lambda>x. volume_post_init x = Inr x) (st_volumes st)
     \<and> list_all (\<lambda>e. endpoint_post_init e = Inr e) (st_endpoints st)"

text \<open>What the rows keep of it: the lock of an image in place of the image, no command, and no order.\<close>

definition locked :: "(string \<Rightarrow> string option) \<Rightarrow> service_spec \<Rightarrow> service_spec" where
  "locked locks s = (if truthy (locks (s_name s)) then s\<lparr>s_image := the (locks (s_name s))\<rparr> else s)"

definition locks_ok :: "(string \<Rightarrow> string option) \<Rightarrow> stack_spec \<Rightarrow> bool" where
  "locks_ok locks st \<longleftrightarrow> list_all (\<lambda>s. truthy (locks (s_name s)) \<longrightarrow>
     has_build s \<or> validate_image_ref (the (locks (s_name s))) = Inr (the (locks (s_name s)))) (st_services st)"

definition without_command :: "service_spec \<Rightarrow> service_spec" where
  "without_command s = s\<lparr>s_command := []\<rparr>"

definition as_stored :: "(string \<Rightarrow> string option) \<Rightarrow> stack_spec \<Rightarrow> stack_spec" where
  "as_stored locks st = st\<lparr>st_services := sort_key s_name (map (\<lambda>s. without_command (locked locks s)) (st_services st)),
     st_volumes := sort_key v_name (st_volumes st), st_endpoints := sort_key e_domain (st_endpoints st)\<rparr>"

lemma insort_key_map: "insort_key f (g x) (map g xs) = map g (insort_key (\<lambda>x. f (g x)) x xs)"
  by (induction xs) auto

lemma sort_key_map: "sort_key f (map g xs) = map g (sort_key (\<lambda>x. f (g x)) xs)"
  by (induction xs) (simp_all add: insort_key_map)

lemma sort_key_Nil [simp]: "sort_key f xs = [] \<longleftrightarrow> xs = []"
  by (metis length_0_conv length_sort)

lemma unlocked [simp]: "locked (\<lambda>_. None) s = s" "locks_ok (\<lambda>_. None) st"
  by (simp_all add: locked_def locks_ok_def truthy_def list_all_iff)

lemma locked_name [simp]: "s_env (locked locks s) = s_env s" "s_name (locked locks s) = s_name s"
    "s_internal_port (locked locks s) = s_internal_port s" "s_depends_on (locked locks s) = s_depends_on s"
  by (simp_all add: locked_def)

lemma without_command_name [simp]: "s_env (without_command s) = s_env s" "s_name (without_command s) = s_name s" "s_name \<circ> without_command = s_name"
  by (auto simp: without_command_def)

lemma as_stored_sel [simp]:
  "st_name (as_stored locks st) = st_name st" "st_tenant (as_stored locks st) = st_tenant st" "st_loopback_ip (as_stored locks st) = st_loopback_ip st"
  "st_suspended (as_stored locks st) = st_suspended st" "st_server_id (as_stored locks st) = st_server_id st"
  "st_generation (as_stored locks st) = st_generation st" "st_endpoints (as_stored locks st) = sort_key e_domain (st_endpoints st)"
  "st_volumes (as_stored locks st) = sort_key v_name (st_volumes st)"
  "st_services (as_stored locks st) = map (\<lambda>s. without_command (locked locks s)) (sort_key s_name (st_services st))"
  by (simp_all add: as_stored_def sort_key_map)

lemma distinct_map_sort: "distinct (map f (sort_key g xs)) = distinct (map f xs)"
  by (metis (no_types) mset_map mset_sort mset_eq_imp_distinct_iff)

lemma as_stored_wf: "stack_wf st \<Longrightarrow> stack_wf (as_stored locks st)"
  by (auto simp: stack_wf_def endpoint_ok_def comp_def image_image distinct_map_sort without_command_def)

lemma decrypt_encrypt: "faithful v \<Longrightarrow> decrypt_env v (encrypt_env v m) = Inr m"
  by (simp add: decrypt_env_def encrypt_env_def faithful_def truthy_def)

lemma map_res_mapped: "map_res f (map h xs) = map_res (\<lambda>x. f (h x)) xs"
  by (induction xs) auto

lemma record_eta [simp]:
  "\<lparr>e_domain = e_domain e, e_service = e_service e, e_behind_cloudflare = e_behind_cloudflare e\<rparr> = e"
  "\<lparr>v_name = v_name x, v_service = v_service x, v_mount_path = v_mount_path x\<rparr> = x"
  by (cases e, simp) (cases x, simp)

lemma map_res_id: "\<forall>x\<in>set xs. f x = Inr x \<Longrightarrow> map_res f xs = Inr xs"
  by (induction xs) auto

lemma post_init_command:
  assumes "service_post_init s = Inr s'"
  shows "service_post_init (without_command s) = Inr (without_command s')"
proof -
  have "has_build (s\<lparr>s_command := []\<rparr>) = has_build s" by (simp add: has_build_def)
  moreover have "service_build_init s = Inr t \<Longrightarrow> service_build_init (s\<lparr>s_command := []\<rparr>) = Inr (t\<lparr>s_command := []\<rparr>)" for t
    by (auto simp: service_build_init_def bind_res_eq_Inr)
  ultimately show ?thesis
    unfolding without_command_def using assms by (auto simp: service_post_init_def bind_res_eq_Inr split: if_splits)
qed

lemma post_init_locked:
  assumes "service_post_init s = Inr s" "truthy (locks (s_name s)) \<Longrightarrow>
    has_build s \<or> validate_image_ref (the (locks (s_name s))) = Inr (the (locks (s_name s)))"
  shows "service_post_init (locked locks s) = Inr (locked locks s)"
proof (cases "truthy (locks (s_name s))")
  case True
  let ?x = "the (locks (s_name s))"
  have "has_build (s\<lparr>s_image := ?x\<rparr>) = has_build s" by (simp add: has_build_def)
  moreover have "service_build_init s = Inr t \<Longrightarrow> service_build_init (s\<lparr>s_image := ?x\<rparr>) = Inr (t\<lparr>s_image := ?x\<rparr>)" for t
    by (auto simp: service_build_init_def bind_res_eq_Inr)
  ultimately show ?thesis
    unfolding locked_def using assms True by (auto simp: service_post_init_def bind_res_eq_Inr split: if_splits)
qed (use assms in \<open>simp add: locked_def\<close>)

lemma load_service:
  assumes "faithful v" "rendered_service s" "service_post_init (locked locks s) = Inr (locked locks s)" "\<And>kv. kv \<in> set magic \<Longrightarrow> check_pair kv = Inr ()"
  shows "service_of_row v magic (row_of_service v i locks s)
    = Inr ((without_command (locked locks s))\<lparr>s_env := sorted_items (dict_of magic ++\<^sub>f dict_of (s_env s))\<rparr>)"
proof -
  let ?env = "sorted_items (dict_of magic ++\<^sub>f dict_of (s_env s))"
  have ok: "service_post_init s = Inr s" using assms(2) by (simp add: rendered_service_def)
  then have own: "\<forall>kv\<in>set (s_env s). check_pair kv = Inr ()"
    by (auto simp: service_post_init_def bind_res_eq_Inr check_each_Inr service_build_init_def split: if_splits)
  have "check_pair kv = Inr ()" if "kv \<in> set ?env" for kv
  proof -
    obtain a b where ab: "kv = (a, b)" by (cases kv)
    have "kv \<in> set magic \<or> kv \<in> set (s_env s)"
      using that unfolding ab sorted_items_in
      by (auto simp: dict_of_def fmlookup_of_list dest!: map_of_SomeD split: if_splits)
    then show ?thesis using assms(4) own by blast
  qed
  then have checked: "check_each check_pair ?env = Inr ()" by (simp add: check_each_Inr)
  have args: "sorted_items (dict_of (s_build_args s)) = s_build_args s"
    using assms(2) by (simp add: rendered_service_def sorted_items_dict)
  have "service_of_row v magic (row_of_service v i locks s) = service_post_init ((without_command (locked locks s))\<lparr>s_env := ?env\<rparr>)"
    using assms(2)
    by (simp add: without_command_def locked_def service_of_row_def row_of_service_def decrypt_encrypt [OF assms(1)] args truthy_def or_empty_def rendered_service_def)
      (auto intro!: arg_cong [of _ _ service_post_init] service_spec.equality)
  then show ?thesis using post_init_env [OF post_init_command [OF assms(3)] checked pairs_sorted_items] by simp
qed

lemma load_persisted:
  assumes "faithful v" "rendered_stack st" "locks_ok locks st"
    and row: "sk_name k = st_name st" "tenant_for (sk_owner k) = Inr (st_tenant st)"
      "stack_loopback_ip (sk_id k) = Inr (st_loopback_ip st)" "sk_server k = st_server_id st"
      "sk_generation k = st_generation st"
    and none: "stack_services d (sk_id k) = []" "stack_volumes d (sk_id k) = []" "stack_endpoints d (sk_id k) = []"
    and undetected: "st_endpoints st \<noteq> []
       \<or> detect_fqdn_endpoint v (map (row_of_service v (sk_id k) locks) (st_services st)) = Inr None"
  shows "spec_of_stack v (persist_rendered v (sk_id k) locks st d) k (st_suspended st) = Inr (with_magic (as_stored locks st))"
proof -
  let ?d = "persist_rendered v (sk_id k) locks st d"
  let ?row = "row_of_service v (sk_id k) locks"
  have st: "stack_post_init st = Inr st" "\<forall>s\<in>set (st_services st). rendered_service s"
    "\<forall>x\<in>set (st_volumes st). volume_post_init x = Inr x" "\<forall>e\<in>set (st_endpoints st). endpoint_post_init e = Inr e"
    using assms(2) by (simp_all add: rendered_stack_def list_all_iff)
  have locked_ok: "service_post_init (locked locks s) = Inr (locked locks s)" if "s \<in> set (st_services st)" for s
    using st(2) assms(3) that by (auto simp: locks_ok_def list_all_iff rendered_service_def intro!: post_init_locked)
  have rows: "stack_services ?d (sk_id k) = map ?row (st_services st)"
    "stack_volumes ?d (sk_id k) = map (\<lambda>x. \<lparr>vr_stack = sk_id k, vr_name = v_name x, vr_service = v_service x,
        vr_mount_path = v_mount_path x\<rparr>) (st_volumes st)"
    "stack_endpoints ?d (sk_id k) = map (\<lambda>e. \<lparr>er_stack = sk_id k, er_domain = e_domain e, er_service = e_service e,
        er_behind_cloudflare = e_behind_cloudflare e\<rparr>) (st_endpoints st)"
    using none by (auto simp: persist_rendered_def stack_services_def stack_volumes_def stack_endpoints_def
        row_of_service_def filter_empty_conv)
  let ?st = "as_stored locks st"
  have ends: "build_endpoints v (stack_endpoints ?d (sk_id k)) (stack_services ?d (sk_id k)) = Inr (st_endpoints ?st)"
  proof (cases "st_endpoints st = []")
    case False
    then show ?thesis
      using st(4) by (simp add: rows build_endpoints_def sort_key_map comp_def map_res_mapped endpoint_of_row_def map_res_id)
  qed (use undetected in \<open>simp add: rows build_endpoints_def\<close>)
  have magic: "check_pair kv = Inr ()" if "kv \<in> set (magic_service_env (st_endpoints ?st))" for kv
    by (rule magic_checked [OF _ that]) (use st(4) in simp)
  have "sort_key w_name (map ?row (st_services st)) = map ?row (sort_key s_name (st_services st))"
    by (simp add: sort_key_map comp_def row_of_service_def)
  then have services: "map_res (service_of_row v (magic_service_env (st_endpoints ?st))) (sort_key w_name (stack_services ?d (sk_id k)))
      = Inr (st_services (with_magic ?st))"
    unfolding rows with_magic_def as_stored_sel by (simp add: map_res_mapped comp_def) (rule map_res_map, rule load_service [OF assms(1)], use st(2) locked_ok magic in auto)
  have volumes: "map_res volume_of_row (sort_key vr_name (stack_volumes ?d (sk_id k))) = Inr (st_volumes ?st)"
    using st(3) by (simp add: rows sort_key_map comp_def map_res_mapped volume_of_row_def map_res_id)
  have "stack_wf ?st" using st(1) by (simp add: stack_post_init_iff as_stored_wf)
  then have wf: "stack_post_init (with_magic ?st) = Inr (with_magic ?st)"
    by (simp add: stack_post_init_iff stack_wf_def with_magic_def comp_def image_image endpoint_ok_def)
  have "spec_of_stack v ?d k (st_suspended st) = stack_post_init (with_magic ?st)"
    unfolding spec_of_stack_def spec_for_def
    by (simp only: ends row services volumes bind_res_simps)
      (auto intro!: arg_cong [of _ _ stack_post_init] stack_spec.equality simp: with_magic_def)
  then show ?thesis using wf by simp
qed


subsection \<open>Instances\<close>

text \<open>A vault that seals with a length-prefixed text.\<close>

definition enc_str :: "string \<Rightarrow> string" where
  "enc_str s = replicate (length s) CHR ''1'' @ CHR ''0'' # s"

definition dec_str :: "string \<Rightarrow> string \<times> string" where
  "dec_str t = (let n = length (takeWhile (\<lambda>c. c = CHR ''1'') t); r = drop (Suc n) t in (take n r, drop n r))"

fun enc_items :: "(string \<times> string) list \<Rightarrow> string" where
  "enc_items [] = ''.''"
| "enc_items ((k, x) # kvs) = CHR '','' # enc_str k @ enc_str x @ enc_items kvs"

fun dec_items :: "nat \<Rightarrow> string \<Rightarrow> (string \<times> string) list" where
  "dec_items 0 t = []"
| "dec_items (Suc n) t = (if startswith t '','' then (let (k, t1) = dec_str (tl t); (x, t2) = dec_str t1 in (k, x) # dec_items n t2) else [])"

definition plain_vault :: vault where
  "plain_vault = \<lparr>seal_env = (\<lambda>m. enc_items (sorted_items m)),
     open_env = (\<lambda>t. if t = ''corrupt'' then Inl ValueError else Inr (dict_of (dec_items (length t) t))),
     seal_inputs = (\<lambda>kvs. json_dumps (JObj kvs)),
     open_inputs = (\<lambda>t. Inr [(''env'', JObj [(''FQDN'', JStr ''https://shop.example.com'')])])\<rparr>"

lemma dec_enc_str [simp]: "dec_str (enc_str s @ t) = (s, t)"
proof -
  have "takeWhile (\<lambda>c. c = CHR ''1'') (replicate n CHR ''1'' @ CHR ''0'' # u) = replicate n CHR ''1''" for n u
    by (induction n) auto
  then show ?thesis by (simp add: dec_str_def enc_str_def Let_def)
qed

lemma dec_enc_items: "length (enc_items kvs) \<le> n \<Longrightarrow> dec_items n (enc_items kvs) = kvs"
proof (induction kvs arbitrary: n)
  case Nil
  then show ?case by (cases n) auto
next
  case (Cons kx kvs)
  obtain k x where "kx = (k, x)" by (cases kx)
  then show ?case using Cons by (cases n) auto
qed

lemma dict_sorted_items: "dict_of (sorted_items m) = m"
proof (rule fmap_ext)
  have d: "distinct (map fst (sorted_items m))" by (simp add: map_fst_sorted_items)
  fix k
  show "fmlookup (dict_of (sorted_items m)) k = fmlookup m k"
    using map_of_eq_Some_iff [OF d, of k] by (cases "fmlookup m k") (auto simp: fmlookup_dict_of [OF d] sorted_items_in map_of_eq_None_iff image_iff)
qed

lemma plain_faithful: "faithful plain_vault"
proof -
  have "enc_items kvs \<noteq> ''corrupt'' \<and> enc_items kvs \<noteq> []" for kvs by (cases kvs rule: enc_items.cases) auto
  then show ?thesis by (simp add: faithful_def plain_vault_def dec_enc_items dict_sorted_items)
qed

definition shop_service :: service_spec where
  "shop_service = (service_defaults ''web'' ''docker.io/library/nginx:1.27'')
     \<lparr>s_internal_port := Some 3000, s_is_web := True, s_env := [(''FQDN'', ''https://shop.example.com'')]\<rparr>"

definition shop :: stack_spec where
  "shop = \<lparr>st_name = ''shop'', st_tenant = ''hosty-t-7'', st_loopback_ip = ''127.1.0.3'', st_services = [shop_service],
     st_volumes = [\<lparr>v_name = ''data'', v_service = ''web'', v_mount_path = ''/data''\<rparr>],
     st_endpoints = [\<lparr>e_domain = ''shop.example.com'', e_service = ''web'', e_behind_cloudflare = False\<rparr>],
     st_suspended = False, st_server_id = None, st_generation = 1\<rparr>"

definition shop_row :: stack_row where
  "shop_row = \<lparr>sk_id = 3, sk_owner = Some 7, sk_server = None, sk_name = ''shop'', sk_blueprint = ''raw-image'', sk_blueprint_version = 1, sk_inputs = Some ''sealed'',
     sk_status = ''ready'', sk_error = None, sk_generation = 1, sk_observed = 1, sk_watch_paths = None\<rparr>"

definition bare_db :: panel_db where
  "bare_db = \<lparr>db_users = [(7, False)], db_stacks = [shop_row], db_services = [], db_volumes = [], db_endpoints = []\<rparr>"

definition shop_db :: panel_db where
  "shop_db = persist_rendered plain_vault 3 (\<lambda>_. None) shop bare_db"

lemma shop_service_ok: "service_post_init shop_service = Inr shop_service"
  unfolding shop_service_def service_defaults_def by code_simp

lemma shop_rendered: "rendered_stack shop"
proof -
  have "validate_slug ''shop'' = Inr ''shop''" "validate_slug ''web'' = Inr ''web''" "validate_slug ''data'' = Inr ''data''"
    "validate_mount_path ''/data'' = Inr ''/data''" "validate_domain_name ''shop.example.com'' = Inr ''shop.example.com''"
    "tenant_ok ''hosty-t-7''"
    by code_simp+
  then show ?thesis using shop_service_ok
    by (simp add: rendered_stack_def shop_def stack_post_init_iff stack_wf_def rendered_service_def shop_service_def service_defaults_def
        volume_post_init_def endpoint_post_init_def endpoint_ok_def pairs_sorted_def)
qed

lemma shop_facts: "stack_loopback_ip 3 = Inr ''127.1.0.3''" "tenant_for (Some 7) = Inr ''hosty-t-7''"
  by code_simp+

lemma shop_side:
  "sk_name shop_row = st_name shop" "tenant_for (sk_owner shop_row) = Inr (st_tenant shop)"
  "stack_loopback_ip (sk_id shop_row) = Inr (st_loopback_ip shop)" "sk_server shop_row = st_server_id shop"
  "sk_generation shop_row = st_generation shop" "stack_services bare_db (sk_id shop_row) = []"
  "stack_volumes bare_db (sk_id shop_row) = []" "stack_endpoints bare_db (sk_id shop_row) = []"
  "st_endpoints shop \<noteq> []
     \<or> detect_fqdn_endpoint plain_vault (map (row_of_service plain_vault (sk_id shop_row) (\<lambda>_. None)) (st_services shop)) = Inr None"
  by (simp_all add: shop_row_def shop_facts bare_db_def stack_services_def stack_volumes_def stack_endpoints_def shop_def)

lemma shop_db_persisted: "shop_db = persist_rendered plain_vault (sk_id shop_row) (\<lambda>_. None) shop bare_db" "st_suspended shop = False"
  by (simp add: shop_db_def shop_row_def) (simp add: shop_def)

lemma shop_as_stored: "as_stored (\<lambda>_. None) shop = shop"
  by (simp add: as_stored_def shop_def without_command_def shop_service_def service_defaults_def)

lemma shop_loaded: "spec_of_stack plain_vault shop_db shop_row False = Inr (with_magic shop)"
  using load_persisted [OF plain_faithful shop_rendered unlocked(2) shop_side] by (simp only: shop_db_persisted shop_as_stored)


text \<open>The same shop with an endpoint row the grammar of domains rejects, and with a secret that does not open.\<close>

definition bad_db :: panel_db where
  "bad_db = shop_db\<lparr>db_endpoints := [\<lparr>er_stack = 3, er_domain = ''my_shop.example.com'', er_service = ''web'', er_behind_cloudflare = False\<rparr>]\<rparr>"

lemma bad_spec: "spec_of_stack plain_vault bad_db shop_row False = Inl SpecValidationError"
proof -
  have "validate_domain_name ''my_shop.example.com'' = Inl SpecValidationError" by code_simp
  then show ?thesis
    by (simp add: spec_of_stack_def spec_for_def bad_db_def shop_row_def stack_endpoints_def build_endpoints_def endpoint_of_row_def
        endpoint_post_init_def)
qed

lemma bad_active: "active_stacks bad_db = [(shop_row, False)]"
  by (simp add: active_stacks_def bad_db_def shop_db_def persist_rendered_def bare_db_def shop_row_def active_statuses_def)

theorem load_desired_exact_witness: "load_desired plain_vault bad_db = Inr []"
  using load_desired_exact [of plain_vault bad_db "[]"] by (simp add: bad_active bad_spec)

theorem invalid_row_destroyed_witness:
  "\<exists>as. plan_one ''shop'' None (Some \<lparr>os_tenant = ''hosty-t-7'', os_tenant_present = True, os_units = fmempty, os_build_units = fmempty,
        os_volume_dirs = {|''data''|}\<rparr>) = Inr as \<and> RemoveVolumeDir ''hosty-t-7'' ''shop'' ''data'' \<in> set as"
proof -
  have l: "load_desired plain_vault bad_db = Inr []" by (simp add: load_desired_def bad_active bad_spec)
  have "(shop_row, False) \<in> set (active_stacks bad_db)" by (simp add: bad_active)
  from invalid_row_destroyed [OF l this bad_spec, of "\<lparr>os_tenant = ''hosty-t-7'', os_tenant_present = True, os_units = fmempty,
      os_build_units = fmempty, os_volume_dirs = {|''data''|}\<rparr>"]
  show ?thesis by (simp add: bad_db_def shop_db_def persist_rendered_def bare_db_def shop_row_def)
qed

definition detected_db :: panel_db where
  "detected_db = shop_db\<lparr>db_endpoints := []\<rparr>"

abbreviation shop_endpoint :: endpoint_spec where
  "shop_endpoint \<equiv> \<lparr>e_domain = ''shop.example.com'', e_service = ''web'', e_behind_cloudflare = False\<rparr>"

lemma shop_rows: "stack_services shop_db 3 = [row_of_service plain_vault 3 (\<lambda>_. None) shop_service]"
  "stack_services detected_db 3 = stack_services shop_db 3" "stack_volumes detected_db 3 = stack_volumes shop_db 3"
  "stack_endpoints detected_db 3 = []"
  by (simp_all add: stack_services_def stack_volumes_def stack_endpoints_def detected_db_def shop_db_def persist_rendered_def
      bare_db_def shop_def row_of_service_def)

lemma shop_detected: "detect_fqdn_endpoint plain_vault (stack_services shop_db 3) = Inr (Some shop_endpoint)"
proof -
  let ?w = "row_of_service plain_vault 3 (\<lambda>_. None) shop_service"
  have w: "web_first [?w] = [?w]" by (simp add: web_first_def row_of_service_def shop_service_def)
  have env: "decrypt_env plain_vault (w_env ?w) = Inr (dict_of (s_env shop_service))"
    by (simp add: row_of_service_def decrypt_encrypt [OF plain_faithful])
  have raw: "fmget (dict_of (s_env shop_service)) ''FQDN'' [] = ''https://shop.example.com''"
    by (simp add: shop_service_def dict_of_def fmget_def)
  have "parse_domain ''https://shop.example.com'' = Some ''shop.example.com''" "endpoint_post_init shop_endpoint = Inr shop_endpoint"
    by code_simp+
  then show ?thesis
    by (simp add: detect_fqdn_endpoint_def shop_rows w fqdn_env_keys_def env raw)
      (simp add: row_of_service_def shop_service_def service_defaults_def)
qed

lemma detected_spec: "spec_of_stack plain_vault detected_db shop_row False = Inr (with_magic shop)"
proof -
  have ends: "st_endpoints (with_magic shop) = [shop_endpoint]" by (simp add: with_magic_def shop_def)
  have "build_endpoints plain_vault (stack_endpoints shop_db 3) (stack_services shop_db 3) = Inr [shop_endpoint]"
    using spec_of_stack_endpoints [OF shop_loaded] by (simp add: ends shop_row_def)
  then have "spec_of_stack plain_vault detected_db shop_row False = spec_of_stack plain_vault shop_db shop_row False"
    by (simp add: spec_of_stack_def spec_for_def shop_rows(2-4) shop_row_def)
       (simp add: build_endpoints_def shop_detected)
  then show ?thesis by (simp only: shop_loaded)
qed

theorem detected_domain_unrouted_witness:
  "st_endpoints (with_magic shop) = [shop_endpoint] \<and> stack_routes plain_vault detected_db = Inr []"
proof -
  have routes: "stack_routes plain_vault detected_db = Inr []"
    by (simp add: stack_routes_def active_stacks_def detected_db_def shop_db_def persist_rendered_def bare_db_def shop_row_def
        active_statuses_def stack_endpoints_def)
  have "stack_endpoints detected_db (sk_id shop_row) = []"
    "detect_fqdn_endpoint plain_vault (stack_services detected_db (sk_id shop_row)) = Inr (Some shop_endpoint)"
    "e_domain shop_endpoint \<notin> er_domain ` set (db_endpoints detected_db)"
    by (simp_all add: shop_row_def shop_rows(2-4) shop_detected) (simp add: detected_db_def)
  from detected_domain_unrouted [OF this(1,2) detected_spec this(3) routes] routes show ?thesis by simp
qed

end
