(* ===== verification/Images.thy ===== *)
theory Images
  imports Stacks
begin

text \<open>
  Image locks, \<open>services/stack_images.py\<close>: the digest a service of a stack is pinned to.  The registry is a
  parameter: \<open>hub\<close> gives the digest header for a repository and a tag, or the exception of the request.
\<close>

record image_ref =
  ir_source :: string
  ir_registry :: string
  ir_repository :: string
  ir_tag :: "string option"
  ir_digest :: "string option"

text \<open>In the grammar of images an at sign only starts \<open>@sha256:\<close>.\<close>

definition parse_image_ref :: "string \<Rightarrow> image_ref res" where
  "parse_image_ref img =
     bind_res (validate_image_ref img) (\<lambda>normalized.
     case partition_char CHR ''@'' normalized of (source, pinned, digest) \<Rightarrow>
     (case partition_char CHR ''/'' source of (first, has_slash, rest) \<Rightarrow>
        if \<not> has_slash then Inl ImageResolutionError
        else (let base = last (split_char CHR ''/'' rest); tagged = CHR '':'' \<in> set base;
                  tag = last (split_char CHR '':'' base)
              in Inr \<lparr>ir_source = source, ir_registry = first,
                   ir_repository = (if tagged then take (length rest - length tag - 1) rest else rest),
                   ir_tag = (if tagged then Some tag else None),
                   ir_digest = (if pinned then Some (removeprefix digest ''sha256:'') else None)\<rparr>)))"

definition pinned_ref :: "string \<Rightarrow> string \<Rightarrow> string res" where
  "pinned_ref source digest0 =
     (let digest = removeprefix digest0 ''sha256:''
      in bind_res (guard (fullmatch (exactly_rx 64 (cls [is_hex] [])) digest) ImageResolutionError) (\<lambda>_.
         bind_res (parse_image_ref source) (\<lambda>r. Inr (ir_source r @ ''@sha256:'' @ digest))))"

definition floating_tags :: "string list" where
  "floating_tags = [''latest'', ''stable'', ''edge'', ''main'', ''master'', ''nightly'', ''dev'']"

definition unstable_markers :: "string list" where
  "unstable_markers = [''alpha'', ''beta'', ''rc'', ''snapshot'', ''canary'', ''test'']"

definition is_stable_track :: "string \<Rightarrow> bool res" where
  "is_stable_track img =
     bind_res (parse_image_ref img) (\<lambda>r.
     Inr (if truthy (ir_digest r) \<or> \<not> truthy (ir_tag r) then False
          else (let tag = lower (the (ir_tag r))
                in tag \<notin> set floating_tags \<and> \<not> list_ex (\<lambda>m. contains tag m) unstable_markers)))"

definition resolve_docker_hub :: "(string \<Rightarrow> string \<Rightarrow> string res) \<Rightarrow> image_ref \<Rightarrow> string res" where
  "resolve_docker_hub hub r =
     bind_res (hub (ir_repository r) (the (ir_tag r))) (\<lambda>digest.
     bind_res (guard (startswith digest ''sha256:'') ImageResolutionError) (\<lambda>_. pinned_ref (ir_source r) digest))"

definition resolve_digest_ref :: "(string \<Rightarrow> string \<Rightarrow> string res) \<Rightarrow> string \<Rightarrow> string option res" where
  "resolve_digest_ref hub img =
     bind_res (parse_image_ref img) (\<lambda>r.
     if truthy (ir_digest r) then Inr (Some (ir_source r @ ''@sha256:'' @ the (ir_digest r)))
     else if \<not> truthy (ir_tag r) \<or> ir_registry r \<noteq> ''docker.io'' then Inr None
     else bind_res (resolve_docker_hub hub r) (\<lambda>x. Inr (Some x)))"

definition lock_digest :: "(string \<Rightarrow> string \<Rightarrow> string res) \<Rightarrow> string \<Rightarrow> string option res" where
  "lock_digest hub img =
     (case resolve_digest_ref hub img of
        Inl e \<Rightarrow> if e = HTTPError \<or> e = ImageResolutionError then Inr None else Inl e | Inr x \<Rightarrow> Inr x)"

text \<open>Service name to digest; a later service of the same name would win, but names are distinct.\<close>

definition resolve_stack_image_locks :: "(string \<Rightarrow> string \<Rightarrow> string res) \<Rightarrow> stack_spec \<Rightarrow> (string \<Rightarrow> string option) res" where
  "resolve_stack_image_locks hub st =
     bind_res (map_res (\<lambda>s. if truthy (s_build_repo s) then Inr (s_name s, None)
         else bind_res (lock_digest hub (s_image s)) (\<lambda>x. Inr (s_name s, x))) (st_services st)) (\<lambda>locks.
     Inr (\<lambda>n. case map_of (rev locks) n of None \<Rightarrow> None | Some x \<Rightarrow> x))"

subsection \<open>Automatic updates\<close>

definition refresh_one :: "(string \<Rightarrow> string \<Rightarrow> string res) \<Rightarrow> service_row \<Rightarrow> string option res" where
  "refresh_one hub w =
     (case is_stable_track (w_image w) of
        Inl e \<Rightarrow> if e = ImageResolutionError then Inr None else Inl e
      | Inr track \<Rightarrow>
          if \<not> track then Inr None
          else bind_res (lock_digest hub (w_image w)) (\<lambda>latest. Inr (if latest = w_digest w then None else latest)))"

definition lock_moved :: "int \<Rightarrow> string \<Rightarrow> string \<Rightarrow> panel_db \<Rightarrow> panel_db" where
  "lock_moved i name digest d =
     (update_stack d i (\<lambda>k. k\<lparr>sk_generation := sk_generation k + 1,
        sk_status := if sk_status k \<in> set [''ready'', ''degraded'', ''error''] then ''converging'' else sk_status k,
        sk_error := None\<rparr>))\<lparr>db_services := map (\<lambda>w. if w_stack w = i \<and> w_name w = name then w\<lparr>w_digest := Some digest\<rparr> else w) (db_services d)\<rparr>"

fun refresh_rows :: "(string \<Rightarrow> string \<Rightarrow> string res) \<Rightarrow> service_row list \<Rightarrow> panel_db \<Rightarrow> (nat \<times> panel_db) res" where
  "refresh_rows hub [] d = Inr (0, d)"
| "refresh_rows hub (w # ws) d =
     bind_res (refresh_one hub w) (\<lambda>latest.
     case latest of None \<Rightarrow> refresh_rows hub ws d
     | Some x \<Rightarrow> bind_res (refresh_rows hub ws (lock_moved (w_stack w) (w_name w) x d)) (\<lambda>(n, d'). Inr (Suc n, d')))"

text \<open>One commit at the end: an exception leaves everything as it was.\<close>

definition refresh_stable_image_locks :: "(string \<Rightarrow> string \<Rightarrow> string res) \<Rightarrow> (panel_db, nat) act" where
  "refresh_stable_image_locks hub d =
     (let live = map sk_id (filter (\<lambda>k. sk_status k \<in> set active_statuses) (db_stacks d));
          rows = filter (\<lambda>w. w_stack w \<in> set live \<and> w_build_repo w = None) (db_services d)
      in case refresh_rows hub rows d of Inl e \<Rightarrow> (Inl e, d) | Inr (n, d') \<Rightarrow> (Inr n, d'))"

end
