(* ===== verification/StackRoutes.thy ===== *)
theory StackRoutes
  imports Loading Images Sessions Cycle
begin

text \<open>
  The HTTP routes of stacks, \<open>backend/app/api/routes/stacks.py\<close>.  A handler maps the panel's state, the
  record \<open>panel\<close>, to a result and a state; an exception before the commit rolls everything back.
  What a request draws from outside (clock, settings, blueprints, the generated secrets) is the record
  \<open>site_env\<close>.  The ids of new rows are one more than the largest, as SQLite gives them.  The session
  writes new rows before it deletes old ones, so a new endpoint collides with the row it replaces.
  The router asks for a signed-in user before every handler, also before those for pushes and for the
  log stream, which themselves check a secret and a token; the handlers here start after that.
\<close>

subsection \<open>State\<close>

record git_source =
  gs_id :: int
  gs_owner :: int
  gs_webhook_secret :: string \<comment> \<open>encrypted\<close>

record task_row =
  tk_id :: int
  tk_stack :: int
  tk_name :: string
  tk_command :: string
  tk_cron :: string

record deployment_row =
  dp_id :: int
  dp_stack :: int
  dp_commit :: string
  dp_status :: string
  dp_message :: "string option"

record panel =
  pn_db :: panel_db
  pn_operations :: "(int \<times> operation) list"
  pn_queue :: queue
  pn_resyncs :: nat \<comment> \<open>tasks that run \<open>resync_ingress\<close>\<close>
  pn_sites :: "string list" \<comment> \<open>domains\<close>
  pn_apps :: "string list"
  pn_sources :: "git_source list"
  pn_tags :: "(int \<times> string) list"
  pn_stack_tags :: "(int \<times> int) list"
  pn_tasks :: "task_row list"
  pn_deployments :: "deployment_row list"

type_synonym inputs = "(string \<times> json) list"

record allocation =
  al_tenant :: string
  al_loopback_ip :: string
  al_secrets :: "(string \<times> string) list"
  al_shared_variables :: "(string \<times> string) list"

text \<open>A blueprint: \<open>bp_parse\<close> is the validation of its inputs, the other two what the base class says.\<close>

record blueprint =
  bp_id :: string
  bp_version :: int
  bp_parse :: "inputs \<Rightarrow> inputs option"
  bp_secrets :: "inputs \<Rightarrow> string list"
  bp_render :: "string \<Rightarrow> inputs \<Rightarrow> allocation \<Rightarrow> stack_spec res"

record site_env =
  se_vault :: vault
  se_lib :: auth_lib
  se_auth :: auth_db
  se_now :: int
  se_secret_key :: string
  se_base_url :: string
  se_base_domain :: "string option"
  se_public_ip :: "string option"
  se_blueprint :: "string \<Rightarrow> blueprint option"
  se_generated :: "string \<Rightarrow> string"
  se_shared_variables :: "(string \<times> string) list" \<comment> \<open>the rows of the table\<close>
  se_hub :: "string \<Rightarrow> string \<Rightarrow> string res"

definition invalid_stack :: exn where "invalid_stack = AppError 422 ''invalid_stack''"

definition transact :: "('w \<Rightarrow> ('a \<times> 'w) res) \<Rightarrow> ('w, 'a) act" where
  "transact body w = (case body w of Inl e \<Rightarrow> (Inl e, w) | Inr (x, w') \<Rightarrow> (Inr x, w'))"

definition fetch_owned_stack :: "user_row \<Rightarrow> int \<Rightarrow> panel_db \<Rightarrow> stack_row res" where
  "fetch_owned_stack u i d =
     (case find (\<lambda>k. sk_id k = i) (db_stacks d) of
        None \<Rightarrow> Inl not_found
      | Some k \<Rightarrow> if \<not> is_admin u \<and> sk_owner k \<noteq> Some (us_id u) then Inl not_found else Inr k)"

text \<open>The route of every change of a stack: not while it is being deleted.\<close>

definition open_stack :: "user_row \<Rightarrow> int \<Rightarrow> panel_db \<Rightarrow> stack_row res" where
  "open_stack u i d =
     bind_res (fetch_owned_stack u i d) (\<lambda>k.
     bind_res (guard (sk_status k \<noteq> ''deleting'') conflict) (\<lambda>_. Inr k))"

definition decrypt_inputs :: "vault \<Rightarrow> stack_row \<Rightarrow> inputs res" where
  "decrypt_inputs v k = (if truthy (sk_inputs k) then open_inputs v (the (sk_inputs k)) else Inr [])"

subsection \<open>Answers\<close>

record service_view =
  sw_name :: string
  sw_image :: string
  sw_image_digest :: "string option"
  sw_build_repo :: "string option"
  sw_build_branch :: "string option"
  sw_internal_port :: "int option"
  sw_memory_mb :: "int option"
  sw_cpu_percent :: "int option"
  sw_is_web :: bool
  sw_publicly_exposed :: bool
  sw_post_start_command :: "string option"
  sw_hc_enabled :: bool
  sw_hc_path :: "string option"
  sw_hc_port :: "int option"
  sw_hc_interval :: int
  sw_hc_retries :: int
  sw_hc_start_period :: int
  sw_hc_timeout :: int
  sw_zero_downtime_deploy :: bool

definition view_service :: "service_row \<Rightarrow> service_view" where
  "view_service w =
     \<lparr>sw_name = w_name w, sw_image = w_image w, sw_image_digest = w_digest w, sw_build_repo = w_build_repo w,
      sw_build_branch = w_build_branch w, sw_internal_port = w_internal_port w, sw_memory_mb = w_memory_mb w,
      sw_cpu_percent = w_cpu_percent w, sw_is_web = w_is_web w, sw_publicly_exposed = w_exposed w,
      sw_post_start_command = w_post_start w, sw_hc_enabled = w_hc_enabled w, sw_hc_path = w_hc_path w,
      sw_hc_port = w_hc_port w, sw_hc_interval = w_hc_interval w, sw_hc_retries = w_hc_retries w,
      sw_hc_start_period = w_hc_start_period w, sw_hc_timeout = w_hc_timeout w,
      sw_zero_downtime_deploy = w_zero_downtime w\<rparr>"

record stack_view =
  sv_id :: int
  sv_name :: string
  sv_blueprint :: string
  sv_blueprint_version :: int
  sv_status :: string
  sv_error :: "string option"
  sv_generation :: int
  sv_observed :: int
  sv_services :: "service_view list"
  sv_volumes :: "volume_row list"
  sv_endpoints :: "endpoint_row list"
  sv_inputs :: inputs
  sv_server :: "int option"

definition view_inputs :: "vault \<Rightarrow> stack_row \<Rightarrow> inputs res" where
  "view_inputs v k =
     (case decrypt_inputs v k of Inl e \<Rightarrow> if e = SecretDecryptionError then Inr [] else Inl e | Inr x \<Rightarrow> Inr x)"

definition view_stack :: "panel_db \<Rightarrow> stack_row \<Rightarrow> inputs \<Rightarrow> stack_view" where
  "view_stack d k x =
     \<lparr>sv_id = sk_id k, sv_name = sk_name k, sv_blueprint = sk_blueprint k, sv_blueprint_version = sk_blueprint_version k,
      sv_status = sk_status k, sv_error = sk_error k, sv_generation = sk_generation k, sv_observed = sk_observed k,
      sv_services = map view_service (stack_services d (sk_id k)), sv_volumes = stack_volumes d (sk_id k),
      sv_endpoints = stack_endpoints d (sk_id k), sv_inputs = x, sv_server = sk_server k\<rparr>"

definition watch_paths :: "stack_row \<Rightarrow> string list" where
  "watch_paths k = (case sk_watch_paths k of None \<Rightarrow> [] | Some ps \<Rightarrow> ps)"

definition stack_response :: "vault \<Rightarrow> panel_db \<Rightarrow> stack_row \<Rightarrow> stack_view res" where
  "stack_response v d k =
     bind_res (view_inputs v k) (\<lambda>x.
       Inr (view_stack d k (AList.update ''watch_paths'' (JList (map JStr (watch_paths k))) x)))"

record accepted =
  ac_stack :: stack_view
  ac_operation :: int
  ac_show_once :: "(string \<times> string) list"
  ac_warnings :: "string list"

text \<open>The answer is put together after the commit; if that raises, the change stays.\<close>

definition respond :: "site_env \<Rightarrow> int \<Rightarrow> (string \<times> string) list \<Rightarrow> string list \<Rightarrow> int \<Rightarrow> (panel, accepted) act" where
  "respond en i once warnings oid w =
     (case find (\<lambda>k. sk_id k = i) (db_stacks (pn_db w)) of
        None \<Rightarrow> (Inl not_found, w)
      | Some k \<Rightarrow> (bind_res (stack_response (se_vault en) (pn_db w) k) (\<lambda>view.
            Inr \<lparr>ac_stack = view, ac_operation = oid, ac_show_once = once, ac_warnings = warnings\<rparr>), w))"

subsection \<open>Reading\<close>

definition stack_get :: "site_env \<Rightarrow> user_row \<Rightarrow> int \<Rightarrow> panel \<Rightarrow> stack_view res" where
  "stack_get en u i w =
     bind_res (fetch_owned_stack u i (pn_db w)) (stack_response (se_vault en) (pn_db w))"

text \<open>The list does not show the watch paths.\<close>

definition list_stacks :: "site_env \<Rightarrow> user_row \<Rightarrow> nat \<Rightarrow> nat \<Rightarrow> panel \<Rightarrow> stack_view list res" where
  "list_stacks en u limit offset w =
     (let mine = filter (\<lambda>k. is_admin u \<or> sk_owner k = Some (us_id u)) (db_stacks (pn_db w));
          page = take limit (drop offset (sort_key sk_name mine))
      in bind_res (guard (1 \<le> limit \<and> limit \<le> 500) invalid_request) (\<lambda>_.
         map_res (\<lambda>k. bind_res (view_inputs (se_vault en) k) (\<lambda>x. Inr (view_stack (pn_db w) k x))) page))"

definition get_suggested_domain :: "site_env \<Rightarrow> string \<Rightarrow> string res" where
  "get_suggested_domain en name =
     bind_res (guard (1 \<le> length name \<and> length name \<le> 32) invalid_request) (\<lambda>_.
     case validate_slug name of Inl e \<Rightarrow> Inl (if e = SpecValidationError then invalid_stack else e)
     | Inr slug \<Rightarrow> (case suggested_domain (se_base_domain en) (se_public_ip en) slug of
         None \<Rightarrow> Inl conflict | Some d \<Rightarrow> Inr d))"

subsection \<open>Starting an operation\<close>

definition fresh_operation :: "string \<Rightarrow> string \<Rightarrow> int \<Rightarrow> int \<Rightarrow> operation" where
  "fresh_operation kind status now i =
     \<lparr>op_kind = kind, op_status = status, op_steps = [], op_log = [], op_error = None, op_created = now,
      op_finished = None, op_stack = Some i, op_site = None\<rparr>"

definition add_operation :: "operation \<Rightarrow> panel \<Rightarrow> int \<times> panel" where
  "add_operation op w =
     (let oid = fresh_id (map fst (pn_operations w)) in (oid, w\<lparr>pn_operations := pn_operations w @ [(oid, op)]\<rparr>))"

definition bump :: "int \<Rightarrow> panel_db \<Rightarrow> panel_db" where
  "bump i d = update_stack d i (\<lambda>k. k\<lparr>sk_generation := sk_generation k + 1\<rparr>)"

text \<open>What the routes have in common: the generation is bumped, an operation is added to the same
  transaction, and after the commit the reconciler gets the stack.\<close>

definition queue_operation :: "string \<Rightarrow> int \<Rightarrow> stack_row \<Rightarrow> panel \<Rightarrow> int \<times> panel" where
  "queue_operation kind now k w =
     (let (oid, w1) = add_operation (fresh_operation kind ''pending'' now (sk_id k)) (w\<lparr>pn_db := bump (sk_id k) (pn_db w)\<rparr>)
      in (oid, w1\<lparr>pn_queue := enqueue (sk_name k) (Some oid) (pn_queue w1)\<rparr>))"

subsection \<open>Domains\<close>

definition refuse_domain_conflicts :: "panel \<Rightarrow> string list \<Rightarrow> int option \<Rightarrow> unit res" where
  "refuse_domain_conflicts w domains except =
     bind_res (guard (\<not> list_ex (\<lambda>e. er_domain e \<in> set domains \<and> except \<noteq> Some (er_stack e)) (db_endpoints (pn_db w))) conflict) (\<lambda>_.
     bind_res (guard (\<not> list_ex (\<lambda>x. x \<in> set domains) (pn_sites w)) conflict) (\<lambda>_.
     guard (\<not> list_ex (\<lambda>x. x \<in> set domains) (pn_apps w)) conflict))"

text \<open>The flush of a session that deletes and adds endpoints: inserts come first, and the column
  \<open>domain\<close> is unique.\<close>

definition flush_endpoints :: "endpoint_row list \<Rightarrow> endpoint_row list \<Rightarrow> panel_db \<Rightarrow> panel_db res" where
  "flush_endpoints gone new d =
     (if distinct (map er_domain new) \<and> list_all (\<lambda>e. er_domain e \<notin> er_domain ` set (db_endpoints d)) new
      then Inr (d\<lparr>db_endpoints := filter (\<lambda>e. e \<notin> set gone) (db_endpoints d) @ new\<rparr>)
      else Inl IntegrityError)"

definition target_service :: "service_row list \<Rightarrow> string option \<Rightarrow> service_row res" where
  "target_service ports name =
     (if ports = [] then Inl invalid_stack
      else if truthy name
      then (case find (\<lambda>w. Some (w_name w) = name) ports of None \<Rightarrow> Inl invalid_stack | Some w \<Rightarrow> Inr w)
      else Inr (case find w_is_web ports of None \<Rightarrow> hd ports | Some w \<Rightarrow> w))"

definition choose_domain :: "site_env \<Rightarrow> stack_row \<Rightarrow> service_row list \<Rightarrow> service_row \<Rightarrow> string option \<Rightarrow> string res" where
  "choose_domain en k ports web requested =
     (let slug = (if w_is_web web \<or> length ports = 1 then sk_name k else sk_name k @ ''-'' @ w_name web);
          raw = lower (strip (or_empty requested));
          domain = (if raw \<noteq> [] then Some raw else suggested_domain (se_base_domain en) (se_public_ip en) slug)
      in bind_res (guard (truthy domain) conflict) (\<lambda>_.
         case validate_domain_name (the domain) of
           Inl e \<Rightarrow> Inl (if e = SpecValidationError then invalid_stack else e) | Inr _ \<Rightarrow> Inr (the domain)))"

definition set_domain_body :: "site_env \<Rightarrow> user_row \<Rightarrow> int \<Rightarrow> string option \<Rightarrow> bool \<Rightarrow> string option \<Rightarrow> panel \<Rightarrow> (int \<times> panel) res" where
  "set_domain_body en u i requested cloudflare name w =
     (let d = pn_db w; v = se_vault en;
          ports = filter (\<lambda>s. w_internal_port s \<noteq> None) (stack_services d i);
          ends = stack_endpoints d i
      in bind_res (guard (length (or_empty requested) \<le> 253) invalid_request) (\<lambda>_.
         bind_res (open_stack u i d) (\<lambda>k.
         bind_res (target_service ports name) (\<lambda>web.
         bind_res (choose_domain en k ports web requested) (\<lambda>domain.
         bind_res (refuse_domain_conflicts w [domain] (Some i)) (\<lambda>_.
         let gone = filter (\<lambda>e. er_service e = w_name web) ends;
             old = map_option er_domain (find (\<lambda>e. er_service e = w_name web) ends)
         in bind_res (decrypt_inputs v k) (\<lambda>inputs.
         let (inputs', changed) = update_env_for_domain inputs domain old (length ports = 1);
             d1 = (if changed then update_stack d i (\<lambda>k. k\<lparr>sk_inputs := Some (seal_inputs v inputs')\<rparr>) else d)
         in bind_res (flush_endpoints gone
              [\<lparr>er_stack = i, er_domain = domain, er_service = w_name web, er_behind_cloudflare = cloudflare\<rparr>] d1) (\<lambda>d2.
         Inr (queue_operation ''converge_stack'' (se_now en) k (w\<lparr>pn_db := d2\<rparr>))))))))))"

definition resync :: "panel \<Rightarrow> panel" where
  "resync w = w\<lparr>pn_resyncs := pn_resyncs w + 1\<rparr>"

definition set_stack_domain :: "site_env \<Rightarrow> user_row \<Rightarrow> int \<Rightarrow> string option \<Rightarrow> bool \<Rightarrow> string option \<Rightarrow> (panel, accepted) act" where
  "set_stack_domain en u i requested cloudflare name =
     bind_act (transact (\<lambda>w. bind_res (set_domain_body en u i requested cloudflare name w) (\<lambda>(oid, w'). Inr (oid, resync w'))))
       (respond en i [] [])"

subsection \<open>Environment\<close>

text \<open>The stored environment, whose values are strings.\<close>

definition env_strings :: "inputs \<Rightarrow> (string, string) fmap" where
  "env_strings env = dict_of (concat (map (\<lambda>(k, x). case x of JStr s \<Rightarrow> [(k, s)] | _ \<Rightarrow> []) env))"

definition port_warning :: "int \<Rightarrow> service_row \<Rightarrow> int \<Rightarrow> string" where
  "port_warning port w p =
     ''PORT='' @ int_str port @ '' in env vars does not match service '' @ [CHR 0x22] @ w_name w @ [CHR 0x22]
     @ '' internal_port='' @ int_str p @ '' '' @ em_dash @ '' this may cause 502 Bad Gateway errors''"

definition port_warnings :: "(string, string) fmap \<Rightarrow> service_row list \<Rightarrow> string list res" where
  "port_warnings env ws =
     (let raw = strip (fmget env ''PORT'' [])
      in if isdigit raw
         then bind_res (py_int raw) (\<lambda>port. Inr (concat (map (\<lambda>w. case w_internal_port w of
                Some p \<Rightarrow> if p \<noteq> port then [port_warning port w p] else [] | None \<Rightarrow> []) ws)))
         else Inr [])"

definition set_env_body :: "site_env \<Rightarrow> user_row \<Rightarrow> int \<Rightarrow> (string \<times> string) list \<Rightarrow> panel
    \<Rightarrow> ((int \<times> string list) \<times> panel) res" where
  "set_env_body en u i env w =
     (let d = pn_db w; v = se_vault en
      in bind_res (open_stack u i d) (\<lambda>k.
         bind_res (decrypt_inputs v k) (\<lambda>inputs.
         let old = env_strings (env_of_inputs inputs);
             inputs' = AList.update ''env'' (JObj (map (\<lambda>(k, x). (k, JStr x)) env)) inputs;
             d1 = update_stack d i (\<lambda>k. k\<lparr>sk_inputs := Some (seal_inputs v inputs')\<rparr>);
             (gone, new) = sync_endpoints_from_env_change old (dict_of env) (stack_services d i) (stack_endpoints d i) i False
         in bind_res (port_warnings (dict_of env) (stack_services d i)) (\<lambda>warnings.
         bind_res (flush_endpoints gone new d1) (\<lambda>d2.
         let (oid, w') = queue_operation ''converge_stack'' (se_now en) k (w\<lparr>pn_db := d2\<rparr>)
         in Inr ((oid, warnings), if gone \<noteq> [] \<or> new \<noteq> [] then resync w' else w'))))))"

definition set_stack_env :: "site_env \<Rightarrow> user_row \<Rightarrow> int \<Rightarrow> (string \<times> string) list \<Rightarrow> (panel, accepted) act" where
  "set_stack_env en u i env =
     bind_act (transact (set_env_body en u i env)) (\<lambda>(oid, warnings). respond en i [] warnings oid)"

subsection \<open>Creating and deleting\<close>

definition stack_count :: "int \<Rightarrow> panel_db \<Rightarrow> nat" where
  "stack_count owner d = length (filter (\<lambda>k. sk_owner k = Some owner) (db_stacks d))"

definition within_quota :: "site_env \<Rightarrow> user_row \<Rightarrow> panel_db \<Rightarrow> bool" where
  "within_quota en u d \<longleftrightarrow>
     (is_admin u \<or> (case l_stacks (effective_limits (se_auth en) u) of
        None \<Rightarrow> True | Some m \<Rightarrow> int (stack_count (us_id u) d) < m))"

definition new_stack :: "int \<Rightarrow> user_row \<Rightarrow> int option \<Rightarrow> string \<Rightarrow> blueprint \<Rightarrow> string \<Rightarrow> stack_row" where
  "new_stack i u server name bp sealed =
     \<lparr>sk_id = i, sk_owner = Some (us_id u), sk_server = server, sk_name = name, sk_blueprint = bp_id bp,
      sk_blueprint_version = bp_version bp, sk_inputs = Some sealed, sk_status = ''converging'', sk_error = None,
      sk_generation = 1, sk_observed = 0, sk_watch_paths = None\<rparr>"

definition allocate :: "site_env \<Rightarrow> blueprint \<Rightarrow> inputs \<Rightarrow> stack_row \<Rightarrow> allocation res" where
  "allocate en bp inputs k =
     bind_res (tenant_for (sk_owner k)) (\<lambda>tenant.
     bind_res (stack_loopback_ip (sk_id k)) (\<lambda>ip.
     Inr \<lparr>al_tenant = tenant, al_loopback_ip = ip,
          al_secrets = map (\<lambda>n. (n, se_generated en n)) (bp_secrets bp inputs),
          al_shared_variables = se_shared_variables en\<rparr>))"

definition render_stack :: "site_env \<Rightarrow> blueprint \<Rightarrow> string \<Rightarrow> inputs \<Rightarrow> allocation \<Rightarrow> stack_spec res" where
  "render_stack en bp name inputs alloc =
     (case bind_res (bp_render bp name inputs alloc) (with_auto_domain (se_base_domain en) (se_public_ip en)) of
        Inl e \<Rightarrow> Inl (if e = SpecValidationError then invalid_stack else e) | Inr spec \<Rightarrow> Inr spec)"

text \<open>The commit: the domains of the new rows must be new and distinct, or the answer is a conflict.\<close>

definition create_body :: "site_env \<Rightarrow> user_row \<Rightarrow> string \<Rightarrow> string \<Rightarrow> inputs \<Rightarrow> int option \<Rightarrow> panel
    \<Rightarrow> ((int \<times> int \<times> (string \<times> string) list) \<times> panel) res" where
  "create_body en u name0 blueprint_id raw server w =
     (let d = pn_db w; v = se_vault en
      in bind_res (guard (1 \<le> length name0 \<and> length name0 \<le> 32 \<and> 1 \<le> length blueprint_id \<and> length blueprint_id \<le> 32)
           invalid_request) (\<lambda>_.
         case se_blueprint en blueprint_id of None \<Rightarrow> Inl invalid_stack | Some bp \<Rightarrow>
         (case validate_slug name0 of Inl e \<Rightarrow> Inl (if e = SpecValidationError then invalid_stack else e) | Inr name \<Rightarrow>
         (case bp_parse bp raw of None \<Rightarrow> Inl invalid_stack | Some inputs \<Rightarrow>
         bind_res (guard (within_quota en u d) conflict) (\<lambda>_.
         bind_res (guard (name \<notin> sk_name ` set (db_stacks d)) conflict) (\<lambda>_.
         let i = fresh_id (map sk_id (db_stacks d)); k = new_stack i u server name bp (seal_inputs v raw)
         in bind_res (allocate en bp inputs k) (\<lambda>alloc.
         bind_res (render_stack en bp name inputs alloc) (\<lambda>spec.
         bind_res (refuse_domain_conflicts w (map e_domain (st_endpoints spec)) None) (\<lambda>_.
         bind_res (resolve_stack_image_locks (se_hub en) spec) (\<lambda>locks.
         bind_res (guard (distinct (map e_domain (st_endpoints spec))) conflict) (\<lambda>_.
         let d1 = persist_rendered v i locks spec (d\<lparr>db_stacks := db_stacks d @ [k]\<rparr>);
             (oid, w1) = add_operation (fresh_operation ''create_stack'' ''pending'' (se_now en) i) (w\<lparr>pn_db := d1\<rparr>)
         in Inr ((i, oid, al_secrets alloc), w1\<lparr>pn_queue := enqueue name (Some oid) (pn_queue w1)\<rparr>))))))))))))"

definition create_stack :: "site_env \<Rightarrow> user_row \<Rightarrow> string \<Rightarrow> string \<Rightarrow> inputs \<Rightarrow> int option \<Rightarrow> (panel, accepted) act" where
  "create_stack en u name blueprint_id raw server =
     bind_act (transact (create_body en u name blueprint_id raw server)) (\<lambda>(i, oid, secrets). respond en i secrets [] oid)"

text \<open>The answer to a deletion is put together before the commit.\<close>

definition delete_stack :: "site_env \<Rightarrow> user_row \<Rightarrow> int \<Rightarrow> string \<Rightarrow> (panel, accepted) act" where
  "delete_stack en u i confirm = transact (\<lambda>w.
     bind_res (fetch_owned_stack u i (pn_db w)) (\<lambda>k.
     bind_res (guard (lower (strip confirm) = sk_name k) conflict) (\<lambda>_.
     let (oid, w1) = queue_operation ''delete_stack'' (se_now en) k
           (w\<lparr>pn_db := update_stack (pn_db w) i (\<lambda>k. k\<lparr>sk_status := ''deleting''\<rparr>)\<rparr>)
     in (case respond en i [] [] oid w1 of (Inl e, _) \<Rightarrow> Inl e | (Inr a, w2) \<Rightarrow> Inr (a, w2)))))"

subsection \<open>One service\<close>

definition update_service :: "int \<Rightarrow> string \<Rightarrow> (service_row \<Rightarrow> service_row) \<Rightarrow> panel_db \<Rightarrow> panel_db" where
  "update_service i name f d =
     d\<lparr>db_services := map (\<lambda>s. if w_stack s = i \<and> w_name s = name then f s else s) (db_services d)\<rparr>"

text \<open>The part the routes of one service share; \<open>valid\<close> is what they require of the service.\<close>

definition change_service :: "site_env \<Rightarrow> user_row \<Rightarrow> int \<Rightarrow> string \<Rightarrow> (service_row \<Rightarrow> bool) \<Rightarrow> (service_row \<Rightarrow> service_row)
    \<Rightarrow> (panel, accepted) act" where
  "change_service en u i name valid f =
     bind_act (transact (\<lambda>w.
       bind_res (open_stack u i (pn_db w)) (\<lambda>k.
       case find (\<lambda>s. w_name s = name) (stack_services (pn_db w) i) of
         None \<Rightarrow> Inl not_found
       | Some s \<Rightarrow> bind_res (guard (valid s) invalid_stack) (\<lambda>_.
           Inr (queue_operation ''converge_stack'' (se_now en) k (w\<lparr>pn_db := update_service i name f (pn_db w)\<rparr>))))))
       (respond en i [] [])"

definition published :: "service_row \<Rightarrow> bool" where
  "published s \<longleftrightarrow> w_internal_port s \<noteq> None"

definition set_service_exposure :: "site_env \<Rightarrow> user_row \<Rightarrow> int \<Rightarrow> string \<Rightarrow> bool \<Rightarrow> (panel, accepted) act" where
  "set_service_exposure en u i name exposed = change_service en u i name published (\<lambda>s. s\<lparr>w_exposed := exposed\<rparr>)"

definition stripped :: "string \<Rightarrow> string option" where
  "stripped s = (if strip s = [] then None else Some (strip s))"

definition set_post_start_command :: "site_env \<Rightarrow> user_row \<Rightarrow> int \<Rightarrow> string \<Rightarrow> string \<Rightarrow> (panel, accepted) act" where
  "set_post_start_command en u i name command w =
     (if 1024 < length command then (Inl invalid_request, w)
      else change_service en u i name (\<lambda>_. True) (\<lambda>s. s\<lparr>w_post_start := stripped command\<rparr>) w)"

record health_check =
  hk_enabled :: bool
  hk_path :: string
  hk_port :: "int option"
  hk_interval :: int
  hk_retries :: int
  hk_start_period :: int
  hk_timeout :: int

definition health_check_ok :: "health_check \<Rightarrow> bool" where
  "health_check_ok h \<longleftrightarrow> length (hk_path h) \<le> 255
     \<and> (case hk_port h of None \<Rightarrow> True | Some p \<Rightarrow> 1 \<le> p \<and> p \<le> 65535)
     \<and> 1 \<le> hk_interval h \<and> hk_interval h \<le> 300 \<and> 1 \<le> hk_retries h \<and> hk_retries h \<le> 20
     \<and> 0 \<le> hk_start_period h \<and> hk_start_period h \<le> 300 \<and> 1 \<le> hk_timeout h \<and> hk_timeout h \<le> 60"

definition set_health_check :: "site_env \<Rightarrow> user_row \<Rightarrow> int \<Rightarrow> string \<Rightarrow> health_check \<Rightarrow> (panel, accepted) act" where
  "set_health_check en u i name h w =
     (if \<not> health_check_ok h then (Inl invalid_request, w)
      else change_service en u i name published (\<lambda>s. s
        \<lparr>w_hc_enabled := hk_enabled h,
         w_hc_path := Some (if strip (hk_path h) = [] then ''/health'' else strip (hk_path h)),
         w_hc_port := hk_port h, w_hc_interval := hk_interval h, w_hc_retries := hk_retries h,
         w_hc_start_period := hk_start_period h, w_hc_timeout := hk_timeout h\<rparr>) w)"

definition set_zero_downtime :: "site_env \<Rightarrow> user_row \<Rightarrow> int \<Rightarrow> string \<Rightarrow> bool \<Rightarrow> (panel, accepted) act" where
  "set_zero_downtime en u i name enabled =
     change_service en u i name (\<lambda>s. \<not> enabled \<or> published s) (\<lambda>s. s\<lparr>w_zero_downtime := enabled\<rparr>)"

definition set_watch_paths :: "user_row \<Rightarrow> int \<Rightarrow> string list \<Rightarrow> (panel, string list) act" where
  "set_watch_paths u i paths = transact (\<lambda>w.
     bind_res (guard (length paths \<le> 50) invalid_request) (\<lambda>_.
     bind_res (fetch_owned_stack u i (pn_db w)) (\<lambda>k.
     bind_res (guard (sk_blueprint k = ''git'') conflict) (\<lambda>_.
     Inr (paths, w\<lparr>pn_db := update_stack (pn_db w) i (\<lambda>k. k\<lparr>sk_watch_paths := Some paths\<rparr>)\<rparr>)))))"

subsection \<open>Webhooks\<close>

text \<open>\<open>fnmatch.fnmatch\<close>.  In a bracket a hyphen between two characters is a range; a bracket that is
  not closed stands for itself.\<close>

fun in_set :: "string \<Rightarrow> char \<Rightarrow> bool" where
  "in_set (a # h # b # rest) c =
     (if h = CHR ''-'' then (a \<le> c \<and> c \<le> b) \<or> in_set rest c else c = a \<or> in_set (h # b # rest) c)"
| "in_set xs c = (c \<in> set xs)"

text \<open>The text between the brackets: a leading \<open>!\<close> negates, a \<open>]\<close> right after the start belongs to the set.\<close>

definition bracket :: "string \<Rightarrow> (bool \<times> string \<times> string) option" where
  "bracket p =
     (let neg = startswith p ''!''; q = (if neg then tl p else p);
          (first, rest) = (if startswith q '']'' then ([CHR '']''], tl q) else ([], q));
          (body, found, after) = partition_char CHR '']'' rest
      in if found then Some (neg, first @ body, after) else None)"

fun glob :: "string \<Rightarrow> string \<Rightarrow> bool" where
  "glob [] s = (s = [])"
| "glob (p # ps) s =
     (if p = CHR ''*'' then glob ps s \<or> (case s of [] \<Rightarrow> False | _ # t \<Rightarrow> glob (p # ps) t)
      else case s of [] \<Rightarrow> False
      | c # t \<Rightarrow>
          if p = CHR ''?'' then glob ps t
          else if p = CHR ''['' then
            (case bracket ps of
               None \<Rightarrow> c = p \<and> glob ps t
             | Some (neg, stuff, rest) \<Rightarrow> in_set stuff c \<noteq> neg \<and> glob rest t)
          else c = p \<and> glob ps t)"

definition json_items :: "json \<Rightarrow> json list res" where
  "json_items j =
     (case j of JList xs \<Rightarrow> Inr xs | JObj kvs \<Rightarrow> Inr (map (JStr \<circ> fst) kvs) | JStr s \<Rightarrow> Inr (map (\<lambda>c. JStr [c]) s)
      | _ \<Rightarrow> Inl TypeError)"

definition json_get_list :: "string \<Rightarrow> json \<Rightarrow> json list res" where
  "json_get_list key j =
     (case j of
        JObj kvs \<Rightarrow> (case map_of kvs key of None \<Rightarrow> Inr [] | Some x \<Rightarrow> json_items x)
      | _ \<Rightarrow> Inl AttributeError)"

text \<open>The file names of a commit; a name that is no string makes the comparison fail.\<close>

definition file_names :: "json list \<Rightarrow> string list res" where
  "file_names xs = map_res (\<lambda>x. case x of JStr s \<Rightarrow> Inr s | _ \<Rightarrow> Inl TypeError) xs"

definition commit_files :: "json \<Rightarrow> string list res" where
  "commit_files c =
     bind_res (json_get_list ''added'' c) (\<lambda>a.
     bind_res (json_get_list ''modified'' c) (\<lambda>m.
     bind_res (json_get_list ''removed'' c) (\<lambda>r. file_names (a @ m @ r))))"

definition changed_files :: "json \<Rightarrow> string list res" where
  "changed_files payload =
     bind_res (json_get_list ''commits'' payload) (\<lambda>cs.
     bind_res (map_res commit_files cs) (\<lambda>fs. Inr (concat fs)))"

text \<open>The headers and the body; \<open>rq_json\<close> is the body decoded, \<open>None\<close> when that raises.\<close>

record webhook_request =
  rq_token :: string
  rq_signature :: "string option"
  rq_body :: string
  rq_json :: "json option"

datatype webhook_answer = Skipped | Accepted int

definition json_truthy :: "json option \<Rightarrow> bool" where
  "json_truthy x = (case x of None \<Rightarrow> False | Some j \<Rightarrow> j \<notin> {JNull, JBool False, JInt 0, JStr [], JList [], JObj []})"

definition source_of :: "json \<Rightarrow> panel \<Rightarrow> git_source option" where
  "source_of j w = (case int_of_json j of Inl _ \<Rightarrow> None | Inr i \<Rightarrow> find (\<lambda>g. gs_id g = i) (pn_sources w))"

definition check_token :: "inputs \<Rightarrow> webhook_request \<Rightarrow> unit res" where
  "check_token inputs rq =
     (let secret = map_of inputs ''webhook_secret''
      in if \<not> json_truthy secret then Inl not_found
         else (case secret of
             Some (JStr s) \<Rightarrow> bind_res (compare_digest (rq_token rq) s) (\<lambda>same. guard same not_found)
           | _ \<Rightarrow> Inl TypeError))"

definition check_signature :: "site_env \<Rightarrow> git_source \<Rightarrow> webhook_request \<Rightarrow> unit res" where
  "check_signature en g rq =
     bind_res (open_text (se_lib en) (gs_webhook_secret g)) (\<lambda>secret.
     bind_res (guard (truthy (rq_signature rq)) conflict) (\<lambda>_.
     bind_res (compare_digest (''sha256='' @ hmac_sha256_hex (encode secret) (rq_body rq)) (the (rq_signature rq)))
       (\<lambda>same. guard same conflict)))"

text \<open>The result is the body as the filter sees it: the variable is only set when a signature was checked.\<close>

definition authenticate_webhook :: "site_env \<Rightarrow> inputs \<Rightarrow> webhook_request \<Rightarrow> panel \<Rightarrow> json res" where
  "authenticate_webhook en inputs rq w =
     (if \<not> json_truthy (map_of inputs ''source_id'') then bind_res (check_token inputs rq) (\<lambda>_. Inr (JObj []))
      else (case source_of (the (map_of inputs ''source_id'')) w of
          None \<Rightarrow> Inr (JObj [])
        | Some g \<Rightarrow> bind_res (check_signature en g rq) (\<lambda>_.
            Inr (case rq_json rq of None \<Rightarrow> JObj [] | Some j \<Rightarrow> j))))"

definition stack_webhook :: "site_env \<Rightarrow> int \<Rightarrow> webhook_request \<Rightarrow> (panel, webhook_answer) act" where
  "stack_webhook en i rq = transact (\<lambda>w.
     case find (\<lambda>k. sk_id k = i) (db_stacks (pn_db w)) of None \<Rightarrow> Inl not_found | Some k \<Rightarrow>
     bind_res (guard (sk_status k \<noteq> ''deleting'') not_found) (\<lambda>_.
     bind_res (guard (sk_blueprint k = ''git'') conflict) (\<lambda>_.
     bind_res (decrypt_inputs (se_vault en) k) (\<lambda>inputs.
     bind_res (authenticate_webhook en inputs rq w) (\<lambda>payload.
     bind_res (if watch_paths k = [] then Inr True
               else bind_res (changed_files payload) (\<lambda>fs. Inr (list_ex (\<lambda>f. list_ex (\<lambda>p. glob p f) (watch_paths k)) fs)))
       (\<lambda>wanted. if \<not> wanted then Inr (Skipped, w)
          else let (oid, w') = queue_operation ''webhook_rebuild'' (se_now en) k w in Inr (Accepted oid, w')))))))"

definition get_webhook_info :: "site_env \<Rightarrow> user_row \<Rightarrow> int \<Rightarrow> panel \<Rightarrow> (string \<times> string) res" where
  "get_webhook_info en u i w =
     bind_res (fetch_owned_stack u i (pn_db w)) (\<lambda>_.
       Inr (se_base_url en @ ''api/stacks/webhooks/'' @ int_str i,
            ''whsec_'' @ take 32 (hmac_sha256_hex (encode (se_secret_key en)) (encode (''webhook:'' @ int_str i)))))"

subsection \<open>Actions, logs, rollback to an image\<close>

record action_result =
  ar_ok :: bool
  ar_message :: string
  ar_data :: inputs
  ar_show_once :: "(string \<times> string) list"

text \<open>A handler gets the row, the inputs and the parameters of the request.\<close>

type_synonym action_handler = "stack_row \<Rightarrow> inputs \<Rightarrow> inputs \<Rightarrow> (panel_db, action_result) act"

text \<open>The handler of an action is a parameter, and \<open>shown\<close> is \<open>str\<close> of an exception.  An exception is
  turned into its text; what the handler did to the rows before is still in the session and committed
  with the outcome.\<close>

definition run_stack_action :: "site_env \<Rightarrow> (string \<Rightarrow> string \<Rightarrow> action_handler option)
    \<Rightarrow> (exn \<Rightarrow> string) \<Rightarrow> user_row \<Rightarrow> int \<Rightarrow> string \<Rightarrow> inputs \<Rightarrow> (panel, action_result) act" where
  "run_stack_action en handlers shown u i name params w =
     (case bind_res (open_stack u i (pn_db w)) (\<lambda>k.
           bind_res (guard (se_blueprint en (sk_blueprint k) \<noteq> None) invalid_stack) (\<lambda>_.
           case handlers (sk_blueprint k) name of None \<Rightarrow> Inl not_found | Some h \<Rightarrow> Inr (k, h))) of
        Inl e \<Rightarrow> (Inl e, w)
      | Inr (k, h) \<Rightarrow>
          (let kind = ''action:'' @ sk_blueprint k @ ''.'' @ name;
               (oid, w1) = add_operation (fresh_operation kind ''running'' (se_now en) i) w;
               (outcome, d) = (case decrypt_inputs (se_vault en) k of
                   Inl e \<Rightarrow> (Inl e, pn_db w1) | Inr inputs \<Rightarrow> h k inputs params (pn_db w1));
               r = (case outcome of Inl e \<Rightarrow> \<lparr>ar_ok = False, ar_message = take 500 (shown e), ar_data = [], ar_show_once = []\<rparr> | Inr r \<Rightarrow> r);
               closed = (\<lambda>op. op\<lparr>op_status := if ar_ok r then ''succeeded'' else ''failed'',
                  op_error := if ar_ok r then None
                     else Some (if ar_message r = [] then ''action failed'' else take 500 (ar_message r))\<rparr>);
               w2 = w1\<lparr>pn_db := d, pn_operations := map (\<lambda>(n, op). (n, if n = oid then closed op else op)) (pn_operations w1)\<rparr>
           in (Inr r, case find (\<lambda>k. sk_id k = i) (db_stacks d) of
                None \<Rightarrow> w2
              | Some k' \<Rightarrow> if ar_ok r \<and> sk_observed k' < sk_generation k'
                  then w2\<lparr>pn_queue := enqueue (sk_name k') None (pn_queue w2)\<rparr> else w2)))"

definition stack_logs :: "ledger \<Rightarrow> (string \<Rightarrow> string \<Rightarrow> int \<Rightarrow> int \<Rightarrow> string res) \<Rightarrow> user_row \<Rightarrow> int \<Rightarrow> string option \<Rightarrow> int
    \<Rightarrow> panel \<Rightarrow> (string \<times> string) res" where
  "stack_logs rows journal u i service tail w =
     bind_res (guard (1 \<le> tail \<and> tail \<le> 5000 \<and> length (or_empty service) \<le> 32) invalid_request) (\<lambda>_.
     bind_res (fetch_owned_stack u i (pn_db w)) (\<lambda>k.
     case sk_owner k of None \<Rightarrow> Inl conflict | Some owner \<Rightarrow>
     (let ws = stack_services (pn_db w) i
      in bind_res (guard (ws \<noteq> []) not_found) (\<lambda>_.
         case (case service of None \<Rightarrow> Some (case find w_is_web ws of None \<Rightarrow> hd ws | Some s \<Rightarrow> s)
               | Some n \<Rightarrow> find (\<lambda>s. w_name s = n) ws) of
           None \<Rightarrow> Inl not_found
         | Some s \<Rightarrow>
             (case get_tenant rows owner of None \<Rightarrow> Inl conflict | Some t \<Rightarrow>
             (case tn_uid t of None \<Rightarrow> Inl conflict | Some uid \<Rightarrow>
              bind_res (journal (tn_linux_user t) (service_unit_name (sk_name k) (w_name s)) uid tail) (\<lambda>logs.
              Inr (w_name s, logs))))))))"

definition stack_connections :: "site_env \<Rightarrow> (string \<Rightarrow> connection_meta option) \<Rightarrow> user_row \<Rightarrow> int \<Rightarrow> panel \<Rightarrow> connection_link list res" where
  "stack_connections en meta u i w =
     bind_res (fetch_owned_stack u i (pn_db w)) (\<lambda>k.
       connection_links (se_vault en) (meta (sk_blueprint k)) (se_public_ip en) k (stack_services (pn_db w) i))"

definition latest_image :: "stack_row \<Rightarrow> string \<Rightarrow> string" where
  "latest_image k service = ''hosty/'' @ sk_name k @ ''-'' @ service @ '':latest''"

text \<open>The exit status of \<open>podman tag\<close> is not looked at, and the operation is not queued.\<close>

definition rollback_to_image :: "site_env \<Rightarrow> 'h host_ctx \<Rightarrow> user_row \<Rightarrow> int \<Rightarrow> string \<Rightarrow> string \<Rightarrow> (panel \<times> 'h, accepted) act" where
  "rollback_to_image en host u i name ref = (\<lambda>(w, h).
     case bind_res (guard (length ref \<le> 512) invalid_request) (\<lambda>_.
          bind_res (open_stack u i (pn_db w)) (\<lambda>k.
          bind_res (guard (find (\<lambda>s. w_name s = name) (stack_services (pn_db w) i) \<noteq> None) not_found) (\<lambda>_.
          bind_res (tenant_for (sk_owner k)) (\<lambda>tenant. Inr (k, tenant))))) of
       Inl e \<Rightarrow> (Inl e, (w, h))
     | Inr (k, tenant) \<Rightarrow>
         (case bind_act (hc_run_as_tenant host tenant [''/usr/bin/podman'', ''tag'', ref, latest_image k name]) (\<lambda>_.
               hc_control_service host tenant ''restart'' (sk_name k @ ''-'' @ name @ ''.service'')) h of
            (Inl _, h') \<Rightarrow> (Inl conflict, (w, h'))
          | (Inr _, h') \<Rightarrow>
              (let (oid, w1) = add_operation (fresh_operation ''converge_stack'' ''pending'' (se_now en) i)
                     (w\<lparr>pn_db := bump i (pn_db w)\<rparr>);
                   (r, w2) = respond en i [] [] oid w1
               in (r, (w2, h')))))"

subsection \<open>Configuration, tags, tasks, deployments\<close>

record config_update =
  cu_repo :: "string option"
  cu_branch :: "string option"
  cu_auto_deploy :: "bool option"
  cu_force_rebuild :: "bool option"
  cu_source :: "int option"

definition put_some :: "string \<Rightarrow> json option \<Rightarrow> inputs \<Rightarrow> inputs" where
  "put_some key x inputs = (case x of None \<Rightarrow> inputs | Some j \<Rightarrow> AList.update key j inputs)"

definition update_stack_config :: "site_env \<Rightarrow> user_row \<Rightarrow> int \<Rightarrow> config_update \<Rightarrow> (panel, unit) act" where
  "update_stack_config en u i c = transact (\<lambda>w.
     bind_res (fetch_owned_stack u i (pn_db w)) (\<lambda>k.
     bind_res (decrypt_inputs (se_vault en) k) (\<lambda>inputs0.
     let inputs = put_some ''force_rebuild'' (map_option JBool (cu_force_rebuild c))
           (put_some ''auto_deploy'' (map_option JBool (cu_auto_deploy c))
           (put_some ''branch'' (map_option JStr (cu_branch c)) (put_some ''repo'' (map_option JStr (cu_repo c)) inputs0)))
     in bind_res (case cu_source c of
            None \<Rightarrow> Inr inputs
          | Some n \<Rightarrow> if n = 0 then Inr (AList.delete ''source_id'' inputs)
              else (case find (\<lambda>g. gs_id g = n) (pn_sources w) of
                  None \<Rightarrow> Inl not_found
                | Some g \<Rightarrow> if gs_owner g \<noteq> us_id u then Inl not_found else Inr (AList.update ''source_id'' (JInt n) inputs)))
        (\<lambda>inputs'. Inr ((), w\<lparr>pn_db := update_stack (pn_db w) i
           (\<lambda>k. k\<lparr>sk_inputs := Some (seal_inputs (se_vault en) inputs')\<rparr>)\<rparr>)))))"

definition get_stack_tags :: "user_row \<Rightarrow> int \<Rightarrow> panel \<Rightarrow> (int \<times> string) list res" where
  "get_stack_tags u i w =
     bind_res (fetch_owned_stack u i (pn_db w)) (\<lambda>_. Inr (filter (\<lambda>t. (i, fst t) \<in> set (pn_stack_tags w)) (pn_tags w)))"

definition get_stack_metrics :: "user_row \<Rightarrow> int \<Rightarrow> panel \<Rightarrow> unit list res" where
  "get_stack_metrics u i w = bind_res (fetch_owned_stack u i (pn_db w)) (\<lambda>_. Inr [])"

definition add_stack_tag :: "user_row \<Rightarrow> int \<Rightarrow> string \<Rightarrow> (panel, int \<times> string) act" where
  "add_stack_tag u i name = transact (\<lambda>w.
     bind_res (fetch_owned_stack u i (pn_db w)) (\<lambda>_.
     let (t, w1) = (case find (\<lambda>t. snd t = name) (pn_tags w) of
            Some t \<Rightarrow> (t, w)
          | None \<Rightarrow> (let t = (fresh_id (map fst (pn_tags w)), name) in (t, w\<lparr>pn_tags := pn_tags w @ [t]\<rparr>)))
     in Inr (t, if (i, fst t) \<in> set (pn_stack_tags w) then w else w1\<lparr>pn_stack_tags := pn_stack_tags w @ [(i, fst t)]\<rparr>)))"

definition remove_stack_tag :: "user_row \<Rightarrow> int \<Rightarrow> int \<Rightarrow> (panel, unit) act" where
  "remove_stack_tag u i tag = transact (\<lambda>w.
     bind_res (fetch_owned_stack u i (pn_db w)) (\<lambda>_.
     Inr ((), w\<lparr>pn_stack_tags := filter (\<lambda>x. x \<noteq> (i, tag)) (pn_stack_tags w)\<rparr>)))"

text \<open>\<open>str.split()\<close>.\<close>

definition words :: "string \<Rightarrow> string list" where
  "words s = filter (\<lambda>x. x \<noteq> []) (split_char CHR '' '' (map (\<lambda>c. if is_space c then CHR '' '' else c) s))"

definition command_char :: "char \<Rightarrow> bool" where
  "command_char c \<longleftrightarrow> is_letter c \<or> is_digit c \<or> c \<in> set ''_./ -''"

definition task_ok :: "string \<Rightarrow> string \<Rightarrow> string \<Rightarrow> bool" where
  "task_ok name command cron \<longleftrightarrow>
     length name \<le> 64 \<and> length command \<le> 512 \<and> command \<noteq> [] \<and> list_all command_char command
     \<and> length cron \<le> 64 \<and> length (words (strip cron)) = 5"

definition get_scheduled_tasks :: "user_row \<Rightarrow> int \<Rightarrow> panel \<Rightarrow> task_row list res" where
  "get_scheduled_tasks u i w =
     bind_res (fetch_owned_stack u i (pn_db w)) (\<lambda>_. Inr (filter (\<lambda>t. tk_stack t = i) (pn_tasks w)))"

definition add_scheduled_task :: "user_row \<Rightarrow> int \<Rightarrow> string \<Rightarrow> string \<Rightarrow> string \<Rightarrow> (panel, unit) act" where
  "add_scheduled_task u i name command cron = transact (\<lambda>w.
     bind_res (guard (task_ok name command cron) invalid_request) (\<lambda>_.
     bind_res (fetch_owned_stack u i (pn_db w)) (\<lambda>_.
     Inr ((), w\<lparr>pn_tasks := pn_tasks w @ [\<lparr>tk_id = fresh_id (map tk_id (pn_tasks w)), tk_stack = i, tk_name = name,
                  tk_command = command, tk_cron = strip cron\<rparr>]\<rparr>))))"

definition remove_scheduled_task :: "user_row \<Rightarrow> int \<Rightarrow> int \<Rightarrow> (panel, unit) act" where
  "remove_scheduled_task u i task = transact (\<lambda>w.
     bind_res (fetch_owned_stack u i (pn_db w)) (\<lambda>_.
     Inr ((), w\<lparr>pn_tasks := filter (\<lambda>t. \<not> (tk_id t = task \<and> tk_stack t = i)) (pn_tasks w)\<rparr>)))"

definition list_stack_operations :: "user_row \<Rightarrow> int \<Rightarrow> nat \<Rightarrow> panel \<Rightarrow> (int \<times> operation) list res" where
  "list_stack_operations u i limit w =
     bind_res (guard (1 \<le> limit \<and> limit \<le> 100) invalid_request) (\<lambda>_.
     bind_res (fetch_owned_stack u i (pn_db w)) (\<lambda>_.
     Inr (take limit (rev (sort_key fst (filter (\<lambda>(_, op). op_stack op = Some i) (pn_operations w)))))))"

definition rollback_deployment :: "site_env \<Rightarrow> user_row \<Rightarrow> int \<Rightarrow> int \<Rightarrow> (panel, int) act" where
  "rollback_deployment en u i dep = transact (\<lambda>w.
     bind_res (fetch_owned_stack u i (pn_db w)) (\<lambda>k.
     case find (\<lambda>x. dp_id x = dep \<and> dp_stack x = i) (pn_deployments w) of
       None \<Rightarrow> Inl not_found
     | Some x \<Rightarrow> Inr (queue_operation ''converge_stack'' (se_now en) k
           (w\<lparr>pn_deployments := pn_deployments w @ [\<lparr>dp_id = fresh_id (map dp_id (pn_deployments w)), dp_stack = i,
              dp_commit = dp_commit x, dp_status = ''running'', dp_message = Some (''Rollback to '' @ dp_commit x)\<rparr>]\<rparr>))))"

subsection \<open>The stream of an operation's log\<close>

definition stream_access :: "site_env \<Rightarrow> string \<Rightarrow> int \<Rightarrow> int \<Rightarrow> panel \<Rightarrow> operation res" where
  "stream_access en token i oid w =
     (case bind_res (decode_access_token (se_lib en) (se_now en) token) (\<lambda>p. claim_int p ''sub'') of
        Inl e \<Rightarrow> Inl unauthorized
      | Inr n \<Rightarrow> (case user_by_id (se_auth en) n of
          None \<Rightarrow> Inl unauthorized
        | Some u \<Rightarrow> bind_res (fetch_owned_stack u i (pn_db w)) (\<lambda>_.
            case find (\<lambda>(n, op). n = oid \<and> op_stack op = Some i) (pn_operations w) of
              None \<Rightarrow> Inl not_found | Some (_, op) \<Rightarrow> Inr op)))"

datatype event = Data string | Done string

text \<open>One turn of the generator for each reading of the log and the status.\<close>

fun stream_events :: "nat \<Rightarrow> (string \<times> string) list \<Rightarrow> event list" where
  "stream_events seen [] = []"
| "stream_events seen ((logs, status) # later) =
     (let lines = (if seen < length logs then filter (\<lambda>l. strip l \<noteq> []) (split_char nl (drop seen logs)) else []);
          seen' = max seen (length logs)
      in map Data lines @ (if status \<in> set [''succeeded'', ''failed''] then [Done status] else stream_events seen' later))"

end
