(* ===== verification/Blueprints.thy ===== *)
theory Blueprints
  imports Templates StackRoutes
begin

text \<open>
  The blueprints of \<open>orchestration/blueprints\<close>: one image, WordPress, a Git repository, and compose
  templates.  A blueprint renders its inputs to a stack spec.  Pydantic and the YAML parser are
  parameters: the record \<open>templating\<close> for YAML and for the models built at run time, and for each fixed
  model a function from the raw inputs to the typed record.  The names of the variables at fault and
  other texts of errors are dropped.
\<close>

definition new_service :: "string \<Rightarrow> string \<Rightarrow> service_spec" where
  "new_service name img = service_defaults name img"

definition new_stack_spec :: "string \<Rightarrow> allocation \<Rightarrow> service_spec list \<Rightarrow> volume_spec list \<Rightarrow> endpoint_spec list \<Rightarrow> stack_spec res" where
  "new_stack_spec name alloc ss vs es = stack_post_init
     \<lparr>st_name = name, st_tenant = al_tenant alloc, st_loopback_ip = al_loopback_ip alloc, st_services = ss,
      st_volumes = vs, st_endpoints = es, st_suspended = False, st_server_id = None, st_generation = 0\<rparr>"

subsection \<open>One image\<close>

record raw_image_inputs =
  ri_image :: string
  ri_internal_port :: int
  ri_domain :: "string option"
  ri_behind_cloudflare :: bool
  ri_env :: "(string, string) fmap"
  ri_volumes :: "(string, string) fmap"
  ri_memory_mb :: "int option"
  ri_cpu_percent :: "int option"

text \<open>The constraints of the fields.\<close>

definition raw_image_inputs_ok :: "raw_image_inputs \<Rightarrow> bool" where
  "raw_image_inputs_ok x \<longleftrightarrow> length (ri_image x) \<le> 512 \<and> 1 \<le> ri_internal_port x \<and> ri_internal_port x \<le> 65535
     \<and> length (or_empty (ri_domain x)) \<le> 253
     \<and> (case ri_memory_mb x of None \<Rightarrow> True | Some m \<Rightarrow> 16 \<le> m \<and> m \<le> 1048576)
     \<and> (case ri_cpu_percent x of None \<Rightarrow> True | Some c \<Rightarrow> 1 \<le> c \<and> c \<le> 6400)"

definition raw_image_render :: "string \<Rightarrow> raw_image_inputs \<Rightarrow> allocation \<Rightarrow> stack_spec res" where
  "raw_image_render name x alloc =
     bind_res (service_post_init ((new_service ''web'' (ri_image x))
       \<lparr>s_env := sorted_items (ri_env x), s_internal_port := Some (ri_internal_port x),
        s_memory_mb := ri_memory_mb x, s_cpu_percent := ri_cpu_percent x, s_is_web := True\<rparr>)) (\<lambda>service.
     bind_res (map_res (\<lambda>(n, mount). volume_post_init \<lparr>v_name = n, v_service = ''web'', v_mount_path = mount\<rparr>)
       (sorted_items (ri_volumes x))) (\<lambda>volumes.
     bind_res (if truthy (ri_domain x)
               then bind_res (endpoint_post_init \<lparr>e_domain = the (ri_domain x), e_service = ''web'',
                      e_behind_cloudflare = ri_behind_cloudflare x\<rparr>) (\<lambda>e. Inr [e])
               else Inr []) (\<lambda>endpoints.
     new_stack_spec name alloc [service] volumes endpoints)))"

definition raw_image_health :: "(string, bool) fmap \<Rightarrow> bool" where
  "raw_image_health active = fmget active ''web'' False"

subsection \<open>Compose templates\<close>

datatype field_type = FStr | FBool | FInt

record input_field =
  if_type :: field_type
  if_default :: "json option"
  if_secret :: bool

record compose =
  cb_version :: json
  cb_services :: "(string \<times> inputs) list"
  cb_secrets :: "string list"
  cb_ports :: "string list"
  cb_fields :: "(string \<times> input_field) list"
  cb_versions :: "(string \<times> string) list"
  cb_web :: "json option"
  cb_domain_input :: "json option"
  cb_connection :: "inputs option"

text \<open>What depends on third parties: \<open>yaml.safe_load\<close>, the validation of raw inputs by a model of given
  fields, and a model whose fields are the given variables with themselves as values.\<close>

record templating =
  tp_yaml :: "string \<Rightarrow> json res"
  tp_model :: "(string \<times> input_field) list \<Rightarrow> inputs \<Rightarrow> inputs option"
  tp_dummy :: "(string \<times> string) list \<Rightarrow> inputs res"

definition as_mapping :: "json \<Rightarrow> inputs res" where
  "as_mapping j = (case j of JObj kvs \<Rightarrow> Inr kvs | _ \<Rightarrow> Inl SpecValidationError)"

definition lookup_or :: "inputs \<Rightarrow> string \<Rightarrow> json \<Rightarrow> json" where
  "lookup_or kvs key d = (case map_of kvs key of None \<Rightarrow> d | Some j \<Rightarrow> j)"

definition name_list :: "json \<Rightarrow> string list res" where
  "name_list j =
     (case j of
        JList xs \<Rightarrow> map_res (\<lambda>x. case x of JStr s \<Rightarrow> Inr s | _ \<Rightarrow> Inl SpecValidationError) xs
      | _ \<Rightarrow> Inl SpecValidationError)"

definition input_field_of :: "string \<times> json \<Rightarrow> (string \<times> input_field) res" where
  "input_field_of kj =
     bind_res (as_mapping (snd kj)) (\<lambda>m.
     let t = lookup_or m ''type'' JNull
     in Inr (fst kj, \<lparr>if_type = (if t = JStr ''boolean'' then FBool
          else if t = JStr ''number'' \<or> t = JStr ''integer'' then FInt else FStr),
        if_default = map_of m ''default'', if_secret = json_truthy (map_of m ''secret'')\<rparr>))"

definition version_inputs :: "inputs \<Rightarrow> (string \<times> string) list" where
  "version_inputs defs = concat (map (\<lambda>(key, j). case j of
     JObj m \<Rightarrow> (if json_truthy (map_of m ''versions_from'') then [(key, py_str (the (map_of m ''versions_from'')))] else [])
   | _ \<Rightarrow> []) defs)"

definition compose_init :: "json \<Rightarrow> compose res" where
  "compose_init raw =
     bind_res (as_mapping raw) (\<lambda>doc.
     bind_res (as_mapping (lookup_or doc ''services'' JNull)) (\<lambda>services.
     bind_res (guard (services \<noteq> []) SpecValidationError) (\<lambda>_.
     bind_res (map_res (\<lambda>(n, j). bind_res (as_mapping j) (\<lambda>svc. Inr (n, svc))) services) (\<lambda>parsed.
     bind_res (as_mapping (lookup_or doc ''x-hosty'' (JObj []))) (\<lambda>meta.
     bind_res (name_list (lookup_or meta ''secrets'' (JList []))) (\<lambda>secrets.
     bind_res (name_list (lookup_or meta ''ports'' (JList []))) (\<lambda>ports.
     bind_res (as_mapping (lookup_or meta ''inputs'' (JObj []))) (\<lambda>defs.
     bind_res (case lookup_or meta ''connection'' JNull of JNull \<Rightarrow> Inr None
               | j \<Rightarrow> bind_res (as_mapping j) (\<lambda>m. Inr (Some m))) (\<lambda>connection.
     bind_res (map_res input_field_of defs) (\<lambda>fields.
     Inr \<lparr>cb_version = lookup_or meta ''version'' (JInt 1), cb_services = parsed, cb_secrets = secrets, cb_ports = ports,
          cb_fields = fields, cb_versions = version_inputs defs, cb_web = map_of meta ''web'',
          cb_domain_input = map_of meta ''domain_input'', cb_connection = connection\<rparr>))))))))))"

text \<open>The variables of a template: the secrets, overridden by the inputs.\<close>

definition substitutions :: "allocation \<Rightarrow> inputs \<Rightarrow> (string, string) fmap" where
  "substitutions alloc inputs = dict_of (al_secrets alloc @ map (\<lambda>(k, j). (k, py_str j)) inputs)"

record service_build =
  sb_image :: string
  sb_repo :: "string option"
  sb_branch :: "string option"
  sb_context :: string
  sb_dockerfile :: string
  sb_args :: "(string, string) fmap"

definition build_target :: string where "build_target = ''hosty-build-target''"

definition is_remote :: "string \<Rightarrow> bool" where
  "is_remote s \<longleftrightarrow> startswith s ''https://'' \<or> startswith s ''git@'' \<or> startswith s ''ssh://''"

text \<open>A Git address with its branch after a hash sign.\<close>

definition remote_build :: "string \<Rightarrow> service_build \<Rightarrow> service_build" where
  "remote_build s b =
     (case partition_char CHR ''#'' s of (repo, found, branch) \<Rightarrow>
        if found then b\<lparr>sb_repo := Some repo, sb_branch := Some branch\<rparr> else b\<lparr>sb_repo := Some s\<rparr>)"

definition arg_pair :: "(string, string) fmap \<Rightarrow> string \<times> json \<Rightarrow> (string \<times> string) res" where
  "arg_pair subs kj =
     (if snd kj = JNull then Inr (fst kj, fmget subs (fst kj) [])
      else bind_res (substitute subs (snd kj)) (\<lambda>x. Inr (fst kj, x)))"

definition arg_item :: "(string, string) fmap \<Rightarrow> json \<Rightarrow> (string \<times> string) res" where
  "arg_item subs j =
     (case partition_char CHR ''='' (py_str j) of (key, found, x) \<Rightarrow>
        if found then bind_res (substitute subs (JStr x)) (\<lambda>x. Inr (key, x)) else Inr (key, fmget subs key []))"

definition build_args_of :: "(string, string) fmap \<Rightarrow> json \<Rightarrow> (string, string) fmap res" where
  "build_args_of subs j =
     (case j of
        JObj kvs \<Rightarrow> bind_res (map_res (arg_pair subs) kvs) (\<lambda>ps. Inr (dict_of ps))
      | JList xs \<Rightarrow> bind_res (map_res (arg_item subs) xs) (\<lambda>ps. Inr (dict_of ps))
      | _ \<Rightarrow> if json_truthy (Some j) then Inl SpecValidationError else Inr fmempty)"

definition build_of :: "(string, string) fmap \<Rightarrow> inputs \<Rightarrow> service_build res" where
  "build_of subs svc =
     bind_res (substitute subs (lookup_or svc ''image'' (JStr build_target))) (\<lambda>img.
     let b = \<lparr>sb_image = img, sb_repo = None, sb_branch = None, sb_context = ''.'', sb_dockerfile = ''Dockerfile'', sb_args = fmempty\<rparr>
     in case lookup_or svc ''build'' JNull of
       JStr s \<Rightarrow> if s = [] then Inr b else
         bind_res (substitute subs (JStr s)) (\<lambda>text.
           Inr (if is_remote text then remote_build text b else b\<lparr>sb_image := build_target, sb_context := text\<rparr>))
     | JObj m \<Rightarrow>
         (let context = lookup_or m ''context'' JNull
          in if (case context of JStr s \<Rightarrow> is_remote s | _ \<Rightarrow> False)
             then bind_res (substitute subs context) (\<lambda>text. Inr (remote_build text b))
             else bind_res (substitute subs (if json_truthy (Some context) then context else JStr ''.'')) (\<lambda>ctx.
                  bind_res (substitute subs (lookup_or m ''dockerfile'' (JStr ''Dockerfile''))) (\<lambda>df.
                  bind_res (build_args_of subs (lookup_or m ''args'' (JObj []))) (\<lambda>args.
                  Inr (b\<lparr>sb_image := build_target, sb_context := ctx, sb_dockerfile := df, sb_args := args\<rparr>)))))
     | _ \<Rightarrow> Inr b)"

text \<open>The environment before substitution; shared variables fill in what the service does not set.\<close>

definition env_item :: "(string, string) fmap \<Rightarrow> json \<Rightarrow> string \<times> json" where
  "env_item subs j =
     (case partition_char CHR ''='' (py_str j) of (key, found, x) \<Rightarrow> (key, JStr (if found then x else fmget subs key [])))"

definition raw_environment :: "(string, string) fmap \<Rightarrow> (string \<times> string) list \<Rightarrow> inputs \<Rightarrow> (string, json) fmap" where
  "raw_environment subs shared svc =
     (let own = dict_of (case lookup_or svc ''environment'' (JObj []) of
            JList xs \<Rightarrow> map (env_item subs) xs | JObj kvs \<Rightarrow> kvs | _ \<Rightarrow> [])
      in dict_of (map (\<lambda>(k, s). (k, JStr s)) shared) ++\<^sub>f own)"

definition environment_of :: "(string, string) fmap \<Rightarrow> (string \<times> string) list \<Rightarrow> inputs \<Rightarrow> (string \<times> string) list res" where
  "environment_of subs shared svc =
     (let env = raw_environment subs shared svc
      in map_res (\<lambda>k. bind_res (substitute subs (the (fmlookup env k))) (\<lambda>x. Inr (k, x))) (sorted_keys env))"

definition first_port :: "json \<Rightarrow> json res" where
  "first_port j =
     (case j of
        JList (x # xs) \<Rightarrow> Inr x
      | JStr (c # s) \<Rightarrow> Inr (JStr [c])
      | JObj kvs \<Rightarrow> Inl KeyError
      | _ \<Rightarrow> Inl TypeError)"

definition port_of :: "(string, string) fmap \<Rightarrow> inputs \<Rightarrow> int option res" where
  "port_of subs svc =
     (let published = (if json_truthy (map_of svc ''ports'') then map_of svc ''ports'' else map_of svc ''expose'')
      in if \<not> json_truthy published then Inr None
         else bind_res (first_port (the published)) (\<lambda>raw.
              let target = (case raw of JObj m \<Rightarrow> lookup_or m ''target'' JNull | j \<Rightarrow> j)
              in bind_res (guard (target \<noteq> JNull) SpecValidationError) (\<lambda>_.
                 bind_res (substitute subs target) (\<lambda>p.
                 case py_int (hd (split_char CHR ''/'' (last (split_char CHR '':'' p)))) of
                   Inl e \<Rightarrow> Inl (if e = ValueError then SpecValidationError else e)
                 | Inr n \<Rightarrow> Inr (Some n)))))"

definition depends_of :: "inputs \<Rightarrow> string list" where
  "depends_of svc =
     (case lookup_or svc ''depends_on'' (JList []) of JList xs \<Rightarrow> map py_str xs | JObj kvs \<Rightarrow> map fst kvs | _ \<Rightarrow> [])"

definition command_of :: "(string, string) fmap \<Rightarrow> inputs \<Rightarrow> string list res" where
  "command_of subs svc =
     (case lookup_or svc ''command'' JNull of
        JList xs \<Rightarrow> map_res (\<lambda>x. substitute subs (JStr (py_str x))) xs
      | JStr s \<Rightarrow> bind_res (substitute subs (JStr s)) shlex_split
      | _ \<Rightarrow> Inr [])"

text \<open>\<open>int(inputs.x) if hasattr(inputs, x) and inputs.x else None\<close>.\<close>

definition limit_of :: "inputs \<Rightarrow> string \<Rightarrow> int option res" where
  "limit_of inputs key =
     (if json_truthy (map_of inputs key) then bind_res (int_of_json (the (map_of inputs key))) (\<lambda>n. Inr (Some n)) else Inr None)"

definition compose_service :: "compose \<Rightarrow> (string, string) fmap \<Rightarrow> inputs \<Rightarrow> (string \<times> string) list \<Rightarrow> string \<Rightarrow> inputs
    \<Rightarrow> service_spec res" where
  "compose_service c subs inputs shared name svc =
     bind_res (build_of subs svc) (\<lambda>b.
     bind_res (environment_of subs shared svc) (\<lambda>env.
     bind_res (port_of subs svc) (\<lambda>port.
     bind_res (command_of subs svc) (\<lambda>command.
     bind_res (validate_build_path True (sb_context b)) (\<lambda>context.
     bind_res (validate_build_path False (sb_dockerfile b)) (\<lambda>dockerfile.
     bind_res (limit_of inputs ''memory_limit'') (\<lambda>memory.
     bind_res (limit_of inputs ''cpu_limit'') (\<lambda>cpu.
     service_post_init ((new_service name (sb_image b))
       \<lparr>s_env := env, s_internal_port := port, s_is_web := (cb_web c = Some (JStr name)),
        s_build_repo := sb_repo b, s_build_branch := sb_branch b, s_build_context := context, s_dockerfile_path := dockerfile,
        s_build_args := sorted_items (sb_args b), s_memory_mb := memory, s_cpu_percent := cpu,
        s_depends_on := depends_of svc, s_command := command\<rparr>)))))))))"

text \<open>One entry of \<open>volumes\<close>; mounts of host directories and other kinds are passed over.\<close>

definition compose_volume :: "string \<Rightarrow> json \<Rightarrow> volume_spec list res" where
  "compose_volume service j =
     bind_res (case j of
         JObj m \<Rightarrow>
           Inr (if lookup_or m ''type'' (JStr ''volume'') \<noteq> JStr ''volume'' then None
                else Some (lookup_or m ''source'' JNull, lookup_or m ''target'' JNull))
       | _ \<Rightarrow>
           (case split_char CHR '':'' (py_str j) of
              n # path # rest \<Rightarrow> Inr (if startswith n ''/'' \<or> startswith n ''.'' then None else Some (JStr n, JStr path))
            | _ \<Rightarrow> Inl SpecValidationError)) (\<lambda>found.
     case found of None \<Rightarrow> Inr []
     | Some (n, path) \<Rightarrow>
         if \<not> json_truthy (Some n) \<or> \<not> json_truthy (Some path) then Inr []
         else bind_res (volume_post_init \<lparr>v_name = py_str n, v_service = service, v_mount_path = py_str path\<rparr>)
                (\<lambda>x. Inr [x]))"

definition compose_volumes :: "string \<Rightarrow> inputs \<Rightarrow> volume_spec list res" where
  "compose_volumes service svc =
     bind_res (json_items (lookup_or svc ''volumes'' (JList []))) (\<lambda>js.
     bind_res (map_res (compose_volume service) js) (\<lambda>vss. Inr (concat vss)))"

definition compose_endpoints :: "compose \<Rightarrow> (string, string) fmap \<Rightarrow> endpoint_spec list res" where
  "compose_endpoints c subs =
     (if json_truthy (cb_web c) \<and> json_truthy (cb_domain_input c) then
        bind_res (case the (cb_domain_input c) of
            JStr s \<Rightarrow> Inr (lower (strip (fmget subs s []))) | JList xs \<Rightarrow> Inl TypeError | JObj m \<Rightarrow> Inl TypeError | _ \<Rightarrow> Inr [])
          (\<lambda>domain. if domain = [] then Inr []
             else (case the (cb_web c) of
                 JStr web \<Rightarrow> bind_res (endpoint_post_init \<lparr>e_domain = domain, e_service = web, e_behind_cloudflare = False\<rparr>) (\<lambda>e. Inr [e])
               | _ \<Rightarrow> Inl SpecValidationError))
      else Inr [])"

definition compose_render :: "compose \<Rightarrow> string \<Rightarrow> inputs \<Rightarrow> allocation \<Rightarrow> stack_spec res" where
  "compose_render c name inputs alloc =
     (let subs = substitutions alloc inputs
      in bind_res (map_res (\<lambda>(n, svc).
             bind_res (compose_service c subs inputs (al_shared_variables alloc) n svc) (\<lambda>s.
             bind_res (compose_volumes n svc) (\<lambda>vs. Inr (s, vs)))) (cb_services c)) (\<lambda>parts.
         bind_res (compose_endpoints c subs) (\<lambda>endpoints.
         new_stack_spec name alloc (map fst parts) (concat (map snd parts)) endpoints)))"

definition compose_health :: "compose \<Rightarrow> (string, bool) fmap \<Rightarrow> bool" where
  "compose_health c active = list_all (\<lambda>(n, svc). fmget active n False) (cb_services c)"

subsection \<open>A Git repository\<close>

record git_inputs =
  gi_repo :: string
  gi_branch :: string
  gi_build_method :: string
  gi_internal_port :: int
  gi_domain :: string
  gi_env :: "(string, string) fmap"
  gi_source_id :: "int option"
  gi_compose_file_content :: string

definition git_plain_render :: "string \<Rightarrow> git_inputs \<Rightarrow> allocation \<Rightarrow> stack_spec res" where
  "git_plain_render name x alloc =
     bind_res (service_post_init ((new_service ''web'' build_target)
       \<lparr>s_build_repo := Some (gi_repo x), s_build_branch := Some (gi_branch x), s_build_tool := gi_build_method x,
        s_internal_port := Some (gi_internal_port x), s_env := sorted_items (gi_env x), s_is_web := True\<rparr>)) (\<lambda>service.
     bind_res (if gi_domain x = [] then Inr []
               else bind_res (endpoint_post_init \<lparr>e_domain = gi_domain x, e_service = ''web'', e_behind_cloudflare = False\<rparr>)
                      (\<lambda>e. Inr [e])) (\<lambda>endpoints.
     new_stack_spec name alloc [service] [] endpoints))"

text \<open>Services that are built at all are built from the repository of the inputs.\<close>

definition from_repository :: "git_inputs \<Rightarrow> service_spec \<Rightarrow> service_spec res" where
  "from_repository x s =
     (if truthy (s_build_repo s) \<or> s_image s = build_target \<or> s_image s = ''docker.io/library/'' @ build_target
      then service_post_init (s\<lparr>s_build_repo := Some (gi_repo x), s_build_branch := Some (gi_branch x), s_build_tool := ''dockerfile''\<rparr>)
      else Inr s)"

definition git_compose_render :: "templating \<Rightarrow> string \<Rightarrow> git_inputs \<Rightarrow> allocation \<Rightarrow> stack_spec res" where
  "git_compose_render tp name x alloc =
     bind_res (guard (gi_compose_file_content x \<noteq> []) SpecValidationError) (\<lambda>_.
     bind_res (tp_yaml tp (gi_compose_file_content x)) (\<lambda>doc.
     bind_res (compose_init doc) (\<lambda>c.
     bind_res (tp_dummy tp (sorted_items (gi_env x))) (\<lambda>inputs.
     bind_res (compose_render c name inputs alloc) (\<lambda>spec.
     bind_res (map_res (from_repository x) (st_services spec)) (\<lambda>services.
     stack_post_init (spec\<lparr>st_services := services\<rparr>)))))))"

definition git_render :: "templating \<Rightarrow> string \<Rightarrow> git_inputs \<Rightarrow> allocation \<Rightarrow> stack_spec res" where
  "git_render tp name x alloc =
     (if gi_build_method x \<in> set [''dockerfile'', ''nixpacks''] then git_plain_render name x alloc
      else if gi_build_method x = ''compose'' then git_compose_render tp name x alloc
      else Inl SpecValidationError)"

definition git_rebuild :: action_handler where
  "git_rebuild k inputs params d =
     (Inr \<lparr>ar_ok = True, ar_message = ''Triggering repository pull and image rebuild in the background.'', ar_data = [], ar_show_once = []\<rparr>,
      bump (sk_id k) d)"

definition git_health :: "(string, bool) fmap \<Rightarrow> bool" where
  "git_health active \<longleftrightarrow> active \<noteq> fmempty \<and> (\<forall>n. n |\<in>| fmdom active \<longrightarrow> fmlookup active n = Some True)"

end
