(* ===== verification/Commands.thy ===== *)
theory Commands
  imports StackRoutes
begin

text \<open>
  The commands the panel runs: \<open>system/runner.py\<close>, \<open>podman.py\<close>, \<open>systemd.py\<close>, \<open>systemd_user.py\<close>.  Builders of argument vectors are functions into \<open>string list
  res\<close>; operations run them through \<open>sh\<close>, the parameter for \<open>runner.run\<close>, on a world \<open>'w\<close>.  Time limits are
  left out: a command that runs too long is an exception of \<open>sh\<close>.
\<close>

subsection \<open>Running a command\<close>

definition validate_argv :: "string list \<Rightarrow> unit res" where
  "validate_argv argv =
     bind_res (guard (argv \<noteq> []) InvalidCommandError) (\<lambda>_.
     bind_res (guard (list_all (\<lambda>x. nul \<notin> set x) argv) InvalidCommandError) (\<lambda>_.
     guard (strip (hd argv) \<noteq> []) InvalidCommandError))"

definition run_command :: "'w runner \<Rightarrow> 'w runner" where
  "run_command spawn argv = bind_act (lift_res (validate_argv argv)) (\<lambda>_. spawn argv)"

definition safe_env_keys :: "string list" where
  "safe_env_keys = [''PATH'', ''LANG'', ''LANGUAGE'', ''LC_ALL'', ''LC_CTYPE'', ''TZ'', ''HOME'', ''TMPDIR'', ''TMP'', ''TEMP'',
     ''SYSTEMROOT'', ''WINDIR'', ''PATHEXT'', ''COMSPEC'']"

definition build_subprocess_env :: "(string, string) fmap \<Rightarrow> (string \<times> string) list \<Rightarrow> (string, string) fmap res" where
  "build_subprocess_env environ overrides =
     bind_res (guard (list_all (\<lambda>(k, x). nul \<notin> set (k @ x)) overrides) InvalidCommandError) (\<lambda>_.
     Inr (fmfilter (\<lambda>k. upper k \<in> set safe_env_keys) environ ++\<^sub>f dict_of overrides))"

definition run_checked :: "(command_result \<Rightarrow> exn) \<Rightarrow> exn \<Rightarrow> 'w runner \<Rightarrow> string list res \<Rightarrow> ('w, command_result) act" where
  "run_checked failed missing sh argv =
     bind_act (lift_res argv) (\<lambda>av w. case sh av w of
         (Inl e, w') \<Rightarrow> (Inl (if e = CommandNotFoundError then missing else e), w')
       | (Inr r, w') \<Rightarrow> (if cr_returncode r = 0 then Inr r else Inl (failed r), w'))"

text \<open>A missing program counts as the given value.\<close>

definition run_or_default :: "'a \<Rightarrow> (command_result \<Rightarrow> 'a) \<Rightarrow> 'w runner \<Rightarrow> string list res \<Rightarrow> ('w, 'a) act" where
  "run_or_default d f sh argv =
     bind_act (lift_res argv) (\<lambda>av w. case sh av w of
         (Inl e, w') \<Rightarrow> (if e = CommandNotFoundError then Inr d else Inl e, w')
       | (Inr r, w') \<Rightarrow> (Inr (f r), w'))"

subsection \<open>Podman\<close>

definition podman_error :: exn where "podman_error = AppError 502 ''podman_error''"
definition podman_unavailable :: exn where "podman_unavailable = AppError 502 ''podman_unavailable''"

definition socket_url :: "int \<Rightarrow> string res" where
  "socket_url uid =
     bind_res (guard (0 < uid) InvalidCommandError) (\<lambda>_. Inr (''unix:/run/user/'' @ int_str uid @ ''/podman/podman.sock''))"

definition podman_base :: "int \<Rightarrow> string list res" where
  "podman_base uid = bind_res (socket_url uid) (\<lambda>u. Inr [''podman'', ''--url'', u])"

definition build_ps_argv :: "int \<Rightarrow> string list res" where
  "build_ps_argv uid = bind_res (podman_base uid) (\<lambda>b.
     Inr (b @ [''ps'', ''--all'', ''--filter'', ''label=hosty.managed=1'', ''--format'', ''json'']))"

definition build_stack_ps_ids_argv :: "int \<Rightarrow> string \<Rightarrow> string list res" where
  "build_stack_ps_ids_argv uid st =
     bind_res (podman_base uid) (\<lambda>b. bind_res (validate_object_name st) (\<lambda>n.
       Inr (b @ [''ps'', ''--all'', ''--quiet'', ''--filter'', ''label=hosty.stack='' @ n])))"

definition build_pull_argv :: "int \<Rightarrow> string \<Rightarrow> string list res" where
  "build_pull_argv uid img =
     bind_res (podman_base uid) (\<lambda>b. bind_res (validate_image_ref img) (\<lambda>r. Inr (b @ [''image'', ''pull'', ''--quiet'', r])))"

definition build_image_digest_argv :: "int \<Rightarrow> string \<Rightarrow> string list res" where
  "build_image_digest_argv uid img =
     bind_res (podman_base uid) (\<lambda>b. bind_res (validate_image_ref img) (\<lambda>r.
       Inr (b @ [''image'', ''inspect'', ''--format'',
         [CHR 0x7B, CHR 0x7B] @ ''if .RepoDigests'' @ [CHR 0x7D, CHR 0x7D, CHR 0x7B, CHR 0x7B] @ ''index .RepoDigests 0''
         @ [CHR 0x7D, CHR 0x7D, CHR 0x7B, CHR 0x7B] @ ''end'' @ [CHR 0x7D, CHR 0x7D], r])))"

definition env_flags :: "(string, string) fmap \<Rightarrow> string list res" where
  "env_flags env =
     bind_res (map_res (\<lambda>kx. bind_res (check_pair kx) (\<lambda>_. Inr [''--env'', fst kx @ ''='' @ snd kx])) (sorted_items env))
       (\<lambda>fs. Inr (concat fs))"

definition build_exec_argv :: "int \<Rightarrow> string \<Rightarrow> string list \<Rightarrow> (string, string) fmap \<Rightarrow> bool \<Rightarrow> string list res" where
  "build_exec_argv uid container command env interactive =
     bind_res (guard (command \<noteq> []) InvalidCommandError) (\<lambda>_.
     bind_res (podman_base uid) (\<lambda>b.
     bind_res (env_flags env) (\<lambda>flags.
     bind_res (validate_object_name container) (\<lambda>c.
     Inr (b @ [''exec''] @ (if interactive then [''--interactive''] else []) @ flags @ [c] @ command)))))"

record run_options =
  ro_network :: string
  ro_volumes :: "(string \<times> string) list"
  ro_env_file :: "string option"
  ro_user :: "string option"
  ro_workdir :: "string option"

definition container_user_rx :: rx where
  "container_user_rx = Seq (between_rx 1 5 (cls [is_digit] []))
     (optional (Seq (lit '':'') (between_rx 1 5 (cls [is_digit] []))))"

definition volume_flag :: "string \<times> string \<Rightarrow> string list res" where
  "volume_flag hm =
     bind_res (guard (startswith (fst hm) ''/'' \<and> CHR '':'' \<notin> set (fst hm)) InvalidCommandError) (\<lambda>_.
     bind_res (validate_mount_path (snd hm)) (\<lambda>m. Inr [''--volume'', fst hm @ '':'' @ m]))"

definition option_flag :: "string \<Rightarrow> (string \<Rightarrow> string res) \<Rightarrow> string option \<Rightarrow> string list res" where
  "option_flag flag f x = (case x of None \<Rightarrow> Inr [] | Some v \<Rightarrow> bind_res (f v) (\<lambda>v'. Inr [flag, v']))"

definition build_run_argv :: "int \<Rightarrow> string \<Rightarrow> string list \<Rightarrow> run_options \<Rightarrow> string list res" where
  "build_run_argv uid img command ro =
     bind_res (guard (command \<noteq> []) InvalidCommandError) (\<lambda>_.
     bind_res (podman_base uid) (\<lambda>b.
     bind_res (validate_object_name (ro_network ro)) (\<lambda>network.
     bind_res (map_res volume_flag (ro_volumes ro)) (\<lambda>volumes.
     bind_res (option_flag ''--env-file'' (\<lambda>p. if startswith p ''/'' then Inr p else Inl InvalidCommandError) (ro_env_file ro)) (\<lambda>env_file.
     bind_res (option_flag ''--user'' (\<lambda>u. if fullmatch container_user_rx u then Inr u else Inl InvalidCommandError) (ro_user ro)) (\<lambda>user.
     bind_res (option_flag ''--workdir'' validate_mount_path (ro_workdir ro)) (\<lambda>workdir.
     bind_res (validate_image_ref img) (\<lambda>r.
     Inr (b @ [''run'', ''--rm'', ''--network'', network, ''--label'', ''hosty.managed=1''] @ concat volumes @ env_file @ user @ workdir
          @ [r] @ command)))))))))"

text \<open>A row of \<open>podman ps\<close>; the observer reads the first three fields.\<close>

record ps_row = ps_container +
  pr_image :: string
  pr_state :: string

definition text_or :: "json option \<Rightarrow> string \<Rightarrow> string" where
  "text_or x d = (case x of Some (JStr s) \<Rightarrow> if s = [] then d else s | _ \<Rightarrow> d)"

definition ps_entry :: "json \<Rightarrow> ps_row list" where
  "ps_entry j =
     (case j of
        JObj m \<Rightarrow>
          (case map_of m ''Names'' of
             Some (JList (JStr n # rest)) \<Rightarrow>
               if n = [] then []
               else [\<lparr>pc_name = n, pc_running = (text_or (map_of m ''State'') ''unknown'' = ''running''),
                      pc_stack = (case map_of m ''Labels'' of
                          Some (JObj ls) \<Rightarrow> (case map_of ls ''hosty.stack'' of Some (JStr s) \<Rightarrow> Some s | _ \<Rightarrow> None) | _ \<Rightarrow> None),
                      pr_image = text_or (map_of m ''Image'') [], pr_state = text_or (map_of m ''State'') ''unknown''\<rparr>]
           | _ \<Rightarrow> [])
      | _ \<Rightarrow> [])"

text \<open>\<open>loads\<close> is \<open>json.loads\<close>, \<open>None\<close> when it raises; states, images and labels are strings there.\<close>

definition parse_ps :: "(string \<Rightarrow> json option) \<Rightarrow> string \<Rightarrow> ps_row list" where
  "parse_ps loads out =
     (case loads (if strip out = [] then ''[]'' else strip out) of Some (JList js) \<Rightarrow> concat (map ps_entry js) | _ \<Rightarrow> [])"

definition parse_digest :: "string \<Rightarrow> string option" where
  "parse_digest out = (if strip out \<noteq> [] \<and> contains (strip out) ''@sha256:'' then Some (strip out) else None)"

definition podman_run :: "'w runner \<Rightarrow> string list res \<Rightarrow> ('w, command_result) act" where
  "podman_run = run_checked (\<lambda>_. podman_error) podman_unavailable"

text \<open>The result of the removal is not looked at.\<close>

definition remove_stack_containers :: "'w runner \<Rightarrow> int \<Rightarrow> string \<Rightarrow> ('w, unit) act" where
  "remove_stack_containers sh uid st =
     bind_act (run_or_default [] (\<lambda>r. words (cr_stdout r)) sh (build_stack_ps_ids_argv uid st)) (\<lambda>ids.
       if ids = [] then ret_act ()
       else run_or_default () (\<lambda>_. ()) sh (bind_res (podman_base uid) (\<lambda>b. Inr (b @ [''rm'', ''--force'', ''--''] @ ids))))"

definition podman_ps :: "(string \<Rightarrow> json option) \<Rightarrow> 'w runner \<Rightarrow> int \<Rightarrow> ('w, ps_row list) act" where
  "podman_ps loads sh uid =
     run_or_default [] (\<lambda>r. if cr_returncode r = 0 then parse_ps loads (cr_stdout r) else []) sh (build_ps_argv uid)"

definition pull_image :: "'w runner \<Rightarrow> int \<Rightarrow> string \<Rightarrow> ('w, unit) act" where
  "pull_image sh uid img = bind_act (podman_run sh (build_pull_argv uid img)) (\<lambda>_. ret_act ())"

definition resolve_digest :: "'w runner \<Rightarrow> int \<Rightarrow> string \<Rightarrow> ('w, string option) act" where
  "resolve_digest sh uid img =
     bind_act (podman_run sh (build_image_digest_argv uid img)) (\<lambda>r. ret_act (parse_digest (cr_stdout r)))"

text \<open>For these two the exit status is for the caller to judge.\<close>

definition exec_in :: "'w runner \<Rightarrow> int \<Rightarrow> string \<Rightarrow> string list \<Rightarrow> (string, string) fmap \<Rightarrow> bool \<Rightarrow> ('w, command_result) act" where
  "exec_in sh uid container command env interactive =
     bind_act (lift_res (build_exec_argv uid container command env interactive)) (\<lambda>av w. case sh av w of
         (Inl e, w') \<Rightarrow> (Inl (if e = CommandNotFoundError then podman_unavailable else e), w') | r \<Rightarrow> r)"

definition run_transient :: "'w runner \<Rightarrow> int \<Rightarrow> string \<Rightarrow> string list \<Rightarrow> run_options \<Rightarrow> ('w, command_result) act" where
  "run_transient sh uid img command ro =
     bind_act (lift_res (build_run_argv uid img command ro)) (\<lambda>av w. case sh av w of
         (Inl e, w') \<Rightarrow> (Inl (if e = CommandNotFoundError then podman_unavailable else e), w') | r \<Rightarrow> r)"

subsection \<open>Units of the system and of a tenant\<close>

definition unit_rx :: rx where
  "unit_rx = Seq (cls [is_lower, is_upper, is_digit] []) (upto_rx 63 (cls [is_lower, is_upper, is_digit] '':_.@-''))"

definition validate_unit :: "string \<Rightarrow> string res" where
  "validate_unit u = (if fullmatch unit_rx u then Inr u else Inl InvalidCommandError)"

definition show_properties :: string where
  "show_properties = ''--property=LoadState,ActiveState,SubState,UnitFileState''"

definition build_status_argv :: "string \<Rightarrow> string list res" where
  "build_status_argv u = bind_res (validate_unit u) (\<lambda>u. Inr [''systemctl'', ''show'', u, show_properties, ''--no-pager''])"

definition build_control_argv :: "string \<Rightarrow> string \<Rightarrow> string list res" where
  "build_control_argv action u =
     bind_res (guard (action \<in> set [''start'', ''stop'', ''restart'', ''reload'', ''enable'', ''disable'']) InvalidCommandError) (\<lambda>_.
     bind_res (validate_unit u) (\<lambda>u. Inr [''systemctl'', action, u]))"

record service_status =
  ss_unit :: string
  ss_available :: bool
  ss_active_state :: string
  ss_sub_state :: string
  ss_enabled :: string

text \<open>\<open>str.splitlines\<close>, up to empty lines.\<close>

definition line_break :: "char \<Rightarrow> bool" where
  "line_break c \<longleftrightarrow> c \<in> set [CHR 0x0A, CHR 0x0B, CHR 0x0C, CHR 0x0D, CHR 0x1C, CHR 0x1D, CHR 0x1E, CHR 0x85]"

definition splitlines :: "string \<Rightarrow> string list" where
  "splitlines s = split_char nl (map (\<lambda>c. if line_break c then nl else c) s)"

definition parse_show_output :: "string \<Rightarrow> string \<Rightarrow> service_status" where
  "parse_show_output u out =
     (let props = dict_of (concat (map (\<lambda>l. case partition_char CHR ''='' l of (k, found, x) \<Rightarrow> if found then [(k, x)] else [])
                    (splitlines out)))
      in \<lparr>ss_unit = u, ss_available = (fmget props ''LoadState'' ''not-found'' = ''loaded''),
          ss_active_state = fmget props ''ActiveState'' ''unknown'', ss_sub_state = fmget props ''SubState'' ''unknown'',
          ss_enabled = fmget props ''UnitFileState'' ''unknown''\<rparr>)"

definition unavailable :: "string \<Rightarrow> service_status" where
  "unavailable u = \<lparr>ss_unit = u, ss_available = False, ss_active_state = ''unknown'', ss_sub_state = ''unknown'', ss_enabled = ''unknown''\<rparr>"

definition status_of :: "'w runner \<Rightarrow> string list res \<Rightarrow> string \<Rightarrow> ('w, service_status) act" where
  "status_of sh argv u =
     run_or_default (unavailable u) (\<lambda>r. if cr_returncode r = 0 then parse_show_output u (cr_stdout r) else unavailable u) sh argv"

definition systemd_status :: "'w runner \<Rightarrow> string \<Rightarrow> ('w, service_status) act" where
  "systemd_status sh u = status_of sh (build_status_argv u) u"

definition systemd_error :: exn where "systemd_error = AppError 502 ''systemd_error''"

definition systemd_control :: "'w runner \<Rightarrow> string \<Rightarrow> string \<Rightarrow> ('w, service_status) act" where
  "systemd_control sh action u =
     bind_act (run_checked (\<lambda>_. systemd_error) systemd_error sh (build_control_argv action u)) (\<lambda>_. systemd_status sh u)"

definition user_systemctl :: "string \<Rightarrow> string list \<Rightarrow> string list res" where
  "user_systemctl user args =
     bind_res (validate_tenant_username user) (\<lambda>u. Inr ([''systemctl'', ''--machine'', u @ ''@.host'', ''--user''] @ args))"

definition build_daemon_reload_argv :: "string \<Rightarrow> string list res" where
  "build_daemon_reload_argv user = user_systemctl user [''daemon-reload'']"

definition build_user_control_argv :: "string \<Rightarrow> string \<Rightarrow> string \<Rightarrow> string list res" where
  "build_user_control_argv user action u =
     bind_res (guard (action \<in> set [''start'', ''stop'', ''restart'']) InvalidCommandError) (\<lambda>_.
     bind_res (user_systemctl user [action]) (\<lambda>argv. bind_res (validate_unit u) (\<lambda>u. Inr (argv @ [u]))))"

definition build_show_argv :: "string \<Rightarrow> string \<Rightarrow> string list res" where
  "build_show_argv user u =
     bind_res (user_systemctl user [''show'']) (\<lambda>argv. bind_res (validate_unit u) (\<lambda>u. Inr (argv @ [u, show_properties, ''--no-pager''])))"

definition build_is_active_argv :: "string \<Rightarrow> string \<Rightarrow> string list res" where
  "build_is_active_argv user u =
     bind_res (user_systemctl user [''is-active'', ''--quiet'']) (\<lambda>argv. bind_res (validate_unit u) (\<lambda>u. Inr (argv @ [u])))"

definition build_journal_argv :: "string \<Rightarrow> string \<Rightarrow> int \<Rightarrow> int \<Rightarrow> string list res" where
  "build_journal_argv user u uid tail =
     bind_res (validate_tenant_username user) (\<lambda>_.
     bind_res (guard (0 < uid) InvalidCommandError) (\<lambda>_.
     bind_res (validate_unit u) (\<lambda>u.
     Inr [''journalctl'', ''_UID='' @ int_str uid, ''_SYSTEMD_USER_UNIT='' @ u, ''-n'', int_str (max 1 (min tail 5000)),
          ''--no-pager'', ''--output'', ''short-iso''])))"

definition detail :: "command_result \<Rightarrow> string" where
  "detail r = take 400 (if strip (cr_stderr r) \<noteq> [] then strip (cr_stderr r)
     else if strip (cr_stdout r) \<noteq> [] then strip (cr_stdout r) else ''unknown error'')"

definition systemd_user_run :: "'w runner \<Rightarrow> string list res \<Rightarrow> string \<Rightarrow> ('w, command_result) act" where
  "systemd_user_run sh argv what =
     run_checked (\<lambda>r. SystemdUserError (what @ '' failed: '' @ detail r)) (SystemdUserError ''systemd is not available on this host'') sh argv"

definition user_daemon_reload :: "'w runner \<Rightarrow> string \<Rightarrow> ('w, unit) act" where
  "user_daemon_reload sh user =
     bind_act (systemd_user_run sh (build_daemon_reload_argv user) (''daemon-reload for '' @ user)) (\<lambda>_. ret_act ())"

definition user_control :: "'w runner \<Rightarrow> string \<Rightarrow> string \<Rightarrow> string \<Rightarrow> ('w, unit) act" where
  "user_control sh user action u =
     bind_act (systemd_user_run sh (build_user_control_argv user action u) (action @ '' '' @ u @ '' for '' @ user)) (\<lambda>_. ret_act ())"

definition user_status :: "'w runner \<Rightarrow> string \<Rightarrow> string \<Rightarrow> ('w, service_status) act" where
  "user_status sh user u = status_of sh (build_show_argv user u) u"

definition user_is_active :: "'w runner \<Rightarrow> string \<Rightarrow> string \<Rightarrow> ('w, bool) act" where
  "user_is_active sh user u = run_or_default False (\<lambda>r. cr_returncode r = 0) sh (build_is_active_argv user u)"

definition user_journal :: "'w runner \<Rightarrow> string \<Rightarrow> string \<Rightarrow> int \<Rightarrow> int \<Rightarrow> ('w, string) act" where
  "user_journal sh user u uid tail =
     bind_act (systemd_user_run sh (build_journal_argv user u uid tail) (''journal read for '' @ u)) (\<lambda>r. ret_act (cr_stdout r))"

end
