(* ===== verification/WordPress.thy ===== *)
theory WordPress
  imports Blueprints Commands
begin

text \<open>
  The WordPress blueprint, \<open>orchestration/blueprints/wordpress.py\<close>: its inputs and their validators, the
  rendered stack, the actions that run WP-CLI in a container of their own, those that change the rows,
  and the dump and import of its database for backups.  Random secrets are arguments.
\<close>

definition wp_cli_image :: string where
  "wp_cli_image = ''docker.io/library/wordpress:cli-php8.3@sha256:744d4cbfb63d6ed90808cf87d99f822ed569c9cec714f602ca7d2fc955892455''"

definition adminer_image :: string where
  "adminer_image = ''docker.io/library/adminer:4@sha256:ee94dcfafed929cdd6e0bc25e74ce1bf92b71e5c9a7e94e9fee5e3993e7d49dd''"

definition files_image :: string where
  "files_image = ''docker.io/filebrowser/filebrowser:v2@sha256:9805b21cf910f3ef6f4a1c8f441f1dd6cc4197136f9541fe2a1ab6d050706e4b''"

definition mariadb_image :: string where
  "mariadb_image = ''docker.io/library/mariadb:11.4@sha256:1b46b73d4b629022dfa29e6db3bb0d63b5df714fc3bfbe5057d63d76d8f6054b''"

definition salt_env_keys :: "string list" where
  "salt_env_keys = [''WORDPRESS_AUTH_KEY'', ''WORDPRESS_SECURE_AUTH_KEY'', ''WORDPRESS_LOGGED_IN_KEY'', ''WORDPRESS_NONCE_KEY'',
     ''WORDPRESS_AUTH_SALT'', ''WORDPRESS_SECURE_AUTH_SALT'', ''WORDPRESS_LOGGED_IN_SALT'', ''WORDPRESS_NONCE_SALT'']"

definition php_series :: "string list" where "php_series = [''8.2'', ''8.3'', ''8.4'']"

definition wp_image :: "string \<Rightarrow> string res" where
  "wp_image php =
     (case map_of
        [(''8.2'', ''1e6215749283955d5c9ffea6c297651ed23cdfdbb91677ad7abd705b2682f2cf''),
         (''8.3'', ''30bff39330d1693b0ce13d32fc9b7bb67193064f040b7d60d3494e136fa599d4''),
         (''8.4'', ''da2a1ff20daa435abf260853ebfd829b1f5f9b8400938940c7393f786a63bf94'')] php of
        None \<Rightarrow> Inl KeyError
      | Some digest \<Rightarrow> Inr (''docker.io/library/wordpress:6.8-php'' @ php @ ''-apache@sha256:'' @ digest))"

text \<open>The search for \<open>php(8\.[234])-apache\<close>.\<close>

fun find_php :: "string \<Rightarrow> string option" where
  "find_php [] = None"
| "find_php (c # s) =
     (if startswith (c # s) ''php8.'' \<and> length s > 5 \<and> s ! 4 \<in> set ''234'' \<and> startswith (drop 5 s) ''-apache''
      then Some (''8.'' @ [s ! 4]) else find_php s)"

definition php_series_of :: "string \<Rightarrow> string" where
  "php_series_of img = (case find_php img of None \<Rightarrow> ''8.3'' | Some v \<Rightarrow> v)"

definition derive_salts :: "string \<Rightarrow> (string \<times> string) list" where
  "derive_salts seed = map (\<lambda>key. (key, sha256_hex (encode (''hosty-wp-salt:'' @ seed @ '':'' @ key)))) salt_env_keys"

subsection \<open>Inputs\<close>

record wp_inputs =
  wi_domain :: string
  wi_title :: string
  wi_admin_user :: string
  wi_admin_email :: string
  wi_php_version :: string
  wi_locale :: string
  wi_behind_cloudflare :: bool

definition email_part :: rx where
  "email_part = plus_rx (Cls (\<lambda>c. c \<noteq> CHR ''@'' \<and> \<not> is_space c))"

definition email_rx :: rx where
  "email_rx = Seq email_part (Seq (lit ''@'') (Seq email_part (Seq (lit ''.'') email_part)))"

definition admin_user_rx :: rx where
  "admin_user_rx = plus_rx (cls [is_lower, is_upper, is_digit] ''_.-@ '')"

definition locale_rx :: rx where
  "locale_rx = Seq (exactly_rx 2 (cls [is_lower] [])) (Seq (lit ''_'') (exactly_rx 2 (cls [is_upper] [])))"

definition wp_inputs_ok :: "wp_inputs \<Rightarrow> bool" where
  "wp_inputs_ok x \<longleftrightarrow> length (wi_domain x) \<le> 253 \<and> 1 \<le> length (wi_title x) \<and> length (wi_title x) \<le> 200
     \<and> 3 \<le> length (wi_admin_user x) \<and> length (wi_admin_user x) \<le> 60 \<and> length (wi_admin_email x) \<le> 254
     \<and> fullmatch email_rx (wi_admin_email x) \<and> fullmatch admin_user_rx (wi_admin_user x)
     \<and> wi_php_version x \<in> set php_series \<and> fullmatch locale_rx (wi_locale x)"

subsection \<open>Rendering\<close>

definition wp_secrets :: "inputs \<Rightarrow> string list" where
  "wp_secrets _ = [''db_password'']"

definition web_env :: "string \<Rightarrow> string \<Rightarrow> (string, string) fmap" where
  "web_env name password = dict_of
     ([(''WORDPRESS_DB_HOST'', name @ ''-db''), (''WORDPRESS_DB_NAME'', ''wordpress''), (''WORDPRESS_DB_USER'', ''wordpress''),
       (''WORDPRESS_DB_PASSWORD'', password)] @ derive_salts password)"

definition db_env :: "string \<Rightarrow> (string, string) fmap" where
  "db_env password = dict_of
     [(''MARIADB_RANDOM_ROOT_PASSWORD'', ''1''), (''MARIADB_DATABASE'', ''wordpress''), (''MARIADB_USER'', ''wordpress''),
      (''MARIADB_PASSWORD'', password)]"

definition wp_render :: "string \<Rightarrow> wp_inputs \<Rightarrow> allocation \<Rightarrow> stack_spec res" where
  "wp_render name x alloc =
     (case map_of (rev (al_secrets alloc)) ''db_password'' of None \<Rightarrow> Inl KeyError | Some password \<Rightarrow>
     bind_res (wp_image (wi_php_version x)) (\<lambda>img.
     bind_res (service_post_init ((new_service ''web'' img)
       \<lparr>s_env := sorted_items (web_env name password), s_internal_port := Some 80, s_is_web := True\<rparr>)) (\<lambda>web.
     bind_res (service_post_init ((new_service ''db'' mariadb_image)\<lparr>s_env := sorted_items (db_env password)\<rparr>)) (\<lambda>db.
     bind_res (service_post_init ((new_service ''adminer'' adminer_image)\<lparr>s_internal_port := Some 8080\<rparr>)) (\<lambda>adminer.
     bind_res (service_post_init ((new_service ''files'' files_image)\<lparr>s_internal_port := Some 80\<rparr>)) (\<lambda>files.
     bind_res (volume_post_init \<lparr>v_name = ''html'', v_service = ''web'', v_mount_path = ''/var/www/html''\<rparr>) (\<lambda>v1.
     bind_res (volume_post_init \<lparr>v_name = ''db-data'', v_service = ''db'', v_mount_path = ''/var/lib/mysql''\<rparr>) (\<lambda>v2.
     bind_res (volume_post_init \<lparr>v_name = ''html'', v_service = ''files'', v_mount_path = ''/srv''\<rparr>) (\<lambda>v3.
     bind_res (endpoint_post_init \<lparr>e_domain = wi_domain x, e_service = ''web'', e_behind_cloudflare = wi_behind_cloudflare x\<rparr>) (\<lambda>e.
     new_stack_spec name alloc [web, db, adminer, files] [v1, v2, v3] [e]))))))))))"

definition wp_health :: "(string, bool) fmap \<Rightarrow> bool" where
  "wp_health active \<longleftrightarrow> fmget active ''web'' False \<and> fmget active ''db'' False"

subsection \<open>WP-CLI\<close>

definition input_text :: "inputs \<Rightarrow> string \<Rightarrow> string \<Rightarrow> string" where
  "input_text inputs key fallback =
     (if json_truthy (map_of inputs key) then py_str (the (map_of inputs key)) else fallback)"

definition wp_uid :: "ledger \<Rightarrow> stack_row \<Rightarrow> int res" where
  "wp_uid rows k =
     (case sk_owner k of None \<Rightarrow> Inl RuntimeError
      | Some owner \<Rightarrow> (case find (\<lambda>t. tn_linux_user t = ''hosty-t-'' @ int_str owner) rows of
          None \<Rightarrow> Inl RuntimeError
        | Some t \<Rightarrow> (case tn_uid t of None \<Rightarrow> Inl RuntimeError | Some uid \<Rightarrow> Inr uid)))"

definition wp_cli_argv :: "ledger \<Rightarrow> stack_row \<Rightarrow> string list \<Rightarrow> string list res" where
  "wp_cli_argv rows k args =
     bind_res (wp_uid rows k) (\<lambda>uid.
     let tenant = ''hosty-t-'' @ int_str (the (sk_owner k))
     in bind_res (volume_host_dir tenant (sk_name k) ''html'') (\<lambda>html.
        bind_res (env_file_path tenant (sk_name k) ''web'') (\<lambda>env_file.
        build_run_argv uid wp_cli_image (''wp'' # args)
          \<lparr>ro_network = ''hosty-'' @ sk_name k, ro_volumes = [(html, ''/var/www/html'')], ro_env_file = Some env_file,
           ro_user = Some ''33:33'', ro_workdir = Some ''/var/www/html''\<rparr>)))"

definition wp_cli :: "'w runner \<Rightarrow> ledger \<Rightarrow> stack_row \<Rightarrow> string list \<Rightarrow> ('w, command_result) act" where
  "wp_cli sh rows k args =
     bind_act (lift_res (wp_cli_argv rows k args)) (\<lambda>av w. case sh av w of
         (Inl e, w') \<Rightarrow> (Inl (if e = CommandNotFoundError then podman_unavailable else e), w') | r \<Rightarrow> r)"

definition failure :: "string \<Rightarrow> action_result" where
  "failure text = \<lparr>ar_ok = False, ar_message = text, ar_data = [], ar_show_once = []\<rparr>"

definition success :: "string \<Rightarrow> action_result" where
  "success text = \<lparr>ar_ok = True, ar_message = text, ar_data = [], ar_show_once = []\<rparr>"

definition stderr_or :: "command_result \<Rightarrow> string \<Rightarrow> string" where
  "stderr_or r d = (if strip (cr_stderr r) = [] then d else strip (cr_stderr r))"

definition result_from_command :: "command_result \<Rightarrow> action_result" where
  "result_from_command r = (if cr_returncode r \<noteq> 0 then failure (stderr_or r ''command failed'') else success [])"

definition is_installed :: "'w runner \<Rightarrow> ledger \<Rightarrow> stack_row \<Rightarrow> ('w, bool) act" where
  "is_installed sh rows k = bind_act (wp_cli sh rows k [''core'', ''is-installed'']) (\<lambda>r. ret_act (cr_returncode r = 0))"

definition install_args :: "inputs \<Rightarrow> string \<Rightarrow> string list" where
  "install_args inputs password =
     [''core'', ''install'', ''--url=https://'' @ input_text inputs ''domain'' [], ''--title='' @ input_text inputs ''title'' [],
      ''--admin_user='' @ input_text inputs ''admin_user'' [], ''--admin_password='' @ password,
      ''--admin_email='' @ input_text inputs ''admin_email'' [], ''--locale='' @ input_text inputs ''locale'' ''en_US'', ''--skip-email'']"

definition wp_install :: "string \<Rightarrow> 'w runner \<Rightarrow> ledger \<Rightarrow> stack_row \<Rightarrow> inputs \<Rightarrow> ('w, action_result) act" where
  "wp_install password sh rows k inputs =
     bind_act (is_installed sh rows k) (\<lambda>yes.
       if yes then ret_act (failure ''WordPress is already installed'')
       else bind_act (wp_cli sh rows k (install_args inputs password)) (\<lambda>r.
         ret_act (if cr_returncode r \<noteq> 0 then failure (stderr_or r ''install failed'')
           else (success [])\<lparr>ar_show_once := [(''admin_password'', password)]\<rparr>)))"

definition output_of :: "'w runner \<Rightarrow> ledger \<Rightarrow> stack_row \<Rightarrow> string list \<Rightarrow> ('w, string) act" where
  "output_of sh rows k args =
     bind_act (wp_cli sh rows k args) (\<lambda>r. ret_act (if cr_returncode r = 0 then strip (cr_stdout r) else []))"

text \<open>\<open>updates[0].get("version") if updates else None\<close>; \<open>loads\<close> is \<open>json.loads\<close>.\<close>

definition first_version :: "json \<Rightarrow> json res" where
  "first_version updates =
     (if \<not> json_truthy (Some updates) then Inr JNull
      else case updates of
        JList (JObj m # rest) \<Rightarrow> Inr (lookup_or m ''version'' JNull)
      | JList (x # rest) \<Rightarrow> Inl AttributeError
      | JStr s \<Rightarrow> Inl AttributeError
      | JObj m \<Rightarrow> Inl KeyError
      | _ \<Rightarrow> Inl TypeError)"

definition count_of :: "string \<Rightarrow> int res" where
  "count_of text = (if text = [] then Inr 0 else py_int text)"

definition wp_status :: "(string \<Rightarrow> json option) \<Rightarrow> 'w runner \<Rightarrow> ledger \<Rightarrow> stack_row \<Rightarrow> ('w, action_result) act" where
  "wp_status loads sh rows k =
     bind_act (is_installed sh rows k) (\<lambda>yes.
       if \<not> yes then ret_act ((success [])\<lparr>ar_data := [(''installed'', JBool False)]\<rparr>)
       else bind_act (output_of sh rows k [''core'', ''check-update'', ''--format=json'']) (\<lambda>raw.
            bind_act (output_of sh rows k [''core'', ''version'']) (\<lambda>version.
            bind_act (lift_res (first_version (case loads (if raw = [] then ''[]'' else raw) of None \<Rightarrow> JList [] | Some j \<Rightarrow> j))) (\<lambda>update.
            bind_act (bind_act (output_of sh rows k [''plugin'', ''list'', ''--update=available'', ''--format=count'']) (lift_res \<circ> count_of)) (\<lambda>plugins.
            bind_act (bind_act (output_of sh rows k [''theme'', ''list'', ''--update=available'', ''--format=count'']) (lift_res \<circ> count_of)) (\<lambda>themes.
            ret_act ((success [])\<lparr>ar_data := [(''installed'', JBool True), (''version'', JStr version), (''update_available'', update),
              (''plugin_updates'', JInt plugins), (''theme_updates'', JInt themes)]\<rparr>)))))))"

definition simple_action :: "string list \<Rightarrow> 'w runner \<Rightarrow> ledger \<Rightarrow> stack_row \<Rightarrow> ('w, action_result) act" where
  "simple_action args sh rows k = bind_act (wp_cli sh rows k args) (\<lambda>r. ret_act (result_from_command r))"

definition core_update :: "'w runner \<Rightarrow> ledger \<Rightarrow> stack_row \<Rightarrow> ('w, action_result) act" where
  "core_update sh rows k =
     bind_act (simple_action [''core'', ''update''] sh rows k) (\<lambda>r.
       if \<not> ar_ok r then ret_act r else simple_action [''core'', ''update-db''] sh rows k)"

definition admin_login_link :: "'w runner \<Rightarrow> ledger \<Rightarrow> stack_row \<Rightarrow> ('w, action_result) act" where
  "admin_login_link sh rows k =
     bind_act (wp_cli sh rows k [''eval'', ''login-link'']) (\<lambda>r. ret_act
       (if cr_returncode r \<noteq> 0 \<or> strip (cr_stdout r) = [] then failure (stderr_or r ''login link unavailable'')
        else (success [])\<lparr>ar_show_once := [(''login_url'', strip (cr_stdout r))]\<rparr>))"

text \<open>The actions that only run a command.\<close>

definition cli_action :: "string \<Rightarrow> string \<Rightarrow> (string \<Rightarrow> json option) \<Rightarrow> ('w runner \<Rightarrow> ledger \<Rightarrow> stack_row \<Rightarrow> inputs \<Rightarrow> ('w, action_result) act) option" where
  "cli_action name password loads = map_of
     [(''install'', wp_install password),
      (''status'', \<lambda>sh rows k _. wp_status loads sh rows k),
      (''maintenance_on'', \<lambda>sh rows k _. simple_action [''maintenance-mode'', ''activate''] sh rows k),
      (''maintenance_off'', \<lambda>sh rows k _. simple_action [''maintenance-mode'', ''deactivate''] sh rows k),
      (''core_update'', \<lambda>sh rows k _. core_update sh rows k),
      (''plugins_update'', \<lambda>sh rows k _. simple_action [''plugin'', ''update'', ''--all''] sh rows k),
      (''themes_update'', \<lambda>sh rows k _. simple_action [''theme'', ''update'', ''--all''] sh rows k),
      (''admin_login_link'', \<lambda>sh rows k _. admin_login_link sh rows k)] name"

subsection \<open>Actions on the rows\<close>

definition find_row :: "panel_db \<Rightarrow> stack_row \<Rightarrow> string \<Rightarrow> service_row res" where
  "find_row d k name = (case find (\<lambda>s. w_name s = name) (stack_services d (sk_id k)) of None \<Rightarrow> Inl NoResultFound | Some s \<Rightarrow> Inr s)"

definition rotate_salts :: "vault \<Rightarrow> string \<Rightarrow> action_handler" where
  "rotate_salts v seed k inputs params d =
     (case bind_res (find_row d k ''web'') (\<lambda>s. decrypt_env v (w_env s)) of
        Inl e \<Rightarrow> (Inl e, d)
      | Inr env \<Rightarrow> (Inr (success ''Salts rotated''),
          bump (sk_id k) (update_service (sk_id k) ''web''
            (\<lambda>s. s\<lparr>w_env := encrypt_env v (env ++\<^sub>f dict_of (derive_salts seed))\<rparr>) d)))"

definition switch_php :: action_handler where
  "switch_php k inputs params d =
     (let php = py_str (lookup_or params ''php_version'' (JStr []))
      in if php \<notin> set php_series then (Inr (failure ''Unsupported PHP version''), d)
         else case find_row d k ''web'' of Inl e \<Rightarrow> (Inl e, d) | Inr s \<Rightarrow>
           if php_series_of (w_image s) = php then (Inr (success ''PHP version already selected''), d)
           else (case wp_image php of Inl e \<Rightarrow> (Inl e, d) | Inr img \<Rightarrow>
             (Inr (success (''Switched to PHP '' @ php)),
              bump (sk_id k) (update_service (sk_id k) ''web'' (\<lambda>s. s\<lparr>w_image := img\<rparr>) d))))"

definition row_action :: "vault \<Rightarrow> string \<Rightarrow> string \<Rightarrow> action_handler option" where
  "row_action v seed name = map_of [(''rotate_salts'', rotate_salts v seed), (''switch_php'', switch_php)] name"

subsection \<open>Backups\<close>

definition db_password :: "vault \<Rightarrow> panel_db \<Rightarrow> stack_row \<Rightarrow> string res" where
  "db_password v d k =
     bind_res (find_row d k ''db'') (\<lambda>s. bind_res (decrypt_env v (w_env s)) (\<lambda>env.
       case fmlookup env ''MARIADB_PASSWORD'' of None \<Rightarrow> Inl KeyError | Some p \<Rightarrow> Inr p))"

text \<open>\<open>mariadb-dump\<close> writes to a file of the backup, \<open>mariadb\<close> reads it.\<close>

definition in_database :: "vault \<Rightarrow> 'w runner \<Rightarrow> ledger \<Rightarrow> panel_db \<Rightarrow> stack_row \<Rightarrow> string \<Rightarrow> bool \<Rightarrow> ('w, unit) act" where
  "in_database v sh rows d k program interactive =
     bind_act (lift_res (bind_res (wp_uid rows k) (\<lambda>uid. bind_res (db_password v d k) (\<lambda>p. Inr (uid, p))))) (\<lambda>(uid, password).
     bind_act (exec_in sh uid (sk_name k @ ''-db'') [program, ''-u'', ''wordpress'', ''wordpress'']
       (dict_of [(''MYSQL_PWD'', password)]) interactive) (\<lambda>r.
     if cr_returncode r = 0 then ret_act () else raise_act RuntimeError))"

definition pre_backup :: "vault \<Rightarrow> 'w runner \<Rightarrow> ledger \<Rightarrow> panel_db \<Rightarrow> stack_row \<Rightarrow> ('w, unit) act" where
  "pre_backup v sh rows d k = in_database v sh rows d k ''mariadb-dump'' False"

definition post_restore :: "vault \<Rightarrow> 'w runner \<Rightarrow> ledger \<Rightarrow> panel_db \<Rightarrow> stack_row \<Rightarrow> bool \<Rightarrow> ('w, unit) act" where
  "post_restore v sh rows d k dumped = (if \<not> dumped then ret_act () else in_database v sh rows d k ''mariadb'' True)"

end
