(* ===== verification/Registry.thy ===== *)
theory Registry
  imports WordPress
begin

text \<open>
  The blueprints as the routes see them, and their registry, \<open>orchestration/blueprints/__init__.py\<close> and
  \<open>base.py\<close>: three built-in blueprints, then one for every template file whose name is still free and
  which parses.  The models of pydantic are the record \<open>input_models\<close>: each reads the raw inputs, or
  fails; the constraints of the fields and the validators of the program are checked here.  The version
  of a template is an integer.
\<close>

record input_models =
  im_image :: "inputs \<Rightarrow> raw_image_inputs option"
  im_wordpress :: "inputs \<Rightarrow> wp_inputs option"
  im_git :: "inputs \<Rightarrow> git_inputs option"

definition checked_by :: "('a \<Rightarrow> bool) \<Rightarrow> (inputs \<Rightarrow> 'a option) \<Rightarrow> inputs \<Rightarrow> inputs option" where
  "checked_by ok read raw = (case read raw of None \<Rightarrow> None | Some x \<Rightarrow> if ok x then Some raw else None)"

text \<open>A blueprint renders what its model has read before.\<close>

definition rendered_by :: "(string \<Rightarrow> 'a \<Rightarrow> allocation \<Rightarrow> stack_spec res) \<Rightarrow> (inputs \<Rightarrow> 'a option)
    \<Rightarrow> string \<Rightarrow> inputs \<Rightarrow> allocation \<Rightarrow> stack_spec res" where
  "rendered_by render read name raw alloc = (case read raw of None \<Rightarrow> Inl AssertionError | Some x \<Rightarrow> render name x alloc)"

definition raw_image_blueprint :: "input_models \<Rightarrow> blueprint" where
  "raw_image_blueprint im = \<lparr>bp_id = ''raw-image'', bp_version = 1, bp_parse = checked_by raw_image_inputs_ok (im_image im),
     bp_secrets = (\<lambda>_. []), bp_render = rendered_by raw_image_render (im_image im)\<rparr>"

definition wordpress_blueprint :: "input_models \<Rightarrow> blueprint" where
  "wordpress_blueprint im = \<lparr>bp_id = ''wordpress'', bp_version = 1, bp_parse = checked_by wp_inputs_ok (im_wordpress im),
     bp_secrets = wp_secrets, bp_render = rendered_by wp_render (im_wordpress im)\<rparr>"

definition git_blueprint :: "templating \<Rightarrow> input_models \<Rightarrow> blueprint" where
  "git_blueprint tp im = \<lparr>bp_id = ''git'', bp_version = 1, bp_parse = checked_by (\<lambda>_. True) (im_git im),
     bp_secrets = (\<lambda>_. []), bp_render = rendered_by (git_render tp) (im_git im)\<rparr>"

definition compose_blueprint :: "templating \<Rightarrow> string \<Rightarrow> compose \<Rightarrow> blueprint" where
  "compose_blueprint tp stem c = \<lparr>bp_id = stem, bp_version = (case cb_version c of JInt n \<Rightarrow> n | _ \<Rightarrow> 1),
     bp_parse = tp_model tp (cb_fields c), bp_secrets = (\<lambda>_. cb_secrets c), bp_render = compose_render c\<rparr>"

type_synonym registry = "(string, blueprint) fmap"

definition register :: "blueprint \<Rightarrow> registry \<Rightarrow> registry res" where
  "register bp reg = (if bp_id bp |\<in>| fmdom reg then Inl ValueError else Inr (fmupd (bp_id bp) bp reg))"

definition get_blueprint :: "registry \<Rightarrow> string \<Rightarrow> blueprint option" where
  "get_blueprint reg b = fmlookup reg b"

definition list_blueprints :: "registry \<Rightarrow> blueprint list" where
  "list_blueprints reg = map (\<lambda>b. the (fmlookup reg b)) (sorted_keys reg)"

text \<open>The files of the directory of templates, as pairs of stem and content; one that fails is passed over.\<close>

fun register_templates :: "templating \<Rightarrow> (string \<times> string) list \<Rightarrow> registry \<Rightarrow> registry" where
  "register_templates tp [] reg = reg"
| "register_templates tp ((stem, content) # files) reg =
     register_templates tp files
       (if get_blueprint reg stem \<noteq> None then reg
        else case bind_res (tp_yaml tp content) compose_init of Inl e \<Rightarrow> reg
          | Inr c \<Rightarrow> (case register (compose_blueprint tp stem c) reg of Inl e \<Rightarrow> reg | Inr reg' \<Rightarrow> reg'))"

definition built_in :: "templating \<Rightarrow> input_models \<Rightarrow> registry res" where
  "built_in tp im =
     bind_res (register (raw_image_blueprint im) fmempty) (\<lambda>reg.
     bind_res (register (wordpress_blueprint im) reg) (\<lambda>reg. register (git_blueprint tp im) reg))"

definition all_blueprints :: "templating \<Rightarrow> input_models \<Rightarrow> (string \<times> string) list \<Rightarrow> registry res" where
  "all_blueprints tp im files = bind_res (built_in tp im) (\<lambda>reg. Inr (register_templates tp files reg))"

end
