(* ===== verification/ImageFacts.thy ===== *)
theory ImageFacts
  imports Images Loading
begin

text \<open>
  What an image lock is: a digest in front of which the reference asked for still stands, which is
  itself a reference of the grammar, and which resolves to itself.  What the locks of a stack mean for
  loading it, and what the automatic updates change.
\<close>

subsection \<open>References taken apart\<close>

definition hex64 :: "string \<Rightarrow> bool" where
  "hex64 d \<longleftrightarrow> fullmatch (exactly_rx 64 (cls [is_hex] [])) d"

definition name_rx :: rx where
  "name_rx =
     Seq (Seq (Seq (Seq alnum_l (Star (cls [is_lower, is_digit] ''._-'')))
       (optional (Seq (lit '':'') (between_rx 1 5 (cls [is_digit] [])))))
       (Star (Seq (lit ''/'') (plus_rx (cls [is_lower, is_upper, is_digit] ''._-'')))))
       (optional (Seq (lit '':'') (between_rx 1 128 (cls [is_lower, is_upper, is_digit] ''._-''))))"

lemma matches_Seq_assoc: "matches (Seq r (Seq p q)) s \<longleftrightarrow> matches (Seq (Seq r p) q) s"
  by (simp only: matches_simps(4)) (metis append.assoc)

lemma image_rx_parts:
  "fullmatch image_rx s \<longleftrightarrow> (\<exists>a b. s = a @ b \<and> matches name_rx a \<and> (b = [] \<or> (\<exists>d. b = ''@sha256:'' @ d \<and> hex64 d)))"
proof -
  have "matches image_rx s \<longleftrightarrow> matches (Seq name_rx (optional (Seq (lit ''@sha256:'') (exactly_rx 64 (cls [is_hex] []))))) s"
    unfolding image_rx_def name_rx_def by (simp only: matches_Seq_assoc)
  also have "\<dots> \<longleftrightarrow> (\<exists>a b. s = a @ b \<and> matches name_rx a \<and> (b = [] \<or> (\<exists>d. b = ''@sha256:'' @ d \<and> hex64 d)))"
    by (simp only: matches_simps(4) matches_optional matches_lit hex64_def fullmatch_iff) blast
  finally show ?thesis by (simp only: fullmatch_iff)
qed

lemma class_at [simp]: "\<not> is_lower CHR ''@''" "\<not> is_upper CHR ''@''" "\<not> is_digit CHR ''@''" "\<not> is_hex CHR ''@''"
  by (simp_all add: class_defs less_eq_char_def)

lemma class_not_at:
  "is_lower c \<Longrightarrow> c \<noteq> CHR ''@''" "is_upper c \<Longrightarrow> c \<noteq> CHR ''@''" "is_digit c \<Longrightarrow> c \<noteq> CHR ''@''"
  by auto

lemma name_no_at: "matches name_rx a \<Longrightarrow> CHR ''@'' \<notin> set a"
proof -
  have "rx_all (\<lambda>c. c \<noteq> CHR ''@'') name_rx" unfolding name_rx_def alnum_l_def by (simp add: class_not_at)
  then show "matches name_rx a \<Longrightarrow> CHR ''@'' \<notin> set a" using matches_chars by fastforce
qed

lemma partition_none: "d \<notin> set s \<Longrightarrow> partition_char d s = (s, False, [])"
  by (induction s) auto

lemma partition_some: "d \<notin> set s \<Longrightarrow> partition_char d (s @ d # r) = (s, True, r)"
  by (induction s) auto

lemma fst_partition: "CHR ''@'' \<notin> set a \<Longrightarrow> fst (partition_char CHR ''@'' (a @ CHR ''@'' # b)) = a"
  by (simp add: partition_some)

lemma qualify_prefix: "CHR ''@'' \<notin> set a \<Longrightarrow> qualify_image (a @ CHR ''@'' # b) = qualify_image a @ CHR ''@'' # b"
  by (auto simp: qualify_image_def Let_def partition_some partition_none split: prod.splits)

lemma qualify_no_at: "CHR ''@'' \<notin> set a \<Longrightarrow> CHR ''@'' \<notin> set (qualify_image a)"
  using qualify_image_cases [of a] by auto

lemma partition_found: "d \<in> set s \<Longrightarrow> \<exists>a b. partition_char d s = (a, True, b)"
proof (induction s)
  case (Cons c s)
  then show ?case by (cases "c = d") auto
qed simp

lemma qualify_slash:
  assumes "CHR ''@'' \<notin> set a"
  shows "CHR ''/'' \<in> set (qualify_image a)"
proof (cases "CHR ''/'' \<in> set a")
  case True
  then show ?thesis using qualify_image_cases [of a] by auto
next
  case False
  then show ?thesis using assms by (simp add: qualify_image_def Let_def partition_none)
qed

text \<open>An accepted reference is its name, qualified, and maybe a digest.\<close>

lemma image_parts:
  assumes "validate_image_ref img = Inr n"
  obtains a b where "img = a @ b" "n = qualify_image a @ b" "matches name_rx a" "b = [] \<or> (\<exists>d. b = ''@sha256:'' @ d \<and> hex64 d)"
proof -
  obtain a b where ab: "img = a @ b" "matches name_rx a" "b = [] \<or> (\<exists>d. b = ''@sha256:'' @ d \<and> hex64 d)"
    using assms image_rx_parts [of img] by (auto simp: validate_image_ref_def split: if_splits)
  have "qualify_image img = qualify_image a @ b"
    using ab(1,3) qualify_prefix [OF name_no_at [OF ab(2)]] by auto
  then have "n = qualify_image a @ b" using assms by (auto simp: validate_image_ref_def split: if_splits)
  then show ?thesis using that ab by blast
qed

text \<open>Parsing fails only where the grammar does: the error of a reference without a registry is never raised.\<close>

lemma parse_valid:
  assumes "validate_image_ref img = Inr n"
  shows "\<exists>r a b. parse_image_ref img = Inr r \<and> img = a @ b \<and> matches name_rx a \<and> ir_source r = qualify_image a
    \<and> (b = [] \<and> ir_digest r = None \<or> (\<exists>d. b = ''@sha256:'' @ d \<and> hex64 d \<and> ir_digest r = Some d))"
proof -
  from assms obtain a b where ab: "img = a @ b" "n = qualify_image a @ b" "matches name_rx a"
      "b = [] \<or> (\<exists>d. b = ''@sha256:'' @ d \<and> hex64 d)" by (rule image_parts)
  let ?q = "qualify_image a"
  have q: "CHR ''@'' \<notin> set ?q" "CHR ''/'' \<in> set ?q" using name_no_at [OF ab(3)] qualify_no_at qualify_slash by blast+
  obtain u v where uv: "partition_char CHR ''/'' ?q = (u, True, v)" using partition_found [OF q(2)] by blast
  show ?thesis
  proof (cases "b = []")
    case True
    then have "\<exists>r. parse_image_ref img = Inr r \<and> ir_source r = ?q \<and> ir_digest r = None"
      using assms ab(2) q(1) uv by (simp add: parse_image_ref_def Let_def partition_none)
    then show ?thesis using True ab(1,3) by blast
  next
    case False
    then obtain d where d: "b = ''@sha256:'' @ d" "hex64 d" using ab(4) by blast
    then have "\<exists>r. parse_image_ref img = Inr r \<and> ir_source r = ?q \<and> ir_digest r = Some d"
      using assms ab(2) q(1) uv by (simp add: parse_image_ref_def Let_def partition_some removeprefix_def startswith_def)
    then show ?thesis using d ab(1,3) by blast
  qed
qed

lemma parse_Inr:
  assumes "parse_image_ref img = Inr r"
  obtains a b where "validate_image_ref img = Inr (qualify_image img)" "img = a @ b" "matches name_rx a" "ir_source r = qualify_image a"
    "b = [] \<and> ir_digest r = None \<or> (\<exists>d. b = ''@sha256:'' @ d \<and> hex64 d \<and> ir_digest r = Some d)"
proof -
  obtain n where n: "validate_image_ref img = Inr n" using assms by (auto simp: parse_image_ref_def bind_res_eq_Inr)
  then have "n = qualify_image img" by (simp add: validate_image_ref_def split: if_splits)
  then show ?thesis using that n parse_valid [OF n] assms by auto
qed

lemma parse_error: "parse_image_ref img = Inl e \<Longrightarrow> e = SpecValidationError \<and> validate_image_ref img = Inl e"
proof (cases "validate_image_ref img")
  case (Inl e')
  then show "parse_image_ref img = Inl e \<Longrightarrow> e = SpecValidationError \<and> validate_image_ref img = Inl e"
    by (auto simp: parse_image_ref_def validate_image_ref_def split: if_splits)
next
  case (Inr n)
  then show "parse_image_ref img = Inl e \<Longrightarrow> e = SpecValidationError \<and> validate_image_ref img = Inl e" using parse_valid [OF Inr] by auto
qed

subsection \<open>Locks\<close>

lemma source_again:
  assumes "parse_image_ref img = Inr r" "parse_image_ref (ir_source r) = Inr r'"
  shows "ir_source r' = ir_source r \<and> matches name_rx (ir_source r)"
proof -
  from assms(1) obtain a where a: "matches name_rx a" "ir_source r = qualify_image a" by (rule parse_Inr)
  have "CHR ''@'' \<notin> set (ir_source r)" using a name_no_at qualify_no_at by simp
  from assms(2) obtain a' b' where b: "ir_source r = a' @ b'" "matches name_rx a'" "ir_source r' = qualify_image a'"
      "b' = [] \<or> (\<exists>d. b' = ''@sha256:'' @ d)" by (rule parse_Inr) blast
  with \<open>CHR ''@'' \<notin> set (ir_source r)\<close> have "b' = []" by auto
  then show ?thesis using a(2) b qualify_image_idem by simp
qed

lemma hub_Inr:
  assumes "resolve_docker_hub hub r = Inr x" "parse_image_ref img = Inr r"
  shows "\<exists>d. x = ir_source r @ ''@sha256:'' @ d \<and> hex64 d \<and> matches name_rx (ir_source r)
     \<and> hub (ir_repository r) (the (ir_tag r)) = Inr (''sha256:'' @ d)"
proof -
  obtain dd r' where h: "hub (ir_repository r) (the (ir_tag r)) = Inr dd" "startswith dd ''sha256:''"
      "parse_image_ref (ir_source r) = Inr r'" "hex64 (drop (length ''sha256:'') dd)" "x = ir_source r' @ ''@sha256:'' @ drop (length ''sha256:'') dd"
    using assms(1) by (auto simp: resolve_docker_hub_def pinned_ref_def bind_res_eq_Inr Let_def hex64_def removeprefix_def)
  have "dd = ''sha256:'' @ drop (length ''sha256:'') dd"
    using h(2) append_take_drop_id [of "length ''sha256:''" dd] unfolding startswith_def by metis
  then show ?thesis using h source_again [OF assms(2) h(3)] by metis
qed

lemma hex64_length: "hex64 d \<Longrightarrow> length d = 64"
  unfolding hex64_def fullmatch_iff cls_def by (simp add: matches_exactly_length)

lemma resolve_Some:
  assumes "resolve_digest_ref hub img = Inr (Some x)"
  obtains r d where "parse_image_ref img = Inr r" "x = ir_source r @ ''@sha256:'' @ d" "hex64 d"
    "ir_digest r = Some d \<or> ir_digest r = None \<and> matches name_rx (ir_source r) \<and> ir_registry r = ''docker.io''
       \<and> hub (ir_repository r) (the (ir_tag r)) = Inr (''sha256:'' @ d)"
proof -
  obtain r where r: "parse_image_ref img = Inr r" using assms by (auto simp: resolve_digest_ref_def bind_res_eq_Inr)
  from r have dig: "ir_digest r = None \<or> (\<exists>d. hex64 d \<and> ir_digest r = Some d)" by (rule parse_Inr) blast
  show ?thesis
  proof (cases "ir_digest r")
    case None
    then have "resolve_docker_hub hub r = Inr x" "ir_registry r = ''docker.io''"
      using assms r by (auto simp: resolve_digest_ref_def truthy_def bind_res_eq_Inr split: if_splits)
    then show ?thesis using hub_Inr [OF _ r] None that r by blast
  next
    case (Some d)
    then have "hex64 d" using dig by simp
    then have "d \<noteq> []" using hex64_length by force
    then have "x = ir_source r @ ''@sha256:'' @ d"
      using assms r Some by (simp add: resolve_digest_ref_def truthy_def)
    then show ?thesis using that r Some \<open>hex64 d\<close> by blast
  qed
qed

lemma lock_valid:
  assumes "resolve_digest_ref hub img = Inr (Some x)" "qualify_image img = img" "length x \<le> 512"
  shows "validate_image_ref x = Inr x"
proof -
  from assms(1) obtain r d where x: "parse_image_ref img = Inr r" "x = ir_source r @ ''@sha256:'' @ d" "hex64 d"
    "ir_digest r = Some d \<or> ir_digest r = None \<and> matches name_rx (ir_source r)" by (rule resolve_Some) blast
  from x(1) obtain a b where ab: "validate_image_ref img = Inr (qualify_image img)" "img = a @ b" "matches name_rx a"
      "ir_source r = qualify_image a" "b = [] \<and> ir_digest r = None \<or> (\<exists>d. b = ''@sha256:'' @ d \<and> ir_digest r = Some d)"
    by (rule parse_Inr) blast
  have again: "qualify_image x = x"
    unfolding x(2) ab(4) using qualify_prefix [OF qualify_no_at [OF name_no_at [OF ab(3)]]] qualify_image_idem by simp
  show ?thesis
  proof (cases "ir_digest r")
    case (Some d')
    then have "b = ''@sha256:'' @ d" using x(4) ab(5) by auto
    then have "qualify_image img = x" unfolding ab(2) x(2) ab(4) using qualify_prefix [OF name_no_at [OF ab(3)]] by simp
    then have "x = img" using assms(2) by simp
    moreover have "validate_image_ref img = Inr img" using ab(1) unfolding assms(2) .
    ultimately show ?thesis by metis
  next
    case None
    then have "matches name_rx (ir_source r)" using x(4) by simp
    then have "fullmatch image_rx x" unfolding image_rx_parts x(2) using x(3) by (intro exI conjI) auto
    then show ?thesis using again assms(3) by (simp add: validate_image_ref_def)
  qed
qed

lemma lock_idempotent:
  assumes "validate_image_ref x = Inr x" "x = s @ ''@sha256:'' @ d" "CHR ''@'' \<notin> set s"
  shows "resolve_digest_ref hub x = Inr (Some x)"
proof -
  from parse_valid [OF assms(1)] obtain r a b where r: "parse_image_ref x = Inr r" "x = a @ b" "matches name_rx a" "ir_source r = qualify_image a"
    "b = [] \<and> ir_digest r = None \<or> (\<exists>d. b = ''@sha256:'' @ d \<and> hex64 d \<and> ir_digest r = Some d)" by blast
  have "CHR ''@'' \<in> set x" using assms(2) by simp
  then obtain d' where d: "b = ''@sha256:'' @ d'" "hex64 d'" "ir_digest r = Some d'" using r(2,5) name_no_at [OF r(3)] by auto
  have "qualify_image x = x" using assms(1) by (simp add: validate_image_ref_def split: if_splits)
  then have "x = ir_source r @ ''@sha256:'' @ d'"
    using r(2,4) d(1) qualify_prefix [OF name_no_at [OF r(3)]] by simp
  then show ?thesis using r(1) d hex64_length [OF d(2)] by (auto simp: resolve_digest_ref_def truthy_def)
qed


subsection \<open>The locks of a stack\<close>

lemma lock_parsed: "lock_digest hub img = Inr y \<Longrightarrow> validate_image_ref img = Inr (qualify_image img)"
proof -
  assume l: "lock_digest hub img = Inr y"
  have "\<exists>r. parse_image_ref img = Inr r"
  proof (cases "parse_image_ref img")
    case (Inl e)
    then show ?thesis using l parse_error [OF Inl] by (simp add: lock_digest_def resolve_digest_ref_def)
  qed simp
  then obtain r where "parse_image_ref img = Inr r" by blast
  then show ?thesis by (rule parse_Inr)
qed

lemma list_all2_partner: "list_all2 P xs ys \<Longrightarrow> x \<in> set xs \<Longrightarrow> \<exists>y\<in>set ys. P x y"
  by (induction rule: list_all2_induct) auto

lemma locks_of:
  assumes "resolve_stack_image_locks hub st = Inr locks" "distinct (map s_name (st_services st))" "s \<in> set (st_services st)"
  shows "if has_build s then locks (s_name s) = None else lock_digest hub (s_image s) = Inr (locks (s_name s))"
proof -
  let ?f = "\<lambda>s. if truthy (s_build_repo s) then Inr (s_name s, None) else bind_res (lock_digest hub (s_image s)) (\<lambda>x. Inr (s_name s, x))"
  obtain ls where ls: "map_res ?f (st_services st) = Inr ls" "locks = (\<lambda>n. case map_of (rev ls) n of None \<Rightarrow> None | Some x \<Rightarrow> x)"
    using assms(1) by (auto simp: resolve_stack_image_locks_def bind_res_eq_Inr)
  have all: "list_all2 (\<lambda>s l. ?f s = Inr l) (st_services st) ls" using ls(1) by (simp add: map_res_Inr)
  then have "map fst ls = map s_name (st_services st)"
    by (induction rule: list_all2_induct) (auto simp: bind_res_eq_Inr split: if_splits)
  then have d: "distinct (map fst (rev ls))" using assms(2) by (simp add: rev_map [symmetric])
  obtain l where l: "l \<in> set (rev ls)" "?f s = Inr l"
    using list_all2_partner [OF all assms(3)] by auto
  obtain y where y: "l = (s_name s, y)" using l(2) by (auto simp: bind_res_eq_Inr split: if_splits)
  then have "locks (s_name s) = y" using l(1) map_of_is_SomeI [OF d] by (simp add: ls(2))
  then show ?thesis using l(2) y by (auto simp: bind_res_eq_Inr has_build_def split: if_splits)
qed

lemma locks_resolved:
  assumes "resolve_stack_image_locks hub st = Inr locks" "distinct (map s_name (st_services st))"
    and "\<forall>s\<in>set (st_services st). has_build s \<or> qualify_image (s_image s) = s_image s"
    and "\<forall>s\<in>set (st_services st). \<forall>x. locks (s_name s) = Some x \<longrightarrow> length x \<le> 512"
  shows "locks_ok locks st \<and> (\<forall>s\<in>set (st_services st). has_build s \<or> validate_image_ref (s_image s) = Inr (s_image s))"
proof -
  have "(truthy (locks (s_name s)) \<longrightarrow> validate_image_ref (the (locks (s_name s))) = Inr (the (locks (s_name s))))
      \<and> validate_image_ref (s_image s) = Inr (s_image s)" if s: "s \<in> set (st_services st)" "\<not> has_build s" for s
  proof -
    have l: "lock_digest hub (s_image s) = Inr (locks (s_name s))" using locks_of [OF assms(1,2) s(1)] s(2) by simp
    have q: "qualify_image (s_image s) = s_image s" using assms(3) s by blast
    have "validate_image_ref x = Inr x" if "locks (s_name s) = Some x" for x
    proof -
      have "lock_digest hub (s_image s) = Inr (Some x)" using l that by simp
      moreover have "length x \<le> 512" using assms(4) s(1) that by blast
      ultimately show ?thesis using lock_valid [OF _ q] by (auto simp: lock_digest_def split: sum.splits if_splits)
    qed
    then show ?thesis using lock_parsed [OF l] q by (auto simp: truthy_def split: option.splits)
  qed
  then show ?thesis unfolding locks_ok_def list_all_iff by blast
qed

subsection \<open>Automatic updates\<close>

definition service_key :: "service_row \<Rightarrow> int \<times> string" where
  "service_key w = (w_stack w, w_name w)"

text \<open>What a refresh does to the row of a service, and of a stack.\<close>

definition relocked :: "(string \<Rightarrow> string \<Rightarrow> string res) \<Rightarrow> service_row list \<Rightarrow> service_row \<Rightarrow> service_row \<Rightarrow> bool" where
  "relocked hub ws w w' \<longleftrightarrow> w' = w \<or>
     (\<exists>v\<in>set ws. \<exists>x. service_key v = service_key w \<and> refresh_one hub v = Inr (Some x) \<and> w' = w\<lparr>w_digest := Some x\<rparr>)"

definition nudged :: "stack_row \<Rightarrow> stack_row \<Rightarrow> bool" where
  "nudged k k' \<longleftrightarrow> k' = k\<lparr>sk_generation := sk_generation k', sk_status := sk_status k', sk_error := sk_error k'\<rparr>
     \<and> sk_generation k \<le> sk_generation k' \<and> (sk_status k' = sk_status k \<or> sk_status k' = ''converging'')"

lemma nudged_trans: "nudged a b \<Longrightarrow> nudged b c \<Longrightarrow> nudged a c"
  by (cases a; cases b; cases c) (auto simp: nudged_def)

lemma nudged_lists: "list_all2 nudged xs ys \<Longrightarrow> list_all2 nudged ys zs \<Longrightarrow> list_all2 nudged xs zs"
  using nudged_trans by (rule list_all2_trans)

lemma relocked_moved:
  assumes "relocked hub ws (if w_stack w = w_stack v \<and> w_name w = w_name v then w\<lparr>w_digest := Some x\<rparr> else w) w'"
    "refresh_one hub v = Inr (Some x)"
  shows "relocked hub (v # ws) w w'"
  using assms by (auto simp: relocked_def service_key_def split: if_splits)

lemma refresh_rows_keeps:
  "refresh_rows hub ws d = Inr (n, d') \<Longrightarrow>
     db_users d' = db_users d \<and> db_volumes d' = db_volumes d \<and> db_endpoints d' = db_endpoints d
     \<and> list_all2 (relocked hub ws) (db_services d) (db_services d') \<and> list_all2 nudged (db_stacks d) (db_stacks d')"
proof (induction hub ws d arbitrary: n rule: refresh_rows.induct)
  case (1 hub d)
  then show ?case by (auto simp: list.rel_refl relocked_def nudged_def)
next
  case (2 hub v ws d)
  obtain latest where l: "refresh_one hub v = Inr latest" using 2(3) by (auto simp: bind_res_eq_Inr)
  show ?case
  proof (cases latest)
    case None
    then have "refresh_rows hub ws d = Inr (n, d')" using 2(3) l by simp
    from 2(1) [OF this] show ?thesis
      by (auto elim!: list_all2_mono simp: relocked_def)
  next
    case (Some x)
    then obtain m where m: "refresh_rows hub ws (lock_moved (w_stack v) (w_name v) x d) = Inr (m, d')"
      using 2(3) l by (auto simp: bind_res_eq_Inr)
    note ih = 2(2) [OF m]
    have "list_all2 (relocked hub (v # ws)) (db_services d) (db_services d')"
      using ih l Some by (auto simp: lock_moved_def update_stack_def list_all2_map1 elim!: list_all2_mono intro: relocked_moved)
    moreover have "list_all2 nudged (db_stacks d) (map (\<lambda>k. if sk_id k = w_stack v then k\<lparr>sk_generation := sk_generation k + 1,
        sk_status := if sk_status k \<in> set [''ready'', ''degraded'', ''error''] then ''converging'' else sk_status k,
        sk_error := None\<rparr> else k) (db_stacks d))"
      by (auto simp: list_all2_map2 list.rel_refl nudged_def)
    then have "list_all2 nudged (db_stacks d) (db_stacks (lock_moved (w_stack v) (w_name v) x d))"
      by (cases d) (simp only: lock_moved_def update_stack_def panel_db.simps)
    from nudged_lists [OF this] ih have "list_all2 nudged (db_stacks d) (db_stacks d')" by simp
    moreover have "db_users d' = db_users d \<and> db_volumes d' = db_volumes d \<and> db_endpoints d' = db_endpoints d"
      using ih by (simp add: lock_moved_def update_stack_def)
    ultimately show ?thesis by blast
  qed
qed

lemma refresh_one_Some:
  "refresh_one hub w = Inr (Some x) \<Longrightarrow> is_stable_track (w_image w) = Inr True \<and> lock_digest hub (w_image w) = Inr (Some x)"
  by (auto simp: refresh_one_def bind_res_eq_Inr split: sum.splits if_splits)

text \<open>C32: an automatic update only moves locks.  Whatever the registry answers, users, volumes and endpoints
  stay; a service keeps everything but its lock, which changes only for an image of a stable track that
  is not built and belongs to a live stack, and then to what the registry now says of that image; a stack
  changes only in its generation, status and error text.  When the run fails, nothing changes.\<close>

theorem refresh_only_locks:
  assumes "refresh_stable_image_locks hub d = (r, d')" "distinct (map service_key (db_services d))"
  shows "db_users d' = db_users d \<and> db_volumes d' = db_volumes d \<and> db_endpoints d' = db_endpoints d
    \<and> list_all2 nudged (db_stacks d) (db_stacks d')
    \<and> list_all2 (\<lambda>w w'. w' = w \<or> w_build_repo w = None \<and> is_stable_track (w_image w) = Inr True
         \<and> (\<exists>k\<in>set (db_stacks d). sk_id k = w_stack w \<and> sk_status k \<in> set active_statuses)
         \<and> (\<exists>x. lock_digest hub (w_image w) = Inr (Some x) \<and> w' = w\<lparr>w_digest := Some x\<rparr>)) (db_services d) (db_services d')
    \<and> (\<forall>e. r = Inl e \<longrightarrow> d' = d)"
proof -
  let ?live = "map sk_id (filter (\<lambda>k. sk_status k \<in> set active_statuses) (db_stacks d))"
  let ?rows = "filter (\<lambda>w. w_stack w \<in> set ?live \<and> w_build_repo w = None) (db_services d)"
  show ?thesis
  proof (cases "refresh_rows hub ?rows d")
    case (Inl e)
    then have "d' = d" using assms(1) by (simp add: refresh_stable_image_locks_def)
    then show ?thesis by (auto simp: list.rel_refl nudged_def)
  next
    case (Inr p)
    obtain n d1 where p: "p = (n, d1)" by (cases p)
    have r: "r = Inr n" "d' = d1" using assms(1) Inr p by (simp_all add: refresh_stable_image_locks_def)
    note keeps = refresh_rows_keeps [OF Inr [unfolded p, folded r(2)]]
    have "w' = w \<or> w_build_repo w = None \<and> is_stable_track (w_image w) = Inr True
         \<and> (\<exists>k\<in>set (db_stacks d). sk_id k = w_stack w \<and> sk_status k \<in> set active_statuses)
         \<and> (\<exists>x. lock_digest hub (w_image w) = Inr (Some x) \<and> w' = w\<lparr>w_digest := Some x\<rparr>)"
      if w: "w \<in> set (db_services d)" "relocked hub ?rows w w'" for w w'
    proof (cases "w' = w")
      case False
      then obtain v x where v: "v \<in> set ?rows" "service_key v = service_key w" "refresh_one hub v = Inr (Some x)"
          "w' = w\<lparr>w_digest := Some x\<rparr>" using w(2) by (auto simp: relocked_def)
      then have "v = w" using assms(2) w(1) by (auto simp: distinct_map inj_on_def)
      then show ?thesis using v refresh_one_Some [OF v(3)] by auto
    qed simp
    then show ?thesis using keeps r by (auto elim!: list.rel_mono_strong)
  qed
qed

subsection \<open>Instances\<close>

definition example_digest :: string where
  "example_digest = concat (replicate 16 ''9f86'')"

definition example_hub :: "string \<Rightarrow> string \<Rightarrow> string res" where
  "example_hub repo tag = (if repo = ''library/nginx'' then Inr (''sha256:'' @ example_digest) else Inl HTTPError)"

lemma nginx_locked:
  "lock_digest example_hub ''docker.io/library/nginx:1.27'' = Inr (Some (''docker.io/library/nginx:1.27@sha256:'' @ example_digest))"
  by code_simp


lemma shop_refreshed: "fst (refresh_stable_image_locks example_hub shop_db) = Inr 1"
  and shop_keys: "distinct (map service_key (db_services shop_db))"
proof -
  have "is_stable_track ''docker.io/library/nginx:1.27'' = Inr True" by code_simp
  then show "fst (refresh_stable_image_locks example_hub shop_db) = Inr 1"
    by (simp add: refresh_stable_image_locks_def refresh_one_def nginx_locked shop_db_def persist_rendered_def bare_db_def shop_def
        shop_row_def active_statuses_def row_of_service_def shop_service_def service_defaults_def)
  show "distinct (map service_key (db_services shop_db))" by (simp add: shop_db_def persist_rendered_def bare_db_def shop_def)
qed

theorem refresh_only_locks_witness:
  "\<exists>d'. refresh_stable_image_locks example_hub shop_db = (Inr 1, d') \<and> db_volumes d' = db_volumes shop_db
     \<and> db_endpoints d' = db_endpoints shop_db \<and> list_all2 nudged (db_stacks shop_db) (db_stacks d')"
proof -
  obtain d' where d: "refresh_stable_image_locks example_hub shop_db = (Inr 1, d')"
    using shop_refreshed by (metis prod.collapse)
  from refresh_only_locks [OF d shop_keys] d show ?thesis by blast
qed

end
