(* ===== verification/StackRouteFacts.thy ===== *)
theory StackRouteFacts
  imports StackRoutes SessionFacts
begin

text \<open>
  Sequences of requests to the routes of stacks.  \<open>panel_invariant\<close> is the contract between a property
  of the panel's state and the writes the routes are made of: a property that survives each kind of
  write survives every sequence of requests.  It is interpreted on the rows of one stack (isolation
  of tenants), on the domains (no domain has two routes), on the number of stacks of an owner (the
  quota) and on the operations (every one queued under its own id).
\<close>

subsection \<open>Requests\<close>

datatype request =
    Create string string inputs "int option"
  | Delete int string
  | SetDomain int "string option" bool "string option"
  | SetEnv int "(string \<times> string) list"
  | Expose int string bool
  | PostStart int string string
  | Health int string health_check
  | ZeroDowntime int string bool
  | WatchPaths int "string list"
  | Config int config_update
  | AddTag int string
  | RemoveTag int int
  | AddTask int string string string
  | RemoveTask int int
  | RollbackDeployment int int
  | Webhook int webhook_request

fun serve :: "site_env \<Rightarrow> user_row \<Rightarrow> request \<Rightarrow> panel \<Rightarrow> unit res \<times> panel" where
  "serve en u (Create n b raw s) w = map_prod (map_sum id (\<lambda>_. ())) id (create_stack en u n b raw s w)"
| "serve en u (Delete i c) w = map_prod (map_sum id (\<lambda>_. ())) id (delete_stack en u i c w)"
| "serve en u (SetDomain i d c n) w = map_prod (map_sum id (\<lambda>_. ())) id (set_stack_domain en u i d c n w)"
| "serve en u (SetEnv i env) w = map_prod (map_sum id (\<lambda>_. ())) id (set_stack_env en u i env w)"
| "serve en u (Expose i n x) w = map_prod (map_sum id (\<lambda>_. ())) id (set_service_exposure en u i n x w)"
| "serve en u (PostStart i n c) w = map_prod (map_sum id (\<lambda>_. ())) id (set_post_start_command en u i n c w)"
| "serve en u (Health i n h) w = map_prod (map_sum id (\<lambda>_. ())) id (set_health_check en u i n h w)"
| "serve en u (ZeroDowntime i n x) w = map_prod (map_sum id (\<lambda>_. ())) id (set_zero_downtime en u i n x w)"
| "serve en u (WatchPaths i ps) w = map_prod (map_sum id (\<lambda>_. ())) id (set_watch_paths u i ps w)"
| "serve en u (Config i c) w = update_stack_config en u i c w"
| "serve en u (AddTag i t) w = map_prod (map_sum id (\<lambda>_. ())) id (add_stack_tag u i t w)"
| "serve en u (RemoveTag i t) w = remove_stack_tag u i t w"
| "serve en u (AddTask i n c cron) w = add_scheduled_task u i n c cron w"
| "serve en u (RemoveTask i t) w = remove_scheduled_task u i t w"
| "serve en u (RollbackDeployment i d) w = map_prod (map_sum id (\<lambda>_. ())) id (rollback_deployment en u i d w)"
| "serve en u (Webhook i rq) w = map_prod (map_sum id (\<lambda>_. ())) id (stack_webhook en i rq w)"

fun target :: "request \<Rightarrow> int option" where
  "target (Create n b raw s) = None"
| "target (Delete i c) = Some i"
| "target (SetDomain i d c n) = Some i"
| "target (SetEnv i env) = Some i"
| "target (Expose i n x) = Some i"
| "target (PostStart i n c) = Some i"
| "target (Health i n h) = Some i"
| "target (ZeroDowntime i n x) = Some i"
| "target (WatchPaths i ps) = Some i"
| "target (Config i c) = Some i"
| "target (AddTag i t) = Some i"
| "target (RemoveTag i t) = Some i"
| "target (AddTask i n c cron) = Some i"
| "target (RemoveTask i t) = Some i"
| "target (RollbackDeployment i d) = Some i"
| "target (Webhook i rq) = Some i"

definition is_webhook :: "request \<Rightarrow> bool" where
  "is_webhook r \<longleftrightarrow> (case r of Webhook i rq \<Rightarrow> True | _ \<Rightarrow> False)"

definition serve_all :: "(site_env \<times> user_row \<times> request) list \<Rightarrow> panel \<Rightarrow> panel" where
  "serve_all rs w = fold (\<lambda>(en, u, r) w. snd (serve en u r w)) rs w"

subsection \<open>The state after a request\<close>

lemma transact_cases:
  "transact body w = (r, w') \<Longrightarrow> (\<exists>e. body w = Inl e \<and> r = Inl e \<and> w' = w) \<or> (\<exists>x. body w = Inr (x, w') \<and> r = Inr x)"
  by (auto simp: transact_def split: sum.splits)

lemma respond_state [simp]: "snd (respond en i once warnings oid w) = w"
  by (auto simp: respond_def split: option.splits)

lemma bind_respond [simp]: "snd (bind_act m (respond en i once warnings) w) = snd (m w)"
  by (auto simp: bind_act_def split: prod.splits sum.splits)

lemma bind_respond' [simp]:
  "snd (bind_act m (\<lambda>(oid, warnings). respond en i [] warnings oid) w) = snd (m w)"
  "snd (bind_act m' (\<lambda>(i, oid, secrets). respond en i secrets [] oid) w) = snd (m' w)"
  by (auto simp: bind_act_def split: prod.splits sum.splits)

lemma fetch_Inr: "fetch_owned_stack u i d = Inr k \<Longrightarrow> k \<in> set (db_stacks d) \<and> sk_id k = i \<and> (is_admin u \<or> sk_owner k = Some (us_id u))"
  by (auto simp: fetch_owned_stack_def find_Some_iff split: option.splits if_splits)

lemma open_Inr: "open_stack u i d = Inr k \<longleftrightarrow> fetch_owned_stack u i d = Inr k \<and> sk_status k \<noteq> ''deleting''"
  by (auto simp: open_stack_def bind_res_eq_Inr)

lemma flush_Inr:
  "flush_endpoints gone new d = Inr d' \<longleftrightarrow>
     distinct (map er_domain new) \<and> (\<forall>e\<in>set new. er_domain e \<notin> er_domain ` set (db_endpoints d))
     \<and> d' = d\<lparr>db_endpoints := filter (\<lambda>e. e \<notin> set gone) (db_endpoints d) @ new\<rparr>"
  by (auto simp: flush_endpoints_def list_all_iff)

text \<open>What the writes keep of a stack: whose it is and what it is called.\<close>

definition keeps_identity :: "(stack_row \<Rightarrow> stack_row) \<Rightarrow> bool" where
  "keeps_identity f \<longleftrightarrow> (\<forall>k. sk_id (f k) = sk_id k \<and> sk_owner (f k) = sk_owner k \<and> sk_name (f k) = sk_name k)"

definition on_stack :: "int \<Rightarrow> (stack_row \<Rightarrow> stack_row) \<Rightarrow> panel \<Rightarrow> panel" where
  "on_stack i f w = w\<lparr>pn_db := update_stack (pn_db w) i f\<rparr>"

definition endpoints_of :: "int \<Rightarrow> endpoint_row list \<Rightarrow> bool" where
  "endpoints_of i es \<longleftrightarrow> (\<forall>e\<in>set es. er_stack e = i)"

lemma find_in: "find P xs = Some x \<Longrightarrow> x \<in> set xs \<and> P x"
  by (auto simp: find_Some_iff)

lemma sync_endpoints_own:
  assumes "endpoints_of i eps" "sync_endpoints_from_env_change old new ws eps i c = (gone, add)"
  shows "endpoints_of i gone \<and> endpoints_of i add"
proof -
  have found: "er_stack e = i" if "find P (rev eps) = Some e" for P e
    using that assms(1) find_in [OF that] by (auto simp: endpoints_of_def)
  have step: "endpoints_of i (fst (sync_key i old new ps eps c key (del, add))) \<and> endpoints_of i (snd (sync_key i old new ps eps c key (del, add)))"
    if "endpoints_of i del" "endpoints_of i add" for key del add ps
    using that unfolding sync_key_def Let_def
    by (auto simp: endpoints_of_def split: option.split list.split dest: found)
  have "endpoints_of i (fst acc) \<and> endpoints_of i (snd acc) \<Longrightarrow>
      endpoints_of i (fst (fold (sync_key i old new ps eps c) keys acc)) \<and> endpoints_of i (snd (fold (sync_key i old new ps eps c) keys acc))"
    for keys acc ps
    proof (induction keys arbitrary: acc)
    case (Cons key keys)
    show ?case using Cons.IH [OF step [of "fst acc" "snd acc" ps key]] Cons.prems by simp
  qed simp
  from this [of "([], [])" "filter (\<lambda>w. w_internal_port w \<noteq> None) ws" fqdn_env_keys] show ?thesis
    using assms(2) by (simp add: sync_endpoints_from_env_change_def endpoints_of_def)
qed

lemma update_stack_id: "update_stack d i id = d"
  by (simp add: update_stack_def map_idI)

lemma set_domain_steps:
  assumes "set_domain_body en u j requested c n w = Inr (oid, w1)"
  shows "\<exists>k domain (web :: service_row) gone f d2. fetch_owned_stack u j (pn_db w) = Inr k \<and> endpoints_of j gone
      \<and> refuse_domain_conflicts w [domain] (Some j) = Inr () \<and> keeps_identity f
      \<and> (\<forall>k. sk_generation (f k) = sk_generation k)
      \<and> flush_endpoints gone [\<lparr>er_stack = j, er_domain = domain, er_service = w_name web, er_behind_cloudflare = c\<rparr>]
           (update_stack (pn_db w) j f) = Inr d2
      \<and> queue_operation ''converge_stack'' (se_now en) k (w\<lparr>pn_db := d2\<rparr>) = (oid, w1)"
proof -
  let ?ends = "stack_endpoints (pn_db w) j"
  from assms obtain k domain inputs' changed d2 z and web :: service_row where k: "fetch_owned_stack u j (pn_db w) = Inr k"
      "refuse_domain_conflicts w [domain] (Some j) = Inr (z :: unit)"
      "flush_endpoints (filter (\<lambda>e. er_service e = w_name web) ?ends)
         [\<lparr>er_stack = j, er_domain = domain, er_service = w_name web, er_behind_cloudflare = c\<rparr>]
         (if changed then update_stack (pn_db w) j (\<lambda>k. k\<lparr>sk_inputs := Some (seal_inputs (se_vault en) inputs')\<rparr>) else pn_db w) = Inr d2"
      "queue_operation ''converge_stack'' (se_now en) k (w\<lparr>pn_db := d2\<rparr>) = (oid, w1)"
    unfolding set_domain_body_def Let_def case_prod_beta 
    by (auto simp only: bind_res_eq_Inr open_Inr sum.inject)
  let ?f = "if changed then (\<lambda>k. k\<lparr>sk_inputs := Some (seal_inputs (se_vault en) inputs')\<rparr>) else id"
  have "keeps_identity ?f" by (simp add: keeps_identity_def)
  moreover have "endpoints_of j (filter (\<lambda>e. er_service e = w_name web) ?ends)" by (simp add: endpoints_of_def stack_endpoints_def)
  moreover have "update_stack (pn_db w) j ?f =
      (if changed then update_stack (pn_db w) j (\<lambda>k. k\<lparr>sk_inputs := Some (seal_inputs (se_vault en) inputs')\<rparr>) else pn_db w)"
    by (simp add: update_stack_id)
  moreover have "\<forall>k. sk_generation (?f k) = sk_generation k" by simp
  ultimately have "keeps_identity ?f \<and> (\<forall>k. sk_generation (?f k) = sk_generation k) \<and> endpoints_of j (filter (\<lambda>e. er_service e = w_name web) ?ends)
      \<and> flush_endpoints (filter (\<lambda>e. er_service e = w_name web) ?ends)
         [\<lparr>er_stack = j, er_domain = domain, er_service = w_name web, er_behind_cloudflare = c\<rparr>]
         (update_stack (pn_db w) j ?f) = Inr d2" using k(3) by simp
  moreover have "refuse_domain_conflicts w [domain] (Some j) = Inr ()" using k(2) by simp
  ultimately show ?thesis using k(1,4) by blast
qed

lemma set_env_steps:
  assumes "set_env_body en u j env w = Inr (x, w')"
  shows "\<exists>k inputs gone new warnings d2 oid w1. fetch_owned_stack u j (pn_db w) = Inr k
      \<and> decrypt_inputs (se_vault en) k = Inr inputs
      \<and> sync_endpoints_from_env_change (env_strings (env_of_inputs inputs)) (dict_of env) (stack_services (pn_db w) j)
          (stack_endpoints (pn_db w) j) j False = (gone, new)
      \<and> flush_endpoints gone new (update_stack (pn_db w) j (\<lambda>k. k\<lparr>sk_inputs := Some (seal_inputs (se_vault en)
           (AList.update ''env'' (JObj (map (\<lambda>(k, x). (k, JStr x)) env)) inputs))\<rparr>)) = Inr d2
      \<and> queue_operation ''converge_stack'' (se_now en) k (w\<lparr>pn_db := d2\<rparr>) = (oid, w1)
      \<and> x = (oid, warnings) \<and> w' = (if gone \<noteq> [] \<or> new \<noteq> [] then resync w1 else w1)"
proof -
  from assms obtain k inputs where k: "fetch_owned_stack u j (pn_db w) = Inr k" "decrypt_inputs (se_vault en) k = Inr inputs"
    by (auto simp: set_env_body_def Let_def bind_res_eq_Inr open_Inr)
  obtain gone new where g: "sync_endpoints_from_env_change (env_strings (env_of_inputs inputs)) (dict_of env) (stack_services (pn_db w) j)
          (stack_endpoints (pn_db w) j) j False = (gone, new)" by fastforce
  have "open_stack u j (pn_db w) = Inr k" using assms k(1) by (auto simp: set_env_body_def Let_def bind_res_eq_Inr open_Inr)
  then have "bind_res (port_warnings (dict_of env) (stack_services (pn_db w) j)) (\<lambda>warnings.
      bind_res (flush_endpoints gone new (update_stack (pn_db w) j (\<lambda>k. k\<lparr>sk_inputs := Some (seal_inputs (se_vault en)
           (AList.update ''env'' (JObj (map (\<lambda>(k, x). (k, JStr x)) env)) inputs))\<rparr>))) (\<lambda>d2.
      Inr ((fst (queue_operation ''converge_stack'' (se_now en) k (w\<lparr>pn_db := d2\<rparr>)), warnings),
        let w1 = snd (queue_operation ''converge_stack'' (se_now en) k (w\<lparr>pn_db := d2\<rparr>))
        in if gone \<noteq> [] \<or> new \<noteq> [] then resync w1 else w1))) = Inr (x, w')"
    using assms k(2) g by (simp add: set_env_body_def Let_def case_prod_beta)
  then obtain warnings d2 where d: "flush_endpoints gone new (update_stack (pn_db w) j (\<lambda>k. k\<lparr>sk_inputs := Some (seal_inputs (se_vault en)
           (AList.update ''env'' (JObj (map (\<lambda>(k, x). (k, JStr x)) env)) inputs))\<rparr>)) = Inr d2"
      "((fst (queue_operation ''converge_stack'' (se_now en) k (w\<lparr>pn_db := d2\<rparr>)), warnings),
        let w1 = snd (queue_operation ''converge_stack'' (se_now en) k (w\<lparr>pn_db := d2\<rparr>))
        in if gone \<noteq> [] \<or> new \<noteq> [] then resync w1 else w1) = (x, w')"
    by (simp only: bind_res_eq_Inr sum.inject) blast
  obtain oid w1 where q: "queue_operation ''converge_stack'' (se_now en) k (w\<lparr>pn_db := d2\<rparr>) = (oid, w1)" by fastforce
  have "x = (oid, warnings) \<and> w' = (if gone \<noteq> [] \<or> new \<noteq> [] then resync w1 else w1)"
    using d(2) unfolding q Let_def by auto
  then show ?thesis using k g d(1) q by blast
qed

subsection \<open>The contract of a property of the panel\<close>

locale panel_invariant =
  fixes I :: "panel \<Rightarrow> bool" and allowed :: "site_env \<Rightarrow> user_row \<Rightarrow> request \<Rightarrow> bool" and ok :: "int \<Rightarrow> bool"
  assumes reaches: "I w \<Longrightarrow> allowed en u r \<Longrightarrow> target r = Some j \<Longrightarrow>
      is_webhook r \<or> fetch_owned_stack u j (pn_db w) = Inr k \<Longrightarrow> ok j"
    and written: "I w \<Longrightarrow> ok j \<Longrightarrow> keeps_identity f \<Longrightarrow> I (on_stack j f w)"
    and serviced: "I w \<Longrightarrow> ok j \<Longrightarrow> (\<And>s. w_stack (g s) = w_stack s) \<Longrightarrow> I (w\<lparr>pn_db := update_service j m g (pn_db w)\<rparr>)"
    and queued: "I w \<Longrightarrow> ok (sk_id k) \<Longrightarrow> I (snd (queue_operation kind now k w))"
    and resynced: "I w \<Longrightarrow> I (resync w)"
    and routed: "I w \<Longrightarrow> ok j \<Longrightarrow> endpoints_of j gone \<Longrightarrow> endpoints_of j new \<Longrightarrow> flush_endpoints gone new (pn_db w) = Inr d \<Longrightarrow>
      refuse_domain_conflicts w (map er_domain new) (Some j) = Inr () \<or> allowed en u (SetEnv j env) \<Longrightarrow> I (w\<lparr>pn_db := d\<rparr>)"
    and named: "I w \<Longrightarrow> I (w\<lparr>pn_tags := ts\<rparr>)"
    and tagged: "I w \<Longrightarrow> ok j \<Longrightarrow> (\<And>i. i \<noteq> j \<Longrightarrow> filter (\<lambda>x. fst x = i) st = filter (\<lambda>x. fst x = i) (pn_stack_tags w)) \<Longrightarrow>
      I (w\<lparr>pn_stack_tags := st\<rparr>)"
    and tasked: "I w \<Longrightarrow> ok j \<Longrightarrow> (\<And>i. i \<noteq> j \<Longrightarrow> filter (\<lambda>x. tk_stack x = i) tk = filter (\<lambda>x. tk_stack x = i) (pn_tasks w)) \<Longrightarrow>
      I (w\<lparr>pn_tasks := tk\<rparr>)"
    and deployed: "I w \<Longrightarrow> ok j \<Longrightarrow> (\<And>i. i \<noteq> j \<Longrightarrow> filter (\<lambda>x. dp_stack x = i) ds = filter (\<lambda>x. dp_stack x = i) (pn_deployments w)) \<Longrightarrow>
      I (w\<lparr>pn_deployments := ds\<rparr>)"
    and created: "I w \<Longrightarrow> allowed en u (Create n b raw s) \<Longrightarrow> create_body en u n b raw s w = Inr (x, w') \<Longrightarrow> I w'"
begin

lemma transact_keeps:
  assumes "I w" "\<And>x w'. body w = Inr (x, w') \<Longrightarrow> I w'"
  shows "I (snd (transact body w))"
  using assms by (cases "transact body w") (auto dest: transact_cases)

lemma stack_written: "I w \<Longrightarrow> ok j \<Longrightarrow> keeps_identity f \<Longrightarrow> I (w\<lparr>pn_db := update_stack (pn_db w) j f\<rparr>)"
  using written by (simp add: on_stack_def)

lemma queued_pair: "I w \<Longrightarrow> ok (sk_id k) \<Longrightarrow> queue_operation kind now k w = (oid, w') \<Longrightarrow> I w'"
  using queued [of w k kind now] by simp

lemma change_service_keeps:
  assumes "I w" "\<And>k. fetch_owned_stack u j (pn_db w) = Inr k \<Longrightarrow> ok j" "\<And>s. w_stack (f s) = w_stack s"
  shows "I (snd (change_service en u j name valid f w))"
  unfolding change_service_def bind_respond
proof (rule transact_keeps [OF assms(1)])
  fix x w'
  assume "(bind_res (open_stack u j (pn_db w)) (\<lambda>k.
       case find (\<lambda>s. w_name s = name) (stack_services (pn_db w) j) of
         None \<Rightarrow> Inl not_found
       | Some s \<Rightarrow> bind_res (guard (valid s) invalid_stack) (\<lambda>_.
           Inr (queue_operation ''converge_stack'' (se_now en) k (w\<lparr>pn_db := update_service j name f (pn_db w)\<rparr>))))) = Inr (x, w')"
  then obtain k where k: "fetch_owned_stack u j (pn_db w) = Inr k"
      "queue_operation ''converge_stack'' (se_now en) k (w\<lparr>pn_db := update_service j name f (pn_db w)\<rparr>) = (x, w')"
    by (auto simp: bind_res_eq_Inr open_Inr split: option.splits)
  have ok: "ok j" "ok (sk_id k)" using assms(2) [OF k(1)] fetch_Inr [OF k(1)] by auto
  show "I w'" using queued_pair [OF serviced [OF assms(1) ok(1) assms(3)] ok(2) k(2)] .
qed

lemma set_domain_keeps:
  assumes "I w" "\<And>k. fetch_owned_stack u j (pn_db w) = Inr k \<Longrightarrow> ok j"
  shows "I (snd (set_stack_domain en u j d c n w))"
  unfolding set_stack_domain_def bind_respond
proof (rule transact_keeps [OF assms(1)])
  fix x w'
  assume "bind_res (set_domain_body en u j d c n w) (\<lambda>(oid, w'). Inr (oid, resync w')) = Inr (x, w')"
  then obtain oid w1 where b: "set_domain_body en u j d c n w = Inr (oid, w1)" "w' = resync w1" by (auto simp: bind_res_eq_Inr)
  from set_domain_steps [OF b(1)] obtain k domain gone f d2 and web :: service_row where k: "fetch_owned_stack u j (pn_db w) = Inr k" "endpoints_of j gone"
      "refuse_domain_conflicts w [domain] (Some j) = Inr ()" "keeps_identity f"
      "flush_endpoints gone [\<lparr>er_stack = j, er_domain = domain, er_service = w_name web, er_behind_cloudflare = c\<rparr>]
         (update_stack (pn_db w) j f) = Inr d2"
      "queue_operation ''converge_stack'' (se_now en) k (w\<lparr>pn_db := d2\<rparr>) = (oid, w1)"
    by blast
  have ok: "ok j" "sk_id k = j" using assms(2) [OF k(1)] fetch_Inr [OF k(1)] by auto
  have r: "refuse_domain_conflicts (on_stack j f w) [domain] (Some j) = Inr ()"
    using k(3) by (simp add: refuse_domain_conflicts_def on_stack_def update_stack_def)
  have "I ((on_stack j f w)\<lparr>pn_db := d2\<rparr>)"
    using written [OF assms(1) ok(1) k(4)] ok(1) k(2,5) r
    by (intro routed [where j = j and gone = gone and new = "[\<lparr>er_stack = j, er_domain = domain, er_service = w_name web, er_behind_cloudflare = c\<rparr>]"])
      (simp_all add: endpoints_of_def on_stack_def)
  then have "I (w\<lparr>pn_db := d2\<rparr>)" by (simp add: on_stack_def)
  then show "I w'" using queued_pair [OF _ _ k(6)] ok b(2) resynced by simp
qed

lemma set_env_keeps:
  assumes "I w" "\<And>k. fetch_owned_stack u j (pn_db w) = Inr k \<Longrightarrow> ok j" "allowed en u (SetEnv j env)"
  shows "I (snd (set_stack_env en u j env w))"
  unfolding set_stack_env_def bind_respond'
proof (rule transact_keeps [OF assms(1)])
  fix x w'
  assume "set_env_body en u j env w = Inr (x, w')"
  from set_env_steps [OF this] obtain k inputs gone new d2 oid w1 where k: "fetch_owned_stack u j (pn_db w) = Inr k"
      "sync_endpoints_from_env_change (env_strings (env_of_inputs inputs)) (dict_of env) (stack_services (pn_db w) j)
          (stack_endpoints (pn_db w) j) j False = (gone, new)"
      "flush_endpoints gone new (update_stack (pn_db w) j (\<lambda>k. k\<lparr>sk_inputs := Some (seal_inputs (se_vault en)
           (AList.update ''env'' (JObj (map (\<lambda>(k, x). (k, JStr x)) env)) inputs))\<rparr>)) = Inr d2"
      "queue_operation ''converge_stack'' (se_now en) k (w\<lparr>pn_db := d2\<rparr>) = (oid, w1)"
      "w' = (if gone \<noteq> [] \<or> new \<noteq> [] then resync w1 else w1)"
    by blast
  let ?f = "\<lambda>k. k\<lparr>sk_inputs := Some (seal_inputs (se_vault en) (AList.update ''env'' (JObj (map (\<lambda>(k, x). (k, JStr x)) env)) inputs))\<rparr>"
  have ok: "ok j" "ok (sk_id k)" using assms(2) [OF k(1)] fetch_Inr [OF k(1)] by auto
  have own: "endpoints_of j gone" "endpoints_of j new"
    using sync_endpoints_own [OF _ k(2)] by (auto simp: endpoints_of_def stack_endpoints_def)
  have "I (on_stack j ?f w)" by (rule written [OF assms(1) ok(1)]) (simp add: keeps_identity_def)
  then have "I ((on_stack j ?f w)\<lparr>pn_db := d2\<rparr>)"
    using k(3) assms(3) by (intro routed [where gone = gone and new = new and env = env and en = en and u = u, OF _ ok(1) own])
      (simp_all add: on_stack_def)
  then have "I (w\<lparr>pn_db := d2\<rparr>)" by (simp add: on_stack_def)
  then show "I w'" using queued_pair [OF _ ok(2) k(4)] k(5) resynced by simp
qed

lemma delete_keeps:
  assumes "I w" "\<And>k. fetch_owned_stack u j (pn_db w) = Inr k \<Longrightarrow> ok j"
  shows "I (snd (delete_stack en u j c w))"
  unfolding delete_stack_def
proof (rule transact_keeps [OF assms(1)])
  fix x w'
  let ?w = "w\<lparr>pn_db := update_stack (pn_db w) j (\<lambda>k. k\<lparr>sk_status := ''deleting''\<rparr>)\<rparr>"
  assume "bind_res (fetch_owned_stack u j (pn_db w)) (\<lambda>k.
     bind_res (guard (lower (strip c) = sk_name k) conflict) (\<lambda>_.
     let (oid, w1) = queue_operation ''delete_stack'' (se_now en) k ?w
     in (case respond en j [] [] oid w1 of (Inl e, _) \<Rightarrow> Inl e | (Inr a, w2) \<Rightarrow> Inr (a, w2)))) = Inr (x, w')"
  then obtain k where k0: "fetch_owned_stack u j (pn_db w) = Inr k"
      "(let (oid, w1) = queue_operation ''delete_stack'' (se_now en) k ?w
        in (case respond en j [] [] oid w1 of (Inl e, _) \<Rightarrow> Inl e | (Inr a, w2) \<Rightarrow> Inr (a, w2))) = Inr (x, w')"
    by (simp only: bind_res_eq_Inr) blast
  obtain oid w1 where q: "queue_operation ''delete_stack'' (se_now en) k ?w = (oid, w1)" by fastforce
  obtain r w2 where r: "respond en j [] [] oid w1 = (r, w2)" by fastforce
  then have k: "fetch_owned_stack u j (pn_db w) = Inr k"
      "queue_operation ''delete_stack'' (se_now en) k ?w = (oid, w1)" "respond en j [] [] oid w1 = (Inr x, w')"
    using k0 q by (simp_all split: sum.splits)
  have ok: "ok j" "ok (sk_id k)" using assms(2) [OF k(1)] fetch_Inr [OF k(1)] by auto
  have "I ?w" by (rule stack_written [OF assms(1) ok(1)]) (simp add: keeps_identity_def)
  moreover have "w' = w1" using k(3) respond_state [of en j "[]" "[]" oid w1] by simp
  ultimately show "I w'" using queued_pair [OF _ ok(2) k(2)] by simp
qed

lemma webhook_keeps:
  assumes "I w" "ok j"
  shows "I (snd (stack_webhook en j rq w))"
  unfolding stack_webhook_def
proof (rule transact_keeps [OF assms(1)])
  fix x w'
  assume a: "(case find (\<lambda>k. sk_id k = j) (db_stacks (pn_db w)) of None \<Rightarrow> Inl not_found | Some k \<Rightarrow>
     bind_res (guard (sk_status k \<noteq> ''deleting'') not_found) (\<lambda>_.
     bind_res (guard (sk_blueprint k = ''git'') conflict) (\<lambda>_.
     bind_res (decrypt_inputs (se_vault en) k) (\<lambda>inputs.
     bind_res (authenticate_webhook en inputs rq w) (\<lambda>payload.
     bind_res (if watch_paths k = [] then Inr True
               else bind_res (changed_files payload) (\<lambda>fs. Inr (list_ex (\<lambda>f. list_ex (\<lambda>p. glob p f) (watch_paths k)) fs)))
       (\<lambda>wanted. if \<not> wanted then Inr (Skipped, w)
          else let (oid, w') = queue_operation ''webhook_rebuild'' (se_now en) k w in Inr (Accepted oid, w'))))))) = Inr (x, w')"
  then obtain k where k: "find (\<lambda>k. sk_id k = j) (db_stacks (pn_db w)) = Some k"
    by (cases "find (\<lambda>k. sk_id k = j) (db_stacks (pn_db w))") simp_all
  from a [unfolded k option.case bind_res_eq_Inr]
  have "\<exists>wanted. (if \<not> wanted then Inr (Skipped, w)
          else let (oid, w') = queue_operation ''webhook_rebuild'' (se_now en) k w in Inr (Accepted oid, w')) = (Inr (x, w') :: (webhook_answer \<times> panel) res)"
    by (elim exE conjE) (rule exI)
  then have "w' = w \<or> w' = snd (queue_operation ''webhook_rebuild'' (se_now en) k w)"
    by (cases "queue_operation ''webhook_rebuild'' (se_now en) k w") (auto split: if_splits)
  moreover have "ok (sk_id k)" using find_in [OF k(1)] assms(2) by simp
  ultimately show "I w'" using assms(1) queued by auto
qed

lemma written_keeps:
  assumes "I w" "\<And>k. fetch_owned_stack u j (pn_db w) = Inr k \<Longrightarrow> ok j"
  shows "I (snd (set_watch_paths u j ps w))" "I (snd (update_stack_config en u j c w))"
  unfolding set_watch_paths_def update_stack_config_def Let_def
  by (rule transact_keeps [OF assms(1)],
      auto simp: bind_res_eq_Inr keeps_identity_def intro!: stack_written [OF assms(1)] dest: assms(2))+

lemma tags_keep:
  assumes "I w" "\<And>k. fetch_owned_stack u j (pn_db w) = Inr k \<Longrightarrow> ok j"
  shows "I (snd (add_stack_tag u j t w))" "I (snd (remove_stack_tag u j tag w))"
proof -
  have add: "filter (\<lambda>x. fst x = i) (xs @ [(j, y)]) = filter (\<lambda>x. fst x = i) xs"
       "filter (\<lambda>x. fst x = i) (filter (\<lambda>x. x \<noteq> (j, y)) xs) = filter (\<lambda>x. fst x = i) xs"
    if "i \<noteq> j" for i y and xs :: "(int \<times> int) list" using that by (auto intro: filter_cong)
  have two: "I (w\<lparr>pn_tags := ts, pn_stack_tags := pn_stack_tags w @ [(j, y)]\<rparr>)" if "ok j" for ts y
    using tagged [OF named [OF assms(1), of ts] that, of "pn_stack_tags w @ [(j, y)]"] add(1) by simp
  show "I (snd (add_stack_tag u j t w))"
    unfolding add_stack_tag_def
    by (rule transact_keeps [OF assms(1)], auto simp: bind_res_eq_Inr Let_def split: option.splits if_splits
        intro!: two tagged [OF assms(1)] assms(1) dest: assms(2))
  show "I (snd (remove_stack_tag u j tag w))"
    unfolding remove_stack_tag_def
    by (rule transact_keeps [OF assms(1)], auto simp: bind_res_eq_Inr intro!: tagged [OF assms(1)] add(2) dest: assms(2))
qed

lemma tasks_keep:
  assumes "I w" "\<And>k. fetch_owned_stack u j (pn_db w) = Inr k \<Longrightarrow> ok j"
  shows "I (snd (add_scheduled_task u j n c cron w))" "I (snd (remove_scheduled_task u j task w))"
proof -
  show "I (snd (add_scheduled_task u j n c cron w))"
    unfolding add_scheduled_task_def
    by (rule transact_keeps [OF assms(1)], auto simp: bind_res_eq_Inr intro!: tasked [OF assms(1)] dest: assms(2))
  have rest: "filter (\<lambda>x. tk_stack x = i) (filter (\<lambda>t. \<not> (tk_id t = task \<and> tk_stack t = j)) ts) = filter (\<lambda>x. tk_stack x = i) ts"
    if "i \<noteq> j" for i and ts :: "task_row list" unfolding filter_filter using that by (intro filter_cong) auto
  show "I (snd (remove_scheduled_task u j task w))"
    unfolding remove_scheduled_task_def
    by (rule transact_keeps [OF assms(1)], simp only: bind_res_eq_Inr sum.inject prod.inject, elim exE conjE, hypsubst,
        rule tasked [OF assms(1)], rule assms(2), assumption, rule rest)
qed

lemma rollback_keeps:
  assumes "I w" "\<And>k. fetch_owned_stack u j (pn_db w) = Inr k \<Longrightarrow> ok j"
  shows "I (snd (rollback_deployment en u j dep w))"
  unfolding rollback_deployment_def
proof (rule transact_keeps [OF assms(1)], simp only: bind_res_eq_Inr, elim exE conjE)
  fix x w' k
  assume k: "fetch_owned_stack u j (pn_db w) = Inr k"
    and r: "(case find (\<lambda>x. dp_id x = dep \<and> dp_stack x = j) (pn_deployments w) of
       None \<Rightarrow> Inl not_found
     | Some x \<Rightarrow> Inr (queue_operation ''converge_stack'' (se_now en) k
           (w\<lparr>pn_deployments := pn_deployments w @ [\<lparr>dp_id = fresh_id (map dp_id (pn_deployments w)), dp_stack = j,
              dp_commit = dp_commit x, dp_status = ''running'', dp_message = Some (''Rollback to '' @ dp_commit x)\<rparr>]\<rparr>))) = Inr (x, w')"
  have ok: "ok j" "ok (sk_id k)" using assms(2) [OF k] fetch_Inr [OF k] by auto
  from r obtain d where "queue_operation ''converge_stack'' (se_now en) k (w\<lparr>pn_deployments := pn_deployments w @ [d]\<rparr>) = (x, w')"
      "dp_stack d = j" by (auto split: option.splits)
  moreover have "I (w\<lparr>pn_deployments := pn_deployments w @ [d]\<rparr>)" if "dp_stack d = j" for d
    using that by (auto intro!: deployed [OF assms(1) ok(1)])
  ultimately show "I w'" using queued_pair ok(2) by blast
qed

lemma create_keeps:
  assumes "I w" "allowed en u (Create n b raw s)"
  shows "I (snd (create_stack en u n b raw s w))"
  unfolding create_stack_def bind_respond'
  by (rule transact_keeps [OF assms(1)]) (rule created [OF assms])

lemma serve_keeps:
  assumes "I w" "allowed en u r"
  shows "I (snd (serve en u r w))"
proof -
  have own: "fetch_owned_stack u j (pn_db w) = Inr k \<Longrightarrow> ok j" if "target r = Some j" for j k
    using reaches [OF assms that] by blast
  have hook: "ok j" if "r = Webhook j rq" for j rq
    using reaches [OF assms, of j] that by (simp add: is_webhook_def)
  note keeps = written_keeps [OF assms(1)] tags_keep [OF assms(1)] tasks_keep [OF assms(1)] rollback_keeps [OF assms(1)]
    delete_keeps [OF assms(1)] set_domain_keeps [OF assms(1)] change_service_keeps [OF assms(1)]
    set_env_keeps [OF assms(1)] webhook_keeps [OF assms(1)] create_keeps [OF assms(1)]
  show ?thesis
  proof (cases r)
    case (SetEnv j env)
    then show ?thesis using keeps own assms(2) by simp
  next
    case (PostStart j n c)
    then show ?thesis using keeps own assms(1) by (simp add: set_post_start_command_def)
  next
    case (Health j n h)
    then show ?thesis using keeps own assms(1) by (simp add: set_health_check_def)
  qed (use keeps own hook assms in \<open>simp_all add: set_service_exposure_def set_zero_downtime_def\<close>)
qed

lemma run_keeps:
  assumes "I w" "\<forall>(en, u, r)\<in>set rs. allowed en u r"
  shows "I (serve_all rs w)"
  using assms by (induction rs arbitrary: w) (auto simp: serve_all_def intro: serve_keeps)

end

subsection \<open>What creating a stack adds\<close>

definition created_panel :: "site_env \<Rightarrow> user_row \<Rightarrow> string \<Rightarrow> blueprint \<Rightarrow> inputs \<Rightarrow> int option
    \<Rightarrow> (string \<Rightarrow> string option) \<Rightarrow> stack_spec \<Rightarrow> panel \<Rightarrow> panel" where
  "created_panel en u n bp raw server locks spec w =
     (let i = fresh_id (map sk_id (db_stacks (pn_db w)));
          k = new_stack i u server n bp (seal_inputs (se_vault en) raw);
          oid = fresh_id (map fst (pn_operations w))
      in w\<lparr>pn_db := persist_rendered (se_vault en) i locks spec ((pn_db w)\<lparr>db_stacks := db_stacks (pn_db w) @ [k]\<rparr>),
           pn_operations := pn_operations w @ [(oid, fresh_operation ''create_stack'' ''pending'' (se_now en) i)],
           pn_queue := enqueue n (Some oid) (pn_queue w)\<rparr>)"

lemma validate_slug_same: "validate_slug n = Inr m \<Longrightarrow> m = n"
  by (auto simp: validate_slug_def split: if_splits)

lemma create_steps:
  assumes "create_body en u n b raw server w = Inr (x, w')"
  shows "\<exists>bp inputs spec alloc locks. se_blueprint en b = Some bp \<and> validate_slug n = Inr n \<and> within_quota en u (pn_db w)
     \<and> n \<notin> sk_name ` set (db_stacks (pn_db w)) \<and> bp_parse bp raw = Some inputs
     \<and> allocate en bp inputs (new_stack (fresh_id (map sk_id (db_stacks (pn_db w)))) u server n bp (seal_inputs (se_vault en) raw)) = Inr alloc
     \<and> render_stack en bp n inputs alloc = Inr spec
     \<and> refuse_domain_conflicts w (map e_domain (st_endpoints spec)) None = Inr () \<and> distinct (map e_domain (st_endpoints spec))
     \<and> resolve_stack_image_locks (se_hub en) spec = Inr locks
     \<and> w' = created_panel en u n bp raw server locks spec w
     \<and> x = (fresh_id (map sk_id (db_stacks (pn_db w))), fresh_id (map fst (pn_operations w)), al_secrets alloc)"
proof -
  obtain bp where bp: "se_blueprint en b = Some bp"
    using assms by (cases "se_blueprint en b") (simp_all add: create_body_def Let_def bind_res_eq_Inr)
  obtain m where m: "validate_slug n = Inr m"
    using assms bp by (cases "validate_slug n") (simp_all add: create_body_def Let_def bind_res_eq_Inr)
  obtain inputs where i: "bp_parse bp raw = Some inputs"
    using assms bp m by (cases "bp_parse bp raw") (simp_all add: create_body_def Let_def bind_res_eq_Inr)
  show ?thesis using assms bp m i validate_slug_same [OF m]
    by (auto simp: create_body_def Let_def add_operation_def bind_res_eq_Inr created_panel_def)
qed

subsection \<open>Isolation of tenants\<close>

text \<open>Everything the panel keeps of one stack.\<close>

record slice =
  sl_stack :: "stack_row list"
  sl_services :: "service_row list"
  sl_volumes :: "volume_row list"
  sl_endpoints :: "endpoint_row list"
  sl_tags :: "(int \<times> int) list"
  sl_tasks :: "task_row list"
  sl_deployments :: "deployment_row list"
  sl_operations :: "(int \<times> operation) list"

definition slice_of :: "int \<Rightarrow> panel \<Rightarrow> slice" where
  "slice_of i w =
     \<lparr>sl_stack = filter (\<lambda>k. sk_id k = i) (db_stacks (pn_db w)), sl_services = stack_services (pn_db w) i,
      sl_volumes = stack_volumes (pn_db w) i, sl_endpoints = stack_endpoints (pn_db w) i,
      sl_tags = filter (\<lambda>x. fst x = i) (pn_stack_tags w), sl_tasks = filter (\<lambda>x. tk_stack x = i) (pn_tasks w),
      sl_deployments = filter (\<lambda>x. dp_stack x = i) (pn_deployments w),
      sl_operations = filter (\<lambda>x. op_stack (snd x) = Some i) (pn_operations w)\<rparr>"

definition stranger :: "slice \<Rightarrow> user_row \<Rightarrow> bool" where
  "stranger s u \<longleftrightarrow> \<not> is_admin u \<and> sl_stack s \<noteq> [] \<and> (\<forall>k\<in>set (sl_stack s). sk_owner k \<noteq> Some (us_id u))"

definition foreign :: "int \<Rightarrow> slice \<Rightarrow> site_env \<Rightarrow> user_row \<Rightarrow> request \<Rightarrow> bool" where
  "foreign i s en u r \<longleftrightarrow> stranger s u \<and> (is_webhook r \<longrightarrow> target r \<noteq> Some i)"

lemma filter_map_other:
  "i \<noteq> j \<Longrightarrow> (\<And>x. key (f x) = key x) \<Longrightarrow>
     filter (\<lambda>x. key x = i) (map (\<lambda>x. if key x = j then f x else x) xs) = filter (\<lambda>x. key x = i) xs"
  by (induction xs) auto

lemma slice_update_stack:
  "j \<noteq> i \<Longrightarrow> keeps_identity f \<Longrightarrow> slice_of i (w\<lparr>pn_db := update_stack (pn_db w) j f\<rparr>) = slice_of i w"
  by (simp add: slice_of_def update_stack_def stack_services_def stack_volumes_def stack_endpoints_def
      filter_map_other keeps_identity_def)

lemma slice_update_service:
  assumes "j \<noteq> i" "\<And>s. w_stack (g s) = w_stack s"
  shows "slice_of i (w\<lparr>pn_db := update_service j m g (pn_db w)\<rparr>) = slice_of i w"
proof -
  have "filter (\<lambda>s. w_stack s = i) (map (\<lambda>s. if w_stack s = j \<and> w_name s = m then g s else s) ws) = filter (\<lambda>s. w_stack s = i) ws" for ws
    using assms by (induction ws) auto
  then show ?thesis by (simp add: slice_of_def update_service_def stack_services_def stack_volumes_def stack_endpoints_def)
qed

lemma slice_queue:
  assumes "sk_id k \<noteq> i"
  shows "slice_of i (snd (queue_operation kind now k w)) = slice_of i w"
proof -
  have "keeps_identity (\<lambda>k. k\<lparr>sk_generation := sk_generation k + 1\<rparr>)" by (simp add: keeps_identity_def)
  from slice_update_stack [OF assms this, of w] show ?thesis using assms
    by (simp add: queue_operation_def add_operation_def Let_def bump_def slice_of_def fresh_operation_def)
qed

lemma slice_endpoints:
  assumes "j \<noteq> i" "endpoints_of j gone" "endpoints_of j new" "flush_endpoints gone new (pn_db w) = Inr d"
  shows "slice_of i (w\<lparr>pn_db := d\<rparr>) = slice_of i w"
proof -
  have "filter (\<lambda>e. er_stack e = i) (filter (\<lambda>e. e \<notin> set gone) es) = filter (\<lambda>e. er_stack e = i) es" for es
    unfolding filter_filter using assms(1,2) by (intro filter_cong) (auto simp: endpoints_of_def)
  moreover have "filter (\<lambda>e. er_stack e = i) new = []" using assms(1,3) by (auto simp: endpoints_of_def filter_empty_conv)
  ultimately show ?thesis using assms(4)
    by (auto simp: flush_Inr slice_of_def stack_services_def stack_volumes_def stack_endpoints_def)
qed

lemma slice_resync: "slice_of i (resync w) = slice_of i w"
  by (simp add: slice_of_def resync_def)

lemma slice_created:
  assumes "i \<in> sk_id ` set (db_stacks (pn_db w))"
  shows "slice_of i (created_panel en u n bp raw server locks spec w) = slice_of i w"
proof -
  have "fresh_id (map sk_id (db_stacks (pn_db w))) \<noteq> i" using fresh_id_less [of i "map sk_id (db_stacks (pn_db w))"] assms by auto
  then show ?thesis
    by (simp add: created_panel_def Let_def slice_of_def persist_rendered_def stack_services_def stack_volumes_def
        stack_endpoints_def row_of_service_def new_stack_def fresh_operation_def filter_empty_conv)
qed

interpretation isolation: panel_invariant "\<lambda>w. slice_of i w = s" "foreign i s" "\<lambda>j. j \<noteq> i" for i s
proof
  fix w en u r j k
  assume a: "slice_of i w = s" "foreign i s en u r" "target r = Some j"
    "is_webhook r \<or> fetch_owned_stack u j (pn_db w) = Inr k"
  show "j \<noteq> i"
  proof
    assume "j = i"
    then have "fetch_owned_stack u i (pn_db w) = Inr k" using a by (auto simp: foreign_def)
    from fetch_Inr [OF this] have "k \<in> set (sl_stack s)" "is_admin u \<or> sk_owner k = Some (us_id u)"
      using a(1) by (auto simp: slice_of_def)
    then show False using a(2) by (auto simp: foreign_def stranger_def)
  qed
next
  fix w en u n b raw server x w'
  assume a: "slice_of i w = s" "foreign i s en u (Create n b raw server)" "create_body en u n b raw server w = Inr (x, w')"
  from create_steps [OF a(3)] obtain bp spec locks where "w' = created_panel en u n bp raw server locks spec w" by blast
  moreover have "sl_stack s \<noteq> []" using a(2) by (simp add: foreign_def stranger_def)
  then have "i \<in> sk_id ` set (db_stacks (pn_db w))" unfolding a(1) [symmetric] by (auto simp: slice_of_def filter_empty_conv)
  ultimately show "slice_of i w' = s" using slice_created a(1) by simp
next
  fix w j and st :: "(int \<times> int) list"
  assume "slice_of i w = s" "j \<noteq> i" "\<And>i. i \<noteq> j \<Longrightarrow> filter (\<lambda>x. fst x = i) st = filter (\<lambda>x. fst x = i) (pn_stack_tags w)"
  then show "slice_of i (w\<lparr>pn_stack_tags := st\<rparr>) = s" unfolding slice_of_def by simp
next
  fix w j tk
  assume "slice_of i w = s" "j \<noteq> i" "\<And>i. i \<noteq> j \<Longrightarrow> filter (\<lambda>x. tk_stack x = i) tk = filter (\<lambda>x. tk_stack x = i) (pn_tasks w)"
  then show "slice_of i (w\<lparr>pn_tasks := tk\<rparr>) = s" unfolding slice_of_def by simp
next
  fix w j ds
  assume "slice_of i w = s" "j \<noteq> i" "\<And>i. i \<noteq> j \<Longrightarrow> filter (\<lambda>x. dp_stack x = i) ds = filter (\<lambda>x. dp_stack x = i) (pn_deployments w)"
  then show "slice_of i (w\<lparr>pn_deployments := ds\<rparr>) = s" unfolding slice_of_def by simp
next
  show "slice_of i w = s \<Longrightarrow> slice_of i (w\<lparr>pn_tags := ts\<rparr>) = s" for w ts by (simp add: slice_of_def)
qed (simp_all add: slice_update_stack on_stack_def slice_update_service slice_queue slice_endpoints slice_resync)

definition turned_away :: "unit res \<times> panel \<Rightarrow> panel \<Rightarrow> bool" where
  "turned_away out w \<longleftrightarrow> snd out = w \<and> fst out \<in> {Inl not_found, Inl invalid_request}"

lemma turned_transact:
  assumes "body w = Inl not_found \<or> body w = Inl invalid_request"
  shows "turned_away (map_prod (map_sum id (\<lambda>_. ())) id (transact body w)) w" "turned_away (map_prod (map_sum id (\<lambda>_. ())) id (bind_act (transact body) f w)) w"
  using assms by (auto simp: turned_away_def transact_def bind_act_def)

lemma fetch_not_found: "fetch_owned_stack u j d = Inl e \<Longrightarrow> e = not_found"
  by (auto simp: fetch_owned_stack_def split: option.splits if_splits)

text \<open>A stack that is not the caller's is answered as one that does not exist.\<close>

lemma serve_turned_away:
  assumes "fetch_owned_stack u j (pn_db w) = Inl e" "target r = Some j" "\<not> is_webhook r"
  shows "turned_away (serve en u r w) w"
proof -
  have e: "fetch_owned_stack u j (pn_db w) = Inl not_found" using assms(1) fetch_not_found by metis
  have o: "open_stack u j (pn_db w) = Inl not_found" by (simp add: open_stack_def e)
  have g: "guard b x = Inr () \<or> guard b x = Inl x" for b x by (simp add: guard_def)
  have svc: "turned_away (map_prod (map_sum id (\<lambda>_. ())) id (change_service en u j n valid f w)) w" for n valid f
    unfolding change_service_def by (rule turned_transact) (simp add: o)
  have unit: "map_prod (map_sum id (\<lambda>_. ())) id out = out" for out :: "unit res \<times> panel"
    by (cases out, rename_tac a b, case_tac a) auto
  have self: "turned_away (Inl invalid_request, w) w" by (simp add: turned_away_def)
  show ?thesis
  proof (cases r)
    case (SetDomain i d c n)
    then show ?thesis using assms(2)
      by (auto intro!: turned_transact simp: set_stack_domain_def set_domain_body_def Let_def o guard_def)
  next
    case (AddTask i n c cron)
    then show ?thesis using assms(2)
      by (simp, subst unit [symmetric]) (auto intro!: turned_transact simp: add_scheduled_task_def e guard_def)
  next
    case (Config i c)
    then show ?thesis using assms(2)
      by (simp, subst unit [symmetric]) (auto intro!: turned_transact simp: update_stack_config_def e)
  next
    case (RemoveTag i c)
    then show ?thesis using assms(2)
      by (simp, subst unit [symmetric]) (auto intro!: turned_transact simp: remove_stack_tag_def e)
  next
    case (RemoveTask i c)
    then show ?thesis using assms(2)
      by (simp, subst unit [symmetric]) (auto intro!: turned_transact simp: remove_scheduled_task_def e)
  qed (use assms(2,3) svc self in \<open>auto intro!: turned_transact simp: e o guard_def is_webhook_def set_env_body_def Let_def
      set_stack_env_def delete_stack_def set_watch_paths_def add_stack_tag_def rollback_deployment_def
      set_service_exposure_def set_zero_downtime_def set_post_start_command_def set_health_check_def\<close>)
qed

lemma slice_fetch: "stranger s u \<Longrightarrow> slice_of i w = s \<Longrightarrow> \<exists>e. fetch_owned_stack u i (pn_db w) = Inl e"
proof -
  assume a: "stranger s u" "slice_of i w = s"
  have "fetch_owned_stack u i (pn_db w) \<noteq> Inr k" for k
    using a fetch_Inr [of u i "pn_db w" k] by (auto simp: stranger_def slice_of_def)
  then show ?thesis by (metis sum.exhaust_sel)
qed


subsection \<open>One domain, one route\<close>

definition exclusive :: "panel \<Rightarrow> bool" where
  "exclusive w \<longleftrightarrow> distinct (map er_domain (db_endpoints (pn_db w)))
     \<and> er_domain ` set (db_endpoints (pn_db w)) \<inter> (set (pn_sites w) \<union> set (pn_apps w)) = {}"

definition not_env :: "site_env \<Rightarrow> user_row \<Rightarrow> request \<Rightarrow> bool" where
  "not_env en u r \<longleftrightarrow> (case r of SetEnv i env \<Rightarrow> False | _ \<Rightarrow> True)"

lemma exclusive_same:
  "db_endpoints (pn_db w') = db_endpoints (pn_db w) \<Longrightarrow> pn_sites w' = pn_sites w \<Longrightarrow> pn_apps w' = pn_apps w \<Longrightarrow>
     exclusive w' = exclusive w"
  by (simp add: exclusive_def)

lemma queue_operation_sel [simp]:
  "db_endpoints (pn_db (snd (queue_operation kind now k w))) = db_endpoints (pn_db w)"
  "pn_sites (snd (queue_operation kind now k w)) = pn_sites w" "pn_apps (snd (queue_operation kind now k w)) = pn_apps w"
  by (simp_all add: queue_operation_def add_operation_def Let_def bump_def update_stack_def)

lemma refuse_Inr:
  "refuse_domain_conflicts w ds x = Inr () \<longleftrightarrow>
     (\<forall>e\<in>set (db_endpoints (pn_db w)). er_domain e \<in> set ds \<longrightarrow> x = Some (er_stack e))
     \<and> set ds \<inter> (set (pn_sites w) \<union> set (pn_apps w)) = {}"
  by (auto simp: refuse_domain_conflicts_def bind_res_eq_Inr list_ex_iff)

lemma exclusive_flush:
  assumes "exclusive w" "flush_endpoints gone new (pn_db w) = Inr d" "refuse_domain_conflicts w (map er_domain new) x = Inr ()"
  shows "exclusive (w\<lparr>pn_db := d\<rparr>)"
proof -
  let ?es = "db_endpoints (pn_db w)"
  have d: "db_endpoints d = filter (\<lambda>e. e \<notin> set gone) ?es @ new" "distinct (map er_domain new)"
      "er_domain ` set new \<inter> er_domain ` set ?es = {}" using assms(2) by (auto simp: flush_Inr)
  have "distinct (map er_domain (filter P ?es))" for P using assms(1) by (simp add: exclusive_def distinct_map_filter)
  then show ?thesis using assms(1,3) d by (auto simp: exclusive_def refuse_Inr)
qed

lemma exclusive_created:
  assumes "exclusive w" "refuse_domain_conflicts w (map e_domain (st_endpoints spec)) None = Inr ()"
    "distinct (map e_domain (st_endpoints spec))"
  shows "exclusive (created_panel en u n bp raw server locks spec w)"
  using assms by (fastforce simp: exclusive_def refuse_Inr created_panel_def Let_def persist_rendered_def comp_def)

interpretation domains: panel_invariant exclusive not_env "\<lambda>_. True"
proof
  fix w en u n b raw server x w'
  assume "exclusive w" "create_body en u n b raw server w = Inr (x, w')"
  then show "exclusive w'" using create_steps [of en u n b raw server w x w'] exclusive_created by blast
next
  fix w j gone new d en u env
  assume "exclusive w" "flush_endpoints gone new (pn_db w) = Inr d"
    "refuse_domain_conflicts w (map er_domain new) (Some j) = Inr () \<or> not_env en u (SetEnv j env)"
  then show "exclusive (w\<lparr>pn_db := d\<rparr>)" using exclusive_flush by (auto simp: not_env_def)
qed (auto simp: exclusive_def on_stack_def update_stack_def update_service_def resync_def)


subsection \<open>The quota\<close>

definition limited_to :: "int \<Rightarrow> int \<Rightarrow> site_env \<Rightarrow> user_row \<Rightarrow> request \<Rightarrow> bool" where
  "limited_to m o' en u r \<longleftrightarrow> (target r = None \<longrightarrow> us_id u = o' \<longrightarrow>
     \<not> is_admin u \<and> (\<exists>l\<le>m. l_stacks (effective_limits (se_auth en) u) = Some l))"

lemma count_update: "keeps_identity f \<Longrightarrow> stack_count o' (update_stack d j f) = stack_count o' d"
proof -
  assume "keeps_identity f"
  then have "length (filter (\<lambda>k. sk_owner k = Some o') (map (\<lambda>k. if sk_id k = j then f k else k) ks)) =
      length (filter (\<lambda>k. sk_owner k = Some o') ks)" for ks
    by (induction ks) (auto simp: keeps_identity_def)
  then show ?thesis by (simp add: stack_count_def update_stack_def)
qed

lemma count_created:
  "stack_count o' (pn_db (created_panel en u n bp raw server locks spec w)) =
     stack_count o' (pn_db w) + (if us_id u = o' then 1 else 0)"
  by (simp add: created_panel_def Let_def stack_count_def persist_rendered_def new_stack_def)

interpretation quota: panel_invariant "\<lambda>w. int (stack_count o' (pn_db w)) \<le> m" "limited_to m o'" "\<lambda>_. True" for o' m
proof
  fix w en u n b raw server x w'
  assume a: "int (stack_count o' (pn_db w)) \<le> m" "limited_to m o' en u (Create n b raw server)"
    "create_body en u n b raw server w = Inr (x, w')"
  from create_steps [OF a(3)] obtain bp spec locks where c: "w' = created_panel en u n bp raw server locks spec w" "within_quota en u (pn_db w)"
    by blast
  show "int (stack_count o' (pn_db w')) \<le> m"
    using a(1,2) c by (auto simp: count_created limited_to_def within_quota_def)
next
  fix w :: panel and k kind now
  assume "int (stack_count o' (pn_db w)) \<le> m"
  moreover have "keeps_identity (\<lambda>k. k\<lparr>sk_generation := sk_generation k + 1\<rparr>)" by (simp add: keeps_identity_def)
  ultimately show "int (stack_count o' (pn_db (snd (queue_operation kind now k w)))) \<le> m"
    by (simp add: queue_operation_def add_operation_def Let_def bump_def count_update)
next
  fix w gone new d
  assume "int (stack_count o' (pn_db w)) \<le> m" "flush_endpoints gone new (pn_db w) = Inr d"
  then show "int (stack_count o' (pn_db (w\<lparr>pn_db := d\<rparr>))) \<le> m" by (auto simp: flush_Inr stack_count_def)
qed (simp_all add: on_stack_def count_update resync_def, simp add: stack_count_def update_service_def)


subsection \<open>Operations\<close>

text \<open>Every pending operation is known to the reconciler, under an id of its own.\<close>

definition operations_ok :: "panel \<Rightarrow> bool" where
  "operations_ok w \<longleftrightarrow> distinct (map fst (pn_operations w))
     \<and> (\<forall>(oid, op)\<in>set (pn_operations w). op_status op = ''pending'' \<longrightarrow> Some oid \<in> snd ` set (pn_queue w))
     \<and> (\<forall>oid. Some oid \<in> snd ` set (pn_queue w) \<longrightarrow> oid \<in> fst ` set (pn_operations w))"

lemma operations_ok_added:
  assumes "operations_ok w" "oid = fresh_id (map fst (pn_operations w))"
    "pn_operations w' = pn_operations w @ [(oid, op)]" "pn_queue w' = enqueue n (Some oid) (pn_queue w)"
  shows "operations_ok w'"
proof -
  have "oid \<notin> fst ` set (pn_operations w)" using fresh_id_less [of oid "map fst (pn_operations w)"] assms(2) by auto
  then show ?thesis using assms(1,3,4) by (auto simp: operations_ok_def enqueue_def image_Un split: prod.splits)
qed

lemma operations_ok_same: "pn_operations w' = pn_operations w \<Longrightarrow> pn_queue w' = pn_queue w \<Longrightarrow> operations_ok w' = operations_ok w"
  by (simp add: operations_ok_def)

lemma operations_ok_queue: "operations_ok w \<Longrightarrow> operations_ok (snd (queue_operation kind now k w))"
  by (rule operations_ok_added [where op = "fresh_operation kind ''pending'' now (sk_id k)" and n = "sk_name k"])
    (simp_all add: queue_operation_def add_operation_def Let_def)

interpretation tracked: panel_invariant operations_ok "\<lambda>_ _ _. True" "\<lambda>_. True"
proof
  fix w en u n b raw server x w'
  assume "operations_ok w" "create_body en u n b raw server w = Inr (x, w')"
  moreover have "operations_ok (created_panel en u n bp raw server locks spec w)" if "operations_ok w" for bp spec locks
    by (rule operations_ok_added [OF that, where n = n]) (simp_all add: created_panel_def Let_def)
  ultimately show "operations_ok w'" using create_steps by blast
next
  show "operations_ok w \<Longrightarrow> operations_ok (snd (queue_operation kind now k w))" for w k kind now by (rule operations_ok_queue)
qed (simp_all add: on_stack_def resync_def operations_ok_same [of "_\<lparr>pn_db := _\<rparr>"] operations_ok_same [of "_\<lparr>pn_tags := _\<rparr>"]
  operations_ok_same [of "_\<lparr>pn_stack_tags := _\<rparr>"] operations_ok_same [of "_\<lparr>pn_tasks := _\<rparr>"]
  operations_ok_same [of "_\<lparr>pn_deployments := _\<rparr>"] operations_ok_same [of "_\<lparr>pn_resyncs := _\<rparr>"])


text \<open>A rollback to an image is the exception: the operation it answers with is never queued.  It
  also answers so when \<open>podman tag\<close> failed: only an exception counts, not the exit status.\<close>

theorem rollback_operation_lost:
  assumes "operations_ok w" "rollback_to_image en host u i name ref (w, h) = (Inr a, (w', h'))"
  shows "(\<exists>op. (ac_operation a, op) \<in> set (pn_operations w') \<and> op_status op = ''pending'')
    \<and> Some (ac_operation a) \<notin> snd ` set (pn_queue w') \<and> \<not> operations_ok w'"
proof -
  let ?oid = "fresh_id (map fst (pn_operations w))"
  let ?w1 = "w\<lparr>pn_db := bump i (pn_db w), pn_operations := pn_operations w @ [(?oid, fresh_operation ''converge_stack'' ''pending'' (se_now en) i)]\<rparr>"
  have op: "add_operation (fresh_operation ''converge_stack'' ''pending'' (se_now en) i) (w\<lparr>pn_db := bump i (pn_db w)\<rparr>) = (?oid, ?w1)"
    by (simp add: add_operation_def Let_def)
  from assms(2) have "fst (respond en i [] [] ?oid ?w1) = Inr a \<and> w' = snd (respond en i [] [] ?oid ?w1)"
    by (auto simp: rollback_to_image_def op Let_def case_prod_beta split: sum.splits)
  then have "respond en i [] [] ?oid ?w1 = (Inr a, w')" by (simp add: prod_eq_iff)
  then have w': "w' = ?w1" "ac_operation a = ?oid"
    by (auto simp: respond_def bind_res_eq_Inr split: option.splits)
  define oid where "oid = ?oid"
  have "oid \<notin> set (map fst (pn_operations w))" using fresh_id_less [of oid "map fst (pn_operations w)"] unfolding oid_def by blast
  then have "oid \<notin> fst ` set (pn_operations w)" by simp
  then have "Some oid \<notin> snd ` set (pn_queue w)" using assms(1) by (auto simp: operations_ok_def)
  then have lost: "Some oid \<notin> snd ` set (pn_queue w')" by (simp add: w')
  obtain op where op: "(oid, op) \<in> set (pn_operations w')" "op_status op = ''pending''"
    using that [of "fresh_operation ''converge_stack'' ''pending'' (se_now en) i"] by (simp add: w' oid_def fresh_operation_def)
  have "\<not> operations_ok w'" using lost op unfolding operations_ok_def by blast
  then show ?thesis using lost op w'(2) oid_def by metis
qed

end
