(* ===== verification/RouteBehaviour.thy ===== *)
theory RouteBehaviour
  imports StackRouteFacts
begin

text \<open>
  What single routes of \<open>backend/app/api/routes/stacks.py\<close> do to the desired world: a created stack loads
  as what its blueprint rendered, the webhook's decision, the log stream, and the routes that change
  domains and environment variables, followed to the plan of the next cycle.
\<close>

subsection \<open>Changing the domain\<close>

lemma choose_requested:
  "lower (strip d) \<noteq> [] \<Longrightarrow> choose_domain en k ports web (Some d) =
     (case validate_domain_name (lower (strip d)) of
        Inl e \<Rightarrow> Inl (if e = SpecValidationError then invalid_stack else e) | Inr _ \<Rightarrow> Inr (lower (strip d)))"
  by (simp add: choose_domain_def or_empty_def truthy_def guard_def Let_def split: sum.split)

lemma choose_requested_Inr: "lower (strip d) \<noteq> [] \<Longrightarrow> choose_domain en k ports web (Some d) = Inr x \<Longrightarrow> x = lower (strip d)"
  by (simp add: choose_requested split: sum.splits)

text \<open>The domain a stack already has cannot be set again, although the conflict check skips the stack's
  own domains for that purpose: the new row is written before the old one is deleted, and the column
  is unique.  So nothing else about the endpoint (its Cloudflare flag) can be changed either.\<close>

theorem same_domain_conflict:
  assumes "e \<in> set (stack_endpoints (pn_db w) i)" "er_domain e = lower (strip d)" "er_domain e \<noteq> []"
  shows "(\<exists>x. set_stack_domain en u i (Some d) c n w = (Inl x, w))
    \<and> (open_stack u i (pn_db w) = Inr k \<and> length d \<le> 253 \<and> exclusive w
        \<and> target_service (filter (\<lambda>s. w_internal_port s \<noteq> None) (stack_services (pn_db w) i)) n = Inr web
        \<and> validate_domain_name (er_domain e) = Inr y \<and> decrypt_inputs (se_vault en) k = Inr inputs
       \<longrightarrow> set_stack_domain en u i (Some d) c n w = (Inl IntegrityError, w))"
proof -
  have own: "e \<in> set (db_endpoints (pn_db w))" "er_stack e = i" using assms(1) by (auto simp: stack_endpoints_def)
  have taken: "flush_endpoints gone [\<lparr>er_stack = i, er_domain = er_domain e, er_service = s, er_behind_cloudflare = c\<rparr>]
      (if b then update_stack (pn_db w) i f else pn_db w) = Inl IntegrityError" for gone s b f
    using own(1) by (auto simp: flush_endpoints_def update_stack_def)
  have fails: "set_domain_body en u i (Some d) c n w \<noteq> Inr (oid, w1)" for oid w1
  proof
    assume a: "set_domain_body en u i (Some d) c n w = Inr (oid, w1)"
    then obtain k web domain where "choose_domain en k (filter (\<lambda>s. w_internal_port s \<noteq> None) (stack_services (pn_db w) i)) web (Some d) = Inr domain"
      and "bind_res (decrypt_inputs (se_vault en) k) (\<lambda>inputs.
         let (inputs', changed) = update_env_for_domain inputs domain (map_option er_domain (find (\<lambda>e. er_service e = w_name web) (stack_endpoints (pn_db w) i))) (length (filter (\<lambda>s. w_internal_port s \<noteq> None) (stack_services (pn_db w) i)) = 1);
             d1 = (if changed then update_stack (pn_db w) i (\<lambda>k. k\<lparr>sk_inputs := Some (seal_inputs (se_vault en) inputs')\<rparr>) else pn_db w)
         in bind_res (flush_endpoints (filter (\<lambda>e. er_service e = w_name web) (stack_endpoints (pn_db w) i))
              [\<lparr>er_stack = i, er_domain = domain, er_service = w_name web, er_behind_cloudflare = c\<rparr>] d1) (\<lambda>d2.
         Inr (queue_operation ''converge_stack'' (se_now en) k (w\<lparr>pn_db := d2\<rparr>)))) = Inr (oid, w1)"
      unfolding set_domain_body_def Let_def by (auto simp only: bind_res_eq_Inr)
    moreover from this(1) have "domain = er_domain e" using choose_requested_Inr assms(2,3) by metis
    ultimately show False using taken by (simp add: bind_res_eq_Inr case_prod_beta Let_def)
  qed
  have "\<exists>x. set_stack_domain en u i (Some d) c n w = (Inl x, w)"
  proof (cases "set_domain_body en u i (Some d) c n w")
    case (Inl x)
    then show ?thesis by (simp add: set_stack_domain_def transact_def bind_act_def)
  next
    case (Inr p)
    then show ?thesis using fails by (cases p) simp
  qed
  moreover have "set_stack_domain en u i (Some d) c n w = (Inl IntegrityError, w)"
    if h: "open_stack u i (pn_db w) = Inr k" "length d \<le> 253" "exclusive w"
      "target_service (filter (\<lambda>s. w_internal_port s \<noteq> None) (stack_services (pn_db w) i)) n = Inr web"
      "validate_domain_name (er_domain e) = Inr y" "decrypt_inputs (se_vault en) k = Inr inputs"
  proof -
    have "er_stack e' = i" if "e' \<in> set (db_endpoints (pn_db w))" "er_domain e' = er_domain e" for e'
      using h(3) own that by (auto simp: exclusive_def distinct_map inj_on_def)
    then have "refuse_domain_conflicts w [er_domain e] (Some i) = Inr ()"
      using h(3) own(1) by (auto simp: refuse_Inr exclusive_def)
    moreover have "choose_domain en k (filter (\<lambda>s. w_internal_port s \<noteq> None) (stack_services (pn_db w) i)) web (Some d) = Inr (er_domain e)"
      using h(5) assms(2,3) by (simp add: choose_requested)
    ultimately have "set_domain_body en u i (Some d) c n w = Inl IntegrityError"
      using h taken unfolding set_domain_body_def Let_def by (simp add: or_empty_def case_prod_beta guard_def)
    then show ?thesis by (simp add: set_stack_domain_def transact_def bind_act_def)
  qed
  ultimately show ?thesis by blast
qed

subsection \<open>Editing the environment\<close>

lemma map_bind_res: "map_sum id f (bind_res m g) = bind_res m (\<lambda>x. map_sum id f (g x))"
  by (cases m) simp_all

lemma stack_post_init_generation:
  "stack_post_init (st\<lparr>st_generation := g\<rparr>) = map_sum id (\<lambda>st. st\<lparr>st_generation := g\<rparr>) (stack_post_init st)"
  by (simp add: stack_post_init_def Let_def map_bind_res)

lemma spec_for_generation:
  "spec_for v (k\<lparr>sk_inputs := x, sk_generation := sk_generation k + 1\<rparr>) ws vs ers susp =
     map_sum id (\<lambda>st. st\<lparr>st_generation := st_generation st + 1\<rparr>) (spec_for v k ws vs ers susp)"
proof -
  have last: "stack_post_init (st\<lparr>st_generation := st_generation st + 1\<rparr>) =
      map_sum id (\<lambda>st. st\<lparr>st_generation := st_generation st + 1\<rparr>) (stack_post_init st)" for st
    by (simp add: stack_post_init_def Let_def map_bind_res)
  show ?thesis unfolding spec_for_def map_bind_res
    by (simp add: last [symmetric])
qed

lemma find_update_stack:
  "find (\<lambda>k. sk_id k = i) (db_stacks d) = Some k \<Longrightarrow> (\<And>k. sk_id (f k) = sk_id k) \<Longrightarrow>
     find (\<lambda>k. sk_id k = i) (db_stacks (update_stack d i f)) = Some (f k)"
proof -
  assume a: "find (\<lambda>k. sk_id k = i) (db_stacks d) = Some k" "\<And>k. sk_id (f k) = sk_id k"
  then have "find (\<lambda>k. sk_id k = i) ks = Some k \<Longrightarrow> find (\<lambda>k. sk_id k = i) (map (\<lambda>k. if sk_id k = i then f k else k) ks) = Some (f k)" for ks
    by (induction ks) (auto split: if_splits)
  then show ?thesis using a(1) by (simp add: update_stack_def)
qed

lemma bump_row:
  "find (\<lambda>k. sk_id k = i) (db_stacks d) = Some k \<Longrightarrow>
     find (\<lambda>k. sk_id k = i) (db_stacks (bump i d)) = Some (k\<lparr>sk_generation := sk_generation k + 1\<rparr>)"
  unfolding bump_def by (rule find_update_stack) simp_all

lemma queue_db: "queue_operation kind now k w = (oid, w') \<Longrightarrow> pn_db w' = bump (sk_id k) (pn_db w) \<and> pn_resyncs w' = pn_resyncs w
    \<and> pn_sites w' = pn_sites w \<and> pn_apps w' = pn_apps w"
  by (auto simp: queue_operation_def add_operation_def Let_def)

lemma bump_children [simp]:
  "stack_services (bump i d) j = stack_services d j" "stack_volumes (bump i d) j = stack_volumes d j"
  "stack_endpoints (bump i d) j = stack_endpoints d j" "db_endpoints (bump i d) = db_endpoints d"
  by (simp_all add: bump_def update_stack_def stack_services_def stack_volumes_def stack_endpoints_def)

lemma update_children [simp]:
  "stack_services (update_stack d i f) j = stack_services d j" "stack_volumes (update_stack d i f) j = stack_volumes d j"
  "stack_endpoints (update_stack d i f) j = stack_endpoints d j" "db_endpoints (update_stack d i f) = db_endpoints d"
  by (simp_all add: update_stack_def stack_services_def stack_volumes_def stack_endpoints_def)

lemma set_env_Inr: "set_stack_env en u i env w = (Inr a, w') \<Longrightarrow> \<exists>x. set_env_body en u i env w = Inr (x, w')"
proof -
  assume a: "set_stack_env en u i env w = (Inr a, w')"
  then have "snd (transact (set_env_body en u i env) w) = w'"
    using bind_respond'(1) [of "transact (set_env_body en u i env)" en i w] by (simp add: set_stack_env_def)
  then show ?thesis using a by (cases "set_env_body en u i env w") (auto simp: set_stack_env_def transact_def bind_act_def)
qed

text \<open>An edit of the environment that changes no domain changes nothing that runs: the stack loads as
  before except for its generation.  The services, whose environments the units are rendered from, are
  never updated; only the stored inputs are.\<close>

theorem env_update_ignored:
  assumes "set_stack_env en u i env w = (Inr a, w')" "pn_resyncs w' = pn_resyncs w"
    and "find (\<lambda>k. sk_id k = i) (db_stacks (pn_db w)) = Some k"
  shows "\<exists>k'. find (\<lambda>k. sk_id k = i) (db_stacks (pn_db w')) = Some k'
    \<and> (\<forall>v susp. spec_of_stack v (pn_db w') k' susp =
         map_sum id (\<lambda>st. st\<lparr>st_generation := st_generation st + 1\<rparr>) (spec_of_stack v (pn_db w) k susp))"
proof -
  obtain x where "set_env_body en u i env w = Inr (x, w')" using set_env_Inr [OF assms(1)] by blast
  from set_env_steps [OF this] obtain k1 inputs gone new d2 oid w1 where s: "fetch_owned_stack u i (pn_db w) = Inr k1"
      "flush_endpoints gone new (update_stack (pn_db w) i (\<lambda>k. k\<lparr>sk_inputs := Some (seal_inputs (se_vault en)
           (AList.update ''env'' (JObj (map (\<lambda>(k, x). (k, JStr x)) env)) inputs))\<rparr>)) = Inr d2"
      "queue_operation ''converge_stack'' (se_now en) k1 (w\<lparr>pn_db := d2\<rparr>) = (oid, w1)"
      "w' = (if gone \<noteq> [] \<or> new \<noteq> [] then resync w1 else w1)" by blast
  let ?x = "Some (seal_inputs (se_vault en) (AList.update ''env'' (JObj (map (\<lambda>(k, x). (k, JStr x)) env)) inputs))"
  note q = queue_db [OF s(3)]
  have none: "gone = [] \<and> new = []" using s(4) assms(2) q by (auto simp: resync_def split: if_splits)
  then have d2: "d2 = update_stack (pn_db w) i (\<lambda>k. k\<lparr>sk_inputs := ?x\<rparr>)" using s(2) by (simp add: flush_Inr)
  have id: "sk_id k1 = i" using fetch_Inr [OF s(1)] by simp
  have db: "pn_db w' = bump i d2" using q s(4) none id by simp
  have f: "find (\<lambda>k. sk_id k = i) (db_stacks d2) = Some (k\<lparr>sk_inputs := ?x\<rparr>)"
    unfolding d2 by (rule find_update_stack [OF assms(3)]) simp
  from bump_row [OF this] have row: "find (\<lambda>k. sk_id k = i) (db_stacks (pn_db w')) = Some (k\<lparr>sk_inputs := ?x, sk_generation := sk_generation k + 1\<rparr>)"
    unfolding db by simp
  have "spec_of_stack v (pn_db w') (k\<lparr>sk_inputs := ?x, sk_generation := sk_generation k + 1\<rparr>) susp =
      map_sum id (\<lambda>st. st\<lparr>st_generation := st_generation st + 1\<rparr>) (spec_of_stack v (pn_db w) k susp)" for v susp
    unfolding db d2 spec_of_stack_def by (simp add: spec_for_generation)
  then show ?thesis using row by blast
qed

text \<open>Adding an address to the environment of a stack with one published service adds its host as a
  domain of the stack.\<close>

lemma sync_key_grows: "set (snd acc) \<subseteq> set (snd (sync_key i old new ps eps c key acc))"
  by (cases acc) (auto simp: sync_key_def Let_def split: option.split list.split)

lemma sync_fold_grows: "set (snd acc) \<subseteq> set (snd (fold (sync_key i old new ps eps c) keys acc))"
  by (induction keys arbitrary: acc) (use sync_key_grows in \<open>fastforce+\<close>)

lemma sync_adds:
  assumes "key \<in> set fqdn_env_keys" "parse_domain (fmget new key []) = Some d" "parse_domain (fmget old key []) = None"
    "filter (\<lambda>w. w_internal_port w \<noteq> None) ws = [svc]"
    "sync_endpoints_from_env_change old new ws eps i c = (gone, add)"
  shows "\<exists>e\<in>set add. er_domain e = d"
proof -
  obtain before after where keys: "fqdn_env_keys = before @ key # after" using split_list [OF assms(1)] by blast
  let ?step = "sync_key i old new [svc] eps c"
  define acc where "acc = fold ?step before ([], [])"
  have "\<exists>e\<in>set (snd (?step key acc)). er_domain e = d"
    using assms(2,3) by (cases acc) (auto simp: sync_key_def Let_def)
  moreover have "add = snd (fold ?step after (?step key acc))"
    using assms(5) unfolding sync_endpoints_from_env_change_def assms(4) keys acc_def by simp
  ultimately show ?thesis using sync_fold_grows [of "?step key acc"] by blast
qed

lemma set_env_adds:
  assumes "set_stack_env en u i env w = (Inr a, w')" "find (\<lambda>k. sk_id k = i) (db_stacks (pn_db w)) = Some k"
    and "key \<in> set fqdn_env_keys" "parse_domain (fmget (dict_of env) key []) = Some d"
    and "\<And>inputs. decrypt_inputs (se_vault en) k = Inr inputs \<Longrightarrow> parse_domain (fmget (env_strings (env_of_inputs inputs)) key []) = None"
    and "filter (\<lambda>s. w_internal_port s \<noteq> None) (stack_services (pn_db w) i) = [svc]"
  shows "\<exists>e\<in>set (stack_endpoints (pn_db w') i). er_domain e = d" "pn_sites w' = pn_sites w" "pn_apps w' = pn_apps w"
proof -
  obtain x where "set_env_body en u i env w = Inr (x, w')" using set_env_Inr [OF assms(1)] by blast
  from set_env_steps [OF this] obtain k1 inputs gone new d2 oid w1 where s: "fetch_owned_stack u i (pn_db w) = Inr k1"
      "decrypt_inputs (se_vault en) k1 = Inr inputs"
      "sync_endpoints_from_env_change (env_strings (env_of_inputs inputs)) (dict_of env) (stack_services (pn_db w) i)
          (stack_endpoints (pn_db w) i) i False = (gone, new)"
      "flush_endpoints gone new (update_stack (pn_db w) i (\<lambda>k. k\<lparr>sk_inputs := Some (seal_inputs (se_vault en)
           (AList.update ''env'' (JObj (map (\<lambda>(k, x). (k, JStr x)) env)) inputs))\<rparr>)) = Inr d2"
      "queue_operation ''converge_stack'' (se_now en) k1 (w\<lparr>pn_db := d2\<rparr>) = (oid, w1)"
      "w' = (if gone \<noteq> [] \<or> new \<noteq> [] then resync w1 else w1)" by blast
  note q = queue_db [OF s(5)]
  have "k1 = k" using s(1) assms(2) by (auto simp: fetch_owned_stack_def split: if_splits)
  then obtain e where e: "e \<in> set new" "er_domain e = d" using sync_adds [OF assms(3,4) assms(5) assms(6) s(3)] s(2) by blast
  have "endpoints_of i new" using sync_endpoints_own [OF _ s(3)] by (simp add: endpoints_of_def stack_endpoints_def)
  then have "e \<in> set (stack_endpoints d2 i)" using e(1) s(4) by (auto simp: flush_Inr stack_endpoints_def endpoints_of_def)
  moreover have "stack_endpoints (pn_db w') i = stack_endpoints d2 i" using q s(6) by (auto simp: resync_def)
  ultimately show "\<exists>e\<in>set (stack_endpoints (pn_db w') i). er_domain e = d" using e(2) by auto
  show "pn_sites w' = pn_sites w" "pn_apps w' = pn_apps w" using q s(6) by (auto simp: resync_def)
qed

text \<open>The environment is the way around the conflict check.  An address in it can name the domain of
  a site or of an app of anybody: the route accepts it and from then on the domain has two routes,
  while setting the same domain by its own route is refused.\<close>

theorem env_update_takes_domain:
  assumes "set_stack_env en u i env w = (Inr a, w')" "find (\<lambda>k. sk_id k = i) (db_stacks (pn_db w)) = Some k"
    and "key \<in> set fqdn_env_keys" "parse_domain (fmget (dict_of env) key []) = Some d"
    and "\<And>inputs. decrypt_inputs (se_vault en) k = Inr inputs \<Longrightarrow> parse_domain (fmget (env_strings (env_of_inputs inputs)) key []) = None"
    and "filter (\<lambda>s. w_internal_port s \<noteq> None) (stack_services (pn_db w) i) = [svc]"
    and "d \<in> set (pn_sites w) \<union> set (pn_apps w)" "lower (strip d) = d" "d \<noteq> []"
  shows "(\<exists>e\<in>set (stack_endpoints (pn_db w') i). er_domain e = d) \<and> \<not> exclusive w'
    \<and> (\<forall>u j c n. \<exists>e. set_stack_domain en u j (Some d) c n w = (Inl e, w))"
proof (intro conjI allI)
  note added = set_env_adds [OF assms(1-6)]
  show "\<exists>e\<in>set (stack_endpoints (pn_db w') i). er_domain e = d" by (rule added)
  then show "\<not> exclusive w'" using added assms(7) by (auto simp: exclusive_def stack_endpoints_def)
  fix u j c n
  have "set_domain_body en u j (Some d) c n w \<noteq> Inr (oid, w1)" for oid w1
  proof
    assume "set_domain_body en u j (Some d) c n w = Inr (oid, w1)"
    then obtain k web domain where "choose_domain en k (filter (\<lambda>s. w_internal_port s \<noteq> None) (stack_services (pn_db w) j)) web (Some d) = Inr domain"
      "refuse_domain_conflicts w [domain] (Some j) = Inr ()"
      unfolding set_domain_body_def Let_def by (auto simp: bind_res_eq_Inr)
    moreover from this(1) have "domain = d" using choose_requested_Inr assms(8,9) by metis
    ultimately show False using assms(7) by (auto simp: refuse_Inr)
  qed
  then show "\<exists>e. set_stack_domain en u j (Some d) c n w = (Inl e, w)"
    by (cases "set_domain_body en u j (Some d) c n w") (auto simp: set_stack_domain_def transact_def bind_act_def)
qed

lemma endpoint_invalid:
  assumes "e \<in> set ers" "validate_domain_name (er_domain e) = Inl SpecValidationError"
  shows "build_endpoints v ers ws = Inl SpecValidationError"
proof -
  have one: "endpoint_post_init (endpoint_of_row r) = Inl SpecValidationError \<or> (\<exists>x. endpoint_post_init (endpoint_of_row r) = Inr x)" for r
    by (auto simp: endpoint_post_init_def endpoint_of_row_def bind_res_def validate_domain_name_def validate_slug_def split: sum.splits)
  have "endpoint_post_init (endpoint_of_row e) = Inl SpecValidationError"
    using assms(2) by (simp add: endpoint_post_init_def endpoint_of_row_def)
  then have "e \<in> set rs \<Longrightarrow> map_res (\<lambda>r. endpoint_post_init (endpoint_of_row r)) rs = Inl SpecValidationError" for rs
  proof (induction rs)
    case (Cons r rs)
    then show ?case using one [of r] by (auto simp: bind_res_def)
  qed simp
  then show ?thesis using assms(1) by (auto simp: build_endpoints_def)
qed


subsection \<open>A created stack\<close>

text \<open>The blueprint keeps what it is given: name, tenant, address; it knows of no server and generation.\<close>

definition respects_allocation :: "blueprint \<Rightarrow> bool" where
  "respects_allocation bp \<longleftrightarrow> (\<forall>n x alloc st. bp_render bp n x alloc = Inr st \<longrightarrow>
     st_name st = n \<and> st_tenant st = al_tenant alloc \<and> st_loopback_ip st = al_loopback_ip alloc
     \<and> \<not> st_suspended st \<and> st_server_id st = None \<and> st_generation st = 0)"

lemma auto_domain_sel:
  assumes "with_auto_domain base ip st = Inr st'"
  shows "st_name st' = st_name st \<and> st_tenant st' = st_tenant st \<and> st_loopback_ip st' = st_loopback_ip st
    \<and> st_suspended st' = st_suspended st \<and> st_server_id st' = st_server_id st \<and> st_generation st' = st_generation st
    \<and> st_services st' = st_services st \<and> st_volumes st' = st_volumes st"
  using assms by (auto simp: with_auto_domain_def bind_res_eq_Inr stack_post_init_iff split: if_splits option.splits)

text \<open>No children belong to an id that no stack has: the foreign keys.\<close>

definition keys_ok :: "panel_db \<Rightarrow> bool" where
  "keys_ok d \<longleftrightarrow> w_stack ` set (db_services d) \<union> vr_stack ` set (db_volumes d) \<union> er_stack ` set (db_endpoints d)
     \<subseteq> sk_id ` set (db_stacks d)"

lemma respond_Inr:
  "respond en i once warnings oid w = (Inr a, w') \<Longrightarrow> sv_id (ac_stack a) = i \<and> ac_operation a = oid \<and> ac_show_once a = once \<and> w' = w"
  using find_in [of "\<lambda>k. sk_id k = i" "db_stacks (pn_db w)"]
  by (auto simp: respond_def bind_res_eq_Inr stack_response_def view_stack_def split: option.splits)

lemma create_Inr:
  assumes "create_stack en u n b raw server w = (Inr a, w')"
  shows "create_body en u n b raw server w = Inr ((sv_id (ac_stack a), ac_operation a, ac_show_once a), w')"
proof (cases "create_body en u n b raw server w")
  case (Inl e)
  then show ?thesis using assms by (simp add: create_stack_def transact_def bind_act_def)
next
  case (Inr p)
  obtain i oid once w1 where p: "p = ((i, oid, once), w1)" by (metis prod.exhaust)
  have "respond en i once [] oid w1 = (Inr a, w')" using assms Inr p by (simp add: create_stack_def transact_def bind_act_def)
  from respond_Inr [OF this] show ?thesis using Inr p by simp
qed

lemma no_children:
  assumes "keys_ok d" "i \<notin> sk_id ` set (db_stacks d)"
  shows "stack_services (d\<lparr>db_stacks := ks\<rparr>) i = []" "stack_volumes (d\<lparr>db_stacks := ks\<rparr>) i = []"
    "stack_endpoints (d\<lparr>db_stacks := ks\<rparr>) i = []"
proof -
  have "w_stack x \<noteq> i" if "x \<in> set (db_services d)" for x using assms that unfolding keys_ok_def by blast
  then show "stack_services (d\<lparr>db_stacks := ks\<rparr>) i = []" by (simp add: stack_services_def filter_empty_conv)
  have "vr_stack x \<noteq> i" if "x \<in> set (db_volumes d)" for x using assms that unfolding keys_ok_def by blast
  then show "stack_volumes (d\<lparr>db_stacks := ks\<rparr>) i = []" by (simp add: stack_volumes_def filter_empty_conv)
  have "er_stack x \<noteq> i" if "x \<in> set (db_endpoints d)" for x using assms that unfolding keys_ok_def by blast
  then show "stack_endpoints (d\<lparr>db_stacks := ks\<rparr>) i = []" by (simp add: stack_endpoints_def filter_empty_conv)
qed

lemma fresh_id_new: "fresh_id (map sk_id ks) \<notin> sk_id ` set ks"
  using fresh_id_less [of "fresh_id (map sk_id ks)" "map sk_id ks"] unfolding set_map by blast

lemma locks_ok_placed [simp]: "locks_ok l (spec\<lparr>st_server_id := s, st_generation := g\<rparr>) = locks_ok l spec"
  by (simp add: locks_ok_def)

lemma rendered_placed: "rendered_stack spec \<Longrightarrow> rendered_stack (spec\<lparr>st_server_id := s, st_generation := g\<rparr>)"
  by (auto simp: rendered_stack_def stack_post_init_iff stack_wf_def endpoint_ok_def)

lemma persist_placed:
  "persist_rendered v i locks (spec\<lparr>st_server_id := s, st_generation := g\<rparr>) d = persist_rendered v i locks spec d"
  by (simp add: persist_rendered_def)

text \<open>A stack that was created, read back from the database, decrypted and validated again.\<close>

lemma created_loaded:
  assumes "create_stack en u n b raw server w = (Inr a, w')" "keys_ok (pn_db w)" "faithful (se_vault en)"
    and "se_blueprint en b = Some bp" "respects_allocation bp"
  shows "\<exists>k inputs alloc spec locks. k \<in> set (db_stacks (pn_db w')) \<and> sk_id k = sv_id (ac_stack a) \<and> sk_owner k = Some (us_id u)
    \<and> bp_parse bp raw = Some inputs \<and> render_stack en bp n inputs alloc = Inr spec \<and> al_secrets alloc = ac_show_once a
    \<and> resolve_stack_image_locks (se_hub en) spec = Inr locks
    \<and> (rendered_stack spec \<and> st_endpoints spec \<noteq> [] \<and> locks_ok locks spec \<longrightarrow>
         spec_of_stack (se_vault en) (pn_db w') k False = Inr (with_magic (as_stored locks (spec\<lparr>st_server_id := server, st_generation := 1\<rparr>))))"
proof -
  let ?v = "se_vault en"
  define i where "i = fresh_id (map sk_id (db_stacks (pn_db w)))"
  define k where "k = new_stack i u server n bp (seal_inputs ?v raw)"
  from create_steps [OF create_Inr [OF assms(1)]] assms(4) obtain inputs spec alloc locks where
    c: "bp_parse bp raw = Some inputs" "allocate en bp inputs k = Inr alloc" "render_stack en bp n inputs alloc = Inr spec"
      "w' = created_panel en u n bp raw server locks spec w" "sv_id (ac_stack a) = i" "ac_show_once a = al_secrets alloc"
      "resolve_stack_image_locks (se_hub en) spec = Inr locks"
    unfolding i_def [symmetric] by (auto simp: k_def)
  let ?st = "spec\<lparr>st_server_id := server, st_generation := 1\<rparr>" and ?d = "(pn_db w)\<lparr>db_stacks := db_stacks (pn_db w) @ [k]\<rparr>"
  obtain st0 where st0: "bp_render bp n inputs alloc = Inr st0" "with_auto_domain (se_base_domain en) (se_public_ip en) st0 = Inr spec"
    using c(3) by (auto simp: render_stack_def bind_res_def split: sum.splits)
  have given: "st_name spec = n" "st_tenant spec = al_tenant alloc" "st_loopback_ip spec = al_loopback_ip alloc" "\<not> st_suspended spec"
    using auto_domain_sel [OF st0(2)] assms(5) st0(1) unfolding respects_allocation_def by metis+
  have row: "sk_id k = i" "sk_name k = n" "sk_owner k = Some (us_id u)" "sk_server k = server" "sk_generation k = 1"
    by (simp_all add: k_def new_stack_def)
  have al: "tenant_for (sk_owner k) = Inr (al_tenant alloc)" "stack_loopback_ip (sk_id k) = Inr (al_loopback_ip alloc)"
    using c(2) by (auto simp: allocate_def bind_res_eq_Inr)
  have none: "stack_services ?d (sk_id k) = []" "stack_volumes ?d (sk_id k) = []" "stack_endpoints ?d (sk_id k) = []"
    unfolding row(1) i_def by (rule no_children [OF assms(2) fresh_id_new])+
  have db: "pn_db w' = persist_rendered ?v (sk_id k) locks ?st ?d"
    unfolding persist_placed row(1) using c(4) by (simp add: created_panel_def Let_def i_def k_def)
  have "spec_of_stack ?v (persist_rendered ?v (sk_id k) locks ?st ?d) k (st_suspended ?st) = Inr (with_magic (as_stored locks ?st))"
    if spec: "rendered_stack spec \<and> st_endpoints spec \<noteq> [] \<and> locks_ok locks spec"
    by (rule load_persisted [OF assms(3) rendered_placed]) (use spec row given al none in simp_all)
  then have "rendered_stack spec \<and> st_endpoints spec \<noteq> [] \<and> locks_ok locks spec \<longrightarrow>
      spec_of_stack ?v (pn_db w') k False = Inr (with_magic (as_stored locks ?st))" using given(4) by (simp add: db)
  moreover have "k \<in> set (db_stacks (pn_db w'))" by (simp add: db persist_rendered_def)
  ultimately show ?thesis using c(1,3,5,6,7) row(1,3) by metis
qed

subsection \<open>Webhooks\<close>

lemma webhook_known:
  assumes "find (\<lambda>k. sk_id k = i) (db_stacks (pn_db w)) = Some k" "sk_status k \<noteq> ''deleting''" "sk_blueprint k = ''git''"
    "decrypt_inputs (se_vault en) k = Inr inputs"
  shows "fst (stack_webhook en i rq w) =
     bind_res (authenticate_webhook en inputs rq w) (\<lambda>payload.
     bind_res (if watch_paths k = [] then Inr True
               else bind_res (changed_files payload) (\<lambda>fs. Inr (list_ex (\<lambda>f. list_ex (\<lambda>p. glob p f) (watch_paths k)) fs)))
       (\<lambda>wanted. Inr (if wanted then Accepted (fst (queue_operation ''webhook_rebuild'' (se_now en) k w)) else Skipped)))"
  using assms by (auto simp: stack_webhook_def transact_def guard_def bind_res_def case_prod_beta split: sum.splits if_splits)

lemma hex_ascii: "is_hex c \<Longrightarrow> c \<le> CHR 0x7F"
  by (auto simp: is_hex_def is_digit_def less_eq_char_def)


subsection \<open>The log stream\<close>

definition log_text :: "string list \<Rightarrow> string" where
  "log_text ls = concat (map (\<lambda>l. l @ [nl]) ls)"

text \<open>The readings of a log that grows by whole lines, batch after batch, and of the status at its end.\<close>

fun readings :: "string list \<Rightarrow> string list list \<Rightarrow> string \<Rightarrow> (string \<times> string) list" where
  "readings before [] status = [(log_text before, status)]"
| "readings before (b # bs) status = (log_text (before @ b), ''running'') # readings (before @ b) bs status"

lemma log_text_append: "log_text (a @ b) = log_text a @ log_text b"
  by (simp add: log_text_def)

lemma split_log: "\<forall>l\<in>set ls. nl \<notin> set l \<Longrightarrow> split_char nl (log_text ls) = ls @ [[]]"
proof (induction ls)
  case (Cons l ls)
  then show ?case using split_char_at [of nl l "log_text ls"] by (simp add: log_text_def)
qed (simp add: log_text_def)

lemma stream_from:
  assumes "\<forall>b\<in>set bs. \<forall>l\<in>set b. nl \<notin> set l" "status \<in> {''succeeded'', ''failed''}"
  shows "stream_events (length (log_text before)) (readings before bs status) =
    map Data (filter (\<lambda>l. strip l \<noteq> []) (concat bs)) @ [Done status]"
  using assms(1)
proof (induction bs arbitrary: before)
  case Nil
  then show ?case using assms(2) by auto
next
  case (Cons b bs)
  have b: "filter (\<lambda>l. strip l \<noteq> []) (split_char nl (log_text b)) = filter (\<lambda>l. strip l \<noteq> []) b"
    using Cons.prems by (simp add: split_log strip_def lstrip_by_def rstrip_by_def)
  have "b = []" if "log_text b = []" using that by (cases b) (auto simp: log_text_def)
  then show ?case using Cons.IH [of "before @ b"] Cons.prems b by (auto simp: log_text_append Let_def)
qed

text \<open>However the readings of a growing log fall, the stream delivers every line of it that is not blank
  once and in order, then the final status.\<close>

theorem stream_exact:
  assumes "\<forall>b\<in>set bs. \<forall>l\<in>set b. nl \<notin> set l" "status \<in> {''succeeded'', ''failed''}"
  shows "stream_events 0 (readings [] bs status) = map Data (filter (\<lambda>l. strip l \<noteq> []) (concat bs)) @ [Done status]"
  using stream_from [OF assms, of "[]"] by (simp add: log_text_def)

subsection \<open>A domain change and the units\<close>

lemma spec_of_stack_row:
  assumes "spec_of_stack v d k susp = Inr st"
  shows "stack_wf st \<and> st_generation st = sk_generation k \<and> st_suspended st = susp"
  using assms by (auto simp: spec_of_stack_def spec_for_def bind_res_eq_Inr stack_post_init_iff)

lemma set_domain_generation:
  assumes "set_stack_domain en u i d c n w = (Inr a, w')" "find (\<lambda>k. sk_id k = i) (db_stacks (pn_db w)) = Some k"
    "find (\<lambda>k. sk_id k = i) (db_stacks (pn_db w')) = Some k'"
  shows "sk_generation k' = sk_generation k + 1"
proof -
  obtain oid w1 where b: "set_domain_body en u i d c n w = Inr (oid, w1)"
    using assms(1) by (cases "set_domain_body en u i d c n w") (auto simp: set_stack_domain_def transact_def bind_act_def)
  have w': "w' = resync w1"
    using assms(1) b respond_Inr [of en i "[]" "[]" oid "resync w1" a w'] by (simp add: set_stack_domain_def transact_def bind_act_def)
  from set_domain_steps [OF b] obtain k1 gone f d2 new where s: "fetch_owned_stack u i (pn_db w) = Inr k1" "keeps_identity f"
      "\<forall>k. sk_generation (f k) = sk_generation k" "flush_endpoints gone new (update_stack (pn_db w) i f) = Inr d2"
      "queue_operation ''converge_stack'' (se_now en) k1 (w\<lparr>pn_db := d2\<rparr>) = (oid, w1)" by blast
  have db: "pn_db w' = bump i d2" using queue_db [OF s(5)] fetch_Inr [OF s(1)] w' by (simp add: resync_def)
  have "find (\<lambda>k. sk_id k = i) (db_stacks (update_stack (pn_db w) i f)) = Some (f k)"
    by (rule find_update_stack [OF assms(2)]) (use s(2) in \<open>simp add: keeps_identity_def\<close>)
  moreover have "db_stacks d2 = db_stacks (update_stack (pn_db w) i f)" using s(4) by (auto simp: flush_Inr)
  ultimately have "find (\<lambda>k. sk_id k = i) (db_stacks (pn_db w')) = Some ((f k)\<lparr>sk_generation := sk_generation (f k) + 1\<rparr>)"
    unfolding db by (intro bump_row) simp
  then show ?thesis using assms(3) s(3) by auto
qed

lemma stale_restarts:
  assumes "stack_wf st" "s \<in> set (st_services st)" "\<not> st_suspended st"
    and "fmlookup (os_units ob) (s_name s) = Some \<lparr>ou_spec_hash = Some h, ou_active = True\<rparr>" "h \<noteq> spec_hash st s"
  shows "RestartService (st_tenant st) (st_name st) (s_name s) \<in> set (plan_converge st (Some ob))
    \<or> ZeroDowntimeDeploy (st_tenant st) st (s_name s) \<in> set (plan_converge st (Some ob))"
proof -
  have e: "fmlookup (expected_hashes st) (s_name s) = Some (spec_hash st s)" using expected_lookup assms(1,2) by blast
  have m: "fmlookup (dict_of (map (\<lambda>s. (s_name s, s)) (st_services st))) (s_name s) = Some s"
    using service_map_lookup assms(1,2) by blast
  have "s_name s |\<in>| stale_units st (os_units ob)" using e assms(2,4,5)
    by (auto simp: stale_units_def fset_of_list.rep_eq)
  moreover have "is_active (os_units ob) (s_name s)" using assms(4) by (simp add: is_active_def)
  ultimately have "RestartService (st_tenant st) (st_name st) (s_name s) \<in> set (service_actions st (os_units ob) (stale_units st (os_units ob)) (s_name s))
    \<or> ZeroDowntimeDeploy (st_tenant st) st (s_name s) \<in> set (service_actions st (os_units ob) (stale_units st (os_units ob)) (s_name s))"
    using assms(3) m by (simp add: service_actions_def Let_def)
  moreover have "s_name s \<in> set (sorted_keys (expected_hashes st))" using assms(2) by (simp add: sorted_keys_facts fset_of_list.rep_eq)
  ultimately show ?thesis unfolding plan_converge_def Let_def by auto
qed

text \<open>Changing a domain restarts the stack.  The route's comment says that it alters no unit; but the
  generation it bumps is part of every service's fingerprint, so the next plan restarts every running
  service, unless two different payloads have the same SHA-256 prefix.\<close>

theorem domain_change_restarts:
  assumes "set_stack_domain en u i d c n w = (Inr a, w')" "find (\<lambda>k. sk_id k = i) (db_stacks (pn_db w)) = Some k"
    "find (\<lambda>k. sk_id k = i) (db_stacks (pn_db w')) = Some k'"
    and "spec_of_stack v (pn_db w) k susp = Inr st" "spec_of_stack v (pn_db w') k' False = Inr st'"
    and "s' \<in> set (st_services st')"
    and "fmlookup (os_units ob) (s_name s') = Some \<lparr>ou_spec_hash = Some (spec_hash st s), ou_active = True\<rparr>"
  shows "spec_payload st' s' \<noteq> spec_payload st s
    \<and> (spec_hash st' s' = spec_hash st s
       \<or> RestartService (st_tenant st') (st_name st') (s_name s') \<in> set (plan_converge st' (Some ob))
       \<or> ZeroDowntimeDeploy (st_tenant st') st' (s_name s') \<in> set (plan_converge st' (Some ob)))"
proof
  have "st_generation st' = st_generation st + 1"
    using set_domain_generation [OF assms(1-3)] spec_of_stack_row [OF assms(4)] spec_of_stack_row [OF assms(5)] by simp
  then show "spec_payload st' s' \<noteq> spec_payload st s" by (simp add: spec_payload_def)
  show "spec_hash st' s' = spec_hash st s
       \<or> RestartService (st_tenant st') (st_name st') (s_name s') \<in> set (plan_converge st' (Some ob))
       \<or> ZeroDowntimeDeploy (st_tenant st') st' (s_name s') \<in> set (plan_converge st' (Some ob))"
    using stale_restarts [OF _ assms(6) _ assms(7)] spec_of_stack_row [OF assms(5)] by auto
qed

end
