(* ===== verification/RenderFacts.thy ===== *)
theory RenderFacts
  imports Registry ImageFacts RouteBehaviour
begin

text \<open>
  What every blueprint of the registry promises: its services are constructed, with everything that no
  blueprint sets at its default, and it keeps the name, tenant and address it is given.  With the locks
  of images this discharges what creating a stack asks of a blueprint.
\<close>

lemma bind_resE:
  assumes "bind_res m f = Inr y"
  obtains x where "m = Inr x" "f x = Inr y"
  using assms by (auto simp: bind_res_eq_Inr)

subsection \<open>Services of blueprints\<close>

text \<open>Constructed and, where it is built, with paths that are accepted again.\<close>

definition drafted_service :: "service_spec \<Rightarrow> bool" where
  "drafted_service s \<longleftrightarrow> (\<exists>s0. service_post_init s0 = Inr s)
     \<and> (has_build s \<longrightarrow> validate_build_path True (s_build_context s) = Inr (s_build_context s)
          \<and> validate_build_path False (s_dockerfile_path s) = Inr (s_dockerfile_path s))
     \<and> s_host_port s = None \<and> s_post_start_command s = [] \<and> \<not> s_hc_enabled s
     \<and> s_hc_path s = ''/health'' \<and> s_hc_port s = None \<and> s_hc_interval s = 10 \<and> s_hc_retries s = 3
     \<and> s_hc_start_period s = 30 \<and> s_hc_timeout s = 5 \<and> \<not> s_zero_downtime s
     \<and> distinct (map fst (s_env s)) \<and> distinct (map fst (s_build_args s)) \<and> pairs_sorted (s_build_args s)"

definition drafted_stack :: "stack_spec \<Rightarrow> bool" where
  "drafted_stack st \<longleftrightarrow> stack_post_init st = Inr st \<and> list_all drafted_service (st_services st)
     \<and> list_all (\<lambda>x. volume_post_init x = Inr x) (st_volumes st)
     \<and> list_all (\<lambda>e. endpoint_post_init e = Inr e) (st_endpoints st)"

lemma build_path_again: "validate_build_path d p = Inr q \<Longrightarrow> validate_build_path d q = Inr q' \<Longrightarrow> q' = q"
  by (auto simp: validate_build_path_def Let_def norm_path_idem split: if_splits)

lemma default_paths: "validate_build_path True ''.'' = Inr ''.''" "validate_build_path False ''Dockerfile'' = Inr ''Dockerfile''"
  by code_simp+

lemma post_init_build:
  assumes "service_post_init s0 = Inr s" "has_build s0"
  shows "\<exists>c d. validate_build_path True (s_build_context s0) = Inr c \<and> validate_build_path False (s_dockerfile_path s0) = Inr d
    \<and> s = s0\<lparr>s_build_context := c, s_dockerfile_path := d\<rparr>"
  using assms by (auto simp: service_post_init_def service_build_init_def bind_res_eq_Inr)

lemma post_init_image:
  assumes "service_post_init s0 = Inr s" "\<not> has_build s0"
  shows "s = s0\<lparr>s_image := qualify_image (s_image s0)\<rparr> \<and> validate_image_ref (s_image s0) = Inr (s_image s)"
  using assms by (auto simp: service_post_init_def bind_res_eq_Inr validate_image_ref_def split: if_splits)

lemma has_build_update [simp]:
  "has_build (s\<lparr>s_image := i\<rparr>) = has_build s" "has_build (s\<lparr>s_build_context := c\<rparr>) = has_build s"
  "has_build (s\<lparr>s_dockerfile_path := d\<rparr>) = has_build s"
  by (simp_all add: has_build_def)

lemma post_init_again:
  assumes "service_post_init s0 = Inr s"
    and "if has_build s then validate_build_path True (s_build_context s) = Inr (s_build_context s)
          \<and> validate_build_path False (s_dockerfile_path s) = Inr (s_dockerfile_path s)
         else validate_image_ref (s_image s) = Inr (s_image s)"
  shows "service_post_init s = Inr s"
proof (cases "has_build s0")
  case True
  from post_init_build [OF assms(1) True] obtain c d where s: "s = s0\<lparr>s_build_context := c, s_dockerfile_path := d\<rparr>" by blast
  show ?thesis using assms True by (auto simp: s service_post_init_def service_build_init_def bind_res_eq_Inr has_build_def)
next
  case False
  then show ?thesis using assms post_init_image [OF assms(1) False] by (auto simp: service_post_init_def bind_res_eq_Inr)
qed

lemma drafted_rendered:
  assumes "drafted_service s" "has_build s \<or> validate_image_ref (s_image s) = Inr (s_image s)"
  shows "rendered_service s"
proof -
  obtain s0 where s0: "service_post_init s0 = Inr s" using assms(1) by (auto simp: drafted_service_def)
  have "service_post_init s = Inr s" by (rule post_init_again [OF s0]) (use assms in \<open>auto simp: drafted_service_def\<close>)
  then show ?thesis using assms(1) by (simp add: drafted_service_def rendered_service_def)
qed

lemma drafted_qualified: "drafted_service s \<Longrightarrow> has_build s \<or> qualify_image (s_image s) = s_image s"
proof -
  assume "drafted_service s"
  then obtain s0 where s0: "service_post_init s0 = Inr s" by (auto simp: drafted_service_def)
  show ?thesis
  proof (cases "has_build s0")
    case True
    then show ?thesis using post_init_build [OF s0] by auto
  next
    case False
    then show ?thesis using post_init_image [OF s0] qualify_image_idem by auto
  qed
qed

text \<open>A service that starts from the defaults.\<close>

lemma drafted_init:
  assumes "service_post_init (s0 :: service_spec) = Inr s"
    and "has_build s0 \<Longrightarrow> (\<exists>p. validate_build_path True p = Inr (s_build_context s0))
          \<and> (\<exists>p. validate_build_path False p = Inr (s_dockerfile_path s0))"
    and "s_host_port s0 = None" "s_post_start_command s0 = []" "\<not> s_hc_enabled s0"
      "s_hc_path s0 = ''/health''" "s_hc_port s0 = None" "s_hc_interval s0 = 10" "s_hc_retries s0 = 3"
      "s_hc_start_period s0 = 30" "s_hc_timeout s0 = 5" "\<not> s_zero_downtime s0"
      "distinct (map fst (s_env s0))" "distinct (map fst (s_build_args s0))" "pairs_sorted (s_build_args s0)"
  shows "drafted_service s"
proof (cases "has_build s0")
  case True
  from post_init_build [OF assms(1) True] obtain c d where
    s: "validate_build_path True (s_build_context s0) = Inr c" "validate_build_path False (s_dockerfile_path s0) = Inr d"
      "s = s0\<lparr>s_build_context := c, s_dockerfile_path := d\<rparr>" by blast
  obtain p q where pq: "validate_build_path True p = Inr (s_build_context s0)" "validate_build_path False q = Inr (s_dockerfile_path s0)"
    using assms(2) [OF True] by blast
  have "c = s_build_context s0" "d = s_dockerfile_path s0" using build_path_again s(1,2) pq by blast+
  then show ?thesis using assms s unfolding drafted_service_def by auto
next
  case False
  then have "s = s0\<lparr>s_image := qualify_image (s_image s0)\<rparr>" "\<not> has_build s" using post_init_image [OF assms(1)] by auto
  then show ?thesis using assms unfolding drafted_service_def by auto
qed

lemma distinct_sorted_items [simp]: "distinct (map fst (sorted_items m))"
  by (simp add: map_fst_sorted_items)

lemma new_stack_Inr: "new_stack_spec n alloc ss vs es = Inr st \<longleftrightarrow>
    st = \<lparr>st_name = n, st_tenant = al_tenant alloc, st_loopback_ip = al_loopback_ip alloc, st_services = ss,
      st_volumes = vs, st_endpoints = es, st_suspended = False, st_server_id = None, st_generation = 0\<rparr> \<and> stack_wf st"
  by (simp add: new_stack_spec_def stack_post_init_iff) blast

text \<open>The allocation a blueprint is given and what else it leaves alone.\<close>

definition placed_by :: "string \<Rightarrow> allocation \<Rightarrow> stack_spec \<Rightarrow> bool" where
  "placed_by n alloc st \<longleftrightarrow> st_name st = n \<and> st_tenant st = al_tenant alloc \<and> st_loopback_ip st = al_loopback_ip alloc
     \<and> \<not> st_suspended st \<and> st_server_id st = None \<and> st_generation st = 0"

lemma drafted_new:
  assumes "new_stack_spec n alloc ss vs es = Inr st" "list_all drafted_service ss"
    "list_all (\<lambda>x. volume_post_init x = Inr x) vs" "list_all (\<lambda>e. endpoint_post_init e = Inr e) es"
  shows "drafted_stack st \<and> placed_by n alloc st"
  using assms by (auto simp: new_stack_Inr drafted_stack_def stack_post_init_iff placed_by_def)

lemma map_res_all: "map_res f xs = Inr ys \<Longrightarrow> (\<And>x y. f x = Inr y \<Longrightarrow> P y) \<Longrightarrow> list_all P ys"
  unfolding map_res_Inr by (induction rule: list_all2_induct) auto

lemma volume_fixed: "volume_post_init x = Inr y \<Longrightarrow> volume_post_init y = Inr y"
  using volume_post_init_Inr by blast

lemma endpoint_fixed: "endpoint_post_init x = Inr y \<Longrightarrow> endpoint_post_init y = Inr y"
  using endpoint_post_init_Inr by blast

subsection \<open>One image\<close>

lemma new_service_sel [simp]:
  "s_build_repo (new_service n i) = None" "s_name (new_service n i) = n" "s_image (new_service n i) = i"
  "s_build_context (new_service n i) = ''.''" "s_dockerfile_path (new_service n i) = ''Dockerfile''"
  "s_host_port (new_service n i) = None" "s_post_start_command (new_service n i) = []" "\<not> s_hc_enabled (new_service n i)"
  "s_hc_path (new_service n i) = ''/health''" "s_hc_port (new_service n i) = None" "s_hc_interval (new_service n i) = 10"
  "s_hc_retries (new_service n i) = 3" "s_hc_start_period (new_service n i) = 30" "s_hc_timeout (new_service n i) = 5"
  "\<not> s_zero_downtime (new_service n i)" "s_env (new_service n i) = []" "s_build_args (new_service n i) = []"
  "s_internal_port (new_service n i) = None" "s_command (new_service n i) = []" "s_depends_on (new_service n i) = []"
  "s_exposed (new_service n i) = False" "s_is_web (new_service n i) = False" "s_memory_mb (new_service n i) = None"
  "s_cpu_percent (new_service n i) = None" "s_build_tool (new_service n i) = ''dockerfile''" "s_build_branch (new_service n i) = None"
  by (simp_all add: new_service_def service_defaults_def)

lemma no_pairs [simp]: "pairs_sorted []"
  by (simp add: pairs_sorted_def)

lemma raw_image_drafted:
  assumes "raw_image_render n x alloc = Inr st"
  shows "drafted_stack st \<and> placed_by n alloc st"
proof -
  from assms obtain s vs es where r:
      "service_post_init ((new_service ''web'' (ri_image x))
         \<lparr>s_env := sorted_items (ri_env x), s_internal_port := Some (ri_internal_port x),
          s_memory_mb := ri_memory_mb x, s_cpu_percent := ri_cpu_percent x, s_is_web := True\<rparr>) = Inr s"
      "map_res (\<lambda>(n, mount). volume_post_init \<lparr>v_name = n, v_service = ''web'', v_mount_path = mount\<rparr>) (sorted_items (ri_volumes x)) = Inr vs"
      "(if truthy (ri_domain x)
               then bind_res (endpoint_post_init \<lparr>e_domain = the (ri_domain x), e_service = ''web'',
                      e_behind_cloudflare = ri_behind_cloudflare x\<rparr>) (\<lambda>e. Inr [e])
               else Inr []) = Inr es" "new_stack_spec n alloc [s] vs es = Inr st"
    unfolding raw_image_render_def by (elim bind_resE) blast
  have "list_all (\<lambda>e. endpoint_post_init e = Inr e) es" using r(3) endpoint_fixed by (auto simp: bind_res_eq_Inr split: if_splits)
  have "drafted_service s" by (rule drafted_init [OF r(1)]) (simp_all add: has_build_def truthy_def)
  moreover have "list_all (\<lambda>x. volume_post_init x = Inr x) vs"
    by (rule map_res_all [OF r(2)]) (auto dest: volume_fixed)
  ultimately show ?thesis using \<open>list_all _ es\<close> by (intro drafted_new [OF r(4)]) simp_all
qed

subsection \<open>WordPress\<close>

lemma wp_render_steps:
  assumes "wp_render n x alloc = Inr st"
  obtains p i web db adm fil v1 v2 v3 e where
      "wp_image (wi_php_version x) = Inr i"
      "service_post_init ((new_service ''web'' i)\<lparr>s_env := sorted_items (web_env n p), s_internal_port := Some 80, s_is_web := True\<rparr>) = Inr web"
      "service_post_init ((new_service ''db'' mariadb_image)\<lparr>s_env := sorted_items (db_env p)\<rparr>) = Inr db"
      "service_post_init ((new_service ''adminer'' adminer_image)\<lparr>s_internal_port := Some 8080\<rparr>) = Inr adm"
      "service_post_init ((new_service ''files'' files_image)\<lparr>s_internal_port := Some 80\<rparr>) = Inr fil"
      "volume_post_init \<lparr>v_name = ''html'', v_service = ''web'', v_mount_path = ''/var/www/html''\<rparr> = Inr v1"
      "volume_post_init \<lparr>v_name = ''db-data'', v_service = ''db'', v_mount_path = ''/var/lib/mysql''\<rparr> = Inr v2"
      "volume_post_init \<lparr>v_name = ''html'', v_service = ''files'', v_mount_path = ''/srv''\<rparr> = Inr v3"
      "endpoint_post_init \<lparr>e_domain = wi_domain x, e_service = ''web'', e_behind_cloudflare = wi_behind_cloudflare x\<rparr> = Inr e"
      "new_stack_spec n alloc [web, db, adm, fil] [v1, v2, v3] [e] = Inr st"
proof -
  obtain p where "map_of (rev (al_secrets alloc)) ''db_password'' = Some p"
    using assms by (simp add: wp_render_def split: option.splits)
  with assms show ?thesis using that
    unfolding wp_render_def by (simp only: option.case) (elim bind_resE, blast)
qed

lemma wp_drafted:
  assumes "wp_render n x alloc = Inr st"
  shows "drafted_stack st \<and> placed_by n alloc st"
proof -
  from assms obtain p i web db adm fil v1 v2 v3 e where r:
      "wp_image (wi_php_version x) = Inr i"
      "service_post_init ((new_service ''web'' i)\<lparr>s_env := sorted_items (web_env n p), s_internal_port := Some 80, s_is_web := True\<rparr>) = Inr web"
      "service_post_init ((new_service ''db'' mariadb_image)\<lparr>s_env := sorted_items (db_env p)\<rparr>) = Inr db"
      "service_post_init ((new_service ''adminer'' adminer_image)\<lparr>s_internal_port := Some 8080\<rparr>) = Inr adm"
      "service_post_init ((new_service ''files'' files_image)\<lparr>s_internal_port := Some 80\<rparr>) = Inr fil"
      "volume_post_init \<lparr>v_name = ''html'', v_service = ''web'', v_mount_path = ''/var/www/html''\<rparr> = Inr v1"
      "volume_post_init \<lparr>v_name = ''db-data'', v_service = ''db'', v_mount_path = ''/var/lib/mysql''\<rparr> = Inr v2"
      "volume_post_init \<lparr>v_name = ''html'', v_service = ''files'', v_mount_path = ''/srv''\<rparr> = Inr v3"
      "endpoint_post_init \<lparr>e_domain = wi_domain x, e_service = ''web'', e_behind_cloudflare = wi_behind_cloudflare x\<rparr> = Inr e"
      "new_stack_spec n alloc [web, db, adm, fil] [v1, v2, v3] [e] = Inr st"
    by (rule wp_render_steps)
  have "drafted_service web" by (rule drafted_init [OF r(2)]) (simp_all add: has_build_def truthy_def)
  moreover have "drafted_service db" by (rule drafted_init [OF r(3)]) (simp_all add: has_build_def truthy_def)
  moreover have "drafted_service adm" by (rule drafted_init [OF r(4)]) (simp_all add: has_build_def truthy_def)
  moreover have "drafted_service fil" by (rule drafted_init [OF r(5)]) (simp_all add: has_build_def truthy_def)
  ultimately show ?thesis using volume_fixed [OF r(6)] volume_fixed [OF r(7)] volume_fixed [OF r(8)] endpoint_fixed [OF r(9)]
    by (intro drafted_new [OF r(10)]) simp_all
qed

subsection \<open>Compose templates\<close>

lemma environment_keys:
  assumes "environment_of subs shared svc = Inr env"
  shows "map fst env = sorted_keys (raw_environment subs shared svc)"
proof -
  let ?env = "raw_environment subs shared svc"
  have "list_all2 (\<lambda>k kx. bind_res (substitute subs (the (fmlookup ?env k))) (\<lambda>x. Inr (k, x)) = Inr kx) (sorted_keys ?env) env"
    using assms by (simp add: environment_of_def Let_def map_res_Inr)
  then show ?thesis by (induction rule: list_all2_induct) (auto simp: bind_res_eq_Inr)
qed

lemma compose_service_steps:
  assumes "compose_service c subs inputs shared name svc = Inr s"
  obtains b env port command ctx dockerfile memory cpu where
    "build_of subs svc = Inr b" "environment_of subs shared svc = Inr env" "port_of subs svc = Inr port"
    "command_of subs svc = Inr command" "validate_build_path True (sb_context b) = Inr ctx"
    "validate_build_path False (sb_dockerfile b) = Inr dockerfile"
    "limit_of inputs ''memory_limit'' = Inr memory" "limit_of inputs ''cpu_limit'' = Inr cpu"
    "service_post_init ((new_service name (sb_image b))
       \<lparr>s_env := env, s_internal_port := port, s_is_web := (cb_web c = Some (JStr name)),
        s_build_repo := sb_repo b, s_build_branch := sb_branch b, s_build_context := ctx, s_dockerfile_path := dockerfile,
        s_build_args := sorted_items (sb_args b), s_memory_mb := memory, s_cpu_percent := cpu,
        s_depends_on := depends_of svc, s_command := command\<rparr>) = Inr s"
  using assms unfolding compose_service_def by (elim bind_resE) blast

lemma compose_service_drafted:
  assumes "compose_service c subs inputs shared name svc = Inr s"
  shows "drafted_service s"
proof -
  from assms obtain b env port command ctx dockerfile memory cpu where r:
    "build_of subs svc = Inr b" "environment_of subs shared svc = Inr env" "port_of subs svc = Inr port"
    "command_of subs svc = Inr command" "validate_build_path True (sb_context b) = Inr ctx"
    "validate_build_path False (sb_dockerfile b) = Inr dockerfile"
    "limit_of inputs ''memory_limit'' = Inr memory" "limit_of inputs ''cpu_limit'' = Inr cpu"
    "service_post_init ((new_service name (sb_image b))
       \<lparr>s_env := env, s_internal_port := port, s_is_web := (cb_web c = Some (JStr name)),
        s_build_repo := sb_repo b, s_build_branch := sb_branch b, s_build_context := ctx, s_dockerfile_path := dockerfile,
        s_build_args := sorted_items (sb_args b), s_memory_mb := memory, s_cpu_percent := cpu,
        s_depends_on := depends_of svc, s_command := command\<rparr>) = Inr s"
    by (rule compose_service_steps)
  show ?thesis by (rule drafted_init [OF r(9)]) (use r(5,6) environment_keys [OF r(2)] in auto)
qed

lemma compose_volume_fixed:
  assumes "compose_volume n j = Inr vs"
  shows "list_all (\<lambda>x. volume_post_init x = Inr x) vs"
proof -
  from assms obtain found where "(case found of None \<Rightarrow> Inr []
     | Some (m, path) \<Rightarrow>
         if \<not> json_truthy (Some m) \<or> \<not> json_truthy (Some path) then Inr []
         else bind_res (volume_post_init \<lparr>v_name = py_str m, v_service = n, v_mount_path = py_str path\<rparr>) (\<lambda>x. Inr [x])) = Inr vs"
    unfolding compose_volume_def by (elim bind_resE) blast
  then show ?thesis using volume_fixed by (auto simp: bind_res_eq_Inr split: option.splits if_splits)
qed

lemma compose_volumes_fixed:
  assumes "compose_volumes n svc = Inr vs"
  shows "list_all (\<lambda>x. volume_post_init x = Inr x) vs"
proof -
  obtain js vss where v: "map_res (compose_volume n) js = Inr vss" "vs = concat vss"
    using assms by (auto simp: compose_volumes_def bind_res_eq_Inr)
  have "list_all (list_all (\<lambda>x. volume_post_init x = Inr x)) vss"
    by (rule map_res_all [OF v(1)]) (rule compose_volume_fixed)
  then show ?thesis by (auto simp: v(2) list_all_iff)
qed

lemma compose_endpoints_fixed:
  assumes "compose_endpoints c subs = Inr es"
  shows "list_all (\<lambda>e. endpoint_post_init e = Inr e) es"
  using assms
  by (auto simp: compose_endpoints_def bind_res_eq_Inr dest: endpoint_fixed split: if_splits json.splits)

lemma compose_render_steps:
  assumes "compose_render c n inputs alloc = Inr st"
  obtains parts es where
    "list_all2 (\<lambda>(m, svc) (s, vs). compose_service c (substitutions alloc inputs) inputs (al_shared_variables alloc) m svc = Inr s
       \<and> compose_volumes m svc = Inr vs) (cb_services c) parts"
    "compose_endpoints c (substitutions alloc inputs) = Inr es"
    "new_stack_spec n alloc (map fst parts) (concat (map snd parts)) es = Inr st"
proof -
  let ?subs = "substitutions alloc inputs"
  let ?f = "\<lambda>(m, svc). bind_res (compose_service c ?subs inputs (al_shared_variables alloc) m svc) (\<lambda>s.
             bind_res (compose_volumes m svc) (\<lambda>vs. Inr (s, vs)))"
  from assms obtain parts es where p: "map_res ?f (cb_services c) = Inr parts" "compose_endpoints c ?subs = Inr es"
    "new_stack_spec n alloc (map fst parts) (concat (map snd parts)) es = Inr st"
    unfolding compose_render_def Let_def by (elim bind_resE) blast
  have "list_all2 (\<lambda>(m, svc) (s, vs). compose_service c ?subs inputs (al_shared_variables alloc) m svc = Inr s
       \<and> compose_volumes m svc = Inr vs) (cb_services c) parts"
    using p(1) unfolding map_res_Inr by (rule list_all2_mono) (auto simp: bind_res_eq_Inr)
  then show ?thesis using p(2,3) that by blast
qed

lemma compose_drafted:
  assumes "compose_render c n inputs alloc = Inr st"
  shows "drafted_stack st \<and> placed_by n alloc st"
proof -
  from assms obtain parts es where p:
    "list_all2 (\<lambda>(m, svc) (s, vs). compose_service c (substitutions alloc inputs) inputs (al_shared_variables alloc) m svc = Inr s
       \<and> compose_volumes m svc = Inr vs) (cb_services c) parts"
    "compose_endpoints c (substitutions alloc inputs) = Inr es"
    "new_stack_spec n alloc (map fst parts) (concat (map snd parts)) es = Inr st" by (rule compose_render_steps)
  have "list_all (\<lambda>(s, vs). drafted_service s \<and> list_all (\<lambda>x. volume_post_init x = Inr x) vs) parts"
    using p(1) by (induction rule: list_all2_induct) (auto dest: compose_service_drafted compose_volumes_fixed)
  then have "list_all drafted_service (map fst parts)" "list_all (\<lambda>x. volume_post_init x = Inr x) (concat (map snd parts))"
    by (auto simp: list_all_iff)
  then show ?thesis using compose_endpoints_fixed [OF p(2)] by (intro drafted_new [OF p(3)])
qed

subsection \<open>A Git repository\<close>

lemma git_plain_drafted:
  assumes "git_plain_render n x alloc = Inr st"
  shows "drafted_stack st \<and> placed_by n alloc st"
proof -
  from assms obtain s es where r:
    "service_post_init ((new_service ''web'' build_target)
       \<lparr>s_build_repo := Some (gi_repo x), s_build_branch := Some (gi_branch x), s_build_tool := gi_build_method x,
        s_internal_port := Some (gi_internal_port x), s_env := sorted_items (gi_env x), s_is_web := True\<rparr>) = Inr s"
    "(if gi_domain x = [] then Inr []
               else bind_res (endpoint_post_init \<lparr>e_domain = gi_domain x, e_service = ''web'', e_behind_cloudflare = False\<rparr>)
                      (\<lambda>e. Inr [e])) = Inr es" "new_stack_spec n alloc [s] [] es = Inr st"
    unfolding git_plain_render_def by (elim bind_resE) blast
  have "drafted_service s" by (rule drafted_init [OF r(1)]) (use default_paths in auto)
  moreover have "list_all (\<lambda>e. endpoint_post_init e = Inr e) es"
    using r(2) endpoint_fixed by (auto simp: bind_res_eq_Inr split: if_splits)
  ultimately show ?thesis by (intro drafted_new [OF r(3)]) simp_all
qed

lemma compose_service_paths:
  assumes "compose_service c subs inputs shared name svc = Inr s"
  shows "(\<exists>p. validate_build_path True p = Inr (s_build_context s)) \<and> (\<exists>p. validate_build_path False p = Inr (s_dockerfile_path s))"
proof -
  from assms obtain b env port command ctx dockerfile memory cpu where r:
    "build_of subs svc = Inr b" "environment_of subs shared svc = Inr env" "port_of subs svc = Inr port"
    "command_of subs svc = Inr command" "validate_build_path True (sb_context b) = Inr ctx"
    "validate_build_path False (sb_dockerfile b) = Inr dockerfile"
    "limit_of inputs ''memory_limit'' = Inr memory" "limit_of inputs ''cpu_limit'' = Inr cpu"
    "service_post_init ((new_service name (sb_image b))
       \<lparr>s_env := env, s_internal_port := port, s_is_web := (cb_web c = Some (JStr name)),
        s_build_repo := sb_repo b, s_build_branch := sb_branch b, s_build_context := ctx, s_dockerfile_path := dockerfile,
        s_build_args := sorted_items (sb_args b), s_memory_mb := memory, s_cpu_percent := cpu,
        s_depends_on := depends_of svc, s_command := command\<rparr>) = Inr s" (is "service_post_init ?s0 = _")
    by (rule compose_service_steps)
  show ?thesis
  proof (cases "has_build ?s0")
    case True
    from post_init_build [OF r(9) True] show ?thesis by auto
  next
    case False
    from post_init_image [OF r(9) False] show ?thesis using r(5,6) by auto
  qed
qed

lemma post_init_keeps: "service_post_init s0 = Inr s \<Longrightarrow> s_name s = s_name s0 \<and> s_build_repo s = s_build_repo s0 \<and> s_build_branch s = s_build_branch s0
     \<and> s_env s = s_env s0 \<and> s_internal_port s = s_internal_port s0 \<and> s_is_web s = s_is_web s0 \<and> s_depends_on s = s_depends_on s0
     \<and> s_command s = s_command s0 \<and> s_build_tool s = s_build_tool s0"
  by (cases "has_build s0") (auto dest: post_init_build post_init_image)

lemma exposed_kept: "service_post_init s0 = Inr s \<Longrightarrow> s_exposed s = s_exposed s0"
  by (cases "has_build s0") (auto dest: post_init_build post_init_image)

definition built_here :: "git_inputs \<Rightarrow> service_spec \<Rightarrow> bool" where
  "built_here x s \<longleftrightarrow> s_build_repo s = Some (gi_repo x) \<and> s_build_branch s = Some (gi_branch x)"

lemma from_repository_drafted:
  assumes "from_repository x s = Inr s'" "drafted_service s" "\<exists>p. validate_build_path True p = Inr (s_build_context s)"
    "\<exists>p. validate_build_path False p = Inr (s_dockerfile_path s)"
  shows "drafted_service s' \<and> s_name s' = s_name s \<and> (if has_build s \<or> s_image s = build_target \<or> s_image s = ''docker.io/library/'' @ build_target
     then built_here x s' else s' = s)"
proof (cases "truthy (s_build_repo s) \<or> s_image s = build_target \<or> s_image s = ''docker.io/library/'' @ build_target")
  case True
  let ?s0 = "s\<lparr>s_build_repo := Some (gi_repo x), s_build_branch := Some (gi_branch x), s_build_tool := ''dockerfile''\<rparr>"
  have p: "service_post_init ?s0 = Inr s'" using assms(1) True by (simp add: from_repository_def)
  have "drafted_service s'"
    by (rule drafted_init [OF p]) (use assms(2-) in \<open>simp_all add: drafted_service_def\<close>)
  then show ?thesis using post_init_keeps [OF p] True by (simp add: built_here_def has_build_def)
qed (use assms(1,2) in \<open>simp add: from_repository_def has_build_def\<close>)

lemma compose_services_drafted:
  assumes "compose_render c n inputs alloc = Inr st" "s \<in> set (st_services st)"
  shows "drafted_service s \<and> (\<exists>p. validate_build_path True p = Inr (s_build_context s)) \<and> (\<exists>p. validate_build_path False p = Inr (s_dockerfile_path s))"
proof -
  from assms(1) obtain parts es where p:
    "list_all2 (\<lambda>(m, svc) (s, vs). compose_service c (substitutions alloc inputs) inputs (al_shared_variables alloc) m svc = Inr s
       \<and> compose_volumes m svc = Inr vs) (cb_services c) parts"
    "compose_endpoints c (substitutions alloc inputs) = Inr es"
    "new_stack_spec n alloc (map fst parts) (concat (map snd parts)) es = Inr st" by (rule compose_render_steps)
  have "list_all (\<lambda>(s, vs). drafted_service s \<and> (\<exists>p. validate_build_path True p = Inr (s_build_context s))
      \<and> (\<exists>p. validate_build_path False p = Inr (s_dockerfile_path s))) parts"
    using p(1) by (induction rule: list_all2_induct) (auto dest: compose_service_drafted compose_service_paths)
  then show ?thesis using assms(2) p(3) by (auto simp: new_stack_Inr list_all_iff)
qed

lemma git_compose_steps:
  assumes "git_compose_render tp n x alloc = Inr st"
  obtains doc c inputs spec services where "tp_yaml tp (gi_compose_file_content x) = Inr doc" "compose_init doc = Inr c"
    "tp_dummy tp (sorted_items (gi_env x)) = Inr inputs" "compose_render c n inputs alloc = Inr spec"
    "map_res (from_repository x) (st_services spec) = Inr services" "stack_post_init (spec\<lparr>st_services := services\<rparr>) = Inr st"
  using assms unfolding git_compose_render_def by (elim bind_resE) blast

lemma git_compose_drafted:
  assumes "git_compose_render tp n x alloc = Inr st"
  shows "drafted_stack st \<and> placed_by n alloc st"
proof -
  from assms obtain doc c inputs spec services where r: "tp_yaml tp (gi_compose_file_content x) = Inr doc" "compose_init doc = Inr c"
    "tp_dummy tp (sorted_items (gi_env x)) = Inr inputs" "compose_render c n inputs alloc = Inr spec"
    "map_res (from_repository x) (st_services spec) = Inr services" "stack_post_init (spec\<lparr>st_services := services\<rparr>) = Inr st"
    by (rule git_compose_steps)
  have spec: "drafted_stack spec" "placed_by n alloc spec" using compose_drafted [OF r(4)] by blast+
  have "drafted_service s'" if "from_repository x s = Inr s'" "s \<in> set (st_services spec)" for s s'
    using from_repository_drafted [OF that(1)] compose_services_drafted [OF r(4) that(2)] by blast
  then have "list_all drafted_service services"
    using r(5) by (auto simp: map_res_Inr list_all2_conv_all_nth list_all_length)
  then show ?thesis using spec r(6) by (auto simp: drafted_stack_def placed_by_def stack_post_init_iff)
qed

lemma git_drafted: "git_render tp n x alloc = Inr st \<Longrightarrow> drafted_stack st \<and> placed_by n alloc st"
  by (auto simp: git_render_def dest: git_plain_drafted git_compose_drafted split: if_splits)

subsection \<open>The registry\<close>

definition sound_blueprint :: "blueprint \<Rightarrow> bool" where
  "sound_blueprint bp \<longleftrightarrow> (\<forall>n x alloc st. bp_render bp n x alloc = Inr st \<longrightarrow> drafted_stack st \<and> placed_by n alloc st)"

lemma sound_blueprints:
  "sound_blueprint (raw_image_blueprint im)" "sound_blueprint (wordpress_blueprint im)" "sound_blueprint (git_blueprint tp im)"
  "sound_blueprint (compose_blueprint tp stem c)"
  by (auto simp: sound_blueprint_def raw_image_blueprint_def wordpress_blueprint_def git_blueprint_def compose_blueprint_def rendered_by_def
      dest: raw_image_drafted wp_drafted git_drafted compose_drafted split: option.splits)

definition sound_registry :: "registry \<Rightarrow> bool" where
  "sound_registry reg \<longleftrightarrow> (\<forall>b bp. get_blueprint reg b = Some bp \<longrightarrow> bp_id bp = b \<and> sound_blueprint bp)"

lemma register_sound: "register bp reg = Inr reg' \<Longrightarrow> sound_registry reg \<Longrightarrow> sound_blueprint bp \<Longrightarrow> sound_registry reg'"
  by (auto simp: register_def sound_registry_def get_blueprint_def split: if_splits)

lemma register_keeps: "register bp reg = Inr reg' \<Longrightarrow> get_blueprint reg b = Some x \<Longrightarrow> get_blueprint reg' b = Some x"
  by (auto simp: register_def get_blueprint_def fmlookup_dom_iff split: if_splits)

lemma templates_sound: "sound_registry reg \<Longrightarrow> sound_registry (register_templates tp files reg)"
proof (induction files arbitrary: reg)
  case (Cons f files)
  obtain stem content where f: "f = (stem, content)" by (cases f)
  show ?case unfolding f using Cons register_sound sound_blueprints(4) by (auto split: sum.splits)
qed simp

lemma templates_keep: "get_blueprint reg b = Some x \<Longrightarrow> get_blueprint (register_templates tp files reg) b = Some x"
proof (induction files arbitrary: reg)
  case (Cons f files)
  obtain stem content where f: "f = (stem, content)" by (cases f)
  show ?case unfolding f using Cons register_keeps by (auto split: sum.splits)
qed simp

lemma built_in_Inr:
  assumes "built_in tp im = Inr reg"
  shows "sound_registry reg \<and> get_blueprint reg ''raw-image'' = Some (raw_image_blueprint im)
    \<and> get_blueprint reg ''wordpress'' = Some (wordpress_blueprint im) \<and> get_blueprint reg ''git'' = Some (git_blueprint tp im)"
proof -
  from assms obtain r1 where r1: "register (raw_image_blueprint im) fmempty = Inr r1"
      "bind_res (register (wordpress_blueprint im) r1) (\<lambda>reg. register (git_blueprint tp im) reg) = Inr reg"
    unfolding built_in_def by (rule bind_resE)
  from r1(2) obtain r2 where r: "register (wordpress_blueprint im) r1 = Inr r2" "register (git_blueprint tp im) r2 = Inr reg"
    by (rule bind_resE)
  have "sound_registry fmempty" by (simp add: sound_registry_def get_blueprint_def)
  then have "sound_registry r1" by (rule register_sound [OF r1(1) _ sound_blueprints(1)])
  then have "sound_registry r2" by (rule register_sound [OF r(1) _ sound_blueprints(2)])
  then have "sound_registry reg" by (rule register_sound [OF r(2) _ sound_blueprints(3)])
  moreover have "get_blueprint r1 ''raw-image'' = Some (raw_image_blueprint im)" "get_blueprint r2 ''wordpress'' = Some (wordpress_blueprint im)"
      "get_blueprint reg ''git'' = Some (git_blueprint tp im)"
    using r1(1) r by (auto simp: register_def get_blueprint_def raw_image_blueprint_def wordpress_blueprint_def git_blueprint_def split: if_splits)
  ultimately show ?thesis using register_keeps [OF r(1)] register_keeps [OF r(2)] by simp
qed

lemma built_in_works: "\<exists>reg. built_in tp im = Inr reg"
  by (simp add: built_in_def register_def raw_image_blueprint_def wordpress_blueprint_def git_blueprint_def bind_res_def)

subsection \<open>Created stacks\<close>

lemma sound_respects: "sound_blueprint bp \<Longrightarrow> respects_allocation bp"
  by (fastforce simp: sound_blueprint_def respects_allocation_def placed_by_def)

lemma auto_domain_drafted:
  assumes "with_auto_domain base ip st = Inr st'" "drafted_stack st"
  shows "drafted_stack st'"
  using assms endpoint_fixed
  by (auto simp: with_auto_domain_def bind_res_eq_Inr stack_post_init_iff drafted_stack_def split: if_splits option.splits)

lemma render_drafted: "render_stack en bp n inputs alloc = Inr spec \<Longrightarrow> sound_blueprint bp \<Longrightarrow> drafted_stack spec"
  by (auto simp: render_stack_def sound_blueprint_def bind_res_def split: sum.splits if_splits intro: auto_domain_drafted)

text \<open>Resolving the locks reads every image once more, so what was locked can be loaded.\<close>

lemma locked_rendered:
  assumes "drafted_stack st" "resolve_stack_image_locks hub st = Inr locks"
    and "\<forall>s\<in>set (st_services st). \<forall>x. locks (s_name s) = Some x \<longrightarrow> length x \<le> 512"
  shows "rendered_stack st \<and> locks_ok locks st"
proof -
  have d: "distinct (map s_name (st_services st))" "\<forall>s\<in>set (st_services st). drafted_service s"
    using assms(1) by (auto simp: drafted_stack_def stack_post_init_iff stack_wf_def list_all_iff)
  then have "\<forall>s\<in>set (st_services st). has_build s \<or> qualify_image (s_image s) = s_image s" using drafted_qualified by blast
  from locks_resolved [OF assms(2) d(1) this assms(3)] show ?thesis
    using assms(1) d(2) drafted_rendered by (auto simp: drafted_stack_def rendered_stack_def list_all_iff)
qed

text \<open>C5: A stack that was created is what its blueprint rendered, whichever blueprint of the registry that
  was: its owner is who asked for it, and when it has a domain and no lock is longer than an image
  reference may be, its rows load, decrypted and validated again, as the rendered stack with the
  automatic domain, on the requested server and in generation 1, its services extended by the variables
  about domains, in name order, with locked images and without their commands.\<close>

theorem created_stack_loads:
  assumes "create_stack en u n b raw server w = (Inr a, w')" "keys_ok (pn_db w)" "faithful (se_vault en)"
    and "all_blueprints tp im files = Inr reg" "se_blueprint en = get_blueprint reg"
  shows "\<exists>bp k inputs alloc spec locks. get_blueprint reg b = Some bp \<and> bp_parse bp raw = Some inputs
    \<and> k \<in> set (db_stacks (pn_db w')) \<and> sk_id k = sv_id (ac_stack a) \<and> sk_owner k = Some (us_id u)
    \<and> render_stack en bp n inputs alloc = Inr spec \<and> al_secrets alloc = ac_show_once a
    \<and> resolve_stack_image_locks (se_hub en) spec = Inr locks
    \<and> (st_endpoints spec \<noteq> [] \<and> (\<forall>s\<in>set (st_services spec). \<forall>x. locks (s_name s) = Some x \<longrightarrow> length x \<le> 512) \<longrightarrow>
         spec_of_stack (se_vault en) (pn_db w') k False = Inr (with_magic (as_stored locks (spec\<lparr>st_server_id := server, st_generation := 1\<rparr>))))"
proof -
  obtain bp where bp: "se_blueprint en b = Some bp" using create_steps [OF create_Inr [OF assms(1)]] by blast
  obtain reg0 where "built_in tp im = Inr reg0" "reg = register_templates tp files reg0"
    using assms(4) by (auto simp: all_blueprints_def bind_res_eq_Inr)
  then have "sound_registry reg" using built_in_Inr templates_sound by blast
  then have sound: "sound_blueprint bp" using bp assms(5) by (simp add: sound_registry_def)
  from created_loaded [OF assms(1-3) bp sound_respects [OF sound]] obtain k inputs alloc spec locks where
    k: "k \<in> set (db_stacks (pn_db w'))" "sk_id k = sv_id (ac_stack a)" "sk_owner k = Some (us_id u)" "bp_parse bp raw = Some inputs"
      "render_stack en bp n inputs alloc = Inr spec" "al_secrets alloc = ac_show_once a" "resolve_stack_image_locks (se_hub en) spec = Inr locks"
      "rendered_stack spec \<and> st_endpoints spec \<noteq> [] \<and> locks_ok locks spec \<longrightarrow>
         spec_of_stack (se_vault en) (pn_db w') k False = Inr (with_magic (as_stored locks (spec\<lparr>st_server_id := server, st_generation := 1\<rparr>)))"
    by blast
  note loads = locked_rendered [OF render_drafted [OF k(5) sound] k(7)]
  show ?thesis using k loads bp unfolding assms(5) by (intro exI [of _ bp] exI [of _ k] exI [of _ inputs] exI [of _ alloc] exI [of _ spec] exI [of _ locks]) blast
qed

end
