(* ===== verification/RouteExamples.thy ===== *)
theory RouteExamples
  imports RenderFacts
begin

text \<open>
  The properties of the routes at concrete requests: a panel with one stack, a site and an account.
\<close>

definition open_vault :: vault where
  "open_vault = plain_vault\<lparr>open_inputs := (\<lambda>_. Inr [])\<rparr>"

definition client :: "int \<Rightarrow> user_row" where
  "client i = \<lparr>us_id = i, us_username = ''eve'', us_password = [], us_role = ''client'', us_must_change = False,
     us_suspended = False, us_limits = unlimited\<lparr>l_stacks := Some 1\<rparr>, us_plan = None, us_totp_secret = None, us_totp_enabled = False,
     us_password_changed = 0, us_version = 0\<rparr>"

text \<open>A blueprint of one web service.\<close>

definition note_models :: input_models where
  "note_models = \<lparr>im_image = (\<lambda>_. Some \<lparr>ri_image = ''nginx:1.27'', ri_internal_port = 3000, ri_domain = Some ''note.example.com'',
       ri_behind_cloudflare = False, ri_env = fmempty, ri_volumes = fmempty, ri_memory_mb = None, ri_cpu_percent = None\<rparr>),
     im_wordpress = (\<lambda>_. None), im_git = (\<lambda>_. None)\<rparr>"

definition no_templates :: templating where
  "no_templates = \<lparr>tp_yaml = (\<lambda>_. Inl ValueError), tp_model = (\<lambda>_ x. Some x), tp_dummy = (\<lambda>kvs. Inr (map (\<lambda>(k, x). (k, JStr x)) kvs))\<rparr>"

definition mall_registry :: registry where
  "mall_registry = (case all_blueprints no_templates note_models [] of Inr reg \<Rightarrow> reg | Inl e \<Rightarrow> fmempty)"

definition mall_env :: site_env where
  "mall_env = \<lparr>se_vault = open_vault,
     se_lib = \<lparr>jwt_encode = (\<lambda>_. []), jwt_decode = (\<lambda>_ _. None), pw_hash = id, pw_verify = (=), seal_text = id, open_text = Inr\<rparr>,
     se_auth = \<lparr>au_users = [], au_tokens = [], au_refresh = [], au_setup = None, au_plans = []\<rparr>,
     se_now = 0, se_secret_key = ''k'', se_base_url = ''https://panel/'', se_base_domain = None, se_public_ip = None,
     se_blueprint = get_blueprint mall_registry, se_generated = id,
     se_shared_variables = [], se_hub = (\<lambda>_ _. Inl HTTPError)\<rparr>"

definition mall :: panel where
  "mall = \<lparr>pn_db = shop_db, pn_operations = [], pn_queue = [], pn_resyncs = 0, pn_sites = [''blog.example.com''], pn_apps = [],
     pn_sources = [], pn_tags = [], pn_stack_tags = [], pn_tasks = [], pn_deployments = []\<rparr>"

lemma shop_children:
  "db_stacks shop_db = [shop_row]" "db_users shop_db = [(7, False)]"
  "stack_services shop_db 3 = [row_of_service plain_vault 3 (\<lambda>_. None) shop_service]"
  "db_endpoints shop_db = [\<lparr>er_stack = 3, er_domain = ''shop.example.com'', er_service = ''web'', er_behind_cloudflare = False\<rparr>]"
  "stack_endpoints shop_db 3 = [\<lparr>er_stack = 3, er_domain = ''shop.example.com'', er_service = ''web'', er_behind_cloudflare = False\<rparr>]"
  by (simp_all add: shop_db_def persist_rendered_def bare_db_def shop_def stack_services_def stack_endpoints_def row_of_service_def)

lemma mall_sel [simp]: "pn_db mall = shop_db" "pn_sites mall = [''blog.example.com'']" "pn_apps mall = []" "pn_operations mall = []"
  "pn_queue mall = []" "pn_sources mall = []" "pn_resyncs mall = 0"
  by (simp_all add: mall_def)

lemma shop_row_sel [simp]: "sk_id shop_row = 3" "sk_owner shop_row = Some 7" "sk_name shop_row = ''shop''" "sk_status shop_row = ''ready''"
  "sk_generation shop_row = 1" "sk_inputs shop_row = Some ''sealed''"
  by (simp_all add: shop_row_def)

lemma client_sel [simp]: "us_id (client i) = i" "\<not> is_admin (client i)"
  by (simp_all add: client_def is_admin_def)

lemma stranger_mall: "stranger (slice_of 3 mall) (client 8)"
  by (simp add: stranger_def slice_of_def shop_children)

lemma exclusive_mall: "exclusive mall"
  by (simp add: exclusive_def shop_children)

lemma operations_mall: "operations_ok mall"
  by (simp add: operations_ok_def)

lemma open_mall: "open_stack (client 7) 3 shop_db = Inr shop_row"
  by (simp add: open_Inr fetch_owned_stack_def shop_children)





theorem stream_exact_witness: "stream_events 0 (readings [] [[''one''], [''two'']] ''failed'') = [Data ''one'', Data ''two'', Done ''failed'']"
  using stream_exact [of "[[''one''], [''two'']]" "''failed''"] by (simp add: strip_def lstrip_by_def rstrip_by_def is_space_def)

lemma registered: "all_blueprints no_templates note_models [] = Inr mall_registry"
    "get_blueprint mall_registry ''raw-image'' = Some (raw_image_blueprint note_models)"
proof -
  obtain reg where reg: "built_in no_templates note_models = Inr reg" using built_in_works by blast
  then show all: "all_blueprints no_templates note_models [] = Inr mall_registry"
    by (simp add: all_blueprints_def mall_registry_def)
  then have "mall_registry = reg" using reg by (simp add: all_blueprints_def)
  then show "get_blueprint mall_registry ''raw-image'' = Some (raw_image_blueprint note_models)" using built_in_Inr [OF reg] by simp
qed

lemma env_sel [simp]: "se_vault mall_env = open_vault" "se_blueprint mall_env = get_blueprint mall_registry"
  "se_shared_variables mall_env = []"
  by (simp_all add: mall_env_def)

lemma inputs_mall [simp]: "decrypt_inputs open_vault k = Inr []"
  by (simp add: decrypt_inputs_def open_vault_def)

lemma respond_found:
  "find (\<lambda>k. sk_id k = i) (db_stacks (pn_db w)) = Some k \<Longrightarrow> \<exists>a. respond mall_env i once ws oid w = (Inr a, w) \<and> ac_operation a = oid"
  by (simp add: respond_def stack_response_def view_inputs_def)

definition quiet_host :: "hcall list host_ctx" where
  "quiet_host = recording_host (answers_with (\<lambda>_ _. Inr ()) (\<lambda>_ _. Inr \<lparr>cr_returncode = 1, cr_stdout = [], cr_stderr = []\<rparr>))"

theorem rollback_operation_lost_witness:
  "\<exists>a w' h'. rollback_to_image mall_env quiet_host (client 7) 3 ''web'' ''localhost/no-such-image'' (mall, []) = (Inr a, (w', h'))
     \<and> Some (ac_operation a) \<notin> snd ` set (pn_queue w') \<and> \<not> operations_ok w'"
proof -
  let ?w1 = "snd (add_operation (fresh_operation ''converge_stack'' ''pending'' (se_now mall_env) 3) (mall\<lparr>pn_db := bump 3 (pn_db mall)\<rparr>))"
  let ?oid = "fst (add_operation (fresh_operation ''converge_stack'' ''pending'' (se_now mall_env) 3) (mall\<lparr>pn_db := bump 3 (pn_db mall)\<rparr>))"
  have "find (\<lambda>k. sk_id k = 3) (db_stacks (pn_db ?w1)) = Some (shop_row\<lparr>sk_generation := 2\<rparr>)"
    using bump_row [of 3 shop_db shop_row] by (simp add: add_operation_def Let_def shop_children)
  from respond_found [OF this] obtain a where a: "respond mall_env 3 [] [] ?oid ?w1 = (Inr a, ?w1)" by blast
  have "find (\<lambda>s. w_name s = ''web'') (stack_services shop_db 3) \<noteq> None"
    by (simp add: shop_children row_of_service_def shop_service_def service_defaults_def)
  then obtain h' where h: "rollback_to_image mall_env quiet_host (client 7) 3 ''web'' ''localhost/no-such-image'' (mall, []) = (Inr a, (?w1, h'))"
    using a open_mall shop_facts(2)
    by (auto simp: rollback_to_image_def guard_def quiet_host_def recording_host_def ask_def bind_act_def case_prod_beta Let_def)
  show ?thesis using rollback_operation_lost [OF operations_mall h] h by blast
qed

lemma domain_kept: "validate_domain_name ''shop.example.com'' = Inr ''shop.example.com''" "lower (strip ''shop.example.com'') = ''shop.example.com''"
  by code_simp+

lemma web_target: "filter (\<lambda>s. w_internal_port s \<noteq> None) (stack_services shop_db 3) = [row_of_service plain_vault 3 (\<lambda>_. None) shop_service]"
  "target_service [row_of_service plain_vault 3 (\<lambda>_. None) shop_service] None = Inr (row_of_service plain_vault 3 (\<lambda>_. None) shop_service)"
  by (simp_all add: shop_children row_of_service_def shop_service_def service_defaults_def target_service_def truthy_def)

theorem same_domain_conflict_witness:
  "set_stack_domain mall_env (client 7) 3 (Some ''shop.example.com'') True None mall = (Inl IntegrityError, mall)"
  using same_domain_conflict [where e = "\<lparr>er_stack = 3, er_domain = ''shop.example.com'', er_service = ''web'', er_behind_cloudflare = False\<rparr>"
      and w = mall and i = 3 and d = "''shop.example.com''" and en = mall_env and u = "client 7" and c = True and n = None and k = shop_row
      and web = "row_of_service plain_vault 3 (\<lambda>_. None) shop_service" and y = "''shop.example.com''" and inputs = "[]"]
    exclusive_mall open_mall web_target domain_kept by (simp add: shop_children)

subsection \<open>The environment\<close>

lemma edit_environment:
  assumes "sync_endpoints_from_env_change fmempty (dict_of env) (stack_services shop_db 3) (stack_endpoints shop_db 3) 3 False = (gone, new)"
    "flush_endpoints gone new shop_db = Inr d" "port_warnings (dict_of env) (stack_services shop_db 3) = Inr []"
  shows "\<exists>a w'. set_stack_env mall_env (client 7) 3 env mall = (Inr a, w')
    \<and> pn_resyncs w' = (if gone \<noteq> [] \<or> new \<noteq> [] then 1 else 0) \<and> db_endpoints (pn_db w') = db_endpoints d
    \<and> db_users (pn_db w') = [(7, False)]
    \<and> (\<exists>k. db_stacks (pn_db w') = [k] \<and> sk_id k = 3 \<and> sk_owner k = Some 7 \<and> sk_name k = ''shop'' \<and> sk_status k = ''ready'')"
proof -
  let ?f = "\<lambda>k. k\<lparr>sk_inputs := Some (seal_inputs open_vault (AList.update ''env'' (JObj (map (\<lambda>(k, x). (k, JStr x)) env)) []))\<rparr>"
  have "flush_endpoints gone new (update_stack shop_db 3 ?f) = Inr (update_stack d 3 ?f)"
    using assms(2) by (auto simp: flush_endpoints_def update_stack_def split: if_splits)
  moreover obtain oid w1 where q: "queue_operation ''converge_stack'' (se_now mall_env) shop_row (mall\<lparr>pn_db := update_stack d 3 ?f\<rparr>) = (oid, w1)"
    by fastforce
  ultimately have body: "set_env_body mall_env (client 7) 3 env mall = Inr ((oid, []), if gone \<noteq> [] \<or> new \<noteq> [] then resync w1 else w1)"
    using assms(1,3) open_mall by (simp add: set_env_body_def Let_def env_strings_def env_of_inputs_def dict_of_def)
  note db = queue_db [OF q]
  have d: "db_stacks d = [shop_row]" "db_users d = [(7, False)]" using assms(2) by (auto simp: flush_Inr shop_children)
  have row: "db_stacks (pn_db w1) = [(?f shop_row)\<lparr>sk_generation := 2\<rparr>]"
    using db d by (simp add: bump_def update_stack_def)
  let ?w = "if gone \<noteq> [] \<or> new \<noteq> [] then resync w1 else w1"
  have "find (\<lambda>k. sk_id k = 3) (db_stacks (pn_db ?w)) = Some ((?f shop_row)\<lparr>sk_generation := 2\<rparr>)" using row by (simp add: resync_def)
  from respond_found [OF this, of "[]" "[]" oid] obtain a where "respond mall_env 3 [] [] oid ?w = (Inr a, ?w)" by blast
  then have "set_stack_env mall_env (client 7) 3 env mall = (Inr a, ?w)"
    using body by (simp add: set_stack_env_def transact_def bind_act_def)
  moreover have "pn_resyncs ?w = (if gone \<noteq> [] \<or> new \<noteq> [] then 1 else 0)" using db by (simp add: resync_def)
  moreover have "db_endpoints (pn_db ?w) = db_endpoints d" "db_users (pn_db ?w) = [(7, False)]" "db_stacks (pn_db ?w) = [(?f shop_row)\<lparr>sk_generation := 2\<rparr>]"
    using db d row by (simp_all add: resync_def bump_def update_stack_def)
  ultimately show ?thesis by (intro exI [of _ a] exI [of _ ?w]) simp
qed

lemma no_warnings: "port_warnings (dict_of [(k, x)]) ws = Inr []" if "k \<noteq> ''PORT''"
proof -
  have "fmget (dict_of [(k, x)]) ''PORT'' [] = []" using that by (simp add: fmget_def dict_of_def)
  then show ?thesis by (simp add: port_warnings_def strip_def lstrip_by_def rstrip_by_def isdigit_def)
qed

theorem env_update_ignored_witness:
  "\<exists>a w'. set_stack_env mall_env (client 7) 3 [(''COLOR'', ''red'')] mall = (Inr a, w')
     \<and> (\<exists>k'. find (\<lambda>k. sk_id k = 3) (db_stacks (pn_db w')) = Some k'
          \<and> spec_of_stack plain_vault (pn_db w') k' False = Inr ((with_magic shop)\<lparr>st_generation := 2\<rparr>))"
proof -
  have "sync_endpoints_from_env_change fmempty (dict_of [(''COLOR'', ''red'')]) (stack_services shop_db 3) (stack_endpoints shop_db 3) 3 False = ([], [])"
    by (simp add: sync_endpoints_from_env_change_def sync_key_def fqdn_env_keys_def fmget_def dict_of_def)
  moreover have "flush_endpoints [] [] shop_db = Inr shop_db" by (simp add: flush_Inr)
  ultimately obtain a w' where a: "set_stack_env mall_env (client 7) 3 [(''COLOR'', ''red'')] mall = (Inr a, w')" "pn_resyncs w' = 0"
    using edit_environment [OF _ _ no_warnings [of "''COLOR''"]] by fastforce
  have "find (\<lambda>k. sk_id k = 3) (db_stacks (pn_db mall)) = Some shop_row" by (simp add: shop_children)
  from env_update_ignored [OF a(1) _ this] a(2) obtain k' where k: "find (\<lambda>k. sk_id k = 3) (db_stacks (pn_db w')) = Some k'"
      "spec_of_stack plain_vault (pn_db w') k' False = map_sum id (\<lambda>st. st\<lparr>st_generation := st_generation st + 1\<rparr>)
         (spec_of_stack plain_vault shop_db shop_row False)" by auto
  have "st_generation (with_magic shop) = 1" by (simp add: with_magic_def shop_def)
  then have "spec_of_stack plain_vault (pn_db w') k' False = Inr ((with_magic shop)\<lparr>st_generation := 2\<rparr>)"
    using k(2) by (simp add: shop_loaded)
  then show ?thesis using a(1) k(1) by blast
qed

lemma parsed: "parse_domain ''https://blog.example.com'' = Some ''blog.example.com''" "parse_domain ''https://my_app.example.com'' = Some ''my_app.example.com''"
    "validate_domain_name ''my_app.example.com'' = Inl SpecValidationError" "lower (strip ''blog.example.com'') = ''blog.example.com''"
    "parse_domain [] = None"
  by code_simp+

lemma edit_address:
  assumes "parse_domain url = Some d" "d \<noteq> ''shop.example.com''"
  shows "\<exists>a w'. set_stack_env mall_env (client 7) 3 [(''FQDN'', url)] mall = (Inr a, w')
    \<and> db_endpoints (pn_db w') = [\<lparr>er_stack = 3, er_domain = d, er_service = ''web'', er_behind_cloudflare = False\<rparr>]
    \<and> db_users (pn_db w') = [(7, False)]
    \<and> (\<exists>k. db_stacks (pn_db w') = [k] \<and> sk_id k = 3 \<and> sk_owner k = Some 7 \<and> sk_name k = ''shop'' \<and> sk_status k = ''ready'')"
proof -
  let ?old = "\<lparr>er_stack = 3, er_domain = ''shop.example.com'', er_service = ''web'', er_behind_cloudflare = False\<rparr>"
  let ?new = "\<lparr>er_stack = 3, er_domain = d, er_service = ''web'', er_behind_cloudflare = False\<rparr>"
  have "url \<noteq> []" using assms(1) parsed(5) by auto
  then have "sync_endpoints_from_env_change fmempty (dict_of [(''FQDN'', url)]) (stack_services shop_db 3) (stack_endpoints shop_db 3) 3 False = ([?old], [?new])"
    using assms(1) parsed(5)
    by (simp add: sync_endpoints_from_env_change_def web_target(1) sync_key_def fqdn_env_keys_def fmget_def dict_of_def shop_children
        row_of_service_def shop_service_def service_defaults_def)
  moreover have "flush_endpoints [?old] [?new] shop_db = Inr (shop_db\<lparr>db_endpoints := [?new]\<rparr>)"
    using assms(2) by (simp add: flush_Inr shop_children)
  ultimately show ?thesis using edit_environment [OF _ _ no_warnings [of "''FQDN''"]] by fastforce
qed

lemma mall_row: "find (\<lambda>k. sk_id k = 3) (db_stacks (pn_db mall)) = Some shop_row"
  by (simp add: shop_children)

lemma no_old_address: "decrypt_inputs (se_vault mall_env) shop_row = Inr inputs \<Longrightarrow> parse_domain (fmget (env_strings (env_of_inputs inputs)) ''FQDN'' []) = None"
  using parsed(5) by (simp add: env_strings_def env_of_inputs_def dict_of_def fmget_def)

lemma one_port: "filter (\<lambda>s. w_internal_port s \<noteq> None) (stack_services (pn_db mall) 3) = [row_of_service plain_vault 3 (\<lambda>_. None) shop_service]"
  by (simp only: mall_sel web_target(1))

theorem env_update_takes_domain_witness:
  "\<exists>a w'. set_stack_env mall_env (client 7) 3 [(''FQDN'', ''https://blog.example.com'')] mall = (Inr a, w') \<and> \<not> exclusive w'"
proof -
  obtain a w' where a: "set_stack_env mall_env (client 7) 3 [(''FQDN'', ''https://blog.example.com'')] mall = (Inr a, w')"
    using edit_address [OF parsed(1)] by auto
  have env: "parse_domain (fmget (dict_of [(''FQDN'', ''https://blog.example.com'')]) ''FQDN'' []) = Some ''blog.example.com''"
    by (simp add: parsed fmget_def dict_of_def)
  have "''FQDN'' \<in> set fqdn_env_keys" by (simp add: fqdn_env_keys_def)
  from env_update_takes_domain [OF a mall_row this env no_old_address one_port _ parsed(4)] show ?thesis using a by auto
qed

definition shop_observed :: observed_stack where
  "shop_observed = \<lparr>os_tenant = ''hosty-t-7'', os_tenant_present = True, os_units = fmempty, os_build_units = fmempty,
     os_volume_dirs = {|''data''|}\<rparr>"


subsection \<open>Creating, pushing, changing the domain\<close>

lemma note_facts: "validate_slug ''note'' = Inr ''note''" "validate_domain_name ''note.example.com'' = Inr ''note.example.com''"
    "tenant_ok ''hosty-t-9''" "stack_loopback_ip 4 = Inr ''127.1.0.4''" "tenant_for (Some 9) = Inr ''hosty-t-9''" "validate_slug ''web'' = Inr ''web''"
  by code_simp+

definition note_web :: service_spec where
  "note_web = (new_service ''web'' ''docker.io/library/nginx:1.27'')\<lparr>s_internal_port := Some 3000, s_is_web := True\<rparr>"

definition note_spec :: stack_spec where
  "note_spec = \<lparr>st_name = ''note'', st_tenant = ''hosty-t-9'', st_loopback_ip = ''127.1.0.4'', st_services = [note_web],
     st_volumes = [], st_endpoints = [\<lparr>e_domain = ''note.example.com'', e_service = ''web'', e_behind_cloudflare = False\<rparr>],
     st_suspended = False, st_server_id = None, st_generation = 0\<rparr>"

lemma note_service: "service_post_init ((new_service ''web'' ''nginx:1.27'')
    \<lparr>s_env := [], s_internal_port := Some 3000, s_memory_mb := None, s_cpu_percent := None, s_is_web := True\<rparr>) = Inr note_web"
  unfolding note_web_def new_service_def service_defaults_def by code_simp

lemma note_unlocked: "resolve_stack_image_locks (se_hub mall_env) note_spec = Inr (\<lambda>_. None)"
proof -
  have "lock_digest (\<lambda>_ _. Inl HTTPError) ''docker.io/library/nginx:1.27'' = Inr None" by code_simp
  then show ?thesis by (simp add: resolve_stack_image_locks_def mall_env_def note_spec_def note_web_def truthy_def fun_eq_iff)
qed

lemma create_note:
  "\<exists>a. create_stack mall_env (client 9) ''note'' ''raw-image'' [] (Some 2) mall
     = (Inr a, created_panel mall_env (client 9) ''note'' (raw_image_blueprint note_models) [] (Some 2) (\<lambda>_. None) note_spec mall)"
proof -
  let ?bp = "raw_image_blueprint note_models"
  let ?alloc = "\<lparr>al_tenant = ''hosty-t-9'', al_loopback_ip = ''127.1.0.4'', al_secrets = [], al_shared_variables = []\<rparr>"
  let ?k = "new_stack 4 (client 9) (Some 2) ''note'' ?bp (seal_inputs open_vault [])"
  have wf: "stack_post_init note_spec = Inr note_spec"
    using note_facts by (simp add: note_spec_def note_web_def stack_post_init_iff stack_wf_def endpoint_ok_def)
  have "raw_image_render ''note'' (the (im_image note_models [])) ?alloc = Inr note_spec"
    using note_service note_facts wf
    by (simp add: raw_image_render_def note_models_def new_stack_spec_def note_spec_def truthy_def endpoint_post_init_def
        sorted_items_def sorted_keys_def)
  then have "bp_render ?bp ''note'' [] ?alloc = Inr note_spec"
    by (simp add: raw_image_blueprint_def rendered_by_def note_models_def)
  then have render: "render_stack mall_env ?bp ''note'' [] ?alloc = Inr note_spec"
    by (simp add: render_stack_def with_auto_domain_def note_spec_def)
  have sel: "bp_id ?bp = ''raw-image''" "bp_secrets ?bp x = []" for x by (simp_all add: raw_image_blueprint_def)
  have parse: "bp_parse ?bp [] = Some []"
    by (simp add: raw_image_blueprint_def checked_by_def note_models_def raw_image_inputs_ok_def or_empty_def)
  have id: "fresh_id (map sk_id (db_stacks shop_db)) = 4" by (simp add: shop_children fresh_id_def)
  have alloc: "allocate mall_env ?bp [] ?k = Inr ?alloc"
    using note_facts by (simp add: allocate_def new_stack_def sel)
  have quota: "within_quota mall_env (client 9) shop_db"
    by (simp add: within_quota_def stack_count_def shop_children effective_limits_def resolve_limits_def client_def is_admin_def pick_def Let_def)
  have free: "refuse_domain_conflicts mall (map e_domain (st_endpoints note_spec)) None = Inr ()" "distinct (map e_domain (st_endpoints note_spec))"
    by (simp_all add: refuse_Inr shop_children note_spec_def)
  have "\<exists>oid. create_body mall_env (client 9) ''note'' ''raw-image'' [] (Some 2) mall =
      Inr ((4, oid, []), created_panel mall_env (client 9) ''note'' ?bp [] (Some 2) (\<lambda>_. None) note_spec mall)"
    using render alloc quota free note_unlocked note_facts(1) id parse registered(2)
    by (simp add: create_body_def Let_def created_panel_def add_operation_def guard_def shop_children)
  moreover have "find (\<lambda>k. sk_id k = 4) (db_stacks (pn_db (created_panel mall_env (client 9) ''note'' ?bp [] (Some 2) (\<lambda>_. None) note_spec mall))) = Some ?k"
    using id by (simp add: created_panel_def Let_def persist_rendered_def shop_children new_stack_def)
  ultimately show ?thesis using respond_found by (fastforce simp: create_stack_def transact_def bind_act_def)
qed

lemma vault_faithful: "faithful open_vault"
  using plain_faithful by (simp add: faithful_def open_vault_def)

lemma keys_shop: "keys_ok (pn_db mall)"
  by (simp add: keys_ok_def shop_db_def persist_rendered_def bare_db_def shop_def row_of_service_def)

theorem created_stack_loads_witness:
  "\<exists>a w' bp k inputs alloc spec. create_stack mall_env (client 9) ''note'' ''raw-image'' [] (Some 2) mall = (Inr a, w')
     \<and> get_blueprint mall_registry ''raw-image'' = Some bp \<and> k \<in> set (db_stacks (pn_db w')) \<and> sk_owner k = Some 9
     \<and> render_stack mall_env bp ''note'' inputs alloc = Inr spec"
proof -
  obtain a w' where a: "create_stack mall_env (client 9) ''note'' ''raw-image'' [] (Some 2) mall = (Inr a, w')" using create_note by blast
  have "faithful (se_vault mall_env)" using vault_faithful by simp
  from created_stack_loads [OF a keys_shop this registered(1) env_sel(2)] a show ?thesis by fastforce
qed

definition git_panel :: panel where
  "git_panel = mall\<lparr>pn_db := shop_db\<lparr>db_stacks := [shop_row\<lparr>sk_blueprint := ''git''\<rparr>]\<rparr>\<rparr>"

definition git_env :: site_env where
  "git_env = mall_env\<lparr>se_vault := plain_vault\<lparr>open_inputs := (\<lambda>_. Inr [(''source_id'', JInt 1)])\<rparr>\<rparr>"


definition moved_shop :: stack_spec where
  "moved_shop = shop\<lparr>st_endpoints := [\<lparr>e_domain = ''new.example.com'', e_service = ''web'', e_behind_cloudflare = False\<rparr>], st_generation := 2\<rparr>"

lemma moved_facts: "validate_domain_name ''new.example.com'' = Inr ''new.example.com''" "lower (strip ''new.example.com'') = ''new.example.com''"
  by code_simp+

lemma moved_loaded:
  assumes "db_endpoints d = [\<lparr>er_stack = 3, er_domain = ''new.example.com'', er_service = ''web'', er_behind_cloudflare = False\<rparr>]"
    "db_services d = db_services shop_db" "db_volumes d = db_volumes shop_db"
  shows "spec_of_stack plain_vault d (shop_row\<lparr>sk_generation := 2\<rparr>) False = Inr (with_magic moved_shop)"
proof -
  let ?k = "shop_row\<lparr>sk_generation := 2\<rparr>"
  have "validate_slug ''shop'' = Inr ''shop''" "validate_slug ''data'' = Inr ''data''" "validate_mount_path ''/data'' = Inr ''/data''"
    "tenant_ok ''hosty-t-7''" by code_simp+
  then have "rendered_stack moved_shop" using shop_service_ok moved_facts(1) note_facts(6)
    by (simp add: rendered_stack_def moved_shop_def shop_def stack_post_init_iff stack_wf_def rendered_service_def shop_service_def
        service_defaults_def volume_post_init_def endpoint_post_init_def endpoint_ok_def pairs_sorted_def)
  then have "spec_of_stack plain_vault (persist_rendered plain_vault (sk_id ?k) (\<lambda>_. None) moved_shop bare_db) ?k (st_suspended moved_shop)
      = Inr (with_magic (as_stored (\<lambda>_. None) moved_shop))"
    by (rule load_persisted [OF plain_faithful _ unlocked(2)])
      (simp_all add: shop_row_def moved_shop_def shop_def shop_facts bare_db_def stack_services_def stack_volumes_def stack_endpoints_def)
  moreover have "as_stored (\<lambda>_. None) moved_shop = moved_shop"
    by (simp add: as_stored_def moved_shop_def shop_def without_command_def shop_service_def service_defaults_def)
  ultimately show ?thesis using assms
    by (simp add: spec_of_stack_def moved_shop_def shop_def shop_db_def persist_rendered_def stack_services_def stack_volumes_def stack_endpoints_def bare_db_def)
qed

lemma move_domain:
  "\<exists>a w'. set_stack_domain mall_env (client 7) 3 (Some ''new.example.com'') False None mall = (Inr a, w')
     \<and> db_stacks (pn_db w') = [shop_row\<lparr>sk_generation := 2\<rparr>]
     \<and> spec_of_stack plain_vault (pn_db w') (shop_row\<lparr>sk_generation := 2\<rparr>) False = Inr (with_magic moved_shop)"
proof -
  let ?web = "row_of_service plain_vault 3 (\<lambda>_. None) shop_service"
  let ?old = "\<lparr>er_stack = 3, er_domain = ''shop.example.com'', er_service = ''web'', er_behind_cloudflare = False\<rparr>"
  let ?new = "\<lparr>er_stack = 3, er_domain = ''new.example.com'', er_service = ''web'', er_behind_cloudflare = False\<rparr>"
  let ?d = "shop_db\<lparr>db_endpoints := [?new]\<rparr>"
  have name: "w_name ?web = ''web''" by (simp add: row_of_service_def shop_service_def service_defaults_def)
  have choose: "choose_domain mall_env shop_row [?web] ?web (Some ''new.example.com'') = Inr ''new.example.com''"
    using moved_facts by (simp add: choose_requested)
  have free: "refuse_domain_conflicts mall [''new.example.com''] (Some 3) = Inr ()" by (simp add: refuse_Inr shop_children)
  have env: "snd (update_env_for_domain [] ''new.example.com'' (Some ''shop.example.com'') True) = False"
    by (simp add: update_env_for_domain_def env_of_inputs_def fqdn_env_keys_def Let_def)
  have flush: "flush_endpoints [?old] [?new] shop_db = Inr ?d" by (simp add: flush_Inr shop_children)
  obtain oid w1 where q: "queue_operation ''converge_stack'' (se_now mall_env) shop_row (mall\<lparr>pn_db := ?d\<rparr>) = (oid, w1)" by fastforce
  have body: "set_domain_body mall_env (client 7) 3 (Some ''new.example.com'') False None mall = Inr (oid, w1)"
    unfolding set_domain_body_def Let_def mall_sel web_target(1)
    using choose free env flush q open_mall web_target(2) name
    by (simp add: or_empty_def guard_def case_prod_beta shop_children)
  have db: "pn_db (resync w1) = bump 3 ?d" using queue_db [OF q] by (simp add: resync_def)
  have row: "db_stacks (pn_db (resync w1)) = [shop_row\<lparr>sk_generation := 2\<rparr>]" unfolding db by (simp add: bump_def update_stack_def shop_children)
  then have "find (\<lambda>k. sk_id k = 3) (db_stacks (pn_db (resync w1))) = Some (shop_row\<lparr>sk_generation := 2\<rparr>)" by simp
  from respond_found [OF this, of "[]" "[]" oid] obtain a where "respond mall_env 3 [] [] oid (resync w1) = (Inr a, resync w1)" by blast
  then have "set_stack_domain mall_env (client 7) 3 (Some ''new.example.com'') False None mall = (Inr a, resync w1)"
    using body by (simp add: set_stack_domain_def transact_def bind_act_def)
  moreover have "spec_of_stack plain_vault (pn_db (resync w1)) (shop_row\<lparr>sk_generation := 2\<rparr>) False = Inr (with_magic moved_shop)"
    unfolding db by (rule moved_loaded) (simp_all add: bump_def update_stack_def)
  ultimately show ?thesis using row by blast
qed

definition running_shop :: observed_stack where
  "running_shop = shop_observed\<lparr>os_units := fmap_of_list
     [(''web'', \<lparr>ou_spec_hash = Some (spec_hash (with_magic shop) (hd (st_services (with_magic shop)))), ou_active = True\<rparr>)]\<rparr>"

theorem domain_change_restarts_witness:
  "spec_hash (with_magic moved_shop) (hd (st_services (with_magic moved_shop))) = spec_hash (with_magic shop) (hd (st_services (with_magic shop)))
   \<or> RestartService ''hosty-t-7'' ''shop'' ''web'' \<in> set (plan_converge (with_magic moved_shop) (Some running_shop))
   \<or> ZeroDowntimeDeploy ''hosty-t-7'' (with_magic moved_shop) ''web'' \<in> set (plan_converge (with_magic moved_shop) (Some running_shop))"
proof -
  obtain a w' where m: "set_stack_domain mall_env (client 7) 3 (Some ''new.example.com'') False None mall = (Inr a, w')"
      "db_stacks (pn_db w') = [shop_row\<lparr>sk_generation := 2\<rparr>]"
      "spec_of_stack plain_vault (pn_db w') (shop_row\<lparr>sk_generation := 2\<rparr>) False = Inr (with_magic moved_shop)"
    using move_domain by blast
  have row: "find (\<lambda>k. sk_id k = 3) (db_stacks (pn_db w')) = Some (shop_row\<lparr>sk_generation := 2\<rparr>)" using m(2) by simp
  have before: "spec_of_stack plain_vault (pn_db mall) shop_row False = Inr (with_magic shop)" using shop_loaded by simp
  let ?s = "hd (st_services (with_magic moved_shop))"
  have s: "?s \<in> set (st_services (with_magic moved_shop))" "s_name ?s = ''web''" "st_tenant (with_magic moved_shop) = ''hosty-t-7''"
      "st_name (with_magic moved_shop) = ''shop''"
    by (simp_all add: with_magic_def moved_shop_def shop_def shop_service_def service_defaults_def)
  have "fmlookup (os_units running_shop) (s_name ?s) =
      Some \<lparr>ou_spec_hash = Some (spec_hash (with_magic shop) (hd (st_services (with_magic shop)))), ou_active = True\<rparr>"
    by (simp add: s(2) running_shop_def shop_observed_def)
  from domain_change_restarts [OF m(1) mall_row row before m(3) s(1) this] show ?thesis unfolding s(2-4) by blast
qed

end
