(* ===== verification/BlueprintFacts.thy ===== *)
theory BlueprintFacts
  imports RenderFacts
begin

text \<open>
  What compose templates and Git repositories render: the expansion of variables, and the correspondence
  between a compose file and the services of the stack.
\<close>

subsection \<open>Expansion\<close>

datatype token = Literal string | Variable string alternative

fun alternative_text :: "alternative \<Rightarrow> string" where
  "alternative_text Nothing = []"
| "alternative_text (Default d) = '':-'' @ d"
| "alternative_text (Required d) = '':?'' @ d"

fun alternative_ok :: "alternative \<Rightarrow> bool" where
  "alternative_ok Nothing = True"
| "alternative_ok (Default d) = (CHR 0x7D \<notin> set d \<and> CHR 0x0A \<notin> set d)"
| "alternative_ok (Required d) = (CHR 0x7D \<notin> set d \<and> CHR 0x0A \<notin> set d)"

definition var_name :: "string \<Rightarrow> bool" where
  "var_name k \<longleftrightarrow> k \<noteq> [] \<and> name_start (hd k) \<and> list_all name_char k"

fun token_text :: "token \<Rightarrow> string" where
  "token_text (Literal s) = s"
| "token_text (Variable k a) = [CHR ''$'', CHR 0x7B] @ k @ alternative_text a @ [CHR 0x7D]"

fun token_ok :: "token \<Rightarrow> bool" where
  "token_ok (Literal s) = (CHR ''$'' \<notin> set s)"
| "token_ok (Variable k a) = (var_name k \<and> alternative_ok a)"

fun token_value :: "(string, string) fmap \<Rightarrow> token \<Rightarrow> string res" where
  "token_value subs (Literal s) = Inr s"
| "token_value subs (Variable k a) = expand subs k a"

lemma name_char_not [simp]: "\<not> name_char CHR 0x7D" "\<not> name_char CHR '':''" "\<not> name_char CHR ''$''"
  by (simp_all add: name_char_def name_start_def is_letter_def class_defs less_eq_char_def)

lemma take_name_whole:
  assumes "var_name k" "r = [] \<or> \<not> name_char (hd r)"
  shows "take_name (k @ r) = Some (k, r)"
proof -
  have "takeWhile name_char (k @ r) = k @ takeWhile name_char r" "dropWhile name_char (k @ r) = dropWhile name_char r"
    using assms(1) by (simp_all add: var_name_def list_all_iff)
  moreover have "takeWhile name_char r = []" "dropWhile name_char r = r" using assms(2) by (cases r; simp)+
  ultimately show ?thesis using assms(1) by (auto simp: take_name_def var_name_def)
qed

lemma braced_token: "var_name k \<Longrightarrow> alternative_ok a \<Longrightarrow> braced (k @ alternative_text a @ CHR 0x7D # r) = Some (k, a, r)"
  by (cases a) (simp_all add: braced_def take_name_whole take_operator_def startswith_def partition_some Let_def)

lemma substitute_literal: "CHR ''$'' \<notin> set s \<Longrightarrow> substitute_braced subs (s @ r) = bind_res (substitute_braced subs r) (\<lambda>x. Inr (s @ x))"
proof (induction s)
  case Nil
  then show ?case by (cases "substitute_braced subs r") simp_all
next
  case (Cons c s)
  then have "reference c (s @ r) = None" by (auto simp: reference_def)
  then show ?case using Cons by (cases "substitute_braced subs r") simp_all
qed

lemma substitute_token: "token_ok t \<Longrightarrow> substitute_braced subs (token_text t @ r)
    = bind_res (token_value subs t) (\<lambda>x. bind_res (substitute_braced subs r) (\<lambda>y. Inr (x @ y)))"
  by (cases t) (simp_all add: substitute_literal reference_def startswith_def braced_token)

lemma substitute_tokens: "list_all token_ok ts \<Longrightarrow>
    substitute_braced subs (concat (map token_text ts)) = bind_res (map_res (token_value subs) ts) (\<lambda>xs. Inr (concat xs))"
proof (induction ts)
  case (Cons t ts)
  then show ?case
    by (cases "token_value subs t"; cases "map_res (token_value subs) ts") (simp_all add: substitute_token)
qed simp

lemma bare_literal: "CHR ''$'' \<notin> set s \<Longrightarrow> substitute_bare subs 0 (s @ r) = s @ substitute_bare subs 0 r"
  by (induction s) auto

lemma bare_skip: "substitute_bare subs (length k) (k @ r) = substitute_bare subs 0 r"
  by (induction k) auto

lemma bare_none: "CHR ''$'' \<notin> set s \<Longrightarrow> substitute_bare subs 0 s = s"
  using bare_literal [of s subs "[]"] by simp


text \<open>The second reading also reads the values: a password with a dollar sign loses what follows it, or
  has another variable in its place.\<close>

theorem value_reexpanded:
  assumes "var_name k" "var_name n" "fmlookup subs k = Some (a @ CHR ''$'' # n)" "CHR ''$'' \<notin> set a"
  shows "substitute subs (JStr ([CHR ''$'', CHR 0x7B] @ k @ [CHR 0x7D])) = Inr (a @ fmget subs n [])"
proof -
  have "token_ok (Variable k Nothing)" using assms(1) by simp
  then have "substitute_braced subs ([CHR ''$'', CHR 0x7B] @ k @ [CHR 0x7D]) = Inr (a @ CHR ''$'' # n)"
    using substitute_token [of "Variable k Nothing" subs "[]"] assms(3) by (simp add: expand_def or_empty_def)
  moreover have "substitute_bare subs 0 (CHR ''$'' # n) = fmget subs n []"
    using take_name_whole [OF assms(2), of "[]"] bare_skip [of subs n "[]"] by simp
  ultimately show ?thesis using bare_literal [OF assms(4)] by (simp add: substitute_def py_str_def)
qed

subsection \<open>Instances\<close>

definition example_tokens :: "token list" where
  "example_tokens = [Literal ''postgres://'', Variable ''USER'' (Default ''app''), Literal '':'', Variable ''PASSWORD'' (Required ''no password'')]"


theorem value_reexpanded_witness:
  "substitute (dict_of [(''PASSWORD'', ''pa$word'')]) (JStr ([CHR ''$'', CHR 0x7B] @ ''PASSWORD'' @ [CHR 0x7D])) = Inr ''pa''"
proof -
  have names: "var_name ''PASSWORD''" "var_name ''word''" by code_simp+
  have look: "fmlookup (dict_of [(''PASSWORD'', ''pa$word'')]) ''PASSWORD'' = Some (''pa'' @ CHR ''$'' # ''word'')"
    "fmget (dict_of [(''PASSWORD'', ''pa$word'')]) ''word'' [] = []" by (simp_all add: dict_of_def fmget_def)
  show ?thesis using value_reexpanded [OF names look(1)] look(2) by simp
qed

subsection \<open>From the file to the stack\<close>

lemma post_init_name: "service_post_init s0 = Inr s \<Longrightarrow> validate_slug (s_name s) = Inr (s_name s)"
proof -
  assume p: "service_post_init s0 = Inr s"
  then obtain m where "validate_slug (s_name s0) = Inr m" by (auto simp: service_post_init_def bind_res_eq_Inr)
  then show ?thesis using post_init_keeps [OF p] by (auto simp: validate_slug_def split: if_splits)
qed

text \<open>What the file says of a service, against the service.\<close>

definition service_matches :: "compose \<Rightarrow> inputs \<Rightarrow> allocation \<Rightarrow> string \<times> inputs \<Rightarrow> service_spec \<Rightarrow> bool" where
  "service_matches c inputs alloc ent s \<longleftrightarrow>
     (let subs = substitutions alloc inputs; env = raw_environment subs (al_shared_variables alloc) (snd ent)
      in s_name s = fst ent \<and> validate_slug (s_name s) = Inr (s_name s) \<and> s_is_web s = (cb_web c = Some (JStr (fst ent)))
        \<and> s_depends_on s = depends_of (snd ent) \<and> port_of subs (snd ent) = Inr (s_internal_port s)
        \<and> command_of subs (snd ent) = Inr (s_command s) \<and> \<not> s_exposed s
        \<and> map fst (s_env s) = sorted_keys env
        \<and> list_all (\<lambda>(k, x). substitute subs (the (fmlookup env k)) = Inr x) (s_env s))"

lemma environment_values:
  assumes "environment_of subs shared svc = Inr env"
  shows "list_all (\<lambda>(k, x). substitute subs (the (fmlookup (raw_environment subs shared svc) k)) = Inr x) env"
proof -
  let ?env = "raw_environment subs shared svc"
  have "list_all2 (\<lambda>k kx. bind_res (substitute subs (the (fmlookup ?env k))) (\<lambda>x. Inr (k, x)) = Inr kx) (sorted_keys ?env) env"
    using assms by (simp add: environment_of_def Let_def map_res_Inr)
  then show ?thesis by (induction rule: list_all2_induct) (auto simp: bind_res_eq_Inr)
qed

lemma compose_service_matches:
  assumes "compose_service c (substitutions alloc inputs) inputs (al_shared_variables alloc) m svc = Inr s"
  shows "service_matches c inputs alloc (m, svc) s"
proof -
  let ?subs = "substitutions alloc inputs"
  from assms obtain b env port command ctx dockerfile memory cpu where r:
    "build_of ?subs svc = Inr b" "environment_of ?subs (al_shared_variables alloc) svc = Inr env" "port_of ?subs svc = Inr port"
    "command_of ?subs svc = Inr command" "validate_build_path True (sb_context b) = Inr ctx"
    "validate_build_path False (sb_dockerfile b) = Inr dockerfile"
    "limit_of inputs ''memory_limit'' = Inr memory" "limit_of inputs ''cpu_limit'' = Inr cpu"
    "service_post_init ((new_service m (sb_image b))
       \<lparr>s_env := env, s_internal_port := port, s_is_web := (cb_web c = Some (JStr m)),
        s_build_repo := sb_repo b, s_build_branch := sb_branch b, s_build_context := ctx, s_dockerfile_path := dockerfile,
        s_build_args := sorted_items (sb_args b), s_memory_mb := memory, s_cpu_percent := cpu,
        s_depends_on := depends_of svc, s_command := command\<rparr>) = Inr s"
    by (rule compose_service_steps)
  show ?thesis
    using post_init_keeps [OF r(9)] exposed_kept [OF r(9)] post_init_name [OF r(9)] r(3,4) environment_keys [OF r(2)] environment_values [OF r(2)]
    by (simp add: service_matches_def Let_def)
qed


definition example_file :: json where
  "example_file = JObj
     [(''services'', JObj
        [(''web'', JObj [(''image'', JStr ''nginx:1.27''), (''ports'', JList [JStr ''8080:80/tcp'']), (''depends_on'', JList [JStr ''db'']),
            (''environment'', JObj [(''DB'', JStr ([CHR ''$'', CHR 0x7B] @ ''PASSWORD'' @ [CHR 0x7D] @ ''@db''))])]),
         (''db'', JObj [(''image'', JStr ''postgres:16''), (''volumes'', JList [JStr ''data:/var/lib/postgresql/data'', JStr ''./init:/init''])])]),
      (''x-hosty'', JObj [(''web'', JStr ''web''), (''domain_input'', JStr ''domain''), (''secrets'', JList [JStr ''PASSWORD''])])]"

definition example_compose :: compose where
  "example_compose = (case compose_init example_file of Inr c \<Rightarrow> c | Inl e \<Rightarrow> undefined)"

definition example_alloc :: allocation where
  "example_alloc = \<lparr>al_tenant = ''hosty-t-7'', al_loopback_ip = ''127.1.0.3'', al_secrets = [(''PASSWORD'', ''s3cret'')],
     al_shared_variables = [(''TZ'', ''UTC'')]\<rparr>"

definition example_inputs :: inputs where
  "example_inputs = [(''domain'', JStr ''shop.example.com'')]"

lemma template_names:
  "(case compose_render example_compose ''shop'' example_inputs example_alloc of Inl e \<Rightarrow> []
     | Inr st \<Rightarrow> map (\<lambda>s. (s_name s, s_env s)) (st_services st))
   = [(''web'', [(''DB'', ''s3cret@db''), (''TZ'', ''UTC'')]), (''db'', [(''TZ'', ''UTC'')])]"
  by code_simp

lemma example_renders: "\<exists>st. compose_render example_compose ''shop'' example_inputs example_alloc = Inr st
    \<and> map s_name (st_services st) = [''web'', ''db'']"
  using template_names by (cases "compose_render example_compose ''shop'' example_inputs example_alloc") (auto simp: comp_def)


subsection \<open>Repositories\<close>

lemma map_res_source: "map_res f xs = Inr ys \<Longrightarrow> y \<in> set ys \<Longrightarrow> \<exists>x\<in>set xs. f x = Inr y"
  unfolding map_res_Inr by (induction rule: list_all2_induct) auto

lemma git_service_source:
  assumes "git_render tp n x alloc = Inr st" "s \<in> set (st_services st)"
  shows "built_here x s \<or> \<not> has_build s \<and> s_image s \<noteq> build_target \<and> s_image s \<noteq> ''docker.io/library/'' @ build_target"
proof (cases "gi_build_method x \<in> set [''dockerfile'', ''nixpacks'']")
  case True
  then have "git_plain_render n x alloc = Inr st" using assms(1) by (simp add: git_render_def)
  then obtain s1 es where r:
    "service_post_init ((new_service ''web'' build_target)
       \<lparr>s_build_repo := Some (gi_repo x), s_build_branch := Some (gi_branch x), s_build_tool := gi_build_method x,
        s_internal_port := Some (gi_internal_port x), s_env := sorted_items (gi_env x), s_is_web := True\<rparr>) = Inr s1"
    "new_stack_spec n alloc [s1] [] es = Inr st"
    unfolding git_plain_render_def by (elim bind_resE) blast
  have "s = s1" using r(2) assms(2) by (auto simp: new_stack_Inr)
  then show ?thesis using post_init_keeps [OF r(1)] by (simp add: built_here_def)
next
  case False
  then have "git_compose_render tp n x alloc = Inr st" using assms(1) by (auto simp: git_render_def split: if_splits)
  then obtain doc c inputs spec services where r: "tp_yaml tp (gi_compose_file_content x) = Inr doc" "compose_init doc = Inr c"
    "tp_dummy tp (sorted_items (gi_env x)) = Inr inputs" "compose_render c n inputs alloc = Inr spec"
    "map_res (from_repository x) (st_services spec) = Inr services" "stack_post_init (spec\<lparr>st_services := services\<rparr>) = Inr st"
    by (rule git_compose_steps)
  have "s \<in> set services" using r(6) assms(2) by (auto simp: stack_post_init_iff)
  then obtain s0 where s0: "s0 \<in> set (st_services spec)" "from_repository x s0 = Inr s"
    using map_res_source [OF r(5)] by blast
  from compose_services_drafted [OF r(4) s0(1)] from_repository_drafted [OF s0(2)] show ?thesis by (auto split: if_splits)
qed

text \<open>C33: What a stack from Git builds is built from its own repository.  Whatever the compose file says,
  a service that is built, or that still carries the marker of a build, has the repository and the branch
  of the inputs; a repository that the file names is never used.\<close>

theorem git_builds_own_repo:
  assumes "git_render tp n x alloc = Inr st" "s \<in> set (st_services st)"
    "has_build s \<or> s_image s = build_target \<or> s_image s = ''docker.io/library/'' @ build_target"
  shows "s_build_repo s = Some (gi_repo x) \<and> s_build_branch s = Some (gi_branch x)"
  using git_service_source [OF assms(1,2)] assms(3) by (auto simp: built_here_def)

definition example_repository :: git_inputs where
  "example_repository = \<lparr>gi_repo = ''https://github.com/acme/shop.git'', gi_branch = ''main'', gi_build_method = ''dockerfile'',
     gi_internal_port = 3000, gi_domain = [], gi_env = fmempty, gi_source_id = None, gi_compose_file_content = []\<rparr>"

definition file_repository :: git_inputs where
  "file_repository = example_repository\<lparr>gi_build_method := ''compose'', gi_compose_file_content := ''services: ...''\<rparr>"

definition foreign_file :: templating where
  "foreign_file = \<lparr>tp_yaml = (\<lambda>_. Inr (JObj [(''services'', JObj [(''app'', JObj [(''build'', JStr ''https://github.com/else/where.git#dev'')])])])),
     tp_model = (\<lambda>_ x. Some x), tp_dummy = (\<lambda>_. Inr [])\<rparr>"

lemma foreign_rendered:
  "(case git_render foreign_file ''shop'' file_repository example_alloc of Inl e \<Rightarrow> [] | Inr st \<Rightarrow> map (\<lambda>s. (s_name s, has_build s)) (st_services st))
    = [(''app'', True)]"
  by code_simp

theorem git_builds_own_repo_witness:
  "\<exists>st s. git_render foreign_file ''shop'' file_repository example_alloc = Inr st \<and> s \<in> set (st_services st) \<and> has_build s
     \<and> s_build_repo s = Some ''https://github.com/acme/shop.git''"
proof -
  obtain st where st: "git_render foreign_file ''shop'' file_repository example_alloc = Inr st"
      "map (\<lambda>s. (s_name s, has_build s)) (st_services st) = [(''app'', True)]"
    using foreign_rendered by (cases "git_render foreign_file ''shop'' file_repository example_alloc") auto
  obtain s where s: "s \<in> set (st_services st)" "has_build s" using st(2) by force
  from git_builds_own_repo [OF st(1) s(1)] s st(1) show ?thesis
    by (auto simp: file_repository_def example_repository_def)
qed

end
