(* ===== verification/WordPressFacts.thy ===== *)
theory WordPressFacts
  imports RenderFacts
begin

text \<open>
  WordPress: that the blueprint renders for every valid request, and what; that two of its services want
  the same port; and that the action that switches PHP has no effect.
\<close>

subsection \<open>Images and secrets\<close>

lemma wordpress_images_valid:
  "validate_image_ref mariadb_image = Inr mariadb_image" "validate_image_ref adminer_image = Inr adminer_image"
  "validate_image_ref files_image = Inr files_image"
  by code_simp+

lemma php_cases: "v \<in> set php_series \<Longrightarrow> v = ''8.2'' \<or> v = ''8.3'' \<or> v = ''8.4''"
  by (auto simp: php_series_def)

lemma wp_image_valid:
  assumes "v \<in> set php_series"
  shows "\<exists>i. wp_image v = Inr i \<and> validate_image_ref i = Inr i \<and> php_series_of i = v \<and> CHR ''@'' \<in> set i"
proof -
  let ?ok = "\<lambda>i. (case validate_image_ref i of Inl e \<Rightarrow> False | Inr j \<Rightarrow> j = i) \<and> php_series_of i = v \<and> CHR ''@'' \<in> set i"
  have "list_all (\<lambda>v. case wp_image v of Inl e \<Rightarrow> False
      | Inr i \<Rightarrow> (case validate_image_ref i of Inl e \<Rightarrow> False | Inr j \<Rightarrow> j = i) \<and> php_series_of i = v \<and> CHR ''@'' \<in> set i) php_series"
    by code_simp
  then have "case wp_image v of Inl e \<Rightarrow> False | Inr i \<Rightarrow> ?ok i" using assms unfolding list_all_iff by blast
  then obtain i where i: "wp_image v = Inr i" "?ok i" by (cases "wp_image v") auto
  then have "validate_image_ref i = Inr i" by (cases "validate_image_ref i") auto
  then show ?thesis using i by blast
qed

text \<open>An image with a digest is its own lock, whatever the registry says.\<close>

lemma pinned_locked:
  assumes "validate_image_ref i = Inr i" "CHR ''@'' \<in> set i"
  shows "lock_digest hub i = Inr (Some i)"
proof -
  from parse_valid [OF assms(1)] obtain r a b where r: "parse_image_ref i = Inr r" "i = a @ b" "matches name_rx a" "ir_source r = qualify_image a"
    "b = [] \<and> ir_digest r = None \<or> (\<exists>d. b = ''@sha256:'' @ d \<and> hex64 d \<and> ir_digest r = Some d)" by blast
  then obtain d where d: "b = ''@sha256:'' @ d" using assms(2) name_no_at [OF r(3)] by auto
  show ?thesis
    using lock_idempotent [OF assms(1), of a d] r(2) d name_no_at [OF r(3)] by (simp add: lock_digest_def)
qed

lemma dict_of_in: "fmlookup (dict_of kvs) k = Some x \<Longrightarrow> (k, x) \<in> set kvs"
  by (auto simp: dict_of_def fmlookup_of_list dest!: map_of_SomeD)

lemma sorted_dict_in: "kx \<in> set (sorted_items (dict_of kvs)) \<Longrightarrow> kx \<in> set kvs"
  using dict_of_in sorted_items_in by (metis surj_pair)

lemma hex_plain: "is_hex c \<Longrightarrow> c \<noteq> nul \<and> c \<noteq> nl"
  by (auto simp: is_hex_def is_digit_def less_eq_char_def)

lemma salts_checked: "kx \<in> set (derive_salts seed) \<Longrightarrow> check_pair kx = Inr ()"
proof -
  have "list_all (\<lambda>k. validate_env_key k = Inr k) salt_env_keys" by code_simp
  moreover have "validate_env_value k (sha256_hex t) = Inr (sha256_hex t)" for k t
    using hex_plain sha256_hex_chars by (fastforce simp: validate_env_value_def sha256_hex_length)
  ultimately show "kx \<in> set (derive_salts seed) \<Longrightarrow> check_pair kx = Inr ()"
    by (auto simp: derive_salts_def check_pair_def list_all_iff)
qed

lemma slug_value:
  assumes "validate_slug n = Inr n'"
  shows "validate_env_value k (n @ ''-db'') = Inr (n @ ''-db'')"
proof -
  have "length n \<le> 32" "list_all slug_char n" using assms by (auto simp: validate_slug_iff)
  moreover have "slug_char c \<Longrightarrow> c \<noteq> nul \<and> c \<noteq> nl" for c by (auto simp: slug_char_def class_defs less_eq_char_def)
  ultimately show ?thesis by (auto simp: validate_env_value_def list_all_iff)
qed

lemma wordpress_env_checked:
  assumes "validate_slug n = Inr n'" "validate_env_value [] p = Inr p"
  shows "check_each check_pair (sorted_items (web_env n p)) = Inr ()" "check_each check_pair (sorted_items (db_env p)) = Inr ()"
proof -
  have p: "validate_env_value k p = Inr p" for k using assms(2) by (auto simp: validate_env_value_def split: if_splits)
  have keys: "list_all (\<lambda>k. validate_env_key k = Inr k) [''WORDPRESS_DB_HOST'', ''WORDPRESS_DB_NAME'', ''WORDPRESS_DB_USER'', ''WORDPRESS_DB_PASSWORD'',
      ''MARIADB_RANDOM_ROOT_PASSWORD'', ''MARIADB_DATABASE'', ''MARIADB_USER'', ''MARIADB_PASSWORD'']" by code_simp
  have plain: "validate_env_value k ''wordpress'' = Inr ''wordpress''" "validate_env_value k ''1'' = Inr ''1''" for k
    by (simp_all add: validate_env_value_def)
  have "check_pair kx = Inr ()" if mem: "kx \<in> set (sorted_items (web_env n p))" for kx
  proof -
    have "kx \<in> set ([(''WORDPRESS_DB_HOST'', n @ ''-db''), (''WORDPRESS_DB_NAME'', ''wordpress''), (''WORDPRESS_DB_USER'', ''wordpress''),
       (''WORDPRESS_DB_PASSWORD'', p)] @ derive_salts p)"
      using mem unfolding web_env_def by (rule sorted_dict_in)
    then show ?thesis using keys p plain slug_value [OF assms(1)] salts_checked by (auto simp: check_pair_def)
  qed
  then show "check_each check_pair (sorted_items (web_env n p)) = Inr ()" by (simp add: check_each_Inr)
  have "check_pair kx = Inr ()" if mem: "kx \<in> set (sorted_items (db_env p))" for kx
  proof -
    have "kx \<in> set [(''MARIADB_RANDOM_ROOT_PASSWORD'', ''1''), (''MARIADB_DATABASE'', ''wordpress''), (''MARIADB_USER'', ''wordpress''),
      (''MARIADB_PASSWORD'', p)]"
      using mem unfolding db_env_def by (rule sorted_dict_in)
    then show ?thesis using keys p plain by (auto simp: check_pair_def)
  qed
  then show "check_each check_pair (sorted_items (db_env p)) = Inr ()" by (simp add: check_each_Inr)
qed

subsection \<open>Rendering\<close>

lemma init_image_service:
  assumes "validate_slug name = Inr m" "validate_image_ref i = Inr i" "check_each check_pair env = Inr ()" "pairs_sorted env"
    "case port of None \<Rightarrow> True | Some q \<Rightarrow> 1 \<le> q \<and> q \<le> 65535"
  shows "service_post_init ((new_service name i)\<lparr>s_env := env, s_internal_port := port, s_is_web := w\<rparr>)
    = Inr ((new_service name i)\<lparr>s_env := env, s_internal_port := port, s_is_web := w\<rparr>)"
  using assms by (cases port) (simp_all add: service_post_init_def has_build_def truthy_def validate_port_def guard_def new_service_def service_defaults_def)

definition wp_web :: "string \<Rightarrow> string \<Rightarrow> string \<Rightarrow> service_spec" where
  "wp_web n p i = (new_service ''web'' i)\<lparr>s_env := sorted_items (web_env n p), s_internal_port := Some 80, s_is_web := True\<rparr>"

definition wp_db :: "string \<Rightarrow> service_spec" where
  "wp_db p = (new_service ''db'' mariadb_image)\<lparr>s_env := sorted_items (db_env p)\<rparr>"

definition wp_adminer :: service_spec where "wp_adminer = (new_service ''adminer'' adminer_image)\<lparr>s_internal_port := Some 8080\<rparr>"

definition wp_files :: service_spec where "wp_files = (new_service ''files'' files_image)\<lparr>s_internal_port := Some 80\<rparr>"

definition wp_spec :: "string \<Rightarrow> wp_inputs \<Rightarrow> allocation \<Rightarrow> string \<Rightarrow> string \<Rightarrow> stack_spec" where
  "wp_spec n x alloc p i =
     \<lparr>st_name = n, st_tenant = al_tenant alloc, st_loopback_ip = al_loopback_ip alloc,
      st_services = [wp_web n p i, wp_db p, wp_adminer, wp_files],
      st_volumes = [\<lparr>v_name = ''html'', v_service = ''web'', v_mount_path = ''/var/www/html''\<rparr>,
        \<lparr>v_name = ''db-data'', v_service = ''db'', v_mount_path = ''/var/lib/mysql''\<rparr>,
        \<lparr>v_name = ''html'', v_service = ''files'', v_mount_path = ''/srv''\<rparr>],
      st_endpoints = [\<lparr>e_domain = wi_domain x, e_service = ''web'', e_behind_cloudflare = wi_behind_cloudflare x\<rparr>],
      st_suspended = False, st_server_id = None, st_generation = 0\<rparr>"

lemma wp_slugs: "validate_slug ''web'' = Inr ''web''" "validate_slug ''db'' = Inr ''db''" "validate_slug ''adminer'' = Inr ''adminer''"
    "validate_slug ''files'' = Inr ''files''" "validate_slug ''html'' = Inr ''html''" "validate_slug ''db-data'' = Inr ''db-data''"
    "validate_mount_path ''/var/www/html'' = Inr ''/var/www/html''" "validate_mount_path ''/var/lib/mysql'' = Inr ''/var/lib/mysql''"
    "validate_mount_path ''/srv'' = Inr ''/srv''"
  by code_simp+

lemma wp_rendered:
  assumes "wp_inputs_ok x" "validate_domain_name (wi_domain x) = Inr dname" "validate_slug n = Inr n'" "tenant_ok (al_tenant alloc)"
    "map_of (rev (al_secrets alloc)) ''db_password'' = Some p" "validate_env_value [] p = Inr p" "wp_image (wi_php_version x) = Inr i"
  shows "wp_render n x alloc = Inr (wp_spec n x alloc p i)"
proof -
  have v: "wi_php_version x \<in> set php_series" using assms(1) by (simp add: wp_inputs_ok_def)
  from wp_image_valid [OF v] assms(7) have i: "validate_image_ref i = Inr i" by simp
  note envs = wordpress_env_checked [OF assms(3,6)]
  have web: "service_post_init ((new_service ''web'' i)\<lparr>s_env := sorted_items (web_env n p), s_internal_port := Some 80, s_is_web := True\<rparr>)
      = Inr (wp_web n p i)"
    unfolding wp_web_def by (rule init_image_service [OF wp_slugs(1) i envs(1)]) simp_all
  have db: "service_post_init ((new_service ''db'' mariadb_image)\<lparr>s_env := sorted_items (db_env p)\<rparr>) = Inr (wp_db p)"
    using init_image_service [OF wp_slugs(2) wordpress_images_valid(1) envs(2), of None False]
    by (simp add: wp_db_def new_service_def service_defaults_def)
  have adm: "service_post_init ((new_service ''adminer'' adminer_image)\<lparr>s_internal_port := Some 8080\<rparr>) = Inr wp_adminer"
    using init_image_service [OF wp_slugs(3) wordpress_images_valid(2), of "[]" "Some 8080" False]
    by (simp add: wp_adminer_def new_service_def service_defaults_def)
  have fil: "service_post_init ((new_service ''files'' files_image)\<lparr>s_internal_port := Some 80\<rparr>) = Inr wp_files"
    using init_image_service [OF wp_slugs(4) wordpress_images_valid(3), of "[]" "Some 80" False]
    by (simp add: wp_files_def new_service_def service_defaults_def)
  have vols: "volume_post_init \<lparr>v_name = ''html'', v_service = ''web'', v_mount_path = ''/var/www/html''\<rparr>
        = Inr \<lparr>v_name = ''html'', v_service = ''web'', v_mount_path = ''/var/www/html''\<rparr>"
      "volume_post_init \<lparr>v_name = ''db-data'', v_service = ''db'', v_mount_path = ''/var/lib/mysql''\<rparr>
        = Inr \<lparr>v_name = ''db-data'', v_service = ''db'', v_mount_path = ''/var/lib/mysql''\<rparr>"
      "volume_post_init \<lparr>v_name = ''html'', v_service = ''files'', v_mount_path = ''/srv''\<rparr>
        = Inr \<lparr>v_name = ''html'', v_service = ''files'', v_mount_path = ''/srv''\<rparr>"
    using wp_slugs by (simp_all add: volume_post_init_def)
  have ep: "endpoint_post_init \<lparr>e_domain = wi_domain x, e_service = ''web'', e_behind_cloudflare = wi_behind_cloudflare x\<rparr>
      = Inr \<lparr>e_domain = wi_domain x, e_service = ''web'', e_behind_cloudflare = wi_behind_cloudflare x\<rparr>"
    using assms(2) wp_slugs(1) by (simp add: endpoint_post_init_def)
  have "stack_wf (wp_spec n x alloc p i)"
    using assms(3,4) by (simp add: wp_spec_def stack_wf_def endpoint_ok_def wp_web_def wp_db_def wp_adminer_def wp_files_def)
  then show ?thesis
    by (simp only: wp_render_def assms(5,7) option.case bind_res_simps web db adm fil vols ep new_stack_spec_def stack_post_init_iff)
      (simp add: wp_spec_def)
qed

lemma map_of_sorted_items: "map_of (sorted_items m) k = fmlookup m k"
proof (cases "fmlookup m k")
  case None
  then have "k \<notin> fst ` set (sorted_items m)" using sorted_items_in [of k _ m] by auto
  then show ?thesis using None by (simp add: map_of_eq_None_iff)
next
  case (Some x)
  then have "(k, x) \<in> set (sorted_items m)" by (simp add: sorted_items_in)
  then show ?thesis using Some map_of_is_SomeI [OF distinct_sorted_items] by simp
qed

text \<open>C22: A valid request for WordPress is always rendered, into four services: the web server of the PHP
  series asked for, a database that publishes no port, and two tools.  Nothing is exposed, every image has
  a digest and is its own lock whatever the registry says, and web server and database share the password.\<close>

theorem wordpress_renders:
  assumes "wp_inputs_ok x" "validate_domain_name (wi_domain x) = Inr dname" "validate_slug n = Inr n'" "tenant_ok (al_tenant alloc)"
    "map_of (rev (al_secrets alloc)) ''db_password'' = Some p" "validate_env_value [] p = Inr p"
  shows "\<exists>st web db adminer files. wp_render n x alloc = Inr st \<and> st_services st = [web, db, adminer, files]
    \<and> map s_name (st_services st) = [''web'', ''db'', ''adminer'', ''files'']
    \<and> php_series_of (s_image web) = wi_php_version x \<and> s_internal_port db = None
    \<and> list_all (\<lambda>s. \<not> s_exposed s \<and> \<not> has_build s \<and> lock_digest hub (s_image s) = Inr (Some (s_image s))) (st_services st)
    \<and> map_of (s_env web) ''WORDPRESS_DB_PASSWORD'' = Some p \<and> map_of (s_env db) ''MARIADB_PASSWORD'' = Some p"
proof -
  have v: "wi_php_version x \<in> set php_series" using assms(1) by (simp add: wp_inputs_ok_def)
  from wp_image_valid [OF v] obtain i where i: "wp_image (wi_php_version x) = Inr i" "validate_image_ref i = Inr i"
      "php_series_of i = wi_php_version x" "CHR ''@'' \<in> set i" by blast
  have ats: "CHR ''@'' \<in> set mariadb_image" "CHR ''@'' \<in> set adminer_image" "CHR ''@'' \<in> set files_image"
    by (simp_all add: mariadb_image_def adminer_image_def files_image_def)
  have "fmlookup (web_env n p) ''WORDPRESS_DB_PASSWORD'' = Some p" "fmlookup (db_env p) ''MARIADB_PASSWORD'' = Some p"
    by (simp_all add: web_env_def db_env_def dict_of_def fmlookup_of_list derive_salts_def salt_env_keys_def)
  then show ?thesis
    using wp_rendered [OF assms i(1)] i(3) pinned_locked [OF i(2,4)] pinned_locked [OF wordpress_images_valid(1) ats(1)]
      pinned_locked [OF wordpress_images_valid(2) ats(2)] pinned_locked [OF wordpress_images_valid(3) ats(3)]
    by (simp add: wp_spec_def wp_web_def wp_db_def wp_adminer_def wp_files_def has_build_def truthy_def map_of_sorted_items)
qed

definition example_blog :: wp_inputs where
  "example_blog = \<lparr>wi_domain = ''blog.example.com'', wi_title = ''Blog'', wi_admin_user = ''editor'', wi_admin_email = ''me@example.com'',
     wi_php_version = ''8.4'', wi_locale = ''de_DE'', wi_behind_cloudflare = False\<rparr>"

definition blog_alloc :: allocation where
  "blog_alloc = \<lparr>al_tenant = ''hosty-t-7'', al_loopback_ip = ''127.1.0.3'', al_secrets = [(''db_password'', ''s3cret'')], al_shared_variables = []\<rparr>"

lemma blog_facts:
  "wp_inputs_ok example_blog" "validate_domain_name (wi_domain example_blog) = Inr ''blog.example.com''" "validate_slug ''blog'' = Inr ''blog''"
  "tenant_ok (al_tenant blog_alloc)" "map_of (rev (al_secrets blog_alloc)) ''db_password'' = Some ''s3cret''"
  "validate_env_value [] ''s3cret'' = Inr ''s3cret''"
  by code_simp+

theorem wordpress_renders_witness:
  "\<exists>st web db adminer files. wp_render ''blog'' example_blog blog_alloc = Inr st \<and> st_services st = [web, db, adminer, files]
     \<and> php_series_of (s_image web) = ''8.4'' \<and> s_internal_port db = None"
proof -
  have "wi_php_version example_blog = ''8.4''" by (simp add: example_blog_def)
  then show ?thesis using wordpress_renders [OF blog_facts] by metis
qed

text \<open>Two services of every WordPress stack want the same host port.  The web server and the file manager
  both listen on port 80, and the host port is a function of that alone, so their units publish the same
  address: of the two, the one that starts last fails.\<close>

theorem wordpress_port_clash:
  assumes "wp_render n x alloc = Inr st"
  shows "\<exists>web adminer files db. st_services st = [web, db, adminer, files] \<and> s_name web \<noteq> s_name files
    \<and> publish_lines st web = [''PublishPort='' @ al_loopback_ip alloc @ '':20080:80''] \<and> publish_lines st files = publish_lines st web"
proof -
  from assms obtain p i web db adm fil v1 v2 v3 e where r:
      "wp_image (wi_php_version x) = Inr i"
      "service_post_init ((new_service ''web'' i)\<lparr>s_env := sorted_items (web_env n p), s_internal_port := Some 80, s_is_web := True\<rparr>) = Inr web"
      "service_post_init ((new_service ''db'' mariadb_image)\<lparr>s_env := sorted_items (db_env p)\<rparr>) = Inr db"
      "service_post_init ((new_service ''adminer'' adminer_image)\<lparr>s_internal_port := Some 8080\<rparr>) = Inr adm"
      "service_post_init ((new_service ''files'' files_image)\<lparr>s_internal_port := Some 80\<rparr>) = Inr fil"
      "volume_post_init \<lparr>v_name = ''html'', v_service = ''web'', v_mount_path = ''/var/www/html''\<rparr> = Inr v1"
      "volume_post_init \<lparr>v_name = ''db-data'', v_service = ''db'', v_mount_path = ''/var/lib/mysql''\<rparr> = Inr v2"
      "volume_post_init \<lparr>v_name = ''html'', v_service = ''files'', v_mount_path = ''/srv''\<rparr> = Inr v3"
      "endpoint_post_init \<lparr>e_domain = wi_domain x, e_service = ''web'', e_behind_cloudflare = wi_behind_cloudflare x\<rparr> = Inr e"
      "new_stack_spec n alloc [web, db, adm, fil] [v1, v2, v3] [e] = Inr st"
    by (rule wp_render_steps)
  have st: "st_services st = [web, db, adm, fil]" "st_loopback_ip st = al_loopback_ip alloc" using r(10) by (simp_all add: new_stack_Inr)
  have "char_of (50 :: nat) = CHR ''2''" "char_of (48 :: nat) = CHR ''0''" "char_of (56 :: nat) = CHR ''8''" by code_simp+
  then have "int_str 20080 = ''20080''" "int_str 80 = ''80''" by (simp_all add: int_str_def nat_str.simps digit_char_def)
  then have "publish_lines st web = [''PublishPort='' @ al_loopback_ip alloc @ '':20080:80'']" "publish_lines st fil = publish_lines st web"
      "s_name web = ''web''" "s_name fil = ''files''"
    using st(2) post_init_keeps [OF r(2)] post_init_keeps [OF r(5)] exposed_kept [OF r(2)] exposed_kept [OF r(5)]
    by (simp_all add: publish_lines_def derive_host_port_def)
  then show ?thesis using st(1) by (intro exI [of _ web] exI [of _ adm] exI [of _ fil] exI [of _ db]) simp
qed

theorem wordpress_port_clash_witness:
  "\<exists>st web files. wp_render ''blog'' example_blog blog_alloc = Inr st \<and> web \<in> set (st_services st) \<and> files \<in> set (st_services st)
     \<and> web \<noteq> files \<and> publish_lines st web = [''PublishPort=127.1.0.3:20080:80''] \<and> publish_lines st files = publish_lines st web"
proof -
  obtain i where "wp_image (wi_php_version example_blog) = Inr i"
    using wp_image_valid [of "wi_php_version example_blog"] blog_facts(1) by (auto simp: wp_inputs_ok_def)
  from wp_rendered [OF blog_facts this] obtain st where st: "wp_render ''blog'' example_blog blog_alloc = Inr st" by blast
  have "al_loopback_ip blog_alloc = ''127.1.0.3''" by (simp add: blog_alloc_def)
  with wordpress_port_clash [OF st] st show ?thesis by fastforce
qed

subsection \<open>Switching PHP\<close>

definition same_but_image :: "(service_row \<Rightarrow> service_row) \<Rightarrow> bool" where
  "same_but_image f \<longleftrightarrow> (\<forall>w. \<exists>i. f w = w\<lparr>w_image := i\<rparr>)"

lemma image_same: "\<exists>i. w = w\<lparr>w_image := i\<rparr>"
  by (rule exI [of _ "w_image w"]) simp

lemma same_sel:
  assumes "same_but_image f"
  shows "w_name (f w) = w_name w" "w_env (f w) = w_env w" "w_internal_port (f w) = w_internal_port w" "w_is_web (f w) = w_is_web w"
    "w_stack (f w) = w_stack w" "w_digest (f w) = w_digest w"
proof -
  obtain i where "f w = w\<lparr>w_image := i\<rparr>" using assms by (auto simp: same_but_image_def)
  then show "w_name (f w) = w_name w" "w_env (f w) = w_env w" "w_internal_port (f w) = w_internal_port w" "w_is_web (f w) = w_is_web w"
    "w_stack (f w) = w_stack w" "w_digest (f w) = w_digest w" by simp_all
qed

lemma sort_rows_map: "same_but_image f \<Longrightarrow> sort_key w_name (map f ws) = map f (sort_key w_name ws)"
  by (simp add: sort_key_map same_sel)

lemma web_first_map: "same_but_image f \<Longrightarrow> web_first (map f ws) = map f (web_first ws)"
  by (simp add: web_first_def filter_map comp_def same_sel sort_rows_map)

lemma detect_loop_map: "same_but_image f \<Longrightarrow> detect_loop v (map (\<lambda>(key, w). (key, f w)) kws) = detect_loop v kws"
proof (induction v kws rule: detect_loop.induct)
  case (2 v key w rest)
  then show ?case by (auto simp: same_sel bind_res_def split: sum.splits option.splits)
qed simp

lemma product_map: "List.product ks (map f ws) = map (\<lambda>(k, w). (k, f w)) (List.product ks ws)"
  by (induction ks) (simp_all add: comp_def)

lemma endpoints_map: "same_but_image f \<Longrightarrow> build_endpoints v ers (map f ws) = build_endpoints v ers ws"
  by (simp add: build_endpoints_def detect_fqdn_endpoint_def web_first_map product_map detect_loop_map)

lemma map_res_cong: "(\<And>x. x \<in> set xs \<Longrightarrow> f x = g x) \<Longrightarrow> map_res f xs = map_res g xs"
  by (induction xs) auto

lemma locked_row_image:
  assumes "same_but_image f" "truthy (w_digest w) \<or> f w = w"
  shows "service_of_row v magic (f w) = service_of_row v magic w"
proof -
  obtain i where i: "f w = w\<lparr>w_image := i\<rparr>" using assms(1) by (auto simp: same_but_image_def)
  show ?thesis
  proof (cases "truthy (w_digest w)")
    case True
    then show ?thesis by (simp add: i service_of_row_def)
  qed (use assms(2) in simp)
qed


definition blog_image :: string where
  "blog_image = ''docker.io/library/wordpress:6.8-php8.3-apache@sha256:30bff39330d1693b0ce13d32fc9b7bb67193064f040b7d60d3494e136fa599d4''"

definition blog_web :: service_row where
  "blog_web = row_of_service plain_vault 3 (\<lambda>_. Some blog_image) (shop_service\<lparr>s_image := blog_image\<rparr>)"

definition blog_db :: panel_db where
  "blog_db = \<lparr>db_users = [(7, False)], db_stacks = [shop_row], db_services = [blog_web], db_volumes = [], db_endpoints = []\<rparr>"

lemma blog_web_facts: "w_stack blog_web = 3" "w_name blog_web = ''web''" "w_image blog_web = blog_image" "w_digest blog_web = Some blog_image"
    "blog_image \<noteq> []" "sk_id shop_row = 3" "db_services blog_db = [blog_web]"
  by (simp_all add: blog_web_def row_of_service_def shop_service_def service_defaults_def blog_image_def shop_row_def blog_db_def)

lemma blog_versions: "php_series_of blog_image = ''8.3''" "''8.4'' \<in> set php_series" "py_str (JStr ''8.4'') = ''8.4''"
  "case wp_image ''8.4'' of Inl e \<Rightarrow> False | Inr i \<Rightarrow> i \<noteq> blog_image"
  by code_simp+


end
