(* ===== verification/CommandFacts.thy ===== *)
theory CommandFacts
  imports Commands
begin

text \<open>
  Commands: which units of a stack systemd can be asked to control, and what a command in a container is given.
\<close>

subsection \<open>Units of a tenant\<close>

lemma unit_grammar:
  "validate_unit (c # u) = Inr v \<longleftrightarrow> v = c # u \<and> length u \<le> 63 \<and> (is_lower c \<or> is_upper c \<or> is_digit c)
     \<and> (\<forall>x\<in>set u. is_lower x \<or> is_upper x \<or> is_digit x \<or> x \<in> set '':_.@-'')"
  by (auto simp: validate_unit_def fullmatch_iff unit_rx_def cls_def matches_Seq_Cls matches_upto_length)

lemma slug_in_unit: "slug_char x \<Longrightarrow> is_lower x \<or> is_upper x \<or> is_digit x \<or> x \<in> set '':_.@-''"
  by (auto simp: slug_char_def)

lemma service_unit_valid:
  assumes "validate_slug n = Inr n" "validate_slug s = Inr s"
  shows "validate_unit (service_unit_name n s)
    = (if length n + length s \<le> 55 then Inr (service_unit_name n s) else Inl InvalidCommandError)"
proof -
  obtain c t where n: "n = c # t" using assms(1) by (cases n) (auto simp: validate_slug_iff)
  have chars: "is_lower c \<or> is_digit c" "\<forall>x\<in>set (t @ ''-'' @ s @ ''.service''). is_lower x \<or> is_upper x \<or> is_digit x \<or> x \<in> set '':_.@-''"
    using assms slug_in_unit by (auto simp: n validate_slug_iff list_all_iff slug_char_def is_lower_def less_eq_char_def)
  have "validate_unit (c # (t @ ''-'' @ s @ ''.service'')) = Inr (c # (t @ ''-'' @ s @ ''.service'')) \<longleftrightarrow> length n + length s \<le> 55"
    unfolding unit_grammar using chars by (auto simp: n)
  then show ?thesis by (auto simp: service_unit_name_def n validate_unit_def split: if_splits)
qed

text \<open>C37: The unit of a service can be started, stopped and restarted exactly when the names of stack and service
  have at most 55 characters together.  The grammar of names lets each have 32: a stack and a service with
  longer names are accepted, rendered and written, and no command ever starts them.\<close>

theorem unit_name_bound:
  assumes "validate_slug n = Inr n" "validate_slug s = Inr s" "validate_tenant_username user = Inr user"
    and "action \<in> set [''start'', ''stop'', ''restart'']"
  shows "build_user_control_argv user action (service_unit_name n s)
    = (if length n + length s \<le> 55
       then Inr [''systemctl'', ''--machine'', user @ ''@.host'', ''--user'', action, n @ ''-'' @ s @ ''.service'']
       else Inl InvalidCommandError)"
  using assms(3,4) service_unit_valid [OF assms(1,2)]
  by (auto simp: build_user_control_argv_def user_systemctl_def guard_def service_unit_name_def)

definition long_name :: string where "long_name = replicate 28 CHR ''a''"

theorem unit_name_bound_witness:
  "validate_slug long_name = Inr long_name
     \<and> build_user_control_argv ''hosty-t-7'' ''start'' (service_unit_name long_name long_name) = Inl InvalidCommandError
     \<and> build_user_control_argv ''hosty-t-7'' ''start'' (service_unit_name ''blog'' ''web'')
       = Inr [''systemctl'', ''--machine'', ''hosty-t-7@.host'', ''--user'', ''start'', ''blog-web.service'']"
proof -
  have long: "validate_slug long_name = Inr long_name" "length long_name = 28"
    by (auto simp: validate_slug_iff long_name_def list_all_iff slug_char_def is_lower_def less_eq_char_def)
  have names: "validate_slug ''blog'' = Inr ''blog''" "validate_slug ''web'' = Inr ''web''"
      "validate_tenant_username ''hosty-t-7'' = Inr ''hosty-t-7''" by code_simp+
  show ?thesis
    using long unit_name_bound [OF long(1) long(1) names(3), of "''start''"] unit_name_bound [OF names, of "''start''"] by simp
qed

subsection \<open>Commands in a container\<close>

definition env_flag :: "string \<times> string \<Rightarrow> string list" where
  "env_flag kx = [''--env'', fst kx @ ''='' @ snd kx]"

lemma env_flags_exact:
  "env_flags env = Inr fs \<longleftrightarrow> fs = concat (map env_flag (sorted_items env)) \<and> (\<forall>kx\<in>set (sorted_items env). check_pair kx = Inr ())"
proof -
  have "map_res (\<lambda>kx. bind_res (check_pair kx) (\<lambda>_. Inr [''--env'', fst kx @ ''='' @ snd kx])) kvs = Inr gs
      \<longleftrightarrow> gs = map env_flag kvs \<and> (\<forall>kx\<in>set kvs. check_pair kx = Inr ())" for kvs gs
    by (induction kvs arbitrary: gs) (auto simp: bind_res_eq_Inr env_flag_def)
  then show ?thesis by (auto simp: env_flags_def bind_res_eq_Inr)
qed

lemma object_name_head:
  assumes "validate_object_name c = Inr c'"
  shows "c' = c \<and> c \<noteq> [] \<and> hd c \<noteq> CHR ''-''"
proof -
  have "\<not> alnum_char CHR ''-''" by code_simp
  moreover have "c' = c" "matches object_name_rx c"
    using assms by (auto simp: validate_object_name_def fullmatch_iff split: if_splits)
  then obtain x xs where "c = x # xs" "alnum_char x" by (auto simp: object_name_rx_def alnum_l_eq matches_Seq_Cls)
  ultimately show ?thesis using \<open>c' = c\<close> by auto
qed

text \<open>A command in a container gets exactly the environment it is given.  The arguments are those of podman,
  one \<open>--env\<close> for each variable, in order, then the container, then the command as it is; a key has no equals
  sign, no flag has a line break, and the name of the container is no option.\<close>

theorem exec_arguments_exact:
  assumes "build_exec_argv uid container command env interactive = Inr argv"
  shows "argv = [''podman'', ''--url'', ''unix:/run/user/'' @ int_str uid @ ''/podman/podman.sock'', ''exec'']
      @ (if interactive then [''--interactive''] else []) @ concat (map env_flag (sorted_items env)) @ [container] @ command
    \<and> 0 < uid \<and> command \<noteq> [] \<and> container \<noteq> [] \<and> hd container \<noteq> CHR ''-''
    \<and> fmpred (\<lambda>k x. k \<noteq> [] \<and> CHR ''='' \<notin> set k \<and> nul \<notin> set x \<and> nl \<notin> set x) env"
proof -
  obtain flags where a: "podman_base uid = Inr [''podman'', ''--url'', ''unix:/run/user/'' @ int_str uid @ ''/podman/podman.sock'']" "0 < uid"
      "env_flags env = Inr flags" "validate_object_name container = Inr container" "command \<noteq> []"
      "argv = [''podman'', ''--url'', ''unix:/run/user/'' @ int_str uid @ ''/podman/podman.sock'', ''exec'']
        @ (if interactive then [''--interactive''] else []) @ flags @ [container] @ command"
    using assms object_name_head [of container]
    by (auto simp: build_exec_argv_def podman_base_def socket_url_def bind_res_eq_Inr guard_eq_Inr)
  then have flags: "flags = concat (map env_flag (sorted_items env))" "\<forall>kx\<in>set (sorted_items env). check_pair kx = Inr ()"
    by (simp_all add: env_flags_exact)
  have "k \<noteq> [] \<and> CHR ''='' \<notin> set k \<and> nul \<notin> set x \<and> nl \<notin> set x" if look: "fmlookup env k = Some x" for k x
  proof -
    have "check_pair (k, x) = Inr ()" using flags(2) look by (simp add: sorted_items_in)
    then obtain k' x' where "validate_env_key k = Inr k'" "validate_env_value k x = Inr x'" by (auto simp: check_pair_def bind_res_eq_Inr)
    then show ?thesis using env_key_safe env_value_line safe_charD by blast
  qed
  then show ?thesis using a flags(1) object_name_head [OF a(4)] by (simp add: fmpred_iff)
qed

theorem exec_arguments_exact_witness:
  "\<exists>argv. build_exec_argv 1001 ''blog-db'' [''mariadb-dump''] (dict_of [(''MYSQL_PWD'', ''a=b'')]) False = Inr argv
     \<and> drop 3 argv = [''exec'', ''--env'', ''MYSQL_PWD=a=b'', ''blog-db'', ''mariadb-dump'']"
proof -
  have "validate_object_name ''blog-db'' = Inr ''blog-db''" "validate_env_key ''MYSQL_PWD'' = Inr ''MYSQL_PWD''"
      "validate_env_value ''MYSQL_PWD'' ''a=b'' = Inr ''a=b''" "sorted_items (dict_of [(''MYSQL_PWD'', ''a=b'')]) = [(''MYSQL_PWD'', ''a=b'')]"
    by code_simp+
  then obtain argv where b: "build_exec_argv 1001 ''blog-db'' [''mariadb-dump''] (dict_of [(''MYSQL_PWD'', ''a=b'')]) False = Inr argv"
      and i: "sorted_items (dict_of [(''MYSQL_PWD'', ''a=b'')]) = [(''MYSQL_PWD'', ''a=b'')]"
    by (simp add: build_exec_argv_def podman_base_def socket_url_def env_flags_def check_pair_def guard_def)
  from exec_arguments_exact [OF b] show ?thesis using b by (simp add: i env_flag_def)
qed

end
