(* ===== verification/Dns.thy ===== *)
theory Dns
  imports Blueprints
begin

text \<open>
  The name server, \<open>services/dns.py\<close>: the grammar of names and of record values, record sets and the
  changes sent for them, the client of PowerDNS, and the creation of a zone with its defaults.  PowerDNS is
  the parameter \<open>'w pdns\<close>, one request of its interface: verb, path below the server and body go in, the
  answer comes out, or the transport error.
\<close>

definition dns_error :: exn where "dns_error = AppError 502 ''dns_error''"
definition dns_invalid :: exn where "dns_invalid = AppError 422 ''dns_validation_error''"

definition record_types :: "string list" where
  "record_types = [''A'', ''AAAA'', ''CNAME'', ''MX'', ''TXT'', ''NS'', ''SRV'', ''CAA'']"

definition min_ttl :: int where "min_ttl = 60"
definition max_ttl :: int where "max_ttl = 7 * 86400"

subsection \<open>Names\<close>

definition label_rx :: rx where
  "label_rx = Seq alnum_l (optional (Seq (upto_rx 61 (cls [is_lower, is_digit] ''-'')) alnum_l))"

definition record_label_rx :: rx where "record_label_rx = Seq (optional (lit ''_'')) label_rx"

definition canonical :: "string \<Rightarrow> string" where
  "canonical name = rstrip_char CHR ''.'' (lower (strip name)) @ ''.''"

definition valid_labels :: "rx \<Rightarrow> nat \<Rightarrow> string \<Rightarrow> string res" where
  "valid_labels rx least raw =
     (let name = rstrip_char CHR ''.'' (lower (strip raw)); labels = split_char CHR ''.'' name
      in if name = [] \<or> length name > 253 \<or> length labels < least \<or> \<not> list_all (fullmatch rx) labels then Inl dns_invalid
         else Inr (name @ ''.''))"

definition validate_zone_name :: "string \<Rightarrow> string res" where "validate_zone_name = valid_labels label_rx 2"
definition validate_hostname :: "string \<Rightarrow> string res" where "validate_hostname = valid_labels label_rx 1"

definition relative_ok :: "string \<Rightarrow> bool" where
  "relative_ok relative \<longleftrightarrow> relative = []
     \<or> (case split_char CHR ''.'' relative of [] \<Rightarrow> True
        | l # ls \<Rightarrow> (l = ''*'' \<or> fullmatch record_label_rx l) \<and> list_all (fullmatch record_label_rx) ls)"

definition normalize_record_name :: "string \<Rightarrow> string \<Rightarrow> string res" where
  "normalize_record_name name zone =
     (let zone_c = canonical zone; n = lower (strip (if name = [] then ''@'' else name))
      in if n = ''@'' \<or> n = [] then Inr zone_c
         else bind_res (if endswith n ''.''
             then if n \<noteq> zone_c \<and> \<not> endswith n (''.'' @ zone_c) then Inl dns_invalid
                  else Inr (n, rstrip_char CHR ''.'' (removesuffix n zone_c))
             else Inr (n @ ''.'' @ zone_c, n)) (\<lambda>(fqdn, relative).
           bind_res (guard (relative_ok relative) dns_invalid) (\<lambda>_.
           bind_res (guard (length fqdn \<le> 254) dns_invalid) (\<lambda>_. Inr fqdn))))"

subsection \<open>Addresses\<close>

text \<open>\<open>ipaddress.IPv4Address\<close>: four decimal numbers without leading zeros, printed as they were read.\<close>

definition octet_ok :: "string \<Rightarrow> bool" where
  "octet_ok s \<longleftrightarrow> s \<noteq> [] \<and> list_all ascii_digit s \<and> length s \<le> 3 \<and> (s = ''0'' \<or> hd s \<noteq> CHR ''0'') \<and> nat_of_digits s \<le> 255"

definition ipv4_address :: "string \<Rightarrow> nat list res" where
  "ipv4_address s =
     (let parts = split_char CHR ''.'' s
      in if length parts = 4 \<and> list_all octet_ok parts then Inr (map nat_of_digits parts) else Inl ValueError)"

text \<open>\<open>ipaddress.IPv6Address\<close>: at most one gap, an IPv4 address at the end, a scope after a percent sign.\<close>

definition hextet :: "string \<Rightarrow> nat res" where
  "hextet s = (if s \<noteq> [] \<and> length s \<le> 4 \<and> list_all (\<lambda>c. is_hex (lower_char c)) s
     then Inr (fold (\<lambda>c n. 16 * n + (if ascii_digit c then digit_val c else of_char (lower_char c) - 87)) s 0)
     else Inl ValueError)"

fun hex_text :: "nat \<Rightarrow> string" where
  "hex_text n = (if n < 16 then [hex_digit n] else hex_text (n div 16) @ [hex_digit (n mod 16)])"

declare hex_text.simps [simp del]

definition last_parts :: "string list \<Rightarrow> string list res" where
  "last_parts parts =
     (if CHR ''.'' \<in> set (last parts)
      then bind_res (ipv4_address (last parts)) (\<lambda>bs.
        Inr (butlast parts @ [hex_text (256 * bs ! 0 + bs ! 1), hex_text (256 * bs ! 2 + bs ! 3)]))
      else Inr parts)"

definition hextets_of :: "string list \<Rightarrow> nat list res" where
  "hextets_of parts =
     (case filter (\<lambda>i. parts ! i = []) [1 ..< length parts - 1] of
        [] \<Rightarrow> if length parts \<noteq> 8 \<or> hd parts = [] \<or> last parts = [] then Inl ValueError else map_res hextet parts
      | [i] \<Rightarrow>
          (let hi = (if hd parts = [] then [] else take i parts); lo = (if last parts = [] then [] else drop (Suc i) parts)
           in if hd parts = [] \<and> i \<noteq> 1 \<or> last parts = [] \<and> i \<noteq> length parts - 2 \<or> 8 \<le> length hi + length lo then Inl ValueError
              else bind_res (map_res hextet hi) (\<lambda>h. bind_res (map_res hextet lo) (\<lambda>l.
                Inr (h @ replicate (8 - (length hi + length lo)) 0 @ l))))
      | _ \<Rightarrow> Inl ValueError)"

definition ipv6_number :: "string \<Rightarrow> nat list res" where
  "ipv6_number s =
     (let parts = split_char CHR '':'' s
      in bind_res (guard (3 \<le> length parts) ValueError) (\<lambda>_. bind_res (last_parts parts) (\<lambda>parts.
         bind_res (guard (length parts \<le> 9) ValueError) (\<lambda>_. hextets_of parts))))"

text \<open>The longest run of zeros, the first of several, is left out when it has at least two.\<close>

fun zero_run :: "nat list \<Rightarrow> nat" where
  "zero_run (0 # ns) = Suc (zero_run ns)"
| "zero_run _ = 0"

definition longest_run :: "nat list \<Rightarrow> nat \<times> nat" where
  "longest_run ns = fold (\<lambda>i (at, len). if len < zero_run (drop i ns) then (i, zero_run (drop i ns)) else (at, len)) [0 ..< length ns] (0, 0)"

definition compressed :: "nat list \<Rightarrow> string" where
  "compressed ns =
     (case longest_run ns of (at, len) \<Rightarrow>
        if len > 1 then join '':'' (map hex_text (take at ns)) @ ''::'' @ join '':'' (map hex_text (drop (at + len) ns))
        else join '':'' (map hex_text ns))"

definition ipv6_address :: "string \<Rightarrow> string res" where
  "ipv6_address s =
     (case partition_char CHR ''%'' s of (addr, scoped, scope) \<Rightarrow>
        if CHR ''/'' \<in> set s \<or> scoped \<and> (scope = [] \<or> CHR ''%'' \<in> set scope) then Inl ValueError
        else bind_res (ipv6_number addr) (\<lambda>ns. Inr (compressed ns @ (if scoped then CHR ''%'' # scope else []))))"

subsection \<open>Values of records\<close>

definition number_word :: "nat \<Rightarrow> string \<Rightarrow> bool" where
  "number_word n w \<longleftrightarrow> w \<noteq> [] \<and> length w \<le> n \<and> list_all ascii_digit w"

definition u16 :: "string \<Rightarrow> string res" where
  "u16 w = (if nat_of_digits w > 65535 then Inl dns_invalid else Inr (nat_str (nat_of_digits w)))"

text \<open>The pattern of CAA values: number, tag and value, the quotes around the value optional.\<close>

definition caa_parts :: "nat \<Rightarrow> (string \<Rightarrow> bool) \<Rightarrow> string \<Rightarrow> (string \<times> string \<times> string) option" where
  "caa_parts limit tag_ok s =
     (let flags = takeWhile ascii_digit s; r1 = dropWhile ascii_digit s; r2 = dropWhile is_space r1;
          tag = takeWhile (\<lambda>c. \<not> is_space c) r2; r3 = dropWhile (\<lambda>c. \<not> is_space c) r2; r4 = dropWhile is_space r3;
          r5 = (if startswith r4 [CHR 0x22] then tl r4 else r4);
          val = (if r5 \<noteq> [] \<and> last r5 = CHR 0x22 then butlast r5 else r5)
      in if number_word limit flags \<and> r2 \<noteq> r1 \<and> tag_ok tag \<and> r4 \<noteq> r3 \<and> CHR 0x22 \<notin> set val then Some (flags, tag, val) else None)"

definition unquoted :: "string \<Rightarrow> string" where
  "unquoted c = (if length c \<ge> 2 \<and> hd c = CHR 0x22 \<and> last c = CHR 0x22 then butlast (tl c) else c)"

definition escaped :: "string \<Rightarrow> string" where
  "escaped s = concat (map (\<lambda>c. if c = CHR 0x5C \<or> c = CHR 0x22 then [CHR 0x5C, c] else [c]) s)"

definition quoted :: "string \<Rightarrow> string" where "quoted s = [CHR 0x22] @ s @ [CHR 0x22]"

definition validate_content :: "string \<Rightarrow> string \<Rightarrow> string res" where
  "validate_content rtype content =
     (let c = strip content
      in if c = [] then Inl dns_invalid
         else if rtype = ''A'' then (case ipv4_address c of Inl e \<Rightarrow> Inl dns_invalid | Inr _ \<Rightarrow> Inr c)
         else if rtype = ''AAAA'' then (case ipv6_address c of Inl e \<Rightarrow> Inl dns_invalid | Inr a \<Rightarrow> Inr a)
         else if rtype = ''CNAME'' \<or> rtype = ''NS'' then validate_hostname c
         else if rtype = ''MX'' then
           (case words c of
              [p, h] \<Rightarrow> bind_res (guard (number_word 5 p) dns_invalid) (\<lambda>_. bind_res (u16 p) (\<lambda>p'.
                bind_res (validate_hostname h) (\<lambda>h'. Inr (p' @ '' '' @ h'))))
            | _ \<Rightarrow> Inl dns_invalid)
         else if rtype = ''SRV'' then
           (case words c of
              [p, w, q, h] \<Rightarrow> bind_res (guard (number_word 5 p \<and> number_word 5 w \<and> number_word 5 q) dns_invalid) (\<lambda>_.
                bind_res (u16 p) (\<lambda>p'. bind_res (u16 w) (\<lambda>w'. bind_res (u16 q) (\<lambda>q'.
                bind_res (validate_hostname h) (\<lambda>h'. Inr (join '' '' [p', w', q', h']))))))
            | _ \<Rightarrow> Inl dns_invalid)
         else if rtype = ''TXT'' then
           (if length (unquoted c) > 255 then Inl dns_invalid else Inr (quoted (escaped (unquoted c))))
         else if rtype = ''CAA'' then
           (case caa_parts 3 (\<lambda>t. t \<in> set [''issue'', ''issuewild'', ''iodef'']) c of
              None \<Rightarrow> Inl dns_invalid
            | Some (flags, tag, val) \<Rightarrow> if nat_of_digits flags > 255 then Inl dns_invalid
                else Inr (nat_str (nat_of_digits flags) @ '' '' @ tag @ '' '' @ quoted val))
         else Inl dns_invalid)"

subsection \<open>Record sets\<close>

record rrset =
  rr_name :: string
  rr_type :: string
  rr_ttl :: int
  rr_records :: "string list"

definition make_rrset :: "string \<Rightarrow> string \<Rightarrow> string \<Rightarrow> int \<Rightarrow> string list \<Rightarrow> rrset res" where
  "make_rrset zone name rtype ttl contents =
     (let t = upper (strip rtype)
      in bind_res (guard (t \<in> set record_types) dns_invalid) (\<lambda>_.
         bind_res (normalize_record_name name zone) (\<lambda>fqdn.
         bind_res (guard (\<not> (t = ''CNAME'' \<and> fqdn = canonical zone)) dns_invalid) (\<lambda>_.
         bind_res (guard (min_ttl \<le> ttl \<and> ttl \<le> max_ttl) dns_invalid) (\<lambda>_.
         bind_res (guard (contents \<noteq> []) dns_invalid) (\<lambda>_.
         bind_res (guard (length contents \<le> 16) dns_invalid) (\<lambda>_.
         bind_res (map_res (validate_content t) contents) (\<lambda>cs.
         bind_res (guard (distinct cs) dns_invalid) (\<lambda>_.
         bind_res (guard (\<not> (t = ''CNAME'' \<and> 1 < length cs)) dns_invalid) (\<lambda>_.
         Inr \<lparr>rr_name = fqdn, rr_type = t, rr_ttl = ttl, rr_records = cs\<rparr>))))))))))"

definition replace_patch :: "rrset \<Rightarrow> json" where
  "replace_patch r = JObj [(''name'', JStr (rr_name r)), (''type'', JStr (rr_type r)), (''ttl'', JInt (rr_ttl r)),
     (''changetype'', JStr ''REPLACE''),
     (''records'', JList (map (\<lambda>c. JObj [(''content'', JStr c), (''disabled'', JBool False)]) (rr_records r)))]"

definition delete_patch :: "string \<Rightarrow> string \<Rightarrow> string \<Rightarrow> (string \<times> string \<times> json) res" where
  "delete_patch zone name rtype =
     (let t = upper (strip rtype)
      in bind_res (guard (t \<in> set record_types) dns_invalid) (\<lambda>_.
         bind_res (normalize_record_name name zone) (\<lambda>fqdn.
         Inr (fqdn, t, JObj [(''name'', JStr fqdn), (''type'', JStr t), (''changetype'', JStr ''DELETE''), (''records'', JList [])]))))"

definition default_nameservers :: "string \<Rightarrow> string list \<Rightarrow> string list" where
  "default_nameservers zone configured =
     (if configured \<noteq> [] then map canonical configured else [''ns1.'' @ canonical zone, ''ns2.'' @ canonical zone])"

definition default_zone_patches :: "string \<Rightarrow> string \<Rightarrow> int \<Rightarrow> json list res" where
  "default_zone_patches zone public_ip ttl =
     bind_res (make_rrset zone ''@'' ''A'' ttl [public_ip]) (\<lambda>a. bind_res (make_rrset zone ''www'' ''CNAME'' ttl [zone]) (\<lambda>www.
       Inr [replace_patch a, replace_patch www]))"

subsection \<open>The client of PowerDNS\<close>

record http_reply =
  hr_status :: nat
  hr_text :: string
  hr_json :: "json res"

type_synonym 'w pdns = "string \<Rightarrow> string \<Rightarrow> json option \<Rightarrow> ('w, http_reply) act"

definition pdns_request :: "'w pdns \<Rightarrow> string \<Rightarrow> string \<Rightarrow> json option \<Rightarrow> ('w, http_reply) act" where
  "pdns_request srv verb' path body w =
     (case srv verb' path body w of (Inl HTTPError, w') \<Rightarrow> (Inl dns_error, w') | answer \<Rightarrow> answer)"

record zone_summary =
  zs_id :: string
  zs_name :: string
  zs_kind :: string
  zs_serial :: int

text \<open>The fields of PowerDNS's objects have the types it documents.\<close>

definition text_field :: "string \<Rightarrow> json \<Rightarrow> string res" where
  "text_field key j =
     (case j of JObj m \<Rightarrow> (case map_of m key of None \<Rightarrow> Inl KeyError | Some (JStr s) \<Rightarrow> Inr s | Some _ \<Rightarrow> Inl ValueError) | _ \<Rightarrow> Inl TypeError)"

definition number_or_zero :: "string \<Rightarrow> json \<Rightarrow> int res" where
  "number_or_zero key j =
     (case j of JObj m \<Rightarrow> (case map_of m key of None \<Rightarrow> Inr 0 | Some (JInt n) \<Rightarrow> Inr n | Some _ \<Rightarrow> Inl ValueError) | _ \<Rightarrow> Inl AttributeError)"

definition zone_summary_of :: "json \<Rightarrow> zone_summary res" where
  "zone_summary_of j =
     bind_res (text_field ''id'' j) (\<lambda>i. bind_res (text_field ''name'' j) (\<lambda>n.
     bind_res (number_or_zero ''serial'' j) (\<lambda>s.
     Inr \<lparr>zs_id = i, zs_name = n, zs_kind = (case text_field ''kind'' j of Inl e \<Rightarrow> [] | Inr k \<Rightarrow> k), zs_serial = s\<rparr>)))"

definition list_zones :: "'w pdns \<Rightarrow> ('w, zone_summary list) act" where
  "list_zones srv =
     bind_act (pdns_request srv ''GET'' ''/zones'' None) (\<lambda>r.
       if hr_status r \<noteq> 200 then raise_act dns_error
       else lift_res (bind_res (hr_json r) (\<lambda>j. case j of JList zs \<Rightarrow> map_res zone_summary_of zs | _ \<Rightarrow> Inl TypeError)))"

definition get_zone :: "'w pdns \<Rightarrow> string \<Rightarrow> ('w, json) act" where
  "get_zone srv zid =
     bind_act (pdns_request srv ''GET'' (''/zones/'' @ zid) None) (\<lambda>r.
       if hr_status r = 404 then raise_act not_found else if hr_status r \<noteq> 200 then raise_act dns_error else lift_res (hr_json r))"

definition create_zone :: "'w pdns \<Rightarrow> string \<Rightarrow> string list \<Rightarrow> ('w, json) act" where
  "create_zone srv name nameservers =
     bind_act (pdns_request srv ''POST'' ''/zones'' (Some (JObj [(''name'', JStr name), (''kind'', JStr ''Native''),
         (''nameservers'', JList (map JStr nameservers))]))) (\<lambda>r.
       if hr_status r = 409 \<or> hr_status r = 422 \<and> contains (lower (hr_text r)) ''exist'' then raise_act conflict
       else if hr_status r \<noteq> 200 \<and> hr_status r \<noteq> 201 then raise_act dns_error else lift_res (hr_json r))"

definition delete_zone :: "'w pdns \<Rightarrow> string \<Rightarrow> ('w, unit) act" where
  "delete_zone srv zid =
     bind_act (pdns_request srv ''DELETE'' (''/zones/'' @ zid) None) (\<lambda>r.
       if hr_status r = 404 then raise_act not_found
       else if hr_status r \<noteq> 200 \<and> hr_status r \<noteq> 204 then raise_act dns_error else ret_act ())"

definition patch_rrsets :: "'w pdns \<Rightarrow> string \<Rightarrow> json list \<Rightarrow> ('w, unit) act" where
  "patch_rrsets srv zid patches =
     bind_act (pdns_request srv ''PATCH'' (''/zones/'' @ zid) (Some (JObj [(''rrsets'', JList patches)]))) (\<lambda>r.
       if hr_status r = 404 then raise_act not_found else if hr_status r = 422 then raise_act dns_invalid
       else if hr_status r \<noteq> 200 \<and> hr_status r \<noteq> 204 then raise_act dns_error else ret_act ())"

definition zone_id_of :: "json \<Rightarrow> string \<Rightarrow> string res" where
  "zone_id_of created name =
     (case created of JObj m \<Rightarrow> Inr (case map_of m ''id'' of None \<Rightarrow> name | Some j \<Rightarrow> py_str j) | _ \<Rightarrow> Inl AttributeError)"

text \<open>\<open>try: m except Exception: undo; raise\<close>, the undoing itself without errors.\<close>

definition undo_on_error :: "('w, 'a) act \<Rightarrow> ('w, unit) act \<Rightarrow> ('w, 'a) act" where
  "undo_on_error m undo = (\<lambda>w. case m w of (Inl e, w') \<Rightarrow> (Inl e, snd (undo w')) | r \<Rightarrow> r)"

definition create_zone_with_defaults :: "'w pdns \<Rightarrow> string \<Rightarrow> string list \<Rightarrow> string \<Rightarrow> int \<Rightarrow> ('w, bool) act" where
  "create_zone_with_defaults srv domain nameservers public_ip ttl =
     bind_act (lift_res (validate_zone_name domain)) (\<lambda>zone w.
       case create_zone srv zone (default_nameservers zone nameservers) w of
         (Inl e, w') \<Rightarrow> if e = conflict then (Inr False, w') else (Inl e, w')
       | (Inr created, w') \<Rightarrow>
           (if public_ip = [] then ret_act True
            else bind_act (lift_res (zone_id_of created zone)) (\<lambda>zid.
              bind_act (undo_on_error
                  (bind_act (lift_res (default_zone_patches zone public_ip ttl)) (\<lambda>ps. patch_rrsets srv zid ps))
                  (delete_zone srv zid)) (\<lambda>_. ret_act True))) w')"

subsection \<open>Lookup over HTTPS\<close>

text \<open>\<open>get\<close> is the request; an error of the transport, a bad status or a body that is no JSON is \<open>None\<close>.\<close>

definition doh_types :: "(string \<times> int) list" where "doh_types = [(''NS'', 2), (''A'', 1)]"

definition doh_answer :: "int option \<Rightarrow> json \<Rightarrow> string list res" where
  "doh_answer wanted a =
     (case a of
        JObj m \<Rightarrow>
          let same = (case map_of m ''type'' of None \<Rightarrow> wanted = None | Some JNull \<Rightarrow> wanted = None | Some (JInt n) \<Rightarrow> wanted = Some n
                | Some (JBool b) \<Rightarrow> wanted = Some (if b then 1 else 0) | _ \<Rightarrow> False)
          in Inr (if same \<and> json_truthy (map_of m ''data'') then [lower (strip (py_str (the (map_of m ''data''))))] else [])
      | _ \<Rightarrow> Inl AttributeError)"

definition doh_answers :: "int option \<Rightarrow> json option \<Rightarrow> string list res" where
  "doh_answers wanted x =
     (if \<not> json_truthy x then Inr []
      else case x of
        Some (JList as) \<Rightarrow> bind_res (map_res (doh_answer wanted) as) (\<lambda>rs. Inr (concat rs))
      | Some (JInt _) \<Rightarrow> Inl TypeError | Some (JBool _) \<Rightarrow> Inl TypeError | _ \<Rightarrow> Inl AttributeError)"

definition doh_query :: "(string \<Rightarrow> string \<Rightarrow> ('w, json option) act) \<Rightarrow> string \<Rightarrow> string \<Rightarrow> ('w, string list) act" where
  "doh_query get name rtype =
     bind_act (get (rstrip_char CHR ''.'' name) rtype) (\<lambda>r.
       case r of
         None \<Rightarrow> ret_act []
       | Some (JObj m) \<Rightarrow> lift_res (bind_res (doh_answers (map_of doh_types (upper rtype)) (map_of m ''Answer'')) (\<lambda>as. Inr (sort as)))
       | Some _ \<Rightarrow> raise_act AttributeError)"

end
