(* ===== verification/Cloudflare.thy ===== *)
theory Cloudflare
  imports Dns "HOL-Library.Product_Lexorder"
begin

text \<open>
  Records pushed to and pulled from Cloudflare, \<open>services/cloudflare.py\<close>: the mapping of record sets to
  Cloudflare's records and back, the client of its interface and the push.  Cloudflare is the parameter
  \<open>'w cloud\<close>: verb, path, query and body go in, the answer comes out, or the transport error.  The texts of
  errors that are collected in a result are left out after type and name.
\<close>

definition cloudflare_error :: exn where "cloudflare_error = AppError 502 ''cloudflare_error''"
definition zone_not_in_cloudflare :: exn where "zone_not_in_cloudflare = AppError 409 ''cloudflare_zone_missing''"

subsection \<open>From record sets to Cloudflare\<close>

definition strip_dot :: "string \<Rightarrow> string" where "strip_dot = rstrip_char CHR ''.''"

text \<open>\<open>str.replace\<close> of two characters by one.\<close>

fun replace_two :: "char \<Rightarrow> char \<Rightarrow> char \<Rightarrow> string \<Rightarrow> string" where
  "replace_two a b c (x # y # s) = (if x = a \<and> y = b then c # replace_two a b c s else x # replace_two a b c (y # s))"
| "replace_two a b c s = s"

definition unquote_txt :: "string \<Rightarrow> string" where
  "unquote_txt content =
     replace_two CHR 0x5C CHR 0x5C CHR 0x5C (replace_two CHR 0x5C CHR 0x22 CHR 0x22 (unquoted (strip content)))"

definition digit_word :: "string \<Rightarrow> bool" where "digit_word w \<longleftrightarrow> number_word (length w) w"

definition word_int :: "string \<Rightarrow> json" where "word_int w = JInt (int (nat_of_digits w))"

text \<open>What is added to type, name and time to live.\<close>

definition payload :: "string \<Rightarrow> string \<Rightarrow> string \<Rightarrow> inputs res" where
  "payload rtype cf_name content =
     (if rtype \<in> set [''A'', ''AAAA''] then Inr [(''content'', JStr content), (''proxied'', JBool False)]
      else if rtype \<in> set [''CNAME'', ''NS''] then Inr [(''content'', JStr (strip_dot content)), (''proxied'', JBool False)]
      else if rtype = ''TXT'' then Inr [(''content'', JStr (unquote_txt content))]
      else if rtype = ''MX'' then
        (case words content of
           [p, h] \<Rightarrow> if digit_word p then Inr [(''content'', JStr (strip_dot h)), (''priority'', word_int p)] else Inl ValueError
         | _ \<Rightarrow> Inl ValueError)
      else if rtype = ''CAA'' then
        (case caa_parts (length content) (\<lambda>t. t \<noteq> []) (strip content) of
           None \<Rightarrow> Inl ValueError
         | Some (flags, tag, val) \<Rightarrow> Inr [(''data'', JObj [(''flags'', word_int flags), (''tag'', JStr tag), (''value'', JStr val)])])
      else if rtype = ''SRV'' then
        (case split_char CHR ''.'' cf_name of
           service # proto # l # ls \<Rightarrow>
             if startswith service ''_'' \<and> startswith proto ''_'' then
               (case words content of
                  [p, w, q, h] \<Rightarrow>
                    if digit_word p \<and> digit_word w \<and> digit_word q
                    then Inr [(''data'', JObj [(''service'', JStr service), (''proto'', JStr proto), (''name'', JStr (join ''.'' (l # ls))),
                      (''priority'', word_int p), (''weight'', word_int w), (''port'', word_int q), (''target'', JStr (strip_dot h))])]
                    else Inl ValueError
                | _ \<Rightarrow> Inl ValueError)
             else Inl ValueError
         | _ \<Rightarrow> Inl ValueError)
      else Inl ValueError)"

definition error_line :: "string \<Rightarrow> string \<Rightarrow> string" where "error_line rtype name = rtype @ '' '' @ name"

definition cloud_record :: "rrset \<Rightarrow> string \<Rightarrow> string + inputs" where
  "cloud_record r content =
     (let cf_name = strip_dot (rr_name r)
      in case payload (rr_type r) cf_name content of
           Inl e \<Rightarrow> Inl (error_line (rr_type r) cf_name)
         | Inr kvs \<Rightarrow> Inr ([(''type'', JStr (rr_type r)), (''name'', JStr cf_name), (''ttl'', JInt (max 60 (rr_ttl r)))] @ kvs))"

definition pushed :: "string \<Rightarrow> rrset \<Rightarrow> bool" where
  "pushed zone_c r \<longleftrightarrow> rr_type r \<in> set record_types \<and> \<not> (rr_type r = ''NS'' \<and> rr_name r = zone_c)"

definition lefts :: "('a + 'b) list \<Rightarrow> 'a list" where
  "lefts xs = concat (map (\<lambda>x. case x of Inl a \<Rightarrow> [a] | Inr b \<Rightarrow> []) xs)"

definition rights :: "('a + 'b) list \<Rightarrow> 'b list" where
  "rights xs = concat (map (\<lambda>x. case x of Inl a \<Rightarrow> [] | Inr b \<Rightarrow> [b]) xs)"

definition desired_records :: "string \<Rightarrow> rrset list \<Rightarrow> inputs list \<times> string list" where
  "desired_records zone rrsets =
     (let zone_c = (if endswith zone ''.'' then zone else zone @ ''.'');
          rs = concat (map (\<lambda>r. map (cloud_record r) (rr_records r)) (filter (pushed zone_c) rrsets))
      in (rights rs, lefts rs))"

definition field :: "inputs \<Rightarrow> string \<Rightarrow> json" where "field m key = lookup_or m key JNull"

definition data_of :: "inputs \<Rightarrow> inputs res" where
  "data_of m =
     (if \<not> json_truthy (map_of m ''data'') then Inr [] else case map_of m ''data'' of Some (JObj d) \<Rightarrow> Inr d | _ \<Rightarrow> Inl AttributeError)"

definition same_record :: "inputs \<Rightarrow> inputs \<Rightarrow> bool res" where
  "same_record desired existing =
     (if field desired ''type'' \<noteq> field existing ''type'' \<or> field desired ''name'' \<noteq> field existing ''name'' then Inr False
      else case map_of desired ''data'' of
        Some (JObj d) \<Rightarrow> bind_res (data_of existing) (\<lambda>ex. Inr (list_all (\<lambda>(k, x). py_str (field ex k) = py_str x) d))
      | _ \<Rightarrow>
          bind_res (if field desired ''type'' = JStr ''MX''
              then bind_res (int_of_json (lookup_or existing ''priority'' (JInt (- 1)))) (\<lambda>p.
                   bind_res (int_of_json (lookup_or desired ''priority'' (JInt (- 2)))) (\<lambda>q. Inr (p = q)))
              else Inr True) (\<lambda>prio.
          Inr (prio \<and> (if field desired ''type'' = JStr ''TXT''
            then JStr (unquote_txt (py_str (lookup_or existing ''content'' (JStr [])))) = field desired ''content''
            else field existing ''content'' = field desired ''content''))))"

subsection \<open>From Cloudflare to record sets\<close>

definition required_int :: "inputs \<Rightarrow> string \<Rightarrow> int res" where
  "required_int d key = (case map_of d key of None \<Rightarrow> Inl ValueError | Some j \<Rightarrow> int_of_json j)"

definition pull_content :: "string \<Rightarrow> inputs \<Rightarrow> string res" where
  "pull_content rtype r =
     (let content = strip (if json_truthy (map_of r ''content'') then py_str (field r ''content'') else [])
      in if rtype \<in> set [''A'', ''AAAA'', ''TXT''] then Inr content
         else if rtype \<in> set [''CNAME'', ''NS''] then Inr (strip_dot content @ ''.'')
         else if rtype = ''MX'' then
           bind_res (guard (field r ''priority'' \<noteq> JNull) ValueError) (\<lambda>_. bind_res (int_of_json (field r ''priority'')) (\<lambda>p.
             Inr (int_str p @ '' '' @ strip_dot content @ ''.'')))
         else if rtype = ''SRV'' then
           bind_res (data_of r) (\<lambda>d. bind_res (required_int d ''priority'') (\<lambda>p. bind_res (required_int d ''weight'') (\<lambda>w.
           bind_res (required_int d ''port'') (\<lambda>q. case map_of d ''target'' of
               None \<Rightarrow> Inl ValueError
             | Some t \<Rightarrow> Inr (join '' '' [int_str p, int_str w, int_str q, strip_dot (py_str t) @ ''.''])))))
         else if rtype = ''CAA'' then
           bind_res (data_of r) (\<lambda>d.
             if d = [] then Inr content
             else bind_res (int_of_json (lookup_or d ''flags'' (JInt 0))) (\<lambda>f.
               Inr (int_str f @ '' '' @ py_str (lookup_or d ''tag'' (JStr ''issue'')) @ '' '' @ quoted (py_str (lookup_or d ''value'' (JStr []))))))
         else Inl ValueError)"

type_synonym slots = "((string \<times> string) \<times> (int \<times> string list)) list"

definition add_content :: "string \<times> string \<Rightarrow> int \<Rightarrow> string \<Rightarrow> slots \<Rightarrow> slots" where
  "add_content key ttl content slots =
     (case map_of slots key of
        None \<Rightarrow> slots @ [(key, ttl, [content])]
      | Some (t, cs) \<Rightarrow> AList.update key (t, if content \<in> set cs then cs else cs @ [content]) slots)"

fun pull_each :: "string \<Rightarrow> int \<Rightarrow> inputs list \<Rightarrow> slots \<Rightarrow> string list \<Rightarrow> (slots \<times> string list) res" where
  "pull_each zone_b default_ttl [] slots errors = Inr (slots, errors)"
| "pull_each zone_b default_ttl (r # rs) slots errors =
     (let rtype = upper (py_str (lookup_or r ''type'' (JStr []))); name = strip_dot (py_str (lookup_or r ''name'' (JStr [])))
      in if rtype \<notin> set record_types
         then pull_each zone_b default_ttl rs slots (errors @ [error_line (if rtype = [] then ''?'' else rtype) name])
         else if rtype = ''NS'' \<and> name = zone_b then pull_each zone_b default_ttl rs slots errors
         else case pull_content rtype r of
           Inl e \<Rightarrow> if e = KeyError \<or> e = ValueError then pull_each zone_b default_ttl rs slots (errors @ [error_line rtype name]) else Inl e
         | Inr content \<Rightarrow> bind_res (if json_truthy (map_of r ''ttl'') then int_of_json (field r ''ttl'') else Inr 1) (\<lambda>ttl.
             pull_each zone_b default_ttl rs
               (add_content (name @ ''.'', rtype) (if ttl \<le> 1 then default_ttl else ttl) content slots) errors))"

definition pulled_rrsets :: "string \<Rightarrow> inputs list \<Rightarrow> int \<Rightarrow> ((string \<times> string \<times> int \<times> string list) list \<times> string list) res" where
  "pulled_rrsets zone cf_records default_ttl =
     bind_res (pull_each (strip_dot zone) default_ttl cf_records [] []) (\<lambda>(slots, errors).
       Inr (map (\<lambda>((name, rtype), ttl, cs). (name, rtype, ttl, cs)) (sort_key fst slots), errors))"

subsection \<open>The client\<close>

type_synonym 'w cloud = "string \<Rightarrow> string \<Rightarrow> (string \<times> string) list \<Rightarrow> json option \<Rightarrow> ('w, http_reply) act"

definition cloud_request :: "'w cloud \<Rightarrow> string \<Rightarrow> string \<Rightarrow> (string \<times> string) list \<Rightarrow> json option \<Rightarrow> ('w, inputs) act" where
  "cloud_request srv verb' path params body w =
     (case srv verb' path params body w of
        (Inl e, w') \<Rightarrow> (Inl (if e = HTTPError then cloudflare_error else e), w')
      | (Inr r, w') \<Rightarrow>
          (case hr_json r of
             Inl e \<Rightarrow> Inl (if e = ValueError then cloudflare_error else e)
           | Inr (JObj m) \<Rightarrow> if json_truthy (map_of m ''success'') then Inr m else Inl cloudflare_error
           | Inr _ \<Rightarrow> Inl AttributeError, w'))"

text \<open>\<open>payload.get("result") or []\<close>, a list of objects.\<close>

definition result_list :: "inputs \<Rightarrow> inputs list res" where
  "result_list m =
     (if \<not> json_truthy (map_of m ''result'') then Inr []
      else case map_of m ''result'' of
        Some (JList js) \<Rightarrow> map_res (\<lambda>j. case j of JObj o' \<Rightarrow> Inr o' | _ \<Rightarrow> Inl AttributeError) js
      | _ \<Rightarrow> Inl TypeError)"

definition verify_cloud_token :: "'w cloud \<Rightarrow> ('w, unit) act" where
  "verify_cloud_token srv = bind_act (cloud_request srv ''GET'' ''/user/tokens/verify'' [] None) (\<lambda>_. ret_act ())"

definition find_zone :: "'w cloud \<Rightarrow> string \<Rightarrow> ('w, inputs option) act" where
  "find_zone srv name =
     bind_act (cloud_request srv ''GET'' ''/zones'' [(''name'', name)] None) (\<lambda>m.
     bind_act (lift_res (result_list m)) (\<lambda>zs. ret_act (case zs of [] \<Rightarrow> None | z # _ \<Rightarrow> Some z)))"

definition total_pages :: "inputs \<Rightarrow> int res" where
  "total_pages m =
     (case map_of m ''result_info'' of
        Some (JObj info) \<Rightarrow> if json_truthy (map_of info ''total_pages'') then int_of_json (field info ''total_pages'') else Inr 1
      | x \<Rightarrow> if json_truthy x then Inl AttributeError else Inr 1)"

text \<open>At most \<open>k\<close> more pages, the next one being \<open>page\<close>.\<close>

fun all_pages :: "'w cloud \<Rightarrow> string \<Rightarrow> nat \<Rightarrow> nat \<Rightarrow> nat \<Rightarrow> ('w, inputs list) act" where
  "all_pages srv path per_page page 0 = ret_act []"
| "all_pages srv path per_page page (Suc k) =
     bind_act (cloud_request srv ''GET'' path [(''page'', nat_str page), (''per_page'', nat_str per_page)] None) (\<lambda>m.
     bind_act (lift_res (result_list m)) (\<lambda>rs.
     bind_act (lift_res (total_pages m)) (\<lambda>total.
     if total \<le> int page then ret_act rs
     else bind_act (all_pages srv path per_page (Suc page) k) (\<lambda>more. ret_act (rs @ more)))))"

definition list_cloud_zones :: "'w cloud \<Rightarrow> ('w, inputs list) act" where
  "list_cloud_zones srv = all_pages srv ''/zones'' 50 1 10"

definition list_records :: "'w cloud \<Rightarrow> string \<Rightarrow> ('w, inputs list) act" where
  "list_records srv zid = all_pages srv (''/zones/'' @ zid @ ''/dns_records'') 100 1 10"

definition create_record :: "'w cloud \<Rightarrow> string \<Rightarrow> inputs \<Rightarrow> ('w, unit) act" where
  "create_record srv zid p =
     bind_act (cloud_request srv ''POST'' (''/zones/'' @ zid @ ''/dns_records'') [] (Some (JObj p))) (\<lambda>_. ret_act ())"

definition update_record :: "'w cloud \<Rightarrow> string \<Rightarrow> string \<Rightarrow> inputs \<Rightarrow> ('w, unit) act" where
  "update_record srv zid rid p =
     bind_act (cloud_request srv ''PUT'' (''/zones/'' @ zid @ ''/dns_records/'' @ rid) [] (Some (JObj p))) (\<lambda>_. ret_act ())"

definition delete_record :: "'w cloud \<Rightarrow> string \<Rightarrow> string \<Rightarrow> ('w, unit) act" where
  "delete_record srv zid rid =
     bind_act (cloud_request srv ''DELETE'' (''/zones/'' @ zid @ ''/dns_records/'' @ rid) [] None) (\<lambda>_. ret_act ())"

subsection \<open>Push\<close>

record push_result =
  pr_created :: nat
  pr_updated :: nat
  pr_skipped :: nat
  pr_errors :: "string list"

definition same_key :: "inputs \<Rightarrow> inputs \<Rightarrow> bool" where
  "same_key d e \<longleftrightarrow> field e ''type'' = field d ''type'' \<and> field e ''name'' = field d ''name''"

fun any_res :: "('a \<Rightarrow> bool res) \<Rightarrow> 'a list \<Rightarrow> bool res" where
  "any_res f [] = Inr False"
| "any_res f (x # xs) = bind_res (f x) (\<lambda>b. if b then Inr True else any_res f xs)"

definition required_str :: "inputs \<Rightarrow> string \<Rightarrow> string res" where
  "required_str m key = (case map_of m key of None \<Rightarrow> Inl KeyError | Some j \<Rightarrow> Inr (py_str j))"

definition push_record :: "'w cloud \<Rightarrow> string \<Rightarrow> inputs list \<Rightarrow> inputs list \<Rightarrow> inputs \<Rightarrow> push_result \<Rightarrow> ('w, push_result) act" where
  "push_record srv zid desired existing d result =
     (let matches = filter (same_key d) existing; single = (length (filter (same_key d) desired) = 1)
      in bind_act (lift_res (any_res (same_record d) matches)) (\<lambda>skip.
         if skip then ret_act (result\<lparr>pr_skipped := pr_skipped result + 1\<rparr>)
         else (\<lambda>w. case (if length matches = 1 \<and> single
                   then bind_act (lift_res (required_str (hd matches) ''id'')) (\<lambda>rid.
                     bind_act (update_record srv zid rid d) (\<lambda>_. ret_act (result\<lparr>pr_updated := pr_updated result + 1\<rparr>)))
                   else bind_act (create_record srv zid d) (\<lambda>_. ret_act (result\<lparr>pr_created := pr_created result + 1\<rparr>))) w of
               (Inl e, w') \<Rightarrow>
                 (if e = cloudflare_error
                  then Inr (result\<lparr>pr_errors := pr_errors result @ [error_line (py_str (field d ''type'')) (py_str (field d ''name''))]\<rparr>)
                  else Inl e, w')
             | r \<Rightarrow> r)))"

fun push_each :: "'w cloud \<Rightarrow> string \<Rightarrow> inputs list \<Rightarrow> inputs list \<Rightarrow> inputs list \<Rightarrow> push_result \<Rightarrow> ('w, push_result) act" where
  "push_each srv zid desired existing [] result = ret_act result"
| "push_each srv zid desired existing (d # ds) result =
     bind_act (push_record srv zid desired existing d result) (\<lambda>result. push_each srv zid desired existing ds result)"

definition push_zone :: "'w cloud \<Rightarrow> string \<Rightarrow> rrset list \<Rightarrow> ('w, push_result) act" where
  "push_zone srv zone_name rrsets =
     (let bare = strip_dot zone_name
      in bind_act (find_zone srv bare) (\<lambda>z. case z of
           None \<Rightarrow> raise_act zone_not_in_cloudflare
         | Some z \<Rightarrow> bind_act (lift_res (required_str z ''id'')) (\<lambda>zid.
             let (desired, map_errors) = desired_records bare rrsets
             in bind_act (list_records srv zid) (\<lambda>existing.
                push_each srv zid desired existing desired \<lparr>pr_created = 0, pr_updated = 0, pr_skipped = 0, pr_errors = map_errors\<rparr>))))"

end
