(* ===== verification/DnsRoutes.thy ===== *)
theory DnsRoutes
  imports Cloudflare
begin

text \<open>
  The routes of zones and records, \<open>routes/dns.py\<close>, with the tokens of \<open>services/cloudflare_config.py\<close>.  The
  state is the table of owners, the stored tokens and the network \<open>'w\<close> that PowerDNS and Cloudflare are
  part of; a handler is a function from this state to a result and a state.  The clients that tests put in
  place and the texts that explain a delegation are left out; opening a sealed token fails with a
  \<open>SecretDecryptionError\<close> only.
\<close>

record 'w dns_state =
  dn_owners :: "(string \<times> int option) list" \<comment> \<open>zone and owner\<close>
  dn_tokens :: "(string \<times> string) list" \<comment> \<open>key of the setting and sealed token\<close>
  dn_net :: 'w

record site_entry =
  se_id :: int
  se_domain :: string
  se_owner :: "int option"

record 'w dns_env =
  de_pdns :: "'w pdns"
  de_cloud :: "string \<Rightarrow> 'w cloud" \<comment> \<open>with a token\<close>
  de_doh :: "string \<Rightarrow> string \<Rightarrow> ('w, json option) act"
  de_enabled :: bool
  de_public_ip :: string
  de_ttl :: int
  de_nameservers :: "string list"
  de_env_token :: string
  de_seal :: "string \<Rightarrow> string"
  de_open :: "string \<Rightarrow> string res"
  de_users :: "user_row list"
  de_sites :: "site_entry list"

definition on_net :: "('w, 'a) act \<Rightarrow> ('w dns_state, 'a) act" where
  "on_net m st = (case m (dn_net st) of (r, w') \<Rightarrow> (r, st\<lparr>dn_net := w'\<rparr>))"

subsection \<open>Access\<close>

definition owned_zones :: "user_row \<Rightarrow> 'w dns_state \<Rightarrow> (string \<times> int option) list" where
  "owned_zones u st = filter (\<lambda>(z, owner). is_admin u \<or> owner = Some (us_id u)) (dn_owners st)"

definition require_zone_access :: "user_row \<Rightarrow> string \<Rightarrow> ('w dns_state, string) act" where
  "require_zone_access u zid st =
     (let zone = canonical zid
      in (if is_admin u then Inr zone
          else if (zone, Some (us_id u)) \<in> set (dn_owners st) then Inr zone else Inl not_found, st))"

definition pdns_client :: "'w dns_env \<Rightarrow> ('w dns_state, 'w pdns) act" where
  "pdns_client en = lift_res (if de_enabled en then Inr (de_pdns en) else Inl not_found)"

subsection \<open>Tokens\<close>

definition settings_key_for :: "user_row \<Rightarrow> string" where
  "settings_key_for u = (if us_role u = ''admin'' then ''cloudflare'' else ''cloudflare:'' @ int_str (us_id u))"

definition load_key :: "'w dns_env \<Rightarrow> string \<Rightarrow> 'w dns_state \<Rightarrow> string option" where
  "load_key en key st =
     (case map_of (dn_tokens st) key of None \<Rightarrow> None
      | Some sealed \<Rightarrow> (case de_open en sealed of Inl e \<Rightarrow> None | Inr t \<Rightarrow> Some t))"

definition load_for_user :: "'w dns_env \<Rightarrow> user_row \<Rightarrow> 'w dns_state \<Rightarrow> (string \<times> string) option" where
  "load_for_user en u st =
     (case load_key en (settings_key_for u) st of
        Some t \<Rightarrow> Some (t, ''db'')
      | None \<Rightarrow> if us_role u = ''admin'' \<and> de_env_token en \<noteq> [] then Some (de_env_token en, ''env'') else None)"

definition save_for_user :: "'w dns_env \<Rightarrow> user_row \<Rightarrow> string \<Rightarrow> ('w dns_state, string \<times> string) act" where
  "save_for_user en u token st =
     (let st' = st\<lparr>dn_tokens := AList.update (settings_key_for u) (de_seal en (strip token)) (dn_tokens st)\<rparr>
      in (case load_for_user en u st' of None \<Rightarrow> Inl AssertionError | Some c \<Rightarrow> Inr c, st'))"

definition clear_for_user :: "user_row \<Rightarrow> ('w dns_state, bool) act" where
  "clear_for_user u st =
     (if map_of (dn_tokens st) (settings_key_for u) = None then (Inr False, st)
      else (Inr True, st\<lparr>dn_tokens := AList.delete (settings_key_for u) (dn_tokens st)\<rparr>))"

definition cf_client :: "'w dns_env \<Rightarrow> user_row \<Rightarrow> ('w dns_state, 'w cloud) act" where
  "cf_client en u st = (case load_for_user en u st of None \<Rightarrow> Inl conflict | Some (t, _) \<Rightarrow> Inr (de_cloud en t), st)"

definition token_user :: "'w dns_env \<Rightarrow> user_row \<Rightarrow> string \<Rightarrow> bool \<Rightarrow> 'w dns_state \<Rightarrow> user_row" where
  "token_user en u zone own st =
     (if is_admin u \<and> \<not> own
      then case map_of (dn_owners st) zone of
          Some (Some i) \<Rightarrow> (case find (\<lambda>v. us_id v = i) (de_users en) of None \<Rightarrow> u | Some v \<Rightarrow> v)
        | _ \<Rightarrow> u
      else u)"

definition zone_cf_client :: "'w dns_env \<Rightarrow> user_row \<Rightarrow> string \<Rightarrow> bool \<Rightarrow> ('w dns_state, 'w cloud) act" where
  "zone_cf_client en u zone own st =
     (let t = token_user en u zone own st
      in (case load_for_user en t st of
            Some (token, _) \<Rightarrow> Inr (de_cloud en token)
          | None \<Rightarrow>
              (case (if is_admin u \<and> us_id t \<noteq> us_id u then load_for_user en u st else None) of
                 None \<Rightarrow> Inl conflict | Some (token, _) \<Rightarrow> Inr (de_cloud en token)), st))"

subsection \<open>Zones\<close>

record zone_detail =
  zd_id :: string
  zd_name :: string
  zd_serial :: int
  zd_rrsets :: "rrset list"

definition list_field :: "string \<Rightarrow> json \<Rightarrow> json list res" where
  "list_field key j =
     (case j of JObj m \<Rightarrow> (case map_of m key of None \<Rightarrow> Inr [] | Some (JList js) \<Rightarrow> Inr js | Some _ \<Rightarrow> Inl TypeError) | _ \<Rightarrow> Inl AttributeError)"

definition rrset_of :: "json \<Rightarrow> rrset list res" where
  "rrset_of j =
     (case text_field ''type'' j of
        Inl e \<Rightarrow> (case j of JObj m \<Rightarrow> Inr [] | _ \<Rightarrow> Inl AttributeError)
      | Inr t \<Rightarrow>
          if t \<notin> set (record_types @ [''SOA'']) then Inr []
          else bind_res (text_field ''name'' j) (\<lambda>n. bind_res (number_or_zero ''ttl'' j) (\<lambda>ttl.
               bind_res (list_field ''records'' j) (\<lambda>rs. bind_res (map_res (text_field ''content'') rs) (\<lambda>cs.
               Inr [\<lparr>rr_name = n, rr_type = t, rr_ttl = ttl, rr_records = cs\<rparr>])))))"

definition zone_detail_of :: "json \<Rightarrow> zone_detail res" where
  "zone_detail_of raw =
     bind_res (list_field ''rrsets'' raw) (\<lambda>js. bind_res (map_res rrset_of js) (\<lambda>rs.
     bind_res (text_field ''id'' raw) (\<lambda>i. bind_res (text_field ''name'' raw) (\<lambda>n. bind_res (number_or_zero ''serial'' raw) (\<lambda>s.
     Inr \<lparr>zd_id = i, zd_name = n, zd_serial = s, zd_rrsets = sort_key (\<lambda>r. (rr_name r, rr_type r)) (concat rs)\<rparr>)))))"

definition point_to_server_patches :: "'w dns_env \<Rightarrow> string \<Rightarrow> json list res" where
  "point_to_server_patches en zone = default_zone_patches zone (de_public_ip en) (de_ttl en)"

record dns_meta =
  dm_enabled :: bool
  dm_server_ip :: string
  dm_default_ttl :: int
  dm_cloudflare :: bool

definition dns_meta :: "'w dns_env \<Rightarrow> user_row \<Rightarrow> 'w dns_state \<Rightarrow> dns_meta" where
  "dns_meta en u st = \<lparr>dm_enabled = de_enabled en, dm_server_ip = de_public_ip en, dm_default_ttl = de_ttl en,
     dm_cloudflare = (load_for_user en u st \<noteq> None)\<rparr>"

record zone_view = zone_summary +
  zv_owner :: "int option"
  zv_username :: "string option"

definition zone_view_of :: "zone_summary \<Rightarrow> int option \<Rightarrow> string option \<Rightarrow> zone_view" where
  "zone_view_of z owner name =
     \<lparr>zs_id = zs_id z, zs_name = zs_name z, zs_kind = zs_kind z, zs_serial = zs_serial z, zv_owner = owner, zv_username = name\<rparr>"

definition list_zones_route :: "'w dns_env \<Rightarrow> user_row \<Rightarrow> ('w dns_state, zone_view list) act" where
  "list_zones_route en u =
     bind_act (pdns_client en) (\<lambda>srv. bind_act (on_net (list_zones srv)) (\<lambda>zones st.
       let owned = owned_zones u st
       in (Inr (if \<not> is_admin u
            then map (\<lambda>z. zone_view_of z None None) (filter (\<lambda>z. map_of owned (canonical (zs_name z)) \<noteq> None) zones)
            else map (\<lambda>z. case map_of owned (canonical (zs_name z)) of
                Some (Some i) \<Rightarrow> zone_view_of z (Some i) (map_option us_username (find (\<lambda>v. us_id v = i) (de_users en)))
              | _ \<Rightarrow> zone_view_of z None None) zones), st)))"

definition zone_owner_for :: "'w dns_env \<Rightarrow> user_row \<Rightarrow> string \<Rightarrow> int option \<Rightarrow> int res" where
  "zone_owner_for en u name site =
     (case site of
        None \<Rightarrow> Inr (us_id u)
      | Some i \<Rightarrow>
          (case find (\<lambda>s. se_id s = i) (de_sites en) of
             None \<Rightarrow> Inl not_found
           | Some s \<Rightarrow>
               bind_res (guard (is_admin u \<or> se_owner s = Some (us_id u)) not_found) (\<lambda>_.
               bind_res (guard (canonical (se_domain s) = canonical name) conflict) (\<lambda>_.
               Inr (case se_owner s of None \<Rightarrow> us_id u | Some j \<Rightarrow> j)))))"

text \<open>The new row of the table of owners; its zone is unique.\<close>

definition add_owner :: "string \<Rightarrow> int \<Rightarrow> ('w dns_state, unit) act" where
  "add_owner zone owner st =
     (if map_of (dn_owners st) zone \<noteq> None then (Inl IntegrityError, st)
      else (Inr (), st\<lparr>dn_owners := dn_owners st @ [(zone, Some owner)]\<rparr>))"

definition create_zone_route :: "'w dns_env \<Rightarrow> user_row \<Rightarrow> string \<Rightarrow> bool \<Rightarrow> int option \<Rightarrow> ('w dns_state, zone_detail) act" where
  "create_zone_route en u raw point site =
     bind_act (lift_res (validate_zone_name raw)) (\<lambda>name.
     bind_act (lift_res (guard (\<not> (point \<and> de_public_ip en = [])) conflict)) (\<lambda>_.
     bind_act (lift_res (zone_owner_for en u name site)) (\<lambda>owner.
     bind_act (pdns_client en) (\<lambda>srv.
     bind_act (on_net (create_zone srv name (default_nameservers name (de_nameservers en)))) (\<lambda>created.
     bind_act (lift_res (zone_id_of created name)) (\<lambda>zid.
     bind_act (add_owner (canonical name) owner) (\<lambda>_.
     bind_act (if point then bind_act (lift_res (point_to_server_patches en name)) (\<lambda>ps. on_net (patch_rrsets srv zid ps)) else ret_act ()) (\<lambda>_.
     bind_act (on_net (get_zone srv zid)) (\<lambda>raw. lift_res (zone_detail_of raw))))))))))"

record delegation =
  dl_zone :: string
  dl_live :: "string list"
  dl_points_here :: "bool option"

fun any_points :: "'w dns_env \<Rightarrow> string list \<Rightarrow> ('w dns_state, bool) act" where
  "any_points en [] = ret_act False"
| "any_points en (ns # rest) =
     bind_act (on_net (doh_query (de_doh en) ns ''A'')) (\<lambda>ips. if de_public_ip en \<in> set ips then ret_act True else any_points en rest)"

definition zone_delegation :: "'w dns_env \<Rightarrow> user_row \<Rightarrow> string \<Rightarrow> ('w dns_state, delegation) act" where
  "zone_delegation en u zid =
     bind_act (require_zone_access u zid) (\<lambda>zone.
     bind_act (on_net (doh_query (de_doh en) (strip_dot zone) ''NS'')) (\<lambda>live.
       if live = [] \<or> de_public_ip en = [] then ret_act \<lparr>dl_zone = zone, dl_live = live, dl_points_here = None\<rparr>
       else bind_act (any_points en (take 4 live)) (\<lambda>b. ret_act \<lparr>dl_zone = zone, dl_live = live, dl_points_here = Some b\<rparr>)))"

definition get_zone_route :: "'w dns_env \<Rightarrow> user_row \<Rightarrow> string \<Rightarrow> ('w dns_state, zone_detail) act" where
  "get_zone_route en u zid =
     bind_act (require_zone_access u zid) (\<lambda>_. bind_act (pdns_client en) (\<lambda>srv.
     bind_act (on_net (get_zone srv zid)) (\<lambda>raw. lift_res (zone_detail_of raw))))"

definition delete_zone_route :: "'w dns_env \<Rightarrow> user_row \<Rightarrow> string \<Rightarrow> string \<Rightarrow> ('w dns_state, unit) act" where
  "delete_zone_route en u zid confirm =
     bind_act (require_zone_access u zid) (\<lambda>zone.
     bind_act (lift_res (guard (canonical confirm = zone) conflict)) (\<lambda>_.
     bind_act (pdns_client en) (\<lambda>srv.
     bind_act (on_net (delete_zone srv zid)) (\<lambda>_ st.
       (Inr (), st\<lparr>dn_owners := filter (\<lambda>(z, owner). z \<noteq> zone) (dn_owners st)\<rparr>)))))"

subsection \<open>Records\<close>

definition upsert_record :: "'w dns_env \<Rightarrow> user_row \<Rightarrow> string \<Rightarrow> string \<Rightarrow> string \<Rightarrow> int option \<Rightarrow> string list \<Rightarrow> ('w dns_state, unit) act" where
  "upsert_record en u zid name rtype ttl contents =
     bind_act (require_zone_access u zid) (\<lambda>_.
     bind_act (lift_res (make_rrset zid name rtype (case ttl of None \<Rightarrow> de_ttl en | Some t \<Rightarrow> if t = 0 then de_ttl en else t) contents)) (\<lambda>r.
     bind_act (lift_res (guard (\<not> (rr_type r = ''NS'' \<and> rr_name r = canonical zid)) conflict)) (\<lambda>_.
     bind_act (pdns_client en) (\<lambda>srv. on_net (patch_rrsets srv zid [replace_patch r])))))"

definition delete_record_route :: "'w dns_env \<Rightarrow> user_row \<Rightarrow> string \<Rightarrow> string \<Rightarrow> string \<Rightarrow> ('w dns_state, unit) act" where
  "delete_record_route en u zid name rtype =
     bind_act (require_zone_access u zid) (\<lambda>_.
     bind_act (lift_res (delete_patch zid name rtype)) (\<lambda>(n, t, patch).
     bind_act (lift_res (guard (\<not> (t = ''NS'' \<and> n = canonical zid)) conflict)) (\<lambda>_.
     bind_act (pdns_client en) (\<lambda>srv. on_net (patch_rrsets srv zid [patch])))))"

definition template_patches :: "'w dns_env \<Rightarrow> string \<Rightarrow> string \<Rightarrow> json list res" where
  "template_patches en zone template =
     (if template = ''point-to-server'' then
        bind_res (guard (de_public_ip en \<noteq> []) conflict) (\<lambda>_. point_to_server_patches en zone)
      else if template = ''external-mail'' then
        bind_res (make_rrset zone ''@'' ''TXT'' (de_ttl en) [''v=spf1 mx ~all'']) (\<lambda>spf.
        bind_res (make_rrset zone ''_dmarc'' ''TXT'' (de_ttl en) [''v=DMARC1; p=none'']) (\<lambda>dmarc.
        Inr [replace_patch spf, replace_patch dmarc]))
      else if template = ''google-workspace'' then
        bind_res (make_rrset zone ''@'' ''MX'' (de_ttl en) [''1 smtp.google.com'']) (\<lambda>mx.
        bind_res (make_rrset zone ''@'' ''TXT'' (de_ttl en) [''v=spf1 include:_spf.google.com ~all'']) (\<lambda>spf.
        Inr [replace_patch mx, replace_patch spf]))
      else Inl not_found)"

definition apply_template :: "'w dns_env \<Rightarrow> user_row \<Rightarrow> string \<Rightarrow> string \<Rightarrow> ('w dns_state, unit) act" where
  "apply_template en u zid template =
     bind_act (require_zone_access u zid) (\<lambda>_.
     bind_act (lift_res (template_patches en (canonical zid) template)) (\<lambda>ps.
     bind_act (pdns_client en) (\<lambda>srv. on_net (patch_rrsets srv zid ps))))"

subsection \<open>Cloudflare\<close>

definition push_to_cloudflare :: "'w dns_env \<Rightarrow> user_row \<Rightarrow> string \<Rightarrow> bool \<Rightarrow> ('w dns_state, push_result) act" where
  "push_to_cloudflare en u zid own =
     bind_act (require_zone_access u zid) (\<lambda>zone.
     bind_act (pdns_client en) (\<lambda>srv.
     bind_act (on_net (get_zone srv zid)) (\<lambda>raw.
     bind_act (lift_res (zone_detail_of raw)) (\<lambda>d.
     bind_act (zone_cf_client en u zone own) (\<lambda>cf. on_net (push_zone cf (canonical (zd_name d)) (zd_rrsets d)))))))"

fun pull_sets :: "string \<Rightarrow> rrset list \<Rightarrow> (string \<times> string \<times> int \<times> string list) list \<Rightarrow> push_result \<Rightarrow> json list \<Rightarrow> push_result \<times> json list" where
  "pull_sets zone existing [] result patches = (result, patches)"
| "pull_sets zone existing ((name, rtype, ttl, contents) # rest) result patches =
     (case make_rrset zone name rtype ttl contents of
        Inl e \<Rightarrow> pull_sets zone existing rest (result\<lparr>pr_errors := pr_errors result @ [error_line rtype name]\<rparr>) patches
      | Inr r \<Rightarrow>
          (case find (\<lambda>x. rr_name x = rr_name r \<and> rr_type x = rr_type r) (rev existing) of
             None \<Rightarrow> pull_sets zone existing rest (result\<lparr>pr_created := pr_created result + 1\<rparr>) (patches @ [replace_patch r])
           | Some x \<Rightarrow>
               if set (rr_records x) = set (rr_records r)
               then pull_sets zone existing rest (result\<lparr>pr_skipped := pr_skipped result + 1\<rparr>) patches
               else pull_sets zone existing rest (result\<lparr>pr_updated := pr_updated result + 1\<rparr>) (patches @ [replace_patch r])))"

definition pull_from_cloudflare :: "'w dns_env \<Rightarrow> user_row \<Rightarrow> string \<Rightarrow> bool \<Rightarrow> ('w dns_state, push_result) act" where
  "pull_from_cloudflare en u zid own =
     bind_act (require_zone_access u zid) (\<lambda>zone.
     bind_act (pdns_client en) (\<lambda>srv.
     bind_act (on_net (get_zone srv zid)) (\<lambda>raw.
     bind_act (lift_res (zone_detail_of raw)) (\<lambda>d.
     bind_act (zone_cf_client en u zone own) (\<lambda>cf.
     bind_act (on_net (find_zone cf (strip_dot zone))) (\<lambda>cz.
     case cz of None \<Rightarrow> raise_act zone_not_in_cloudflare | Some cz \<Rightarrow>
       bind_act (lift_res (required_str cz ''id'')) (\<lambda>cid.
       bind_act (on_net (list_records cf cid)) (\<lambda>rs.
       bind_act (lift_res (pulled_rrsets zone rs (de_ttl en))) (\<lambda>(tuples, errors).
         let (result, patches) = pull_sets zone (zd_rrsets d) tuples
               \<lparr>pr_created = 0, pr_updated = 0, pr_skipped = 0, pr_errors = errors\<rparr> []
         in bind_act (if patches = [] then ret_act () else on_net (patch_rrsets srv zid patches)) (\<lambda>_. ret_act result))))))))))"

definition update_cloudflare_config :: "'w dns_env \<Rightarrow> user_row \<Rightarrow> string \<Rightarrow> ('w dns_state, string) act" where
  "update_cloudflare_config en u api_token =
     bind_act (on_net (verify_cloud_token (de_cloud en (strip api_token)))) (\<lambda>_.
     bind_act (save_for_user en u (strip api_token)) (\<lambda>(t, source). ret_act source))"

definition delete_cloudflare_config :: "user_row \<Rightarrow> ('w dns_state, unit) act" where
  "delete_cloudflare_config u = bind_act (clear_for_user u) (\<lambda>b. if b then ret_act () else raise_act not_found)"

record cloud_body =
  cb_type :: string
  cb_name :: string
  cb_content :: string
  cb_ttl :: int
  cb_proxied :: bool
  cb_priority :: "int option"

definition record_payload :: "cloud_body \<Rightarrow> inputs" where
  "record_payload b =
     [(''type'', JStr (cb_type b)), (''name'', JStr (strip_dot (strip (cb_name b)))), (''content'', JStr (strip (cb_content b))),
      (''ttl'', JInt (cb_ttl b))]
     @ (if cb_type b \<in> set [''A'', ''AAAA'', ''CNAME''] then [(''proxied'', JBool (cb_proxied b))] else [])
     @ (if cb_type b = ''MX'' then [(''priority'', JInt (case cb_priority b of None \<Rightarrow> 10 | Some p \<Rightarrow> p))] else [])"

definition create_cloudflare_record :: "'w dns_env \<Rightarrow> user_row \<Rightarrow> string \<Rightarrow> cloud_body \<Rightarrow> ('w dns_state, unit) act" where
  "create_cloudflare_record en u zid b = bind_act (cf_client en u) (\<lambda>cf. on_net (create_record cf zid (record_payload b)))"

definition update_cloudflare_record :: "'w dns_env \<Rightarrow> user_row \<Rightarrow> string \<Rightarrow> string \<Rightarrow> cloud_body \<Rightarrow> ('w dns_state, unit) act" where
  "update_cloudflare_record en u zid rid b = bind_act (cf_client en u) (\<lambda>cf. on_net (update_record cf zid rid (record_payload b)))"

definition delete_cloudflare_record :: "'w dns_env \<Rightarrow> user_row \<Rightarrow> string \<Rightarrow> string \<Rightarrow> ('w dns_state, unit) act" where
  "delete_cloudflare_record en u zid rid = bind_act (cf_client en u) (\<lambda>cf. on_net (delete_record cf zid rid))"

end
