(* ===== verification/DnsFacts.thy ===== *)
theory DnsFacts
  imports DnsRoutes
begin

text \<open>
  The name server: record sets are normal forms, what is pushed to Cloudflare comes back as it was, and
  clients cannot touch each other's zones.
\<close>

subsection \<open>Normal forms of names\<close>

definition trimmed :: "string \<Rightarrow> bool" where
  "trimmed s \<longleftrightarrow> s = [] \<or> \<not> is_space (hd s) \<and> \<not> is_space (last s)"

lemma strip_trimmed:
  assumes "trimmed s"
  shows "strip s = s"
proof (cases "s = []")
  case False
  then have "dropWhile is_space s = s" "dropWhile is_space (rev s) = rev s"
    using assms by (simp_all add: trimmed_def dropWhile_eq_self_iff hd_rev)
  then show ?thesis by (simp add: strip_def lstrip_by_def rstrip_by_def)
qed (simp add: strip_def lstrip_by_def rstrip_by_def)

lemma trimmed_strip: "trimmed (strip s)"
proof (cases "strip s = []")
  case False
  let ?t = "dropWhile is_space s"
  obtain u where u: "?t = strip s @ u"
    unfolding strip_def rstrip_by_def lstrip_by_def by (metis rev_append rev_rev_ident takeWhile_dropWhile_id)
  then have "hd (strip s) = hd ?t" "?t \<noteq> []" using False by auto
  then have "\<not> is_space (hd (strip s))" using hd_dropWhile [of is_space s] by simp
  moreover have "\<not> is_space (last (strip s))" using rstrip_by_cases [of is_space "lstrip_by is_space s"] False by (simp add: strip_def)
  ultimately show ?thesis by (simp add: trimmed_def)
qed (simp add: trimmed_def)

lemma char_eq_code: "c = d \<longleftrightarrow> of_char c = (of_char d :: nat)"
  by (metis char_of_char)

lemma lower_code:
  "of_char (lower_char c) =
     (let n = of_char c :: nat in if 65 \<le> n \<and> n \<le> 90 \<or> 192 \<le> n \<and> n \<le> 222 \<and> n \<noteq> 215 then n + 32 else n)"
  by (simp add: lower_char_def less_eq_char_def char_eq_code [of c] of_char_of take_bit_eq_mod Let_def)

lemma is_space_code: "is_space c \<longleftrightarrow> (of_char c :: nat) \<in> {9, 10, 11, 12, 13, 28, 29, 30, 31, 32, 133, 160}"
  by (simp add: is_space_def char_eq_code)

lemma lower_char_facts: "lower_char (lower_char c) = lower_char c \<and> is_space (lower_char c) = is_space c
    \<and> (lower_char c = CHR ''.'' \<longleftrightarrow> c = CHR ''.'')"
  unfolding is_space_code char_eq_code lower_code Let_def by simp

lemma lower_lower [simp]: "lower (lower s) = lower s"
  by (simp add: lower_def lower_char_facts)

lemma trimmed_lower: "trimmed s \<Longrightarrow> trimmed (lower s)"
  by (auto simp: trimmed_def lower_def lower_char_facts hd_map last_map)

lemma rstrip_same: "s = [] \<or> last s \<noteq> d \<Longrightarrow> rstrip_char d s = s"
  by (cases s rule: rev_cases) (auto simp: rstrip_char_def rstrip_by_def)

lemma rstrip_last: "rstrip_char d s = [] \<or> last (rstrip_char d s) \<noteq> d"
  unfolding rstrip_char_def using rstrip_by_cases by blast

lemma rstrip_snoc [simp]: "rstrip_char d (s @ [d]) = rstrip_char d s"
  by (simp add: rstrip_char_def rstrip_by_def)

lemma lower_append [simp]: "lower (a @ b) = lower a @ lower b"
  by (simp add: lower_def)

lemma lower_dot [simp]: "lower ''.'' = ''.''"
  by code_simp

lemma lower_dot_Cons [simp]: "lower (CHR ''.'' # s) = CHR ''.'' # lower s"
  by (simp add: lower_def lower_char_def less_eq_char_def)

lemma lower_Nil [simp]: "lower [] = []"
  by (simp add: lower_def)

lemma lower_prefix: "lower (a @ b) = a @ b \<Longrightarrow> lower a = a"
  by (simp add: lower_def)

lemma canonical_form:
  obtains m where "canonical z = m @ ''.''" "m = [] \<or> last m \<noteq> CHR ''.''" "lower m = m" "trimmed (m @ ''.'')"
proof
  let ?s = "lower (strip z)" and ?m = "rstrip_char CHR ''.'' (lower (strip z))"
  obtain t where t: "?s = ?m @ t" "\<forall>c\<in>set t. c = CHR ''.''" using rstrip_char_prefix [of ?s "CHR ''.''"] by blast
  show "canonical z = ?m @ ''.''" by (simp add: canonical_def)
  show "?m = [] \<or> last ?m \<noteq> CHR ''.''" by (rule rstrip_last)
  show "lower ?m = ?m" using t lower_lower [of "strip z"] lower_prefix by metis
  have "trimmed ?s" by (intro trimmed_lower trimmed_strip)
  then show "trimmed (?m @ ''.'')" using t(1) by (cases ?m) (auto simp: trimmed_def is_space_def)
qed

lemma canonical_idem [simp]: "canonical (canonical z) = canonical z"
proof (rule canonical_form [of z])
  fix m assume m: "canonical z = m @ ''.''" "m = [] \<or> last m \<noteq> CHR ''.''" "lower m = m" "trimmed (m @ ''.'')"
  then show ?thesis by (simp add: canonical_def strip_trimmed rstrip_same)
qed

lemma folded: "lower (strip (lower (strip s))) = lower (strip s)"
  by (simp add: strip_trimmed trimmed_lower trimmed_strip)

lemma removesuffix_append [simp]: "q \<noteq> [] \<Longrightarrow> removesuffix (t @ q) q = t"
  by (simp add: removesuffix_def)

lemma normalize_absolute:
  assumes "lower (strip n) = n" "endswith n ''.''" "n = canonical z \<or> endswith n (''.'' @ canonical z)"
    and "relative_ok (rstrip_char CHR ''.'' (removesuffix n (canonical z)))" "length n \<le> 254"
  shows "normalize_record_name n z = Inr n"
proof -
  have "n \<noteq> []" "n \<noteq> ''@''" using assms(2) by (auto simp: endswith_def startswith_def)
  then show ?thesis using assms by (auto simp: normalize_record_name_def Let_def guard_def)
qed

lemma normalize_Inr:
  assumes "normalize_record_name name z = Inr f"
  obtains (apex) "f = canonical z" | (absolute) "f = lower (strip name)" "endswith f ''.''" "endswith f (''.'' @ canonical z)"
      "relative_ok (rstrip_char CHR ''.'' (removesuffix f (canonical z)))" "length f \<le> 254"
    | (relative) n where "f = n @ ''.'' @ canonical z" "n \<noteq> []" "lower n = n" "trimmed n" "\<not> endswith n ''.''" "relative_ok n" "length f \<le> 254"
proof -
  define n where "n = lower (strip (if name = [] then ''@'' else name))"
  have n: "lower n = n" "trimmed n" by (simp_all add: n_def trimmed_lower trimmed_strip)
  consider "n = ''@'' \<or> n = []" | "n \<noteq> ''@''" "n \<noteq> []" "endswith n ''.''" | "n \<noteq> ''@''" "n \<noteq> []" "\<not> endswith n ''.''" by blast
  then show thesis
  proof cases
    case 1
    then show thesis using assms apex by (simp add: normalize_record_name_def n_def Let_def)
  next
    case 2
    then have "name \<noteq> []" "n = lower (strip name)" by (auto simp: n_def endswith_def startswith_def strip_def lstrip_by_def rstrip_by_def is_space_def lower_def lower_char_def split: if_splits)
    then show thesis using 2 assms apex absolute
      by (auto simp: normalize_record_name_def Let_def bind_res_eq_Inr split: if_splits)
  next
    case 3
    then show thesis using assms n relative [of n]
      by (auto simp: normalize_record_name_def Let_def bind_res_eq_Inr simp flip: n_def)
  qed
qed

lemma normalize_idem:
  assumes "normalize_record_name name z = Inr f" "length (canonical z) \<le> 254"
  shows "normalize_record_name f z = Inr f"
proof (rule canonical_form [of z])
  fix m assume m: "canonical z = m @ ''.''" "m = [] \<or> last m \<noteq> CHR ''.''" "lower m = m" "trimmed (m @ ''.'')"
  have zc: "lower (canonical z) = canonical z" "canonical z \<noteq> []" "endswith (canonical z) ''.''" "strip (canonical z) = canonical z"
    using m by (simp_all add: strip_trimmed)
  from assms(1) show ?thesis
  proof (cases rule: normalize_Inr)
    case apex
    have "removesuffix (canonical z) (canonical z) = []" using zc removesuffix_append [of "canonical z" "[]"] by simp
    then show ?thesis using apex zc assms(2) by (intro normalize_absolute) (simp_all add: rstrip_same relative_ok_def)
  next
    case absolute
    then show ?thesis by (intro normalize_absolute) (simp_all add: folded)
  next
    case (relative n)
    have "last n \<noteq> CHR ''.''" using relative(2,5) by (metis append_butlast_last_id endswith_append)
    then have r: "rstrip_char CHR ''.'' (removesuffix f (canonical z)) = n"
      using removesuffix_append [OF zc(2), of "n @ ''.''"] by (simp add: relative(1) rstrip_same)
    have "trimmed f" using relative(1,2,4) m(1) by (auto simp: trimmed_def is_space_def)
    then have "lower (strip f) = f" using relative(1,3) zc(1) by (simp add: strip_trimmed)
    moreover have "endswith f ''.''" using relative(1) m(1) by (metis append.assoc endswith_append)
    moreover have "endswith f (''.'' @ canonical z)" using relative(1) by (simp only: endswith_append)
    ultimately show ?thesis using r relative(6,7) by (intro normalize_absolute) simp_all
  qed
qed

subsection \<open>Normal forms of values\<close>

lemma label_facts:
  assumes "fullmatch label_rx l"
  shows "l \<noteq> []" "list_all slug_char l"
proof -
  have m: "matches label_rx l" using assms by (simp add: fullmatch_iff)
  have "rx_all slug_char label_rx"
    by (simp add: label_rx_def alnum_l_def slug_char_def optional_def)
  then show "list_all slug_char l" using m matches_chars by (auto simp: list_all_iff)
  show "l \<noteq> []" using m by (auto simp: label_rx_def alnum_l_eq matches_Seq_Cls)
qed

definition host_char :: "char \<Rightarrow> bool" where "host_char c \<longleftrightarrow> slug_char c \<or> c = CHR ''.''"

lemma host_char_facts: "host_char c \<Longrightarrow> lower_char c = c \<and> \<not> is_space c \<and> c \<noteq> CHR 0x22"
  unfolding host_char_def slug_char_def class_defs is_space_code char_eq_code lower_code Let_def less_eq_char_def by auto

lemma host_word: "list_all host_char s \<Longrightarrow> lower s = s \<and> strip s = s"
proof -
  assume s: "list_all host_char s"
  then have "\<forall>c\<in>set s. \<not> is_space c" using host_char_facts by (simp add: list_all_iff)
  then have "trimmed s" by (cases "s = []") (simp_all add: trimmed_def)
  moreover have "lower s = s" using s host_char_facts by (induction s) (auto simp: lower_def)
  ultimately show ?thesis by (simp add: strip_trimmed)
qed

lemma valid_labels_Inr:
  assumes "valid_labels label_rx k raw = Inr h"
  obtains n where "h = n @ ''.''" "n \<noteq> []" "last n \<noteq> CHR ''.''" "list_all host_char n" "length n \<le> 253" "valid_labels label_rx k h = Inr h"
proof -
  define n where "n = rstrip_char CHR ''.'' (lower (strip raw))"
  have n: "h = n @ ''.''" "n \<noteq> []" "length n \<le> 253" "k \<le> length (split_char CHR ''.'' n)" "list_all (fullmatch label_rx) (split_char CHR ''.'' n)"
    using assms by (auto simp: valid_labels_def Let_def n_def split: if_splits)
  have l: "last n \<noteq> CHR ''.''" using n(2) rstrip_last unfolding n_def by blast
  have "list_all slug_char w" if "w \<in> set (split_char CHR ''.'' n)" for w using label_facts(2) n(5) that by (auto simp: list_all_iff)
  then have "list_all host_char (join ''.'' (split_char CHR ''.'' n))"
    using set_join_subset [of "''.''" "split_char CHR ''.'' n"] by (fastforce simp: list_all_iff host_char_def)
  then have h: "list_all host_char n" by (simp add: join_split_char)
  then have "lower (strip h) = h" using n(1) host_word [of h] by (simp add: host_char_def)
  then have "rstrip_char CHR ''.'' (lower (strip h)) = n" using n(1) l by (simp add: rstrip_same)
  then have "valid_labels label_rx k h = Inr h" using n by (simp add: valid_labels_def Let_def)
  then show thesis using that n h l by blast
qed

lemma host_fixed:
  assumes "validate_hostname c = Inr h"
  shows "validate_hostname h = Inr h" "list_all host_char h" "h \<noteq> []"
proof -
  obtain n where n: "h = n @ ''.''" "n \<noteq> []" "list_all host_char n" "valid_labels label_rx 1 h = Inr h"
    using assms unfolding validate_hostname_def by (rule valid_labels_Inr)
  then show "validate_hostname h = Inr h" "list_all host_char h" "h \<noteq> []"
    by (simp_all add: validate_hostname_def host_char_def)
qed

lemma words_single: "w \<noteq> [] \<Longrightarrow> \<forall>c\<in>set w. \<not> is_space c \<Longrightarrow> words w = [w]"
proof -
  assume w: "w \<noteq> []" "\<forall>c\<in>set w. \<not> is_space c"
  then have "map (\<lambda>c. if is_space c then CHR '' '' else c) w = w" by (intro map_idI) simp
  moreover have "CHR '' '' \<notin> set w" using w(2) by (auto simp: is_space_def)
  ultimately show ?thesis using w(1) by (simp add: words_def)
qed

lemma words_Cons: "w \<noteq> [] \<Longrightarrow> \<forall>c\<in>set w. \<not> is_space c \<Longrightarrow> words (w @ CHR '' '' # s) = w # words s"
proof -
  assume w: "w \<noteq> []" "\<forall>c\<in>set w. \<not> is_space c"
  then have m: "map (\<lambda>c. if is_space c then CHR '' '' else c) w = w" by (intro map_idI) simp
  have "CHR '' '' \<notin> set w" "is_space CHR '' ''" using w(2) by (auto simp: is_space_def)
  then show ?thesis using w(1) by (simp add: words_def m split_char_append)
qed

lemma digit_not_space: "ascii_digit c \<Longrightarrow> \<not> is_space c"
  by (auto simp: ascii_digit_range is_space_def)

lemma nat_str_word: "nat_str n \<noteq> []" "\<forall>c\<in>set (nat_str n). \<not> is_space c" "list_all ascii_digit (nat_str n)"
  using nat_str_digits digit_not_space by (auto simp: list_all_iff)

lemma nat_str_length: "n < 10 ^ k \<Longrightarrow> 0 < k \<Longrightarrow> length (nat_str n) \<le> k"
proof (induction n arbitrary: k rule: nat_str.induct)
  case (1 n)
  show ?case
  proof (cases "n < 10")
    case False
    then obtain k' where k: "k = Suc k'" "0 < k'" using 1(2,3) by (cases k; cases "k - 1") auto
    have "n div 10 < 10 ^ k'" using 1(2) k(1) by (simp add: less_mult_imp_div_less mult.commute)
    then show ?thesis using 1(1) [OF False] k by (subst nat_str.simps) (simp add: False)
  qed (use 1(3) in \<open>subst nat_str.simps, simp\<close>)
qed

lemma number_word_nat_str: "n < 10 ^ k \<Longrightarrow> 0 < k \<Longrightarrow> number_word k (nat_str n)"
  using nat_str_length nat_str_word by (simp add: number_word_def)

lemma u16_fixed: "u16 w = Inr p \<Longrightarrow> u16 p = Inr p \<and> number_word 5 p \<and> p \<noteq> [] \<and> (\<forall>c\<in>set p. \<not> is_space c)"
  using number_word_nat_str [of "nat_of_digits w" 5] nat_str_word [of "nat_of_digits w"] by (auto simp: u16_def split: if_splits)

lemma caa_parts_Some:
  assumes "caa_parts limit ok s = Some (flags, tag, val)"
  shows "number_word limit flags" "ok tag" "\<forall>c\<in>set tag. \<not> is_space c" "CHR 0x22 \<notin> set val"
proof -
  have some: "(if b then Some x else None) = Some y \<longleftrightarrow> b \<and> x = y" for b and x y :: "string \<times> string \<times> string" by simp
  note parts = assms [unfolded caa_parts_def Let_def some prod.inject]
  show "number_word limit flags" "ok tag" "CHR 0x22 \<notin> set val" using parts by - (elim conjE, hypsubst, assumption)+
  have "tag = takeWhile (\<lambda>c. \<not> is_space c) (dropWhile is_space (dropWhile ascii_digit s))" using parts by - (elim conjE, hypsubst, rule refl)
  then show "\<forall>c\<in>set tag. \<not> is_space c" using set_takeWhileD by metis
qed

lemma caa_parts_built:
  assumes "number_word limit flags" "ok tag" "tag \<noteq> []" "\<forall>c\<in>set tag. \<not> is_space c" "CHR 0x22 \<notin> set val"
  shows "caa_parts limit ok (flags @ '' '' @ tag @ '' '' @ quoted val) = Some (flags, tag, val)"
proof -
  let ?r = "'' '' @ tag @ '' '' @ quoted val"
  have sp: "is_space CHR '' ''" "\<not> ascii_digit CHR '' ''" "\<not> is_space CHR 0x22" by code_simp+
  obtain c t where tag: "tag = c # t" "\<not> is_space c" using assms(3,4) by (cases tag) auto
  have "list_all ascii_digit flags" using assms(1) by (simp add: number_word_def)
  then have 1: "takeWhile ascii_digit (flags @ ?r) = flags" "dropWhile ascii_digit (flags @ ?r) = ?r"
    using sp by (simp_all add: list_all_iff takeWhile_append dropWhile_append)
  have 2: "dropWhile is_space ?r = tag @ '' '' @ quoted val" using sp tag by simp
  have 3: "takeWhile (\<lambda>c. \<not> is_space c) (tag @ '' '' @ quoted val) = tag"
      "dropWhile (\<lambda>c. \<not> is_space c) (tag @ '' '' @ quoted val) = '' '' @ quoted val"
    using sp assms(4) by (simp_all add: takeWhile_append dropWhile_append)
  have 4: "dropWhile is_space ('' '' @ quoted val) = quoted val" using sp by (simp add: quoted_def)
  have "?r \<noteq> tag @ '' '' @ quoted val" "'' '' @ quoted val \<noteq> quoted val" by (auto dest: arg_cong [where f = length])
  then show ?thesis
    using assms(1,2,5) unfolding caa_parts_def 1 2 3 4 Let_def by (simp add: quoted_def)
qed

text \<open>Values that print the numbers and names they stand for are fixed points.\<close>

lemma word_strip: "\<forall>c\<in>set s. \<not> is_space c \<Longrightarrow> strip s = s"
  by (cases "s = []") (simp_all add: strip_trimmed trimmed_def)

lemma spaced_strip:
  assumes "a \<noteq> []" "\<forall>c\<in>set a. \<not> is_space c" "z \<noteq> []" "\<not> is_space (last z)"
  shows "strip (a @ m @ z) = a @ m @ z"
  using assms by (intro strip_trimmed) (simp add: trimmed_def)

lemma octets_fixed: "ipv4_address c = Inr ns \<Longrightarrow> strip c = c"
proof (rule word_strip)
  assume "ipv4_address c = Inr ns"
  then have "list_all octet_ok (split_char CHR ''.'' c)" by (auto simp: ipv4_address_def Let_def split: if_splits)
  then have "list_all (\<lambda>x. ascii_digit x \<or> x = CHR ''.'') (join ''.'' (split_char CHR ''.'' c))"
    using set_join_subset [of "''.''" "split_char CHR ''.'' c"] by (fastforce simp: list_all_iff octet_ok_def)
  then show "\<forall>x\<in>set c. \<not> is_space x"
    using digit_not_space by (auto simp: join_split_char list_all_iff is_space_def)
qed

lemma host_words: "list_all host_char h \<Longrightarrow> \<forall>c\<in>set h. \<not> is_space c"
  using host_char_facts by (auto simp: list_all_iff)

subsection \<open>Normal forms of IPv6 addresses\<close>

definition hex_value :: "char \<Rightarrow> nat" where
  "hex_value c = (if ascii_digit c then digit_val c else of_char (lower_char c) - 87)"

lemma hextet_eq:
  "hextet s = (if s \<noteq> [] \<and> length s \<le> 4 \<and> list_all (\<lambda>c. is_hex (lower_char c)) s then Inr (fold (\<lambda>c n. 16 * n + hex_value c) s 0)
     else Inl ValueError)"
  by (simp add: hextet_def hex_value_def)

lemma hex_digit_facts: "d < 16 \<Longrightarrow> is_hex (lower_char (hex_digit d)) \<and> hex_value (hex_digit d) = d \<and> hex_digit d \<notin> set '':./%''
    \<and> \<not> is_space (hex_digit d)"
proof -
  have "list_all (\<lambda>d. is_hex (lower_char (hex_digit d)) \<and> hex_value (hex_digit d) = d \<and> hex_digit d \<notin> set '':./%''
    \<and> \<not> is_space (hex_digit d)) [0 ..< 16]"
    by code_simp
  moreover assume "d < 16"
  then have "d \<in> set [0 ..< 16]" by simp
  ultimately show ?thesis unfolding list_all_iff by blast
qed

lemma hex_text_facts:
  "n < 16 ^ k \<Longrightarrow> 0 < k \<Longrightarrow> hex_text n \<noteq> [] \<and> length (hex_text n) \<le> k \<and> list_all (\<lambda>c. is_hex (lower_char c)) (hex_text n)
     \<and> fold (\<lambda>c n. 16 * n + hex_value c) (hex_text n) 0 = n \<and> list_all (\<lambda>c. c \<notin> set '':./%'' \<and> \<not> is_space c) (hex_text n)"
proof (induction n arbitrary: k rule: hex_text.induct)
  case (1 n)
  show ?case
  proof (cases "n < 16")
    case True
    then show ?thesis using hex_digit_facts [OF True] 1(3) by (subst (1 2 3 4 5) hex_text.simps) simp
  next
    case False
    then obtain k' where k: "k = Suc k'" "0 < k'" using 1(2,3) by (cases k; cases "k - 1") auto
    have "n div 16 < 16 ^ k'" using 1(2) k(1) by (simp add: less_mult_imp_div_less mult.commute)
    note IH = 1(1) [OF False this k(2)]
    have "hex_text n = hex_text (n div 16) @ [hex_digit (n mod 16)]" using False by (simp add: hex_text.simps [of n])
    then show ?thesis using IH k hex_digit_facts [of "n mod 16"] by simp
  qed
qed

lemma hextet_hex_text: "n < 65536 \<Longrightarrow> hextet (hex_text n) = Inr n"
  using hex_text_facts [of n 4] by (simp add: hextet_eq)

lemma hex_text_plain: "n < 65536 \<Longrightarrow> hex_text n \<noteq> [] \<and> (\<forall>c\<in>set (hex_text n). c \<notin> set '':./%'' \<and> \<not> is_space c)"
  using hex_text_facts [of n 4] by (simp add: list_all_iff)

lemma hex_value_bound: "is_hex (lower_char c) \<Longrightarrow> hex_value c < 16"
  by (auto simp: hex_value_def is_hex_def is_digit_def ascii_digit_def digit_val_def less_eq_char_def)

lemma hextet_bound: "hextet s = Inr n \<Longrightarrow> n < 65536"
proof -
  have b: "list_all (\<lambda>c. is_hex (lower_char c)) s \<Longrightarrow> fold (\<lambda>c n. 16 * n + hex_value c) s 0 < 16 ^ length s" for s
  proof (induction s rule: rev_induct)
    case (snoc c s)
    then show ?case using hex_value_bound [of c] by simp
  qed simp
  assume "hextet s = Inr n"
  then have s: "list_all (\<lambda>c. is_hex (lower_char c)) s" "length s \<le> 4" "n = fold (\<lambda>c n. 16 * n + hex_value c) s 0"
    by (auto simp: hextet_eq split: if_splits)
  have "(16 :: nat) ^ length s \<le> 16 ^ 4" by (rule power_increasing [OF s(2)]) simp
  then show ?thesis using b [OF s(1)] s(3) by simp
qed

lemma zero_run_spec: "zero_run ns \<le> length ns \<and> (\<forall>i < zero_run ns. ns ! i = 0)"
proof (induction ns rule: zero_run.induct)
  case (1 ns)
  then show ?case by (auto simp: nth_Cons split: nat.splits)
qed simp_all

lemma longest_run_spec:
  assumes "longest_run ns = (at, len)"
  shows "at + len \<le> length ns" "\<And>i. at \<le> i \<Longrightarrow> i < at + len \<Longrightarrow> ns ! i = 0"
proof -
  define ok where "ok = (\<lambda>(at, len). at + len \<le> length ns \<and> (\<forall>i. at \<le> i \<and> i < at + len \<longrightarrow> ns ! i = 0))"
  have step: "ok p \<Longrightarrow> i < length ns \<Longrightarrow> ok (case p of (at, len) \<Rightarrow> if len < zero_run (drop i ns) then (i, zero_run (drop i ns)) else (at, len))" for i p
  proof (cases "snd p < zero_run (drop i ns)")
    case True
    assume "i < length ns"
    then have "i + zero_run (drop i ns) \<le> length ns" using conjunct1 [OF zero_run_spec [of "drop i ns"]] by (simp add: le_diff_conv2)
    moreover have "ns ! j = 0" if "i \<le> j" "j < i + zero_run (drop i ns)" for j
    proof -
      have "drop i ns ! (j - i) = 0" using zero_run_spec [of "drop i ns"] that by simp
      then show ?thesis using that \<open>i < length ns\<close> by simp
    qed
    ultimately show ?thesis using True by (cases p) (simp add: ok_def)
  qed (cases p, simp)
  have "ok p \<Longrightarrow> \<forall>i\<in>set is. i < length ns
      \<Longrightarrow> ok (fold (\<lambda>i (at, len). if len < zero_run (drop i ns) then (i, zero_run (drop i ns)) else (at, len)) is p)" for "is" p
    by (induction "is" arbitrary: p) (simp_all add: step)
  from this [of "(0, 0)" "[0 ..< length ns]"] have "ok (at, len)" using assms by (simp add: longest_run_def ok_def)
  then show "at + len \<le> length ns" "\<And>i. at \<le> i \<Longrightarrow> i < at + len \<Longrightarrow> ns ! i = 0" by (simp_all add: ok_def)
qed

definition hex_parts :: "nat list \<Rightarrow> string list" where
  "hex_parts ns = (if ns = [] then [[]] else map hex_text ns)"

lemma hex_parts_facts:
  assumes "\<forall>n\<in>set ns. n < 65536"
  shows "split_char CHR '':'' (join '':'' (map hex_text ns)) = hex_parts ns" "map_res hextet (map hex_text ns) = Inr ns"
    "hd (hex_parts ns) = [] \<longleftrightarrow> ns = []" "last (hex_parts ns) = [] \<longleftrightarrow> ns = []" "CHR ''.'' \<notin> set (last (hex_parts ns))"
    "length (hex_parts ns) = max 1 (length ns)" "\<And>i. i < length ns \<Longrightarrow> hex_parts ns ! i \<noteq> []"
proof -
  have plain: "n \<in> set ns \<Longrightarrow> hex_text n \<noteq> [] \<and> CHR '':'' \<notin> set (hex_text n) \<and> CHR ''.'' \<notin> set (hex_text n)" for n
    using assms hex_text_plain by fastforce
  show "split_char CHR '':'' (join '':'' (map hex_text ns)) = hex_parts ns"
    using plain split_char_join [of "map hex_text ns" "CHR '':''"] by (auto simp: hex_parts_def)
  show "map_res hextet (map hex_text ns) = Inr ns" using assms hextet_hex_text by (induction ns) auto
  show "hd (hex_parts ns) = [] \<longleftrightarrow> ns = []" "last (hex_parts ns) = [] \<longleftrightarrow> ns = []" "CHR ''.'' \<notin> set (last (hex_parts ns))"
    "length (hex_parts ns) = max 1 (length ns)" "\<And>i. i < length ns \<Longrightarrow> hex_parts ns ! i \<noteq> []"
    using plain by (auto simp: hex_parts_def hd_map last_map max_def Suc_le_eq)
qed

lemma gap_found:
  assumes "\<forall>n\<in>set as. n < 65536" "\<forall>n\<in>set bs. n < 65536"
  defines "ps \<equiv> hex_parts as @ [] # hex_parts bs"
  shows "filter (\<lambda>i. ps ! i = []) [1 ..< length ps - 1] = [length (hex_parts as)]"
proof -
  let ?n = "length (hex_parts as)" and ?m = "length (hex_parts bs)"
  note a = hex_parts_facts [OF assms(1)] and b = hex_parts_facts [OF assms(2)]
  have len: "length ps - 1 = ?n + ?m" "1 \<le> ?n" "1 \<le> ?m" by (simp_all add: ps_def a(6) b(6))
  then have "[1 ..< length ps - 1] = [1 ..< ?n] @ ?n # [Suc ?n ..< ?n + ?m]"
    using upt_add_eq_append [of 1 ?n ?m] upt_conv_Cons [of ?n "?n + ?m"] by (cases "hex_parts bs") simp_all
  moreover have "filter (\<lambda>i. ps ! i = []) [1 ..< ?n] = []"
    using a(7) by (auto simp: filter_empty_conv ps_def nth_append a(6) max_def split: if_splits)
  moreover have "filter (\<lambda>i. ps ! i = []) [Suc ?n ..< ?n + ?m] = []"
  proof -
    have "ps ! i \<noteq> []" if "Suc ?n \<le> i" "i < ?n + ?m" for i
    proof -
      have "i - Suc ?n < length bs" using that b(6) by (simp add: max_def split: if_splits)
      moreover have "i - ?n = Suc (i - Suc ?n)" using that by simp
      then have "ps ! i = hex_parts bs ! (i - Suc ?n)" using that by (simp add: ps_def nth_append)
      ultimately show ?thesis using b(7) by simp
    qed
    then show ?thesis by (auto simp: filter_empty_conv)
  qed
  ultimately show ?thesis by (simp add: ps_def)
qed

lemma compressed_read:
  assumes "length ns = 8" "\<forall>n\<in>set ns. n < 65536"
  shows "ipv6_number (compressed ns) = Inr ns"
proof -
  obtain k len where run: "longest_run ns = (k, len)" by fastforce
  note spec = longest_run_spec [OF run]
  show ?thesis
  proof (cases "len > 1")
    case False
    note p = hex_parts_facts [OF assms(2)]
    have "compressed ns = join '':'' (map hex_text ns)" using False run by (simp add: compressed_def)
    then have s: "split_char CHR '':'' (compressed ns) = hex_parts ns" using p(1) by simp
    have "filter (\<lambda>i. hex_parts ns ! i = []) [1 ..< 8 - 1] = []" using p(7) assms(1) by (auto simp: filter_empty_conv)
    then have "hextets_of (hex_parts ns) = Inr ns"
      using p assms(1) by (auto simp: hextets_of_def hex_parts_def)
    then show ?thesis using p(5,6) assms(1) by (simp add: ipv6_number_def s last_parts_def guard_def Let_def)
  next
    case True
    let ?a = "take k ns" and ?b = "drop (k + len) ns"
    have small: "\<forall>n\<in>set ?a. n < 65536" "\<forall>n\<in>set ?b. n < 65536" using assms(2) by (auto dest: in_set_takeD in_set_dropD)
    note a = hex_parts_facts [OF small(1)] and b = hex_parts_facts [OF small(2)]
    let ?ps = "hex_parts ?a @ [] # hex_parts ?b"
    have "compressed ns = join '':'' (map hex_text ?a) @ CHR '':'' # ([] @ CHR '':'' # join '':'' (map hex_text ?b))"
      using True run by (simp add: compressed_def)
    then have s: "split_char CHR '':'' (compressed ns) = ?ps" using a(1) b(1) by (simp only: split_char_at) simp
    have len: "length ?a = k" "length ?b = 8 - (k + len)" "k + len \<le> 8" using spec(1) assms(1) by simp_all
    have "ns = ?a @ take len (drop k ns) @ ?b" by (metis append_take_drop_id drop_drop add.commute)
    moreover have "take len (drop k ns) = replicate len 0"
      using spec assms(1) by (intro nth_equalityI) auto
    ultimately have ns: "?a @ replicate len 0 @ ?b = ns" by simp
    have "hextets_of ?ps = Inr ns"
    proof -
      have hi: "(if hd ?ps = [] then [] else take (length (hex_parts ?a)) ?ps) = map hex_text ?a"
        using a(3,6) by (cases "?a = []") (auto simp: hex_parts_def hd_append)
      have lo: "(if last ?ps = [] then [] else drop (Suc (length (hex_parts ?a))) ?ps) = map hex_text ?b"
        using b(4,6) by (cases "?b = []") (auto simp: hex_parts_def)
      have ends: "hd ?ps = [] \<longrightarrow> length (hex_parts ?a) = 1" "last ?ps = [] \<longrightarrow> length (hex_parts ?a) = length ?ps - 2"
        using a(3,6) b(4,6) by (auto simp: hex_parts_def hd_append)
      show ?thesis
        unfolding hextets_of_def gap_found [OF small] list.case Let_def hi lo
        using ends a(2) b(2) len True ns by simp
    qed
    moreover have "last ?ps = last (hex_parts ?b)" "length ?ps \<le> 9" "3 \<le> length ?ps" using a(6) b(6) len True by (auto simp: hex_parts_def)
    ultimately show ?thesis using b(5) by (simp add: ipv6_number_def s last_parts_def guard_def Let_def)
  qed
qed

lemma ipv6_number_range:
  assumes "ipv6_number s = Inr ns"
  shows "length ns = 8 \<and> (\<forall>n\<in>set ns. n < 65536)"
proof -
  have words: "map_res hextet ws = Inr ms \<Longrightarrow> length ms = length ws \<and> (\<forall>n\<in>set ms. n < 65536)" for ws ms
    by (induction ws arbitrary: ms) (auto simp: bind_res_eq_Inr hextet_bound)
  obtain ps where "hextets_of ps = Inr ns" using assms by (auto simp: ipv6_number_def bind_res_eq_Inr Let_def)
  then show ?thesis
    by (auto simp: hextets_of_def Let_def bind_res_eq_Inr dest!: words split: list.splits if_split_asm)
qed

lemma ipv6_fixed:
  assumes "ipv6_address c = Inr v" "strip c = c"
  shows "ipv6_address v = Inr v" "strip v = v" "v \<noteq> []"
proof -
  obtain addr scoped scope ns where p: "partition_char CHR ''%'' c = (addr, scoped, scope)" "CHR ''/'' \<notin> set c"
      "scoped \<Longrightarrow> scope \<noteq> [] \<and> CHR ''%'' \<notin> set scope" "ipv6_number addr = Inr ns" "v = compressed ns @ (if scoped then CHR ''%'' # scope else [])"
    using assms(1) by (auto simp: ipv6_address_def bind_res_eq_Inr split: prod.splits if_splits)
  note ns = ipv6_number_range [OF p(4)]
  have plain: "x = CHR '':'' \<or> x \<notin> set ''/%'' \<and> \<not> is_space x" if mem: "x \<in> set (compressed ns)" for x
  proof -
    have part: "y = CHR '':'' \<or> y \<notin> set ''/%'' \<and> \<not> is_space y" if y: "y \<in> set (join '':'' (map hex_text ms))" "set ms \<subseteq> set ns" for y ms
    proof -
      have "y \<in> set '':'' \<or> (\<exists>n\<in>set ms. y \<in> set (hex_text n))" using y(1) set_join_subset [of "'':''" "map hex_text ms"] by auto
      moreover have "n \<in> set ms \<Longrightarrow> n < 65536" for n using y(2) ns by auto
      ultimately show ?thesis using hex_text_plain by auto
    qed
    obtain k len where "longest_run ns = (k, len)" by fastforce
    then have "x = CHR '':'' \<or> x \<in> set (join '':'' (map hex_text ns)) \<or> x \<in> set (join '':'' (map hex_text (take k ns)))
        \<or> x \<in> set (join '':'' (map hex_text (drop (k + len) ns)))"
      using mem by (simp add: compressed_def split: if_splits) blast
    then show ?thesis using part set_take_subset [of k ns] set_drop_subset [of "k + len" ns] by blast
  qed
  have read: "ipv6_number (compressed ns) = Inr ns" using ns by (intro compressed_read) simp_all
  then have ne: "compressed ns \<noteq> []" by (auto simp: ipv6_number_def guard_def)
  have none: "d \<notin> set s \<Longrightarrow> partition_char d s = (s, False, [])" for d s by (induction s) auto
  have "CHR ''%'' \<notin> set (compressed ns)" using plain by fastforce
  then have part: "partition_char CHR ''%'' v = (compressed ns, scoped, if scoped then scope else [])"
    by (simp add: p(5) none partition_char_found)
  have sub: "scoped \<Longrightarrow> c = addr @ CHR ''%'' # scope" using partition_char_cases [OF p(1)] by simp
  then have "CHR ''/'' \<notin> set v" using p(2) plain by (fastforce simp: p(5))
  then show "ipv6_address v = Inr v" using part p(3) read by (simp add: ipv6_address_def p(5))
  show "v \<noteq> []" using ne by (simp add: p(5))
  have ends: "\<not> is_space (hd (compressed ns))" "\<not> is_space (last (compressed ns))"
    using ne plain [of "hd (compressed ns)"] plain [of "last (compressed ns)"] by (auto simp: is_space_code)
  have "trimmed c" using assms(2) trimmed_strip by metis
  then have "scoped \<Longrightarrow> \<not> is_space (last scope)" using sub p(3) by (simp add: trimmed_def)
  then have "trimmed v" using ends ne p(3) by (simp add: trimmed_def p(5))
  then show "strip v = v" by (rule strip_trimmed)
qed

lemma content_fixed:
  assumes "validate_content t c = Inr v" "t \<noteq> ''TXT''"
  shows "validate_content t v = Inr v"
proof -
  define s where "s = strip c"
  note types = assms(1) [unfolded validate_content_def Let_def s_def [symmetric]]
  consider "t = ''A''" | "t = ''AAAA''" | "t = ''CNAME'' \<or> t = ''NS''" | "t = ''MX''" | "t = ''SRV''" | "t = ''CAA''"
    using types assms(2) by (auto split: if_splits)
  then show ?thesis
  proof cases
    case 1
    then obtain ns where "ipv4_address s = Inr ns" "v = s" "s \<noteq> []" using types by (auto split: if_splits sum.splits)
    then show ?thesis using 1 octets_fixed by (simp add: validate_content_def Let_def)
  next
    case 2
    then have a: "ipv6_address s = Inr v" using types by (auto split: if_splits sum.splits)
    have "strip s = s" unfolding s_def by (rule strip_trimmed [OF trimmed_strip])
    from ipv6_fixed [OF a this] show ?thesis using 2 by (simp add: validate_content_def Let_def)
  next
    case 3
    then have h: "validate_hostname s = Inr v" using types by (auto split: if_splits)
    then show ?thesis using 3 host_fixed [OF h] word_strip [OF host_words] by (auto simp: validate_content_def Let_def)
  next
    case 4
    then obtain p h p' h' where w: "words s = [p, h]" "u16 p = Inr p'" "validate_hostname h = Inr h'" "v = p' @ '' '' @ h'"
      using types by (auto simp: bind_res_eq_Inr split: if_splits list.splits)
    note p = u16_fixed [OF w(2)] and h = host_fixed [OF w(3)]
    have "words v = [p', h']" using p h(3) host_words [OF h(2)] by (simp add: w(4) words_Cons words_single)
    moreover have "strip v = v" using p h(3) host_words [OF h(2)] unfolding w(4) by (intro spaced_strip) auto
    ultimately show ?thesis using 4 p h w(4) by (simp add: validate_content_def Let_def guard_def)
  next
    case 5
    then obtain p w q h p' w' q' h' where r: "words s = [p, w, q, h]" "u16 p = Inr p'" "u16 w = Inr w'" "u16 q = Inr q'"
        "validate_hostname h = Inr h'" "v = join '' '' [p', w', q', h']"
      using types by (auto simp: bind_res_eq_Inr split: if_splits list.splits)
    note p = u16_fixed [OF r(2)] u16_fixed [OF r(3)] u16_fixed [OF r(4)] and h = host_fixed [OF r(5)]
    have v: "v = p' @ ('' '' @ w' @ '' '' @ q' @ '' '') @ h'" by (simp add: r(6))
    have "words v = [p', w', q', h']" using p h(3) host_words [OF h(2)] by (simp add: r(6) words_Cons words_single)
    moreover have "strip v = v" using p h(3) host_words [OF h(2)] unfolding v by (intro spaced_strip) auto
    ultimately show ?thesis using 5 p h r(6) by (simp add: validate_content_def Let_def guard_def)
  next
    case 6
    let ?ok = "\<lambda>t. t \<in> set [''issue'', ''issuewild'', ''iodef'']"
    obtain f tag val where k: "caa_parts 3 ?ok s = Some (f, tag, val)" "nat_of_digits f \<le> 255"
        "v = nat_str (nat_of_digits f) @ '' '' @ tag @ '' '' @ quoted val"
      using 6 types by (auto split: if_splits option.splits)
    note parts = caa_parts_Some [OF k(1)]
    have n: "number_word 3 (nat_str (nat_of_digits f))" using k(2) by (intro number_word_nat_str) simp_all
    have "caa_parts 3 ?ok v = Some (nat_str (nat_of_digits f), tag, val)"
      unfolding k(3) using n parts by (intro caa_parts_built) auto
    moreover have "strip v = v"
      using spaced_strip [of "nat_str (nat_of_digits f)" "[CHR 0x22]" "'' '' @ tag @ '' '' @ [CHR 0x22] @ val"] nat_str_word(1,2)
      by (simp add: k(3) quoted_def is_space_code)
    ultimately show ?thesis using 6 k(2,3) by (simp add: validate_content_def Let_def)
  qed
qed

subsection \<open>Record sets\<close>

lemma upper_types: "t \<in> set record_types \<Longrightarrow> upper (strip t) = t"
proof -
  have "list_all (\<lambda>t. upper (strip t) = t) record_types" by code_simp
  then show "t \<in> set record_types \<Longrightarrow> ?thesis" by (auto simp: list_all_iff)
qed

lemma make_rrset_Inr:
  "make_rrset zone name rtype ttl contents = Inr r \<longleftrightarrow>
     rr_type r = upper (strip rtype) \<and> rr_type r \<in> set record_types \<and> normalize_record_name name zone = Inr (rr_name r)
     \<and> rr_ttl r = ttl \<and> 60 \<le> ttl \<and> ttl \<le> 604800 \<and> contents \<noteq> [] \<and> length contents \<le> 16
     \<and> map_res (validate_content (rr_type r)) contents = Inr (rr_records r) \<and> distinct (rr_records r)
     \<and> (rr_type r = ''CNAME'' \<longrightarrow> rr_name r \<noteq> canonical zone \<and> length (rr_records r) \<le> 1)"
  by (cases r) (auto simp: make_rrset_def Let_def bind_res_eq_Inr min_ttl_def max_ttl_def)

lemma map_res_fixed: "map_res f xs = Inr ys \<Longrightarrow> (\<And>x y. f x = Inr y \<Longrightarrow> f y = Inr y) \<Longrightarrow> map_res f ys = Inr ys \<and> length ys = length xs"
  by (induction xs arbitrary: ys) (auto simp: bind_res_eq_Inr)

lemma zone_canonical:
  assumes "validate_zone_name raw = Inr zone"
  shows "canonical zone = zone" "length zone \<le> 254"
proof -
  obtain n where n: "zone = n @ ''.''" "n \<noteq> []" "last n \<noteq> CHR ''.''" "list_all host_char n" "length n \<le> 253"
    using assms unfolding validate_zone_name_def by (rule valid_labels_Inr)
  have "list_all host_char zone" using n(1,4) by (simp add: host_char_def)
  from host_word [OF this] show "canonical zone = zone" using n(1,3) by (simp add: canonical_def rstrip_same)
  show "length zone \<le> 254" using n(1,5) by simp
qed

lemma normalized_in_zone:
  assumes "normalize_record_name name z = Inr f"
  shows "f = canonical z \<or> endswith f (''.'' @ canonical z)"
  using assms by (cases rule: normalize_Inr) (simp_all add: endswith_append [of _ "CHR ''.'' # canonical z"])

text \<open>C20: A record set that is accepted is in its zone, within its bounds and in normal form: given back as it
  is, it is accepted again and does not change.  The exception is text, which is quoted anew every time.\<close>

theorem record_set_normal:
  assumes "validate_zone_name raw = Inr zone" "make_rrset zone name rtype ttl contents = Inr r"
  shows "(rr_name r = zone \<or> endswith (rr_name r) (''.'' @ zone)) \<and> 60 \<le> rr_ttl r \<and> rr_ttl r \<le> 604800
    \<and> 1 \<le> length (rr_records r) \<and> length (rr_records r) \<le> 16 \<and> distinct (rr_records r)
    \<and> \<not> (rr_type r = ''CNAME'' \<and> (rr_name r = zone \<or> length (rr_records r) \<noteq> 1))
    \<and> (rr_type r = ''TXT'' \<or> make_rrset zone (rr_name r) (rr_type r) (rr_ttl r) (rr_records r) = Inr r)"
proof -
  note z = zone_canonical [OF assms(1)]
  note r = assms(2) [unfolded make_rrset_Inr]
  have name: "normalize_record_name (rr_name r) zone = Inr (rr_name r)" using r z by (intro normalize_idem [of name]) simp_all
  have len: "length (rr_records r) = length contents" using r by (auto simp: map_res_Inr list_all2_lengthD)
  have "1 \<le> length contents" using r by (cases contents) auto
  have "make_rrset zone (rr_name r) (rr_type r) (rr_ttl r) (rr_records r) = Inr r" if "rr_type r \<noteq> ''TXT''"
  proof -
    have "map_res (validate_content (rr_type r)) (rr_records r) = Inr (rr_records r)"
      using map_res_fixed [of "validate_content (rr_type r)" contents "rr_records r"] content_fixed that r by blast
    then show ?thesis using r name upper_types [of "rr_type r"] len \<open>1 \<le> length contents\<close> unfolding make_rrset_Inr by auto
  qed
  then show ?thesis using r z(1) len normalized_in_zone [of name zone "rr_name r"] \<open>1 \<le> length contents\<close> by auto
qed

theorem record_set_normal_witness:
  "\<exists>r. make_rrset ''example.com.'' ''Mail'' '' aaaa'' 3600 ['' 0:0:0:0:0:0:A:1 ''] = Inr r \<and> rr_name r = ''mail.example.com.''
     \<and> rr_records r = [''::a:1''] \<and> make_rrset ''example.com.'' (rr_name r) (rr_type r) (rr_ttl r) (rr_records r) = Inr r"
proof -
  define r where "r = \<lparr>rr_name = ''mail.example.com.'', rr_type = ''AAAA'', rr_ttl = 3600, rr_records = [''::a:1'']\<rparr>"
  have z: "validate_zone_name ''example.com'' = Inr ''example.com.''" by code_simp
  have parts: "normalize_record_name ''Mail'' ''example.com.'' = Inr ''mail.example.com.''" "upper (strip '' aaaa'') = ''AAAA''"
      "validate_content ''AAAA'' '' 0:0:0:0:0:0:A:1 '' = Inr ''::a:1''"
    by code_simp+
  have m: "make_rrset ''example.com.'' ''Mail'' '' aaaa'' 3600 ['' 0:0:0:0:0:0:A:1 ''] = Inr r"
    unfolding make_rrset_Inr by (simp add: r_def parts record_types_def)
  from record_set_normal [OF z m] m show ?thesis by (intro exI [of _ r]) (simp add: r_def)
qed

text \<open>Two gaps: the name of the apex with a dot in front is another name, so the guards of the apex let it pass,
  and text with a quote in it changes whenever it is saved as it was read.\<close>

lemma apex_guard_passed:
  "normalize_record_name ''.example.com.'' ''example.com.'' = Inr ''.example.com.''" "''.example.com.'' \<noteq> canonical ''example.com.''"
  by code_simp+

lemma txt_requoted:
  "case validate_content ''TXT'' [CHR ''a'', CHR 0x22, CHR ''b''] of Inl e \<Rightarrow> False
   | Inr v \<Rightarrow> (case validate_content ''TXT'' v of Inl e \<Rightarrow> False | Inr v' \<Rightarrow> v' \<noteq> v)"
  by code_simp

subsection \<open>Whose zone it is\<close>

datatype zone_request =
    ZCreate string bool "int option" | ZGet string | ZDelete string string | ZDelegation string
  | ZUpsert string string string "int option" "string list" | ZDeleteRecord string string string | ZTemplate string string
  | ZPush string bool | ZPull string bool

definition outcome :: "('w dns_state, 'a) act \<Rightarrow> ('w dns_state, unit) act" where
  "outcome m = bind_act m (\<lambda>_. ret_act ())"

fun serve_zone :: "'w dns_env \<Rightarrow> user_row \<Rightarrow> zone_request \<Rightarrow> ('w dns_state, unit) act" where
  "serve_zone en u (ZCreate raw point site) = outcome (create_zone_route en u raw point site)"
| "serve_zone en u (ZGet zid) = outcome (get_zone_route en u zid)"
| "serve_zone en u (ZDelete zid confirm) = delete_zone_route en u zid confirm"
| "serve_zone en u (ZDelegation zid) = outcome (zone_delegation en u zid)"
| "serve_zone en u (ZUpsert zid name rtype ttl contents) = upsert_record en u zid name rtype ttl contents"
| "serve_zone en u (ZDeleteRecord zid name rtype) = delete_record_route en u zid name rtype"
| "serve_zone en u (ZTemplate zid template) = apply_template en u zid template"
| "serve_zone en u (ZPush zid own) = outcome (push_to_cloudflare en u zid own)"
| "serve_zone en u (ZPull zid own) = outcome (pull_from_cloudflare en u zid own)"

fun serve_zones :: "'w dns_env \<Rightarrow> (user_row \<times> zone_request) list \<Rightarrow> 'w dns_state \<Rightarrow> 'w dns_state" where
  "serve_zones en [] st = st"
| "serve_zones en ((u, rq) # rqs) st = serve_zones en rqs (snd (serve_zone en u rq st))"

text \<open>\<open>Q\<close> is a property of the network that only requests about the zone \<open>z\<close> can break; PowerDNS answers the
  creation of a zone with the id of that zone.\<close>

definition about :: "string \<Rightarrow> string \<Rightarrow> bool" where
  "about z path \<longleftrightarrow> startswith path ''/zones/'' \<and> canonical (removeprefix path ''/zones/'') = z"

definition spares :: "string \<Rightarrow> ('w \<Rightarrow> bool) \<Rightarrow> 'w dns_env \<Rightarrow> bool" where
  "spares z Q en \<longleftrightarrow>
     (\<forall>v p b. \<not> about z p \<longrightarrow> keeps Q (de_pdns en v p b)) \<and> (\<forall>t v p q b. keeps Q (de_cloud en t v p q b)) \<and> (\<forall>n t. keeps Q (de_doh en n t))"

definition truthful :: "'w dns_env \<Rightarrow> bool" where
  "truthful en \<longleftrightarrow> (\<forall>name ns w created w' zid. create_zone (de_pdns en) name ns w = (Inr created, w') \<longrightarrow>
     zone_id_of created name = Inr zid \<longrightarrow> canonical zid = canonical name)"

lemma keeps_pdns: "spares z Q en \<Longrightarrow> \<not> about z p \<Longrightarrow> keeps Q (pdns_request (de_pdns en) v p b)"
proof (unfold keeps_def, intro allI impI)
  fix w assume a: "spares z Q en" "\<not> about z p" "Q w"
  then have "Q (snd (de_pdns en v p b w))" by (auto simp: spares_def keeps_def)
  then show "Q (snd (pdns_request (de_pdns en) v p b w))" by (auto simp: pdns_request_def split: prod.splits sum.splits exn.splits)
qed

lemma about_zone: "about z (''/zones/'' @ zid) \<longleftrightarrow> canonical zid = z"
  by (simp add: about_def removeprefix_def startswith_def)

lemma keeps_client:
  assumes "spares z Q en"
  shows "keeps Q (list_zones (de_pdns en))" "keeps Q (create_zone (de_pdns en) name ns)"
    "canonical zid \<noteq> z \<Longrightarrow> keeps Q (get_zone (de_pdns en) zid)"
    "canonical zid \<noteq> z \<Longrightarrow> keeps Q (delete_zone (de_pdns en) zid)"
    "canonical zid \<noteq> z \<Longrightarrow> keeps Q (patch_rrsets (de_pdns en) zid ps)"
proof -
  have "\<not> about z ''/zones''" by (simp add: about_def startswith_def)
  then show "keeps Q (list_zones (de_pdns en))" "keeps Q (create_zone (de_pdns en) name ns)"
    using keeps_pdns [OF assms] by (auto simp: list_zones_def create_zone_def intro!: keeps_bind keeps_if)
  assume "canonical zid \<noteq> z"
  then have "keeps Q (pdns_request (de_pdns en) v (''/zones/'' @ zid) b)" for v b
    using keeps_pdns [OF assms, of "''/zones/'' @ zid"] unfolding about_zone by blast
  then show "keeps Q (get_zone (de_pdns en) zid)" "keeps Q (delete_zone (de_pdns en) zid)" "keeps Q (patch_rrsets (de_pdns en) zid ps)"
    by (auto simp: get_zone_def delete_zone_def patch_rrsets_def intro!: keeps_bind keeps_if)
qed

lemma keeps_cloud:
  assumes "spares z Q en"
  shows "keeps Q (cloud_request (de_cloud en t) v p q b)"
proof (unfold keeps_def, intro allI impI)
  fix w assume "Q w"
  then have "Q (snd (de_cloud en t v p q b w))" using assms by (auto simp: spares_def keeps_def)
  then show "Q (snd (cloud_request (de_cloud en t) v p q b w))" by (auto simp: cloud_request_def split: prod.splits sum.splits)
qed

lemma keeps_all_pages: "spares z Q en \<Longrightarrow> keeps Q (all_pages (de_cloud en t) path n page k)"
  by (induction k arbitrary: page) (auto intro!: keeps_bind keeps_if keeps_cloud)

lemma keeps_push:
  assumes "spares z Q en"
  shows "keeps Q (find_zone (de_cloud en t) name)" "keeps Q (list_records (de_cloud en t) zid)" "keeps Q (push_zone (de_cloud en t) zn rs)"
proof -
  show f: "keeps Q (find_zone (de_cloud en t) name)" for name
    by (auto simp: find_zone_def intro!: keeps_bind keeps_cloud [OF assms])
  show l: "keeps Q (list_records (de_cloud en t) zid)" for zid
    unfolding list_records_def by (rule keeps_all_pages [OF assms])
  have wrap: "keeps Q m \<Longrightarrow> keeps Q (\<lambda>w. case m w of (Inl e, w') \<Rightarrow> (f e, w') | r \<Rightarrow> r)" for m :: "('a, push_result) act" and f
    by (fastforce simp: keeps_def split: prod.splits sum.splits)
  have one: "keeps Q (push_record (de_cloud en t) zid ds ex d r)" for zid ds ex d r
    unfolding push_record_def Let_def create_record_def update_record_def
    by (intro keeps_bind keeps_if wrap keeps_simple keeps_cloud [OF assms]) 
  have "keeps Q (push_each (de_cloud en t) zid ds ex es r)" for zid ds ex es r
    by (induction es arbitrary: r) (auto intro!: keeps_bind one)
  then show "keeps Q (push_zone (de_cloud en t) zn rs)"
    using f l by (auto simp: push_zone_def Let_def case_prod_beta intro!: keeps_bind split: option.splits)
qed

definition guarded :: "string \<Rightarrow> int \<Rightarrow> ('w \<Rightarrow> bool) \<Rightarrow> 'w dns_state \<Rightarrow> bool" where
  "guarded z i Q st \<longleftrightarrow> (z, Some i) \<in> set (dn_owners st) \<and> distinct (map fst (dn_owners st)) \<and> Q (dn_net st)"

lemma keeps_on_net [intro]: "keeps Q m \<Longrightarrow> keeps (guarded z i Q) (on_net m)"
  by (auto simp: keeps_def guarded_def on_net_def split: prod.splits)

lemma keeps_pdns_client: "keeps P (f (de_pdns en)) \<Longrightarrow> keeps P (bind_act (pdns_client en) f)"
  by (auto simp: keeps_def bind_act_def pdns_client_def lift_res_def split: sum.splits)

lemma keeps_cf_client: "(\<And>t. keeps P (f (de_cloud en t))) \<Longrightarrow> keeps P (bind_act (zone_cf_client en u zone own) f)"
  by (auto simp: keeps_def bind_act_def zone_cf_client_def Let_def split: sum.splits option.splits prod.splits)

lemma keeps_access:
  assumes "\<not> is_admin u" "us_id u \<noteq> i" "canonical zid \<noteq> z \<Longrightarrow> keeps (guarded z i Q) (f (canonical zid))"
  shows "keeps (guarded z i Q) (bind_act (require_zone_access u zid) f)"
proof (unfold keeps_def, intro allI impI)
  fix st assume g: "guarded z i Q st"
  show "guarded z i Q (snd (bind_act (require_zone_access u zid) f st))"
  proof (cases "(canonical zid, Some (us_id u)) \<in> set (dn_owners st)")
    case True
    then have "canonical zid \<noteq> z" using g assms(2) by (auto simp: guarded_def dest: eq_key_imp_eq_value)
    then show ?thesis using assms(3) g by (auto simp: bind_act_def require_zone_access_def keeps_def Let_def assms(1))
  qed (use g assms(1) in \<open>simp add: bind_act_def require_zone_access_def Let_def\<close>)
qed

lemma keeps_outcome [intro]: "keeps P m \<Longrightarrow> keeps P (outcome m)"
  unfolding outcome_def by (intro keeps_bind keeps_simple)

lemma keeps_doh: "spares z Q en \<Longrightarrow> keeps Q (doh_query (de_doh en) n t)"
  unfolding doh_query_def by (intro keeps_bind) (auto simp: spares_def split: option.splits json.splits)

lemma keeps_any_points: "spares z Q en \<Longrightarrow> keeps (guarded z i Q) (any_points en ns)"
  by (induction ns) (auto intro!: keeps_bind keeps_if keeps_doh)

lemma keeps_option: "keeps P m \<Longrightarrow> (\<And>x. keeps P (f x)) \<Longrightarrow> keeps P (case y of None \<Rightarrow> m | Some x \<Rightarrow> f x)"
  by (cases y) simp_all

lemma keeps_add_owner:
  assumes "y \<noteq> z \<Longrightarrow> keeps (guarded z i Q) m"
  shows "keeps (guarded z i Q) (bind_act (add_owner y owner) (\<lambda>_. m))"
proof (unfold keeps_def, intro allI impI)
  fix st assume g: "guarded z i Q st"
  show "guarded z i Q (snd (bind_act (add_owner y owner) (\<lambda>_. m) st))"
  proof (cases "map_of (dn_owners st) y")
    case None
    let ?st = "st\<lparr>dn_owners := dn_owners st @ [(y, Some owner)]\<rparr>"
    have "y \<notin> fst ` set (dn_owners st)" using None by (simp add: map_of_eq_None_iff)
    then have "y \<noteq> z" "guarded z i Q ?st" using g by (force simp: guarded_def)+
    then show ?thesis using assms None by (simp add: bind_act_def add_owner_def keeps_def)
  qed (use g in \<open>simp add: bind_act_def add_owner_def\<close>)
qed

lemma keeps_bind_answer:
  assumes "keeps P m" "\<And>st st' x. m st = (Inr x, st') \<Longrightarrow> keeps P (f x)"
  shows "keeps P (bind_act m f)"
proof (unfold keeps_def, intro allI impI)
  fix st assume p: "P st"
  obtain r st' where m: "m st = (r, st')" by fastforce
  then have "P st'" using assms(1) p keepsD by metis
  then show "P (snd (bind_act m f st))" using m assms(2) by (cases r) (auto simp: bind_act_def keeps_def)
qed

lemma create_spares:
  assumes "spares z Q en" "truthful en"
  shows "keeps (guarded z i Q) (create_zone_route en u raw point site)"
proof -
  have "keeps (guarded z i Q) (bind_act (lift_res (zone_id_of created name)) (\<lambda>zid.
      bind_act (add_owner (canonical name) owner) (\<lambda>_.
      bind_act (if point then bind_act (lift_res (point_to_server_patches en name)) (\<lambda>ps. on_net (patch_rrsets (de_pdns en) zid ps)) else ret_act ()) (\<lambda>_.
      bind_act (on_net (get_zone (de_pdns en) zid)) (\<lambda>raw. lift_res (zone_detail_of raw))))))"
    if made: "on_net (create_zone (de_pdns en) name ns) st = (Inr created, st')" for created name ns st st' owner
  proof (rule keeps_bind_answer [OF keeps_simple(3)])
    fix zid and w w' :: "'a dns_state" assume "lift_res (zone_id_of created name) w = (Inr zid, w')"
    then have "zone_id_of created name = Inr zid" by (simp add: lift_res_def)
    moreover obtain v where "create_zone (de_pdns en) name ns (dn_net st) = (Inr created, v)"
      using made by (auto simp: on_net_def split: prod.splits)
    ultimately have zid: "canonical zid = canonical name" using assms(2) unfolding truthful_def by blast
    show "keeps (guarded z i Q) (bind_act (add_owner (canonical name) owner) (\<lambda>_.
        bind_act (if point then bind_act (lift_res (point_to_server_patches en name)) (\<lambda>ps. on_net (patch_rrsets (de_pdns en) zid ps)) else ret_act ()) (\<lambda>_.
        bind_act (on_net (get_zone (de_pdns en) zid)) (\<lambda>raw. lift_res (zone_detail_of raw)))))"
    proof (rule keeps_add_owner)
      assume "canonical name \<noteq> z"
      then have "keeps Q (get_zone (de_pdns en) zid)" "keeps Q (patch_rrsets (de_pdns en) zid ps)" for ps
        using keeps_client(3,5) [OF assms(1)] zid by auto
      then show "keeps (guarded z i Q) (bind_act (if point then bind_act (lift_res (point_to_server_patches en name))
          (\<lambda>ps. on_net (patch_rrsets (de_pdns en) zid ps)) else ret_act ()) (\<lambda>_.
          bind_act (on_net (get_zone (de_pdns en) zid)) (\<lambda>raw. lift_res (zone_detail_of raw))))"
        by (intro keeps_bind keeps_if keeps_on_net keeps_simple)
    qed
  qed
  note answered = keeps_bind_answer [OF keeps_on_net [OF keeps_client(2) [OF assms(1)]] this]
  show ?thesis
    unfolding create_zone_route_def
    by ((rule keeps_bind, rule keeps_simple(3))+, rule keeps_pdns_client, rule answered)
qed

lemma zone_step:
  assumes "\<not> is_admin u" "us_id u \<noteq> i" "spares z Q en" "truthful en"
  shows "keeps (guarded z i Q) (serve_zone en u rq)"
proof (cases rq)
  case (ZCreate raw point site)
  then show ?thesis using create_spares [OF assms(3,4)] by auto
next
  case (ZGet zid)
  then show ?thesis
    by (auto simp: get_zone_route_def intro!: keeps_access [OF assms(1,2)] keeps_pdns_client keeps_bind keeps_client(3) [OF assms(3)])
next
  case (ZDelete zid confirm)
  have "keeps (guarded z i Q) (\<lambda>st. (Inr (), st\<lparr>dn_owners := filter (\<lambda>(y, owner). y \<noteq> y') (dn_owners st)\<rparr>))" if "y' \<noteq> z" for y'
    using that by (auto simp: keeps_def guarded_def distinct_map_filter)
  then show ?thesis using ZDelete
    by (auto simp: delete_zone_route_def intro!: keeps_access [OF assms(1,2)] keeps_pdns_client keeps_bind keeps_client(4) [OF assms(3)])
next
  case (ZDelegation zid)
  then show ?thesis
    by (auto simp: zone_delegation_def intro!: keeps_access [OF assms(1,2)] keeps_bind keeps_if keeps_doh [OF assms(3)] keeps_any_points [OF assms(3)])
next
  case (ZUpsert zid name rtype ttl contents)
  then show ?thesis
    by (auto simp: upsert_record_def intro!: keeps_access [OF assms(1,2)] keeps_pdns_client keeps_bind keeps_client(5) [OF assms(3)])
next
  case (ZDeleteRecord zid name rtype)
  then show ?thesis
    by (auto simp: delete_record_route_def intro!: keeps_access [OF assms(1,2)] keeps_pdns_client keeps_bind keeps_client(5) [OF assms(3)])
next
  case (ZTemplate zid template)
  then show ?thesis
    by (auto simp: apply_template_def intro!: keeps_access [OF assms(1,2)] keeps_pdns_client keeps_bind keeps_client(5) [OF assms(3)])
next
  case (ZPush zid own)
  then show ?thesis
    by (auto simp: push_to_cloudflare_def intro!: keeps_access [OF assms(1,2)] keeps_pdns_client keeps_cf_client keeps_bind keeps_client(3) [OF assms(3)]
        keeps_push [OF assms(3)])
next
  case (ZPull zid own)
  then show ?thesis
    unfolding ZPull serve_zone.simps pull_from_cloudflare_def Let_def case_prod_beta
    by (intro keeps_outcome keeps_access [OF assms(1,2)] keeps_pdns_client keeps_cf_client keeps_bind keeps_if keeps_option keeps_simple keeps_on_net
        keeps_client(3,5) [OF assms(3)] keeps_push [OF assms(3)]) simp_all
qed

text \<open>C19: Clients cannot reach each other's zones.  Whatever requests other clients make, in whatever order, a zone
  stays with its owner, and nothing happens to it: every property of the name server that only a request
  about this zone can break is kept.\<close>

theorem zones_isolated:
  assumes "(z, Some i) \<in> set (dn_owners st)" "distinct (map fst (dn_owners st))" "Q (dn_net st)" "spares z Q en" "truthful en"
    and "\<forall>(u, rq) \<in> set rqs. \<not> is_admin u \<and> us_id u \<noteq> i"
  shows "(z, Some i) \<in> set (dn_owners (serve_zones en rqs st)) \<and> Q (dn_net (serve_zones en rqs st))"
proof -
  have "guarded z i Q st \<Longrightarrow> \<forall>(u, rq) \<in> set rqs. \<not> is_admin u \<and> us_id u \<noteq> i \<Longrightarrow> guarded z i Q (serve_zones en rqs st)"
  proof (induction rqs arbitrary: st)
    case (Cons urq rqs)
    obtain u rq where urq: "urq = (u, rq)" by fastforce
    then have "guarded z i Q (snd (serve_zone en u rq st))"
      using zone_step [OF _ _ assms(4,5), of u i rq] Cons.prems by (simp add: keeps_def)
    then show ?case using Cons.IH Cons.prems(2) by (simp add: urq)
  qed simp
  then show ?thesis using assms(1,2,3,6) by (simp add: guarded_def)
qed

text \<open>A name server that only keeps a record of the requests.\<close>

definition recorder :: "(string \<times> string) list pdns" where
  "recorder v p b log = (Inr \<lparr>hr_status = 200, hr_text = [], hr_json = Inr (JObj [])\<rparr>, log @ [(v, p)])"

definition record_env :: "(string \<times> string) list dns_env" where
  "record_env = \<lparr>de_pdns = recorder, de_cloud = (\<lambda>t v p q b. raise_act HTTPError), de_doh = (\<lambda>n t. ret_act None), de_enabled = True,
     de_public_ip = [], de_ttl = 3600, de_nameservers = [], de_env_token = [], de_seal = id, de_open = Inr, de_users = [], de_sites = []\<rparr>"

definition client :: "int \<Rightarrow> user_row" where
  "client i = \<lparr>us_id = i, us_username = ''client'', us_password = [], us_role = ''client'', us_must_change = False, us_suspended = False,
     us_limits = unlimited, us_plan = None, us_totp_secret = None, us_totp_enabled = False, us_password_changed = 0, us_version = 0\<rparr>"

definition two_zones :: "(string \<times> string) list dns_state" where
  "two_zones = \<lparr>dn_owners = [(''shop.example.'', Some 7), (''blog.example.'', Some 8)], dn_tokens = [], dn_net = []\<rparr>"

lemma recorder_facts:
  "spares z (list_all (\<lambda>(v, p). \<not> about z p)) record_env" "truthful record_env"
  by (auto simp: spares_def truthful_def keeps_def record_env_def recorder_def raise_act_def ret_act_def create_zone_def pdns_request_def
      bind_act_def lift_res_def zone_id_of_def)

theorem zones_isolated_witness:
  "let st = serve_zones record_env [(client 8, ZDelete ''SHOP.example'' ''shop.example''), (client 8, ZCreate ''shop.example'' False None),
       (client 8, ZGet ''blog.example'')] two_zones
   in (''shop.example.'', Some 7) \<in> set (dn_owners st) \<and> list_all (\<lambda>(v, p). \<not> about ''shop.example.'' p) (dn_net st)"
proof -
  have "\<not> is_admin (client 8)" "us_id (client 8) \<noteq> 7" by (simp_all add: client_def is_admin_def)
  then show ?thesis
    unfolding Let_def
    by (intro zones_isolated [OF _ _ _ recorder_facts]) (simp_all add: two_zones_def)
qed

end
