(* ===== verification/Spec2Isabelle.thy ===== *)
theory Spec2Isabelle
  imports Refinement SessionExamples RouteExamples BlueprintFacts WordPressFacts CommandFacts DnsFacts
begin

text \<open>
  \<^bold>\<open>Verification of the Hosty hosting panel\<close>, the FastAPI program under \<open>src/backend/app\<close>.

  The panel keeps the wanted state of its clients' container stacks in a database and drives hosts
  towards it.  A request changes rows; the reconciler loads the rows as specs, observes the hosts,
  plans actions and has the executor carry them out; the web server is configured from the same
  specs.  The theories follow that flow.

  \<^bold>\<open>Vocabulary\<close>
  \<^item> \<open>Prelude\<close>: exceptions as values (\<open>exn + 'a\<close>), actions that thread a state through exceptions
    (\<open>bind_act\<close>), dictionaries as finite maps, \<open>sorted\<close> by code point.  \<open>PyString\<close>: the string methods
    the code uses.  \<open>Regex\<close>: regular expressions as syntax with a matcher.  \<open>Digest\<close>: canonical JSON and
    SHA-256, computed.

  \<^bold>\<open>Specs and plans\<close>
  \<^item> \<open>Validate\<close>: the grammar of \<open>domain/validate.py\<close>, each pattern proved to mean its characters and length.
  \<^item> \<open>Specs\<close>: the frozen dataclasses of \<open>domain/specs.py\<close> as records; \<open>__post_init__\<close> is \<open>*_post_init\<close>, and
    constructing succeeds exactly on well-formed values.
  \<^item> \<open>Planner\<close>: \<open>domain/planner.py\<close> and the actions.  \<open>HostModel\<close>: the host of the planner tests, the reference
    semantics of every action.  \<open>Convergence\<close>: a plan run on that host converges, a converged host has
    the empty plan, and what a crash between two actions loses.

  \<^bold>\<open>The control loop\<close>
  \<^item> \<open>Operations\<close>, \<open>Notifications\<close>: the records the user interface polls.
  \<^item> \<open>Reconciler\<close>: \<open>_apply_inner\<close> with its time limit, batching, recorded steps and error paths, as a
    function of the state \<open>rstate\<close>; \<open>Cycle\<close>: a whole cycle over all stacks, the queue, the reaper of stale
    operations and drift, with the locale \<open>executing\<close> for what a cycle needs of an executor.
  \<^item> \<open>Executor\<close>: \<open>orchestration/executor.py\<close> over a host interface given by a record of operations, with the
    retries of a control call and the zero-downtime rollout.  \<open>Refinement\<close> runs it on a host that stores
    rendered files, proves that every action refines the reference host, interprets \<open>executing\<close> by it
    and concludes that the whole loop converges.
  \<^item> \<open>Observer\<close>: \<open>orchestration/observer.py\<close>; observing what was written gives back the projection of the spec.

  \<^bold>\<open>Hosts\<close>
  \<^item> \<open>Tenants\<close>: \<open>system/tenants.py\<close> and the ledger of \<open>services/tenancy.py\<close>; ranges of ids stay disjoint and
    every privileged command names a tenant of the panel.
  \<^item> \<open>Quadlet\<close>: the unit and env files of \<open>system/quadlet.py\<close> and \<open>git_sync.py\<close>, line by line, and the markers
    read back.  \<open>Stackhost\<close>: directories as finite maps; synchronising one writes exactly what is wanted.

  \<^bold>\<open>Database and web server\<close>
  \<^item> \<open>Stacks\<close>: the rows of \<open>db/models.py\<close> and \<open>services/stacks.py\<close>, rows to specs and back; \<open>Loading\<close>: which
    stacks are loaded, what a bad row does, and the round trip of persisting and loading.
  \<^item> \<open>Caddy\<close>: the configuration of \<open>services/caddy.py\<close> as JSON and the client of the admin interface, over a
    parameter for one HTTP request; applying is a transaction.

  \<^bold>\<open>Credentials\<close>
  \<^item> \<open>Tokens\<close>: tickets, one-time codes and the rate limiter of \<open>core\<close>.  A ticket or code is accepted exactly
    when it should be, and the limiter refines one that remembers everything.
  \<^item> \<open>Access\<close>: \<open>api/deps.py\<close>, \<open>core/security.py\<close>, quotas and ports.  \<open>Sessions\<close>: \<open>routes/auth.py\<close> and the parts
    of \<open>routes/users.py\<close> about credentials, each handler a function from state to result and state.
    \<open>SessionFacts\<close>: the handlers as steps of a state machine, with overlapping refreshes, and the
    invariant of rotation.  \<open>Lockout\<close>: what password changes, suspension, the second factor and the rate
    limit guarantee.  \<open>SessionExamples\<close>: concrete sign-ins.

  \<^bold>\<open>The routes of stacks\<close>
  \<^item> \<open>StackRoutes\<close>: \<open>routes/stacks.py\<close>.  The record \<open>panel\<close> is what the handlers read and write: the rows, the
    operations, the reconciler's queue and the domains of sites and apps.  A handler is a function from the
    panel to a result and a panel; \<open>transact\<close> is the database transaction, undone by an exception;
    \<open>flush_endpoints\<close> writes the new endpoints before it deletes the old ones, as the session does.
  \<^item> \<open>StackRouteFacts\<close>: sequences of requests (\<open>serve_all\<close>) and the locale \<open>panel_invariant\<close>, the contract between
    a property of the panel and the writes of the handlers.  Interpreted for the isolation of tenants, for
    domains, for quotas and for operations.
  \<^item> \<open>RouteBehaviour\<close>: what single handlers do to the stack that the reconciler loads afterwards, with
    \<open>Loading\<close> and \<open>Planner\<close>: edits of the environment, changes of domain, pushes, the log stream.
    \<open>RouteExamples\<close>: concrete requests.
  \<^item> Of this file, the catalogue of blueprints, the analysis of a repository, the list of images and the
    listing of deployments are not modelled.  The handlers of actions, the journal and the host are
    parameters, and the JSON body of a push is the argument \<open>rq_json\<close>.

  \<^bold>\<open>Blueprints and commands\<close>
  \<^item> \<open>Templates\<close>: the expansion of variables and the word splitting of \<open>orchestration/blueprints/compose.py\<close>.
    \<open>Blueprints\<close>: \<open>raw_image.py\<close>, \<open>compose.py\<close> and \<open>git.py\<close>, each a function from inputs and an allocation to a
    stack spec or an error; pydantic and YAML are the parameters of the record \<open>templating\<close>.
    \<open>WordPress\<close>: \<open>wordpress.py\<close> with its actions and backup hooks.  \<open>Registry\<close>: the blueprints as the routes see
    them, and how the built-in ones and the templates are registered.
  \<^item> \<open>RenderFacts\<close>: whatever registered blueprint renders is a draft that the routes complete, so that a stack
    just created is loaded by the reconciler as it was rendered.  \<open>BlueprintFacts\<close> and \<open>WordPressFacts\<close>: what
    each blueprint renders, and what of it is left after it was stored and loaded.
  \<^item> \<open>Images\<close>: the image locks of \<open>services/stack_images.py\<close>, over a parameter for the registry; \<open>ImageFacts\<close>: a
    lock names the image it was asked for, by digest, and the automatic update touches nothing but locks.
  \<^item> \<open>Commands\<close>: the argument vectors of \<open>system/runner.py\<close>, \<open>podman.py\<close>, \<open>systemd.py\<close> and \<open>systemd_user.py\<close>, with the
    errors and the parsers; \<open>CommandFacts\<close>: which units can be controlled and what a command is given.

  \<^bold>\<open>Domain names\<close>
  \<^item> \<open>Dns\<close>: the grammar of names and record values, record sets and the client of PowerDNS, \<open>services/dns.py\<close>; IPv4
    and IPv6 addresses are read and printed as the library of Python does.  \<open>Cloudflare\<close>: the mapping of record
    sets to Cloudflare and back, the client and the push, \<open>services/cloudflare.py\<close>.  \<open>DnsRoutes\<close>: \<open>routes/dns.py\<close> and
    \<open>services/cloudflare_config.py\<close>, handlers over the table of owners, the tokens and a network; PowerDNS and
    Cloudflare are functions from a request and the network to an answer.
  \<^item> \<open>DnsFacts\<close>: record sets are normal forms, and clients cannot reach each other's zones.

  \<^bold>\<open>Bounds and fuel.\<close>  Recursion is structural almost everywhere.  The functions with fuel are given the length
  of what they consume (\<open>chunks\<close>, the regular expressions' repetition), or a number of rounds that the
  reconciler's loop cannot exceed because every round consumes an action, as \<open>Reconciler\<close> proves.
  Python integers are \<open>int\<close>, the words of the digests are 32-bit words.  A character is a code point up to
  U+00FF.

  \<^bold>\<open>Parameters.\<close>  Encryption at rest, PyJWT, Argon2, the HTTP interface of the web server and the host are records
  of functions; where a property needs something of them it is a hypothesis on the one value involved,
  and a witness discharges it.

  \<^bold>\<open>Not modelled.\<close>  The asyncio workers beyond the order of their steps; sites and apps of version 1, certificates, backups, databases and file
  managers (pipelines of host commands and clients of external services); the remaining routes, which
  create, read, update and delete single rows; the web interface.
\<close>

end
